(* ===== verification/Prelude.thy ===== *)
theory Prelude
  imports Main "HOL-Library.Char_ord" "HOL-Library.List_Lexorder"
begin

text \<open>
  Shared vocabulary of the Live OS development.

  \<^item> Service functions either raise or return. A run is a value of type \<open>'a result\<close>: \<open>Inl e\<close> is
    the exception, \<open>Inr x\<close> the return value. Every service that writes is wrapped in a database
    transaction (\<^verbatim>\<open>core/db.py: atomic_for_model\<close>, \<^verbatim>\<open>transaction.atomic\<close>), so a raised exception
    leaves the stored state as it was: an operation \<open>op args db = Inl e\<close> carries no new state.
  \<^item> A Python \<^verbatim>\<open>str\<close> is a \<^typ>\<open>string\<close>: one \<^typ>\<open>char\<close> per code point (the Latin-1 range, which
    is what Isabelle's \<^typ>\<open>char\<close> holds). Chinese literals of the source are written in English.
  \<^item> A database table is the list of its rows in insertion order. \<open>find_row\<close> is
    \<^verbatim>\<open>QuerySet.filter(...).first()\<close>; where the filtered column is unique the result does not
    depend on the row order (\<open>find_row_unique\<close>).
  \<^item> \<open>run_ops\<close> runs a history of service calls in which a raising call changes nothing, and the
    locales \<open>state_service\<close> and \<open>guarded_service\<close> lift per-call facts to every history.
\<close>

named_theorems row_dests \<open>what a successful lookup of a row returns\<close>
named_theorems catalog_defs \<open>constants of the role and permission catalogs\<close>

datatype error =
    DomainError string
  | ValueError string
  | TypeError string
  | IntegrityError
  | DoesNotExist string
  | NameError string
  | AttributeError string
  | KeyError string
  | MultipleObjectsReturned
  | TransactionManagementError
  | ValidationError string
  | LibraryError string

type_synonym 'a result = "error + 'a"

text \<open>An instant is a number of seconds.\<close>

type_synonym time = int

subsection \<open>Sequencing calls that may raise\<close>

fun and_then :: "'a result \<Rightarrow> ('a \<Rightarrow> 'b result) \<Rightarrow> 'b result" where
  "and_then (Inl e) f = Inl e"
| "and_then (Inr x) f = f x"

lemma and_then_Inr_conv [simp]:
  "and_then r f = Inr y \<longleftrightarrow> (\<exists>x. r = Inr x \<and> f x = Inr y)"
  by (cases r) auto

lemma and_then_Inl_conv:
  "and_then r f = Inl e \<longleftrightarrow> r = Inl e \<or> (\<exists>x. r = Inr x \<and> f x = Inl e)"
  by (cases r) auto

lemma and_then_assoc: "and_then (and_then r f) g = and_then r (\<lambda>x. and_then (f x) g)"
  by (cases r) auto

lemma if_Inl_eq_Inr [simp]:
  "(if b then Inl e else r) = Inr y \<longleftrightarrow> \<not> b \<and> r = Inr y"
  by auto

text \<open>A comprehension and an early-returning loop whose body may raise.\<close>

fun map_result :: "('a \<Rightarrow> 'b result) \<Rightarrow> 'a list \<Rightarrow> 'b list result" where
  "map_result f [] = Inr []"
| "map_result f (x # xs) = and_then (f x) (\<lambda>y. and_then (map_result f xs) (\<lambda>ys. Inr (y # ys)))"

fun any_result :: "('a \<Rightarrow> bool result) \<Rightarrow> 'a list \<Rightarrow> bool result" where
  "any_result f [] = Inr False"
| "any_result f (x # xs) = and_then (f x) (\<lambda>b. if b then Inr True else any_result f xs)"

lemma map_result_Inr: "(\<And>x. x \<in> set xs \<Longrightarrow> f x = Inr (g x)) \<Longrightarrow> map_result f xs = Inr (map g xs)"
  by (induction xs) auto

lemma any_result_True: "any_result f xs = Inr True \<Longrightarrow> \<exists>x \<in> set xs. f x = Inr True"
  by (induction xs) (auto split: if_splits)

lemma any_result_pure: "(\<And>x. x \<in> set xs \<Longrightarrow> f x = Inr (g x)) \<Longrightarrow> any_result f xs = Inr (list_ex g xs)"
  by (induction xs) auto

subsection \<open>Rows of a table\<close>

definition find_row :: "('r \<Rightarrow> bool) \<Rightarrow> 'r list \<Rightarrow> 'r option" where
  "find_row P rows = List.find P rows"

definition exists_row :: "('r \<Rightarrow> bool) \<Rightarrow> 'r list \<Rightarrow> bool" where
  "exists_row P rows = list_ex P rows"

text \<open>\<^verbatim>\<open>row.save(update_fields=...)\<close>: every row with the given key is replaced.\<close>

definition update_rows :: "('r \<Rightarrow> bool) \<Rightarrow> ('r \<Rightarrow> 'r) \<Rightarrow> 'r list \<Rightarrow> 'r list" where
  "update_rows P f rows = map (\<lambda>r. if P r then f r else r) rows"

text \<open>\<^verbatim>\<open>objects.get(...)\<close> as \<^verbatim>\<open>get_or_create\<close> uses it: at most one row may match.\<close>

definition get_unique :: "('r \<Rightarrow> bool) \<Rightarrow> 'r list \<Rightarrow> 'r option result" where
  "get_unique P rows = (case filter P rows of [] \<Rightarrow> Inr None | [r] \<Rightarrow> Inr (Some r)
     | _ \<Rightarrow> Inl MultipleObjectsReturned)"

text \<open>The identifier a table's sequence draws for a new row, where rows are never deleted.\<close>

definition next_pk :: "('r \<Rightarrow> int) \<Rightarrow> 'r list \<Rightarrow> int" where
  "next_pk key rows = foldr (\<lambda>r n. max (key r) n) rows 0 + 1"

lemma next_pk_fresh: "r \<in> set rows \<Longrightarrow> key r < next_pk key rows"
proof -
  have "r \<in> set rows \<Longrightarrow> key r \<le> foldr (\<lambda>r n. max (key r) n) rows 0"
    by (induction rows) auto
  then show "r \<in> set rows \<Longrightarrow> key r < next_pk key rows" by (simp add: next_pk_def)
qed

text \<open>\<^verbatim>\<open>f"{prefix}-{uuid4().hex[:12]}"\<close>, with the drawn hexadecimal text as an argument.\<close>

definition new_id :: "string \<Rightarrow> string \<Rightarrow> string" where
  "new_id prefix uid = prefix @ ''-'' @ uid"

lemma get_unique_SomeD: "get_unique P rows = Inr (Some r) \<Longrightarrow> r \<in> set rows \<and> P r"
proof -
  assume "get_unique P rows = Inr (Some r)"
  then have "filter P rows = [r]"
    by (simp add: get_unique_def split: list.splits)
  then have "r \<in> set (filter P rows)" by simp
  then show ?thesis by (simp only: set_filter mem_Collect_eq)
qed

lemma get_unique_NoneD: "get_unique P rows = Inr None \<Longrightarrow> r \<in> set rows \<Longrightarrow> \<not> P r"
  by (auto simp: get_unique_def filter_empty_conv split: list.splits)

lemma find_row_Nil [simp]: "find_row P [] = None"
  by (simp add: find_row_def)

lemma find_row_Cons [simp]: "find_row P (r # rs) = (if P r then Some r else find_row P rs)"
  by (simp add: find_row_def)

lemma find_row_Some_iff:
  "find_row P rows = Some r \<Longrightarrow> r \<in> set rows \<and> P r"
  by (induction rows) (auto split: if_splits)

lemma find_row_None_iff: "find_row P rows = None \<longleftrightarrow> (\<forall>r \<in> set rows. \<not> P r)"
  by (induction rows) auto

lemma find_row_append:
  "find_row P (xs @ ys) = (case find_row P xs of None \<Rightarrow> find_row P ys | Some r \<Rightarrow> Some r)"
  by (induction xs) auto

lemma find_row_appendI [simp]:
  "find_row P xs = Some r \<Longrightarrow> find_row P (xs @ ys) = Some r"
  by (simp add: find_row_append)

lemma find_row_cong:
  "(\<And>r. r \<in> set rows \<Longrightarrow> P r = Q r) \<Longrightarrow> find_row P rows = find_row Q rows"
  by (induction rows) auto

lemma find_row_unique:
  assumes "r \<in> set rows" and "P r" and "\<And>r'. r' \<in> set rows \<Longrightarrow> P r' \<Longrightarrow> r' = r"
  shows "find_row P rows = Some r"
proof (cases "find_row P rows")
  case None
  with assms(1,2) show ?thesis by (simp add: find_row_None_iff)
next
  case (Some r')
  with find_row_Some_iff [OF Some] assms(3) show ?thesis by auto
qed

lemma exists_row_iff [simp]: "exists_row P rows \<longleftrightarrow> (\<exists>r \<in> set rows. P r)"
  by (simp add: exists_row_def list_ex_iff)

lemma exists_row_find: "exists_row P rows \<longleftrightarrow> find_row P rows \<noteq> None"
  by (auto simp: find_row_None_iff)

lemma update_rows_Nil [simp]: "update_rows P f [] = []"
  by (simp add: update_rows_def)

lemma update_rows_Cons [simp]:
  "update_rows P f (r # rs) = (if P r then f r else r) # update_rows P f rs"
  by (simp add: update_rows_def)

lemma update_rows_append [simp]:
  "update_rows P f (xs @ ys) = update_rows P f xs @ update_rows P f ys"
  by (simp add: update_rows_def)

lemma map_update_rows:
  "(\<And>r. P r \<Longrightarrow> g (f r) = g r) \<Longrightarrow> map g (update_rows P f rows) = map g rows"
  by (induction rows) auto

lemma set_update_rows:
  "set (update_rows P f rows) = (\<lambda>r. if P r then f r else r) ` set rows"
  by (simp add: update_rows_def)

lemma find_row_update_rows:
  assumes "\<And>r. Q (f r) = Q r"
  shows "find_row Q (update_rows P f rows) =
    map_option (\<lambda>r. if P r then f r else r) (find_row Q rows)"
  using assms by (induction rows) auto

lemma distinct_map_unique:
  "distinct (map g rows) \<Longrightarrow> r \<in> set rows \<Longrightarrow> r' \<in> set rows \<Longrightarrow> g r = g r' \<Longrightarrow> r = r'"
  by (metis distinct_map inj_onD)

text \<open>Tables whose rows are never removed: every row is still there at its place, related to what it
  was, and new rows stand behind.\<close>

definition rows_follow :: "('r \<Rightarrow> 'r \<Rightarrow> bool) \<Rightarrow> 'r list \<Rightarrow> 'r list \<Rightarrow> bool" where
  "rows_follow R as bs \<longleftrightarrow> length as \<le> length bs \<and> list_all2 R as (take (length as) bs)"

lemma rows_follow_refl: "(\<And>a. R a a) \<Longrightarrow> rows_follow R as as"
  by (simp add: rows_follow_def list_all2_refl)

lemma rows_follow_trans:
  assumes "\<And>a b c. R a b \<Longrightarrow> R b c \<Longrightarrow> R a c" "rows_follow R as bs" "rows_follow R bs cs"
  shows "rows_follow R as cs"
proof -
  have "list_all2 R (take (length as) bs) (take (length as) cs)"
    using assms(2,3) list_all2_takeI [of R bs "take (length bs) cs" "length as"]
    by (simp add: rows_follow_def min_absorb1)
  then show ?thesis using assms by (auto simp: rows_follow_def intro: list_all2_trans)
qed

lemma rows_follow_update:
  "(\<And>a. R a a) \<Longrightarrow> (\<And>a. P a \<Longrightarrow> a \<in> set as \<Longrightarrow> R a (u a)) \<Longrightarrow> rows_follow R as (update_rows P u as @ bs)"
  by (auto simp: rows_follow_def update_rows_def list_all2_conv_all_nth)

lemma rows_follow_in: "rows_follow R as bs \<Longrightarrow> a \<in> set as \<Longrightarrow> \<exists>b \<in> set bs. R a b"
  unfolding rows_follow_def using set_take_subset [of "length as" bs]
  by (fastforce simp: list_all2_conv_all_nth in_set_conv_nth)

subsection \<open>Sums over rows\<close>

definition sum_rows :: "('r \<Rightarrow> bool) \<Rightarrow> ('r \<Rightarrow> int) \<Rightarrow> 'r list \<Rightarrow> int" where
  "sum_rows P f rows = sum_list (map f (filter P rows))"

lemma sum_rows_Nil [simp]: "sum_rows P f [] = 0"
  by (simp add: sum_rows_def)

lemma sum_rows_Cons [simp]:
  "sum_rows P f (r # rs) = (if P r then f r else 0) + sum_rows P f rs"
  by (simp add: sum_rows_def)

lemma sum_rows_append [simp]: "sum_rows P f (xs @ ys) = sum_rows P f xs + sum_rows P f ys"
  by (simp add: sum_rows_def)

lemma sum_rows_nonneg: "(\<And>r. r \<in> set rows \<Longrightarrow> P r \<Longrightarrow> 0 \<le> f r) \<Longrightarrow> 0 \<le> sum_rows P f rows"
  by (induction rows) (auto intro: add_nonneg_nonneg)

lemma sum_rows_cong:
  "(\<And>r. r \<in> set rows \<Longrightarrow> P r = Q r) \<Longrightarrow> (\<And>r. r \<in> set rows \<Longrightarrow> Q r \<Longrightarrow> f r = g r) \<Longrightarrow>
   sum_rows P f rows = sum_rows Q g rows"
  by (induction rows) auto

lemma sum_rows_zero: "(\<And>r. r \<in> set rows \<Longrightarrow> \<not> P r) \<Longrightarrow> sum_rows P f rows = 0"
  by (induction rows) auto

text \<open>Replacing the row with a unique key.\<close>

lemma update_unique_row:
  assumes "distinct (map k rows)" "r \<in> set rows" "k r = key" "k r' = key"
  shows "set (update_rows (\<lambda>x. k x = key) (\<lambda>_. r') rows) = insert r' (set rows - {r})"
    "h r' = h r \<Longrightarrow> map h (update_rows (\<lambda>x. k x = key) (\<lambda>_. r') rows) = map h rows"
proof -
  have eq: "(k x = key) = (x = r)" if "x \<in> set rows" for x
    using distinct_map_unique [OF assms(1) that assms(2)] assms(3) by auto
  have "(\<lambda>x. if k x = key then r' else x) ` set rows = (\<lambda>x. if x = r then r' else x) ` set rows"
    by (rule image_cong) (simp_all add: eq)
  also have "\<dots> = insert r' (set rows - {r})" using assms(2) by (auto simp: image_iff)
  finally show "set (update_rows (\<lambda>x. k x = key) (\<lambda>_. r') rows) = insert r' (set rows - {r})"
    by (simp add: set_update_rows)
  show "map h (update_rows (\<lambda>x. k x = key) (\<lambda>_. r') rows) = map h rows" if "h r' = h r"
    using that eq by (auto simp: update_rows_def)
qed

text \<open>A row update moves a sum by the change at the updated row, when the key is unique.\<close>

lemma sum_rows_update_unique:
  assumes "distinct (map k rows)" and "r \<in> set rows"
  shows "sum_rows P f (update_rows (\<lambda>x. k x = k r) u rows) =
    sum_rows P f rows - (if P r then f r else 0) + (if P (u r) then f (u r) else 0)"
  using assms
proof (induction rows)
  case Nil
  then show ?case by simp
next
  case (Cons a rows)
  show ?case
  proof (cases "k a = k r")
    case True
    with Cons.prems have ar: "a = r" by (auto simp: image_iff)
    with Cons.prems have "update_rows (\<lambda>x. k x = k r) u rows = rows"
      by (auto simp: update_rows_def image_iff intro!: map_idI)
    with ar show ?thesis by simp
  next
    case False
    with Cons.prems have "r \<in> set rows" "distinct (map k rows)" by auto
    with Cons.IH False show ?thesis by simp
  qed
qed

subsection \<open>Python strings\<close>

definition is_space :: "char \<Rightarrow> bool" where
  "is_space c = (let n = (of_char c :: nat) in
     9 \<le> n \<and> n \<le> 13 \<or> 28 \<le> n \<and> n \<le> 32 \<or> n = 133 \<or> n = 160)"

definition py_strip :: "string \<Rightarrow> string" where
  "py_strip s = rev (dropWhile is_space (rev (dropWhile is_space s)))"

text \<open>\<^verbatim>\<open>str.lower\<close> on the Latin-1 range.\<close>

definition lower_char :: "char \<Rightarrow> char" where
  "lower_char c = (let n = (of_char c :: nat) in
     if 65 \<le> n \<and> n \<le> 90 \<or> 192 \<le> n \<and> n \<le> 222 \<and> n \<noteq> 215 then char_of (n + 32) else c)"

definition py_lower :: "string \<Rightarrow> string" where
  "py_lower s = map lower_char s"

fun digit_char :: "nat \<Rightarrow> char" where
  "digit_char n = char_of (48 + n)"

fun show_nat :: "nat \<Rightarrow> string" where
  "show_nat n = (if n < 10 then [digit_char n] else show_nat (n div 10) @ [digit_char (n mod 10)])"

declare show_nat.simps [simp del]

definition show_int :: "int \<Rightarrow> string" where
  "show_int i = (if i < 0 then CHR ''-'' # show_nat (nat (- i)) else show_nat (nat i))"

subsection \<open>Histories of service calls\<close>

text \<open>A call that raises is rolled back, so the history goes on from the state before it.\<close>

fun run_ops :: "('op \<Rightarrow> 's \<Rightarrow> ('r \<times> 's) result) \<Rightarrow> 'op list \<Rightarrow> 's \<Rightarrow> 's" where
  "run_ops step [] s = s"
| "run_ops step (x # xs) s =
     run_ops step xs (case step x s of Inl e \<Rightarrow> s | Inr (r, s') \<Rightarrow> s')"

lemma run_ops_append: "run_ops step (xs @ ys) s = run_ops step ys (run_ops step xs s)"
  by (induction xs arbitrary: s) auto

locale state_service =
  fixes step :: "'op \<Rightarrow> 's \<Rightarrow> ('r \<times> 's) result"
    and inv :: "'s \<Rightarrow> bool"
  assumes step_inv: "inv s \<Longrightarrow> step x s = Inr (r, s') \<Longrightarrow> inv s'"
begin

lemma run_inv: "inv s \<Longrightarrow> inv (run_ops step xs s)"
proof (induction xs arbitrary: s)
  case Nil
  then show ?case by simp
next
  case (Cons x xs)
  have "inv (case step x s of Inl e \<Rightarrow> s | Inr (r, s') \<Rightarrow> s')"
    using Cons.prems by (auto split: sum.splits intro: step_inv)
  then show ?case using Cons.IH by simp
qed

end

text \<open>
  A service whose calls also satisfy a relation between the states before and after (an
  append-only log, a one-way status) that is reflexive and transitive.
\<close>

locale guarded_service = state_service step inv
  for step :: "'op \<Rightarrow> 's \<Rightarrow> ('r \<times> 's) result" and inv :: "'s \<Rightarrow> bool" +
  fixes rel :: "'s \<Rightarrow> 's \<Rightarrow> bool"
  assumes rel_refl: "rel s s"
    and rel_trans: "rel s t \<Longrightarrow> rel t u \<Longrightarrow> rel s u"
    and step_rel: "inv s \<Longrightarrow> step x s = Inr (r, s') \<Longrightarrow> rel s s'"
begin

lemma run_rel: "inv s \<Longrightarrow> rel s (run_ops step xs s)"
proof (induction xs arbitrary: s)
  case Nil
  then show ?case by (simp add: rel_refl)
next
  case (Cons x xs)
  let ?t = "case step x s of Inl e \<Rightarrow> s | Inr (r, s') \<Rightarrow> s'"
  have "inv ?t" using Cons.prems by (auto split: sum.splits intro: step_inv)
  moreover have "rel s ?t" using Cons.prems by (auto split: sum.splits intro: step_rel rel_refl)
  ultimately show ?case using Cons.IH rel_trans by simp
qed

end

end
