(* ===== verification/Json.thy ===== *)
theory Json
  imports Prelude
begin

text \<open>
  JSON values and the canonical serialisation of \<^verbatim>\<open>core/event_ledger.py\<close>:
  \<^verbatim>\<open>json.dumps(value, ensure_ascii=False, sort_keys=True, separators=(",", ":"))\<close>. A dict is an
  association list in insertion order. The main fact is that two values with the same
  canonical text are the same value up to the order of their dict keys
  (\<open>canonical_json_eq_iff\<close>), which the audit chain rests on.
\<close>

datatype json =
    JNull
  | JBool bool
  | JInt int
  | JStr string
  | JList "json list"
  | JObj "(string \<times> json) list"

subsection \<open>Encoding\<close>

definition hex_digit :: "nat \<Rightarrow> char" where
  "hex_digit n = (if n < 10 then char_of (48 + n) else char_of (87 + n))"

definition json_escape :: "char \<Rightarrow> string" where
  "json_escape c =
    (if c = CHR 0x22 then [CHR 0x5C, CHR 0x22]
     else if c = CHR 0x5C then [CHR 0x5C, CHR 0x5C]
     else if c = CHR 0x08 then [CHR 0x5C, CHR ''b'']
     else if c = CHR 0x0C then [CHR 0x5C, CHR ''f'']
     else if c = CHR 0x0A then [CHR 0x5C, CHR ''n'']
     else if c = CHR 0x0D then [CHR 0x5C, CHR ''r'']
     else if c = CHR 0x09 then [CHR 0x5C, CHR ''t'']
     else if (of_char c :: nat) < 32
       then [CHR 0x5C, CHR ''u'', CHR ''0'', CHR ''0'',
             hex_digit (of_char c div 16), hex_digit (of_char c mod 16)]
     else [c])"

definition json_string :: "string \<Rightarrow> string" where
  "json_string s = CHR 0x22 # concat (map json_escape s) @ [CHR 0x22]"

fun json_dumps :: "json \<Rightarrow> string"
  and dumps_elems :: "json list \<Rightarrow> string"
  and dumps_items :: "(string \<times> json) list \<Rightarrow> string" where
  "json_dumps JNull = ''null''"
| "json_dumps (JBool b) = (if b then ''true'' else ''false'')"
| "json_dumps (JInt i) = show_int i"
| "json_dumps (JStr s) = json_string s"
| "json_dumps (JList []) = ''[]''"
| "json_dumps (JList (x # xs)) = CHR ''['' # json_dumps x @ dumps_elems xs"
| "json_dumps (JObj []) = ''{}''"
| "json_dumps (JObj ((k, v) # kvs)) =
     CHR ''{'' # json_string k @ CHR '':'' # json_dumps v @ dumps_items kvs"
| "dumps_elems [] = '']''"
| "dumps_elems (x # xs) = CHR '','' # json_dumps x @ dumps_elems xs"
| "dumps_items [] = ''}''"
| "dumps_items ((k, v) # kvs) =
     CHR '','' # json_string k @ CHR '':'' # json_dumps v @ dumps_items kvs"

text \<open>\<^verbatim>\<open>sort_keys=True\<close> sorts the items of every dict, at every depth.\<close>

fun sort_keys :: "json \<Rightarrow> json" where
  "sort_keys (JList xs) = JList (map sort_keys xs)"
| "sort_keys (JObj kvs) = JObj (sort_key fst (map (\<lambda>(k, v). (k, sort_keys v)) kvs))"
| "sort_keys JNull = JNull"
| "sort_keys (JBool b) = JBool b"
| "sort_keys (JInt i) = JInt i"
| "sort_keys (JStr s) = JStr s"

definition canonical_json :: "json \<Rightarrow> string" where
  "canonical_json v = json_dumps (sort_keys v)"

subsection \<open>Decimal numerals are uniquely readable\<close>

definition is_digit :: "char \<Rightarrow> bool" where
  "is_digit c = (let n = (of_char c :: nat) in 48 \<le> n \<and> n \<le> 57)"

definition digit_value :: "char \<Rightarrow> nat" where
  "digit_value c = of_char c - 48"

definition read_nat :: "string \<Rightarrow> nat" where
  "read_nat s = foldl (\<lambda>n c. 10 * n + digit_value c) 0 s"

lemma digit_char_props [simp]:
  "n < 10 \<Longrightarrow> is_digit (digit_char n)"
  "n < 10 \<Longrightarrow> digit_value (digit_char n) = n"
  by (simp_all add: is_digit_def digit_value_def)

lemma show_nat_digits: "c \<in> set (show_nat n) \<Longrightarrow> is_digit c"
proof (induction n rule: show_nat.induct)
  case (1 n)
  then show ?case by (subst (asm) show_nat.simps) (auto split: if_splits simp del: digit_char.simps)
qed

lemma show_nat_nonempty [simp]: "show_nat n \<noteq> []"
  by (subst show_nat.simps) simp

lemma read_show_nat [simp]: "read_nat (show_nat n) = n"
proof (induction n rule: show_nat.induct)
  case (1 n)
  then show ?case
    by (subst show_nat.simps) (simp add: read_nat_def del: digit_char.simps)
qed

text \<open>A rest that does not begin with a digit.\<close>

definition stops :: "string \<Rightarrow> bool" where
  "stops r = (case r of [] \<Rightarrow> True | c # _ \<Rightarrow> \<not> is_digit c)"

lemma stops_simps [simp]:
  "stops []" "stops (CHR '','' # r)" "stops (CHR '']'' # r)" "stops (CHR 0x7D # r)"
  by (simp_all add: stops_def is_digit_def)

lemma takeWhile_digits:
  "(\<And>c. c \<in> set ds \<Longrightarrow> is_digit c) \<Longrightarrow> stops r \<Longrightarrow>
   takeWhile is_digit (ds @ r) = ds \<and> dropWhile is_digit (ds @ r) = r"
  by (cases r) (auto simp: stops_def takeWhile_append dropWhile_append dropWhile_eq_Nil_conv)

lemma show_nat_prefix:
  assumes "show_nat m @ r = show_nat n @ s" and "stops r" and "stops s"
  shows "m = n \<and> r = s"
proof -
  have "show_nat m = show_nat n \<and> r = s"
    using assms takeWhile_digits [of "show_nat m" r] takeWhile_digits [of "show_nat n" s]
      show_nat_digits by metis
  then show ?thesis by (metis read_show_nat)
qed

lemma hd_show_nat: "is_digit (hd (show_nat n))"
  by (rule show_nat_digits [of _ n]) simp

lemma hd_show_int: "is_digit (hd (show_int i)) \<or> hd (show_int i) = CHR ''-''"
  by (simp add: show_int_def hd_show_nat)

lemma show_int_nonempty [simp]: "show_int i \<noteq> []"
  by (simp add: show_int_def)

lemma show_int_prefix:
  assumes "show_int i @ r = show_int j @ s" and "stops r" and "stops s"
  shows "i = j \<and> r = s"
proof (cases "(i < 0) = (j < 0)")
  case True
  with assms show ?thesis
    by (cases "j < 0") (auto simp: show_int_def dest!: show_nat_prefix)
next
  case False
  have "hd (show_nat (nat k)) \<noteq> CHR ''-''" for k
    using hd_show_nat [of "nat k"] by (auto simp: is_digit_def)
  with False assms(1) show ?thesis
    by (auto simp: show_int_def split: if_splits)
      (metis hd_append2 list.sel(1) show_nat_nonempty)+
qed

subsection \<open>Strings are uniquely readable\<close>

lemma hex_digit_inject: "m < 16 \<Longrightarrow> n < 16 \<Longrightarrow> hex_digit m = hex_digit n \<Longrightarrow> m = n"
  by (auto simp: hex_digit_def split: if_splits dest: char_of_eq_iff [THEN iffD1])

lemma of_char_hex_inject:
  assumes "hex_digit (of_char c div 16) = hex_digit (of_char d div 16)"
    and "hex_digit (of_char c mod 16) = hex_digit (of_char d mod 16)"
    and "(of_char c :: nat) < 32" and "(of_char d :: nat) < 32"
  shows "c = d"
proof -
  have "(of_char c :: nat) div 16 = of_char d div 16"
    by (rule hex_digit_inject) (use assms in auto)
  moreover have "(of_char c :: nat) mod 16 = of_char d mod 16"
    by (rule hex_digit_inject) (use assms in auto)
  ultimately have "(of_char c :: nat) = of_char d"
    by (metis div_mod_decomp)
  then show ?thesis by simp
qed

lemma json_escape_prefix:
  "json_escape c @ r = json_escape d @ s \<Longrightarrow> c = d \<and> r = s"
  unfolding json_escape_def
  by (auto split: if_splits dest: of_char_hex_inject)

lemma json_escape_hd [simp]: "json_escape c \<noteq> []" "hd (json_escape c) \<noteq> CHR 0x22"
  by (auto simp: json_escape_def)

lemma json_escape_not_quote [simp]: "json_escape c @ r \<noteq> CHR 0x22 # s"
  using json_escape_hd [of c] by (metis hd_append2 list.sel(1))

lemma json_string_prefix:
  "json_string s @ r = json_string t @ u \<Longrightarrow> s = t \<and> r = u"
  unfolding json_string_def
proof (simp, induction s arbitrary: t)
  case Nil
  then show ?case
    by (cases t) (auto simp: json_escape_not_quote [symmetric])
next
  case (Cons c s)
  then show ?case
  proof (cases t)
    case Nil
    with Cons.prems show ?thesis by simp
  next
    case (Cons d t')
    with Cons.prems have "json_escape c @ concat (map json_escape s) @ CHR 0x22 # r =
        json_escape d @ concat (map json_escape t') @ CHR 0x22 # u" by simp
    then have "c = d" and "concat (map json_escape s) @ CHR 0x22 # r =
        concat (map json_escape t') @ CHR 0x22 # u"
      using json_escape_prefix by blast+
    with Cons.IH Cons show ?thesis by simp
  qed
qed

lemma hd_json_string: "hd (json_string s) = CHR 0x22"
  by (simp add: json_string_def)

subsection \<open>Values are uniquely readable\<close>

text \<open>The first character of a value's text determines the kind of value.\<close>

fun json_kind :: "json \<Rightarrow> nat" where
  "json_kind JNull = 0"
| "json_kind (JBool True) = 1"
| "json_kind (JBool False) = 2"
| "json_kind (JInt _) = 3"
| "json_kind (JStr _) = 4"
| "json_kind (JList _) = 5"
| "json_kind (JObj _) = 6"

definition char_kind :: "char \<Rightarrow> nat" where
  "char_kind c =
    (if c = CHR ''n'' then 0 else if c = CHR ''t'' then 1 else if c = CHR ''f'' then 2
     else if is_digit c \<or> c = CHR ''-'' then 3 else if c = CHR 0x22 then 4
     else if c = CHR ''['' then 5 else if c = CHR 0x7B then 6 else 7)"

lemma char_kind_dumps: "json_dumps v \<noteq> [] \<and> char_kind (hd (json_dumps v)) = json_kind v"
proof (cases v)
  case (JBool b)
  then show ?thesis by (cases b) (simp_all add: char_kind_def)
next
  case (JInt i)
  then show ?thesis using hd_show_int [of i]
    by (auto simp: char_kind_def is_digit_def)
next
  case (JList xs)
  then show ?thesis by (cases xs) (simp_all add: char_kind_def is_digit_def)
next
  case (JObj kvs)
  then show ?thesis by (cases kvs) (auto simp: char_kind_def is_digit_def)
qed (simp_all add: char_kind_def is_digit_def json_string_def)

lemma dumps_same_kind:
  assumes "json_dumps v @ r = json_dumps w @ s"
  shows "json_kind v = json_kind w"
  using assms char_kind_dumps by (metis hd_append2)

lemma dumps_elems_stops [simp]: "stops (dumps_elems xs @ r)"
  by (cases xs) simp_all

lemma dumps_items_stops [simp]: "stops (dumps_items kvs @ r)"
  by (cases kvs) auto

lemma dumps_not_close [simp]: "json_dumps v @ r \<noteq> CHR '']'' # s"
proof
  assume "json_dumps v @ r = CHR '']'' # s"
  then have "hd (json_dumps v) = CHR '']''"
    using char_kind_dumps [of v] by (metis hd_append2 list.sel(1))
  with char_kind_dumps [of v] have "json_kind v = 7"
    by (simp add: char_kind_def is_digit_def)
  then show False by (cases v rule: json_kind.cases) auto
qed

lemma close_not_dumps [simp]: "CHR '']'' # s \<noteq> json_dumps v @ r"
  using dumps_not_close [of v r s] by metis

lemma json_string_not_close [simp]:
  "json_string k @ r \<noteq> CHR 0x7D # s" "CHR 0x7D # s \<noteq> json_string k @ r"
  by (simp_all add: json_string_def)

lemma same_kind_cases:
  "json_kind v = json_kind (JList xs) \<Longrightarrow> \<exists>ys. v = JList ys"
  "json_kind v = json_kind (JObj kvs) \<Longrightarrow> \<exists>lws. v = JObj lws"
  by (cases v rule: json_kind.cases; auto)+

text \<open>Values, the rest of an array and the rest of an object are prefix-free codes.\<close>

lemma dumps_prefix:
  "json_dumps v @ r = json_dumps w @ s \<Longrightarrow> stops r \<Longrightarrow> stops s \<Longrightarrow> v = w \<and> r = s"
  "dumps_elems xs @ r = dumps_elems ys @ s \<Longrightarrow> xs = ys \<and> r = s"
  "dumps_items kvs @ r = dumps_items lws @ s \<Longrightarrow> kvs = lws \<and> r = s"
proof (induction v and xs and kvs arbitrary: w r s and ys r s and lws r s
    rule: json_dumps_dumps_elems_dumps_items.induct)
  case 1
  then show ?case using dumps_same_kind [OF "1.prems"(1)] by (cases w rule: json_kind.cases) auto
next
  case (2 b)
  then show ?case using dumps_same_kind [OF "2.prems"(1)]
    by (cases w rule: json_kind.cases; cases b) auto
next
  case (3 i)
  then show ?case using dumps_same_kind [OF "3.prems"(1)]
    by (cases w rule: json_kind.cases) (auto dest!: show_int_prefix)
next
  case (4 t)
  then show ?case using dumps_same_kind [OF "4.prems"(1)]
    by (cases w rule: json_kind.cases) (auto dest!: json_string_prefix)
next
  case 5
  from same_kind_cases(1) dumps_same_kind [OF "5.prems"(1)] obtain zs where w: "w = JList zs"
    by metis
  with "5.prems"(1) show ?case by (cases zs) simp_all
next
  case (6 x xs)
  from same_kind_cases(1) dumps_same_kind [OF "6.prems"(1)] obtain zs where w: "w = JList zs"
    by metis
  with "6.prems"(1) obtain z zs' where zs: "zs = z # zs'"
    and eq: "json_dumps x @ dumps_elems xs @ r = json_dumps z @ dumps_elems zs' @ s"
    by (cases zs) simp_all
  from "6.IH"(1) [OF eq] have "x = z" "dumps_elems xs @ r = dumps_elems zs' @ s" by simp_all
  with "6.IH"(2) w zs show ?case by blast
next
  case 7
  from same_kind_cases(2) dumps_same_kind [OF "7.prems"(1)] obtain lws where w: "w = JObj lws"
    by metis
  with "7.prems"(1) show ?case by (cases lws) auto
next
  case (8 k v kvs)
  from same_kind_cases(2) dumps_same_kind [OF "8.prems"(1)] obtain lws where w: "w = JObj lws"
    by metis
  with "8.prems"(1) obtain l u lws' where lws: "lws = (l, u) # lws'"
    and "json_string k @ CHR '':'' # json_dumps v @ dumps_items kvs @ r =
         json_string l @ CHR '':'' # json_dumps u @ dumps_items lws' @ s"
    by (cases lws) auto
  then have "k = l" and eq: "json_dumps v @ dumps_items kvs @ r = json_dumps u @ dumps_items lws' @ s"
    by (auto dest: json_string_prefix)
  from "8.IH"(1) [OF eq] have "v = u" "dumps_items kvs @ r = dumps_items lws' @ s" by simp_all
  with "8.IH"(2) w lws \<open>k = l\<close> show ?case by blast
next
  case 9
  then show ?case by (cases ys) auto
next
  case (10 x xs)
  from "10.prems" obtain z ys' where ys: "ys = z # ys'"
    and eq: "json_dumps x @ dumps_elems xs @ r = json_dumps z @ dumps_elems ys' @ s"
    by (cases ys) auto
  from "10.IH"(1) [OF eq] have "x = z" "dumps_elems xs @ r = dumps_elems ys' @ s" by simp_all
  with "10.IH"(2) ys show ?case by blast
next
  case 11
  then show ?case by (cases lws) auto
next
  case (12 k v kvs)
  from "12.prems" obtain l u lws' where lws: "lws = (l, u) # lws'"
    and "json_string k @ CHR '':'' # json_dumps v @ dumps_items kvs @ r =
         json_string l @ CHR '':'' # json_dumps u @ dumps_items lws' @ s"
    by (cases lws) auto
  then have "k = l" and eq: "json_dumps v @ dumps_items kvs @ r = json_dumps u @ dumps_items lws' @ s"
    by (auto dest: json_string_prefix)
  from "12.IH"(1) [OF eq] have "v = u" "dumps_items kvs @ r = dumps_items lws' @ s" by simp_all
  with "12.IH"(2) lws \<open>k = l\<close> show ?case by blast
qed

lemma json_dumps_inject: "json_dumps v = json_dumps w \<longleftrightarrow> v = w"
  using dumps_prefix(1) [of v "[]" w "[]"] by auto

lemma canonical_json_eq_iff: "canonical_json v = canonical_json w \<longleftrightarrow> sort_keys v = sort_keys w"
  by (simp add: canonical_json_def json_dumps_inject)

lemma sort_keys_idem: "sort_keys (sort_keys v) = sort_keys v"
proof (induction v rule: sort_keys.induct)
  case (2 kvs)
  let ?s = "map (\<lambda>(k, v). (k, sort_keys v)) kvs"
  have "map (\<lambda>(k, v). (k, sort_keys v)) (sort_key fst ?s) = sort_key fst ?s"
    by (rule map_idI) (use "2.IH" in auto)
  then show ?case by (simp add: sort_key_id_if_sorted)
qed auto

subsection \<open>Reading dicts\<close>

text \<open>\<^verbatim>\<open>d.get(k)\<close> on a dict; \<open>None\<close> when the key is missing or the value is not a dict.\<close>

fun json_get :: "string \<Rightarrow> json \<Rightarrow> json option" where
  "json_get k (JObj kvs) = map_of kvs k"
| "json_get k _ = None"

fun is_obj :: "json \<Rightarrow> bool" where
  "is_obj (JObj _) = True"
| "is_obj _ = False"

fun is_list :: "json \<Rightarrow> bool" where
  "is_list (JList _) = True"
| "is_list _ = False"

text \<open>Python truth of a JSON value, and \<^verbatim>\<open>value or {}\<close>.\<close>

fun json_truthy :: "json \<Rightarrow> bool" where
  "json_truthy JNull = False"
| "json_truthy (JBool b) = b"
| "json_truthy (JInt i) = (i \<noteq> 0)"
| "json_truthy (JStr s) = (s \<noteq> [])"
| "json_truthy (JList xs) = (xs \<noteq> [])"
| "json_truthy (JObj kvs) = (kvs \<noteq> [])"

definition or_empty_dict :: "json \<Rightarrow> json" where
  "or_empty_dict v = (if json_truthy v then v else JObj [])"

text \<open>\<^verbatim>\<open>bool(str(v).strip())\<close> is false only for a blank string: the text of every other value is not blank.\<close>

fun str_blank :: "json \<Rightarrow> bool" where
  "str_blank (JStr s) = (py_strip s = [])"
| "str_blank _ = False"

lemma json_get_sort_keys:
  assumes "distinct (map fst kvs)"
  shows "json_get k (sort_keys (JObj kvs)) = map_option sort_keys (map_of kvs k)"
proof -
  let ?f = "\<lambda>(k, v). (k, sort_keys v)"
  have fst: "map fst (map ?f kvs) = map fst kvs" by auto
  have d: "distinct (map ?f kvs)" "inj_on fst (set (map ?f kvs))"
    using assms unfolding fst [symmetric] distinct_map by blast+
  have "distinct (map fst (sort_key fst (map ?f kvs)))"
    unfolding distinct_map using d by simp
  then have "map_of (sort_key fst (map ?f kvs)) = map_of (map ?f kvs)"
    by (subst map_of_inject_set) (use assms in \<open>simp_all add: fst del: map_map\<close>)
  moreover have "map_of (map ?f kvs) k = map_option sort_keys (map_of kvs k)"
    by (induction kvs) auto
  ultimately show ?thesis by simp
qed

text \<open>\<^verbatim>\<open>{**d, k: v}\<close>: an existing key keeps its place, a new one comes last.\<close>

fun json_set :: "string \<Rightarrow> json \<Rightarrow> json \<Rightarrow> json" where
  "json_set k v (JObj kvs) =
    JObj (if k \<in> fst ` set kvs then map (\<lambda>(a, b). if a = k then (a, v) else (a, b)) kvs
          else kvs @ [(k, v)])"
| "json_set k v x = x"

lemma map_of_set_key:
  "map_of (map (\<lambda>(a, b). if a = k then (a, v) else (a, b)) kvs) k = (if k \<in> fst ` set kvs then Some v else None)"
  by (induction kvs) auto

lemma json_get_set [simp]: "is_obj d \<Longrightarrow> json_get k (json_set k v d) = Some v"
proof (cases d)
  case (JObj kvs)
  then show ?thesis using map_of_eq_None_iff [of kvs k] by (auto simp: map_of_set_key map_add_def split: option.splits)
qed auto

lemma is_obj_set [simp]: "is_obj (json_set k v d) = is_obj d"
  by (cases d) auto

lemma or_empty_dict_set [simp]: "is_obj d \<Longrightarrow> or_empty_dict (json_set k v d) = json_set k v d"
  by (cases d) (auto simp: or_empty_dict_def)

end
