(* ===== verification/Event_Ledger.thy ===== *)
theory Event_Ledger
  imports Json "HOL-Library.Sublist"
begin

text \<open>
  The unified event ledger (\<^verbatim>\<open>core/event_ledger.py\<close>, \<^verbatim>\<open>core/models/events.py\<close>): append-only
  \<^verbatim>\<open>SystemEvent\<close> rows linked by hashes, the privacy check on public payloads, \<^verbatim>\<open>append_event\<close> and
  \<^verbatim>\<open>verify_event_chain\<close>. The hash function is the field \<open>sha256\<close> of the environment (the
  hexadecimal digest of the UTF-8 text), so every theorem holds for any hash function and the
  tamper-evidence theorem names the collision an attacker would need.
\<close>

subsection \<open>Environment and rows\<close>

text \<open>What a service call reads from its surroundings: the digest, \<^verbatim>\<open>str()\<close> of a list or dict, the clock.\<close>

record env =
  sha256 :: "string \<Rightarrow> string"
  str_of_container :: "json \<Rightarrow> string"
  now :: time

record system_event =
  se_seq :: nat
  se_event_type :: string
  se_aggregate_type :: string
  se_aggregate_id :: string
  se_actor_member_id :: "int option"
  se_actor_role_assignment_id :: "int option"
  se_payload_json :: json
  se_payload_hash :: string
  se_prev_hash :: string
  se_event_hash :: string
  se_occurred_at :: time

record event_db =
  system_events :: "system_event list"

definition PUBLIC_LEDGER_SCHEMA :: string where
  "PUBLIC_LEDGER_SCHEMA = ''liveos.system-event.public.v1''"

definition PUBLIC_LEDGER_DENYLIST_KEYS :: "string list" where
  "PUBLIC_LEDGER_DENYLIST_KEYS = [
    ''contact'', ''contact_name'', ''contact_info'', ''email'', ''phone'', ''wechat'',
    ''username'', ''account_username'', ''account_user_id'', ''password'', ''password1'',
    ''password2'', ''user_id'', ''member_id'', ''member_no'', ''target_member_id'',
    ''target_member_no'', ''voter_member_id'', ''voter_member_no'', ''actor_member_id'',
    ''assignee_member_id'', ''assignee_member_no'', ''claimant_member_id'',
    ''claimant_member_no'', ''respondent_member_id'', ''respondent_member_no'',
    ''proposer_member_id'', ''proposer_member_no'', ''proposal_id'', ''role_id'',
    ''organization_id'', ''role_assignment_id'', ''proposer_role_assignment_id'',
    ''voter_role_assignment_id'', ''granted_by_id'', ''revoked_by_id'', ''ledger_entry_id'',
    ''system_event_id'', ''related_event_id'', ''related_ledger_entry_id'', ''related_task_id'',
    ''applicant_name'', ''applicant_name_raw'', ''requested_member_no'', ''linked_member_id'',
    ''display_name'', ''display_name_raw'', ''assigned_member_display_name'', ''actor'',
    ''operator'', ''handler'', ''reviewer'', ''created_by'', ''reviewed_by'', ''decided_by'',
    ''metadata'', ''payload'', ''result'', ''execution_result'', ''facts'', ''evidence_refs'',
    ''reason_raw'', ''resolution_raw'']"

subsection \<open>Hash inputs\<close>

definition hash_json :: "env \<Rightarrow> json \<Rightarrow> string" where
  "hash_json env v = sha256 env (canonical_json v)"

definition event_hash_payload_v2 ::
    "nat \<Rightarrow> string \<Rightarrow> string \<Rightarrow> string \<Rightarrow> string \<Rightarrow> string \<Rightarrow> json" where
  "event_hash_payload_v2 seq event_type aggregate_type subject_ref payload_hash prev_hash =
    JObj [(''schema'', JStr ''liveos.system-event-hash.v2''),
          (''seq'', JInt (int seq)),
          (''event_type'', JStr event_type),
          (''aggregate_type'', JStr aggregate_type),
          (''subject_ref'', JStr subject_ref),
          (''payload_hash'', JStr payload_hash),
          (''prev_hash'', JStr prev_hash)]"

definition compute_event_hash_v2 ::
    "env \<Rightarrow> nat \<Rightarrow> string \<Rightarrow> string \<Rightarrow> string \<Rightarrow> string \<Rightarrow> string \<Rightarrow> string" where
  "compute_event_hash_v2 env seq event_type aggregate_type subject_ref payload_hash prev_hash =
    hash_json env
      (event_hash_payload_v2 seq event_type aggregate_type subject_ref payload_hash prev_hash)"

fun json_opt_int :: "int option \<Rightarrow> json" where
  "json_opt_int None = JNull"
| "json_opt_int (Some i) = JInt i"

definition event_hash_payload ::
    "nat \<Rightarrow> string \<Rightarrow> string \<Rightarrow> string \<Rightarrow> int option \<Rightarrow> int option \<Rightarrow> string \<Rightarrow> string \<Rightarrow> json" where
  "event_hash_payload seq event_type aggregate_type aggregate_id actor_member_id
      actor_role_assignment_id payload_hash prev_hash =
    JObj [(''seq'', JInt (int seq)),
          (''event_type'', JStr event_type),
          (''aggregate_type'', JStr aggregate_type),
          (''aggregate_id'', JStr aggregate_id),
          (''actor_member_id'', json_opt_int actor_member_id),
          (''actor_role_assignment_id'', json_opt_int actor_role_assignment_id),
          (''payload_hash'', JStr payload_hash),
          (''prev_hash'', JStr prev_hash)]"

definition compute_event_hash ::
    "env \<Rightarrow> nat \<Rightarrow> string \<Rightarrow> string \<Rightarrow> string \<Rightarrow> int option \<Rightarrow> int option \<Rightarrow> string \<Rightarrow> string \<Rightarrow> string" where
  "compute_event_hash env seq event_type aggregate_type aggregate_id actor_member_id
      actor_role_assignment_id payload_hash prev_hash =
    hash_json env (event_hash_payload seq event_type aggregate_type aggregate_id actor_member_id
      actor_role_assignment_id payload_hash prev_hash)"

subsection \<open>Payload safety\<close>

definition commitment_keys :: "string list" where
  "commitment_keys = [''name'', ''present'', ''reason'']"

definition child_path :: "string \<Rightarrow> string \<Rightarrow> string" where
  "child_path path key = (if path \<noteq> [] then path @ ''.'' @ key else key)"

definition index_path :: "string \<Rightarrow> nat \<Rightarrow> string" where
  "index_path path idx = path @ ''['' @ show_nat idx @ '']''"

text \<open>
  \<^verbatim>\<open>_validate_node(node, path, inside_commitments)\<close>. \<open>validate_items\<close> is its loop over the items
  of a dict, \<open>validate_elems\<close> its loop over a list from an index on; the flag of \<open>validate_elems\<close>
  is the one passed to each element.
\<close>

fun validate_node :: "bool \<Rightarrow> string \<Rightarrow> json \<Rightarrow> unit result"
  and validate_items :: "bool \<Rightarrow> string \<Rightarrow> (string \<times> json) list \<Rightarrow> unit result"
  and validate_elems :: "bool \<Rightarrow> string \<Rightarrow> nat \<Rightarrow> json list \<Rightarrow> unit result" where
  "validate_node inside path (JObj kvs) = validate_items inside path kvs"
| "validate_node inside path (JList xs) = validate_elems False path 0 xs"
| "validate_node inside path JNull = Inr ()"
| "validate_node inside path (JBool b) = Inr ()"
| "validate_node inside path (JInt i) = Inr ()"
| "validate_node inside path (JStr s) = Inr ()"
| "validate_items inside path [] = Inr ()"
| "validate_items inside path ((key, value) # kvs) =
    (let cp = child_path path key in
     and_then
      (if inside then
         (if key \<notin> set commitment_keys then
            Inl (ValueError (''SystemEvent.'' @ cp @ '': unsupported key in private_commitments item''))
          else if is_obj value \<or> is_list value then
            Inl (ValueError (''SystemEvent.'' @ cp @ '': nested structure not allowed in private_commitments''))
          else Inr ())
       else if key = ''private_commitments'' then
         (case value of JList xs \<Rightarrow> validate_elems True cp 0 xs | _ \<Rightarrow> Inr ())
       else if key \<in> set PUBLIC_LEDGER_DENYLIST_KEYS then
         Inl (ValueError (''SystemEvent.'' @ cp @ '' is not public-safe (denylist key: '' @ key @ '')''))
       else if is_obj value \<or> is_list value then validate_node False cp value
       else Inr ())
      (\<lambda>_. validate_items inside path kvs))"
| "validate_elems inside path idx [] = Inr ()"
| "validate_elems inside path idx (x # xs) =
    and_then (validate_node inside (index_path path idx) x)
      (\<lambda>_. validate_elems inside path (Suc idx) xs)"

text \<open>A required text field: \<^verbatim>\<open>str(d.get(req, "")).strip()\<close> must not be empty.\<close>

fun required_missing :: "string list \<Rightarrow> json \<Rightarrow> string option" where
  "required_missing [] d = None"
| "required_missing (req # reqs) d =
    (if (case json_get req d of None \<Rightarrow> True | Some v \<Rightarrow> str_blank v) then Some req
     else required_missing reqs d)"

definition validate_public_ledger_payload :: "json \<Rightarrow> unit result" where
  "validate_public_ledger_payload payload =
    (if \<not> is_obj payload then Inl (ValueError ''SystemEvent.payload_json must be a dict'')
     else if json_get ''schema'' payload \<noteq> Some (JStr PUBLIC_LEDGER_SCHEMA) then
       Inl (ValueError ''SystemEvent.payload_json schema mismatch'')
     else (case json_get ''subject'' payload of
       Some (JObj sub) \<Rightarrow>
        (case required_missing [''type'', ''ref'', ''label''] (JObj sub) of
           Some req \<Rightarrow> Inl (ValueError (''SystemEvent.payload_json.subject.'' @ req @ '' is required''))
         | None \<Rightarrow>
        (case required_missing [''action'', ''stage'', ''summary''] payload of
           Some req \<Rightarrow> Inl (ValueError (''SystemEvent.payload_json.'' @ req @ '' is required''))
         | None \<Rightarrow>
        (case json_get ''public_facts'' payload of
           Some (JObj facts) \<Rightarrow>
            (case json_get ''private_commitments'' payload of
               Some (JList cs) \<Rightarrow> validate_node False ''payload_json'' payload
             | _ \<Rightarrow> Inl (ValueError ''SystemEvent.payload_json.private_commitments must be a list''))
         | _ \<Rightarrow> Inl (ValueError ''SystemEvent.payload_json.public_facts must be a dict''))))
     | _ \<Rightarrow> Inl (ValueError ''SystemEvent.payload_json.subject must be a dict'')))"

subsection \<open>Appending\<close>

text \<open>\<^verbatim>\<open>str(v)\<close>.\<close>

fun py_str :: "env \<Rightarrow> json \<Rightarrow> string" where
  "py_str env (JStr s) = s"
| "py_str env (JInt i) = show_int i"
| "py_str env (JBool b) = (if b then ''True'' else ''False'')"
| "py_str env JNull = ''None''"
| "py_str env v = str_of_container env v"

text \<open>\<^verbatim>\<open>str((payload.get("subject") or {}).get("ref", aggregate_id))\<close>.\<close>

definition subject_ref_of :: "env \<Rightarrow> json \<Rightarrow> string \<Rightarrow> string result" where
  "subject_ref_of env payload aggregate_id =
    (let sub = or_empty_dict (case json_get ''subject'' payload of None \<Rightarrow> JNull | Some v \<Rightarrow> v) in
     if \<not> is_obj sub then Inl (AttributeError ''get'')
     else Inr (case json_get ''ref'' sub of None \<Rightarrow> aggregate_id | Some v \<Rightarrow> py_str env v))"

text \<open>\<^verbatim>\<open>SystemEvent.objects.order_by("seq")\<close> and \<^verbatim>\<open>order_by("-seq").first()\<close>.\<close>

definition events_by_seq :: "system_event list \<Rightarrow> system_event list" where
  "events_by_seq es = sort_key se_seq es"

definition latest_event :: "system_event list \<Rightarrow> system_event option" where
  "latest_event es = (case rev (events_by_seq es) of [] \<Rightarrow> None | e # _ \<Rightarrow> Some e)"

text \<open>
  \<^verbatim>\<open>SystemEvent.save\<close>: an existing row is never written again, a new one only with the append
  flag; the insert itself enforces the unique columns \<^verbatim>\<open>seq\<close> and \<^verbatim>\<open>event_hash\<close>.
\<close>

definition system_event_save ::
    "bool \<Rightarrow> bool \<Rightarrow> system_event \<Rightarrow> 'a event_db_scheme \<Rightarrow> 'a event_db_scheme result" where
  "system_event_save pk_exists allow_append e db =
    (if pk_exists then Inl (ValueError ''SystemEvent is append-only and cannot be modified once created.'')
     else if \<not> allow_append then
       Inl (ValueError ''Use core.event_ledger.append_event() to append SystemEvent records.'')
     else if exists_row (\<lambda>x. se_seq x = se_seq e \<or> se_event_hash x = se_event_hash e) (system_events db)
       then Inl IntegrityError
     else Inr (db\<lparr>system_events := system_events db @ [e]\<rparr>))"

text \<open>The row one attempt builds from the newest row it reads.\<close>

definition build_event ::
    "env \<Rightarrow> string \<Rightarrow> string \<Rightarrow> string \<Rightarrow> int option \<Rightarrow> int option \<Rightarrow> json \<Rightarrow> string \<Rightarrow> time option \<Rightarrow>
     system_event option \<Rightarrow> system_event" where
  "build_event env event_type aggregate_type aggregate_id actor assignment payload subject_ref
      occurred_at latest =
    (let seq = (case latest of None \<Rightarrow> 1 | Some l \<Rightarrow> se_seq l + 1);
         prev_hash = (case latest of None \<Rightarrow> [] | Some l \<Rightarrow> se_event_hash l);
         payload_hash = hash_json env payload
     in \<lparr>se_seq = seq, se_event_type = event_type, se_aggregate_type = aggregate_type,
         se_aggregate_id = aggregate_id, se_actor_member_id = actor,
         se_actor_role_assignment_id = assignment, se_payload_json = payload,
         se_payload_hash = payload_hash, se_prev_hash = prev_hash,
         se_event_hash = compute_event_hash_v2 env seq event_type aggregate_type subject_ref
           payload_hash prev_hash,
         se_occurred_at = (case occurred_at of None \<Rightarrow> now env | Some t \<Rightarrow> t)\<rparr>)"

text \<open>The retry loop: an \<^verbatim>\<open>IntegrityError\<close> is retried, and the last one raised again.\<close>

fun append_attempts ::
    "nat \<Rightarrow> (system_event option \<Rightarrow> system_event) \<Rightarrow> 'a event_db_scheme \<Rightarrow>
     (system_event \<times> 'a event_db_scheme) result" where
  "append_attempts 0 build db = Inl IntegrityError"
| "append_attempts (Suc n) build db =
    (let e = build (latest_event (system_events db)) in
     case system_event_save False True e db of
       Inr db' \<Rightarrow> Inr (e, db')
     | Inl IntegrityError \<Rightarrow> append_attempts n build db
     | Inl err \<Rightarrow> Inl err)"

definition append_event ::
    "env \<Rightarrow> string \<Rightarrow> string \<Rightarrow> string \<Rightarrow> int option \<Rightarrow> int option \<Rightarrow> json \<Rightarrow> time option \<Rightarrow>
     'a event_db_scheme \<Rightarrow> (system_event \<times> 'a event_db_scheme) result" where
  "append_event env event_type aggregate_type aggregate_id actor assignment payload_json occurred_at db =
    (let payload = or_empty_dict payload_json in
     if \<not> is_obj payload then Inl (AttributeError ''get'')
     else if json_get ''schema'' payload \<noteq> Some (JStr PUBLIC_LEDGER_SCHEMA) then
       Inl (ValueError ''SystemEvent.payload_json must use the public ledger schema'')
     else and_then (validate_public_ledger_payload payload) (\<lambda>_.
       and_then (subject_ref_of env payload aggregate_id) (\<lambda>subject_ref.
         append_attempts 3
           (build_event env event_type aggregate_type aggregate_id actor assignment payload
              subject_ref occurred_at) db)))"

subsection \<open>Verification\<close>

definition is_v2 :: "json \<Rightarrow> bool" where
  "is_v2 payload = (json_get ''schema'' payload = Some (JStr PUBLIC_LEDGER_SCHEMA))"

definition expected_event_hash :: "env \<Rightarrow> system_event \<Rightarrow> string result" where
  "expected_event_hash env e =
    (let payload = or_empty_dict (se_payload_json e) in
     if \<not> is_obj payload then Inl (AttributeError ''get'')
     else if is_v2 payload then
       and_then (subject_ref_of env payload (se_aggregate_id e)) (\<lambda>subject_ref.
         Inr (compute_event_hash_v2 env (se_seq e) (se_event_type e) (se_aggregate_type e)
                subject_ref (se_payload_hash e) (se_prev_hash e)))
     else Inr (compute_event_hash env (se_seq e) (se_event_type e) (se_aggregate_type e)
                 (se_aggregate_id e) (se_actor_member_id e) (se_actor_role_assignment_id e)
                 (se_payload_hash e) (se_prev_hash e)))"

fun verify_from :: "env \<Rightarrow> string \<Rightarrow> nat \<Rightarrow> system_event list \<Rightarrow> bool result" where
  "verify_from env expected_prev_hash expected_seq [] = Inr True"
| "verify_from env expected_prev_hash expected_seq (e # es) =
    (if se_seq e \<noteq> expected_seq then Inr False
     else if se_prev_hash e \<noteq> expected_prev_hash then Inr False
     else if se_payload_hash e \<noteq> hash_json env (se_payload_json e) then Inr False
     else and_then (expected_event_hash env e) (\<lambda>h.
       if se_event_hash e \<noteq> h then Inr False
       else verify_from env (se_event_hash e) (expected_seq + 1) es))"

definition verify_event_chain :: "env \<Rightarrow> 'a event_db_scheme \<Rightarrow> bool result" where
  "verify_event_chain env db = verify_from env [] 1 (events_by_seq (system_events db))"

subsection \<open>Rows in sequence order\<close>

lemma insort_key_snoc: "f a \<le> f x \<Longrightarrow> insort_key f a (ys @ [x]) = insort_key f a ys @ [x]"
  by (induction ys) auto

lemma sort_key_snoc:
  "(\<And>y. y \<in> set xs \<Longrightarrow> f y \<le> f x) \<Longrightarrow> sort_key f (xs @ [x]) = sort_key f xs @ [x]"
  by (induction xs) (auto simp: insort_key_snoc)

lemma set_events_by_seq [simp]: "set (events_by_seq es) = set es"
  by (simp add: events_by_seq_def)

lemma latest_event_None_iff [simp]: "latest_event es = None \<longleftrightarrow> es = []"
proof -
  have "rev (events_by_seq es) = [] \<longleftrightarrow> es = []"
    by (metis set_empty set_events_by_seq set_rev)
  then show ?thesis by (auto simp: latest_event_def split: list.splits)
qed

lemma latest_event_Nil [simp]: "latest_event [] = None"
  by simp

lemma latest_event_Some:
  assumes "latest_event es = Some l"
  shows "events_by_seq es \<noteq> [] \<and> last (events_by_seq es) = l \<and> l \<in> set es \<and>
    (\<forall>e \<in> set es. se_seq e \<le> se_seq l)"
proof -
  from assms obtain xs where "rev (events_by_seq es) = l # xs"
    by (auto simp: latest_event_def split: list.splits)
  then have eq: "events_by_seq es = rev xs @ [l]" by (metis rev_eq_Cons_iff)
  have "sorted (map se_seq (events_by_seq es))"
    by (simp add: events_by_seq_def)
  then have "\<forall>e \<in> set (events_by_seq es). se_seq e \<le> se_seq l"
    by (auto simp: eq sorted_append)
  with eq show ?thesis by (metis last_snoc list.set_intros(1) set_events_by_seq
        append_is_Nil_conv in_set_conv_decomp not_Cons_self2)
qed

lemma latest_event_fresh:
  "e \<in> set es \<Longrightarrow>
   se_seq e < (case latest_event es of None \<Rightarrow> 1 | Some l \<Rightarrow> se_seq l + 1)"
  using latest_event_Some [of es] by (cases "latest_event es") (auto simp: less_Suc_eq_le)

subsection \<open>What a successful append does\<close>

lemma append_attempts_Inr:
  assumes "append_attempts n build db = Inr (e, db')"
  shows "e = build (latest_event (system_events db)) \<and>
    db' = db\<lparr>system_events := system_events db @ [e]\<rparr> \<and>
    se_event_hash e \<notin> se_event_hash ` set (system_events db)"
  using assms
  by (induction n)
    (auto simp: Let_def system_event_save_def split: sum.splits error.splits if_splits)

lemma append_attempts_error:
  "append_attempts n build db = Inl err \<Longrightarrow> err = IntegrityError"
  by (induction n)
    (auto simp: Let_def system_event_save_def split: sum.splits error.splits if_splits)

lemma append_attempts_Suc_Inr:
  assumes "se_event_hash (build (latest_event (system_events db))) \<notin> se_event_hash ` set (system_events db)"
    and "se_seq (build (latest_event (system_events db))) =
      (case latest_event (system_events db) of None \<Rightarrow> 1 | Some l \<Rightarrow> se_seq l + 1)"
  shows "append_attempts (Suc n) build db =
    Inr (build (latest_event (system_events db)),
         db\<lparr>system_events := system_events db @ [build (latest_event (system_events db))]\<rparr>)"
proof -
  have "se_seq r \<noteq> se_seq (build (latest_event (system_events db)))"
    if "r \<in> set (system_events db)" for r
    using latest_event_fresh [OF that] assms(2) by simp
  with assms(1) show ?thesis
    by (auto simp: Let_def system_event_save_def image_iff)
qed

lemma build_event_seq [simp]:
  "se_seq (build_event env ty aty aid ac asg p sr occ l) = (case l of None \<Rightarrow> 1 | Some x \<Rightarrow> se_seq x + 1)"
  by (simp add: build_event_def Let_def)

lemma build_event_fields [simp]:
  "se_event_type (build_event env ty aty aid ac asg p sr occ l) = ty"
  "se_aggregate_type (build_event env ty aty aid ac asg p sr occ l) = aty"
  "se_aggregate_id (build_event env ty aty aid ac asg p sr occ l) = aid"
  "se_actor_member_id (build_event env ty aty aid ac asg p sr occ l) = ac"
  "se_actor_role_assignment_id (build_event env ty aty aid ac asg p sr occ l) = asg"
  "se_payload_json (build_event env ty aty aid ac asg p sr occ l) = p"
  "se_payload_hash (build_event env ty aty aid ac asg p sr occ l) = hash_json env p"
  "se_prev_hash (build_event env ty aty aid ac asg p sr occ l) =
    (case l of None \<Rightarrow> [] | Some x \<Rightarrow> se_event_hash x)"
  "se_occurred_at (build_event env ty aty aid ac asg p sr occ l) =
    (case occ of None \<Rightarrow> now env | Some t \<Rightarrow> t)"
  by (simp_all add: build_event_def Let_def)

lemma append_event_effect:
  assumes "append_event env ty aty aid ac asg p occ db = Inr (e, db')"
  obtains sr where
    "is_obj (or_empty_dict p)" "is_v2 (or_empty_dict p)"
    "validate_public_ledger_payload (or_empty_dict p) = Inr ()"
    "subject_ref_of env (or_empty_dict p) aid = Inr sr"
    "e = build_event env ty aty aid ac asg (or_empty_dict p) sr occ (latest_event (system_events db))"
    "db' = db\<lparr>system_events := system_events db @ [e]\<rparr>"
    "se_event_hash e \<notin> se_event_hash ` set (system_events db)"
  using assms
  by (auto simp: append_event_def is_v2_def Let_def split: if_splits dest!: append_attempts_Inr)

lemma append_event_db:
  "append_event env ty aty aid ac asg p occ db = Inr (e, db') \<Longrightarrow>
   db' = db\<lparr>system_events := system_events db @ [e]\<rparr>"
  by (erule append_event_effect) simp

subsection \<open>The chain after an append\<close>

definition chain_ok :: "env \<Rightarrow> 'a event_db_scheme \<Rightarrow> bool" where
  "chain_ok env db \<longleftrightarrow> verify_event_chain env db = Inr True"

definition chain_end :: "string \<Rightarrow> system_event list \<Rightarrow> string" where
  "chain_end p xs = (if xs = [] then p else se_event_hash (last xs))"

lemma verify_from_snoc:
  "verify_from env p n (xs @ [e]) = Inr True \<longleftrightarrow>
   verify_from env p n xs = Inr True \<and>
   se_seq e = n + length xs \<and> se_prev_hash e = chain_end p xs \<and>
   se_payload_hash e = hash_json env (se_payload_json e) \<and>
   expected_event_hash env e = Inr (se_event_hash e)"
  by (induction xs arbitrary: p n) (auto simp: chain_end_def)

lemma verify_from_seqs:
  "verify_from env p n xs = Inr True \<Longrightarrow> map se_seq xs = [n ..< n + length xs]"
proof (induction xs arbitrary: p n)
  case Nil
  then show ?case by simp
next
  case (Cons e xs)
  then have "se_seq e = n" "map se_seq xs = [Suc n ..< Suc n + length xs]"
    by (force split: if_splits)+
  then show ?case by (simp add: upt_conv_Cons del: upt_Suc)
qed

lemma events_by_seq_snoc:
  "(\<And>x. x \<in> set es \<Longrightarrow> se_seq x \<le> se_seq e) \<Longrightarrow> events_by_seq (es @ [e]) = events_by_seq es @ [e]"
  by (simp add: events_by_seq_def sort_key_snoc)

lemma chain_end_latest:
  "chain_end [] (events_by_seq es) = (case latest_event es of None \<Rightarrow> [] | Some l \<Rightarrow> se_event_hash l)"
  using latest_event_Some [of es]
  by (cases "latest_event es") (auto simp: chain_end_def events_by_seq_def)

lemma chain_ok_latest_seq:
  assumes "chain_ok env db"
  shows "(case latest_event (system_events db) of None \<Rightarrow> 1 | Some l \<Rightarrow> se_seq l + 1) =
    1 + length (system_events db)"
proof (cases "latest_event (system_events db)")
  case None
  then show ?thesis by simp
next
  case (Some l)
  let ?xs = "events_by_seq (system_events db)"
  have len: "length ?xs = length (system_events db)" by (simp add: events_by_seq_def)
  from latest_event_Some [OF Some] have ne: "?xs \<noteq> []" and l: "last ?xs = l" by auto
  have seqs: "map se_seq ?xs = [1 ..< 1 + length ?xs]"
    using assms verify_from_seqs by (simp add: chain_ok_def verify_event_chain_def)
  then have "se_seq (last ?xs) = last [1 ..< 1 + length ?xs]"
    using ne by (metis last_map)
  also have "\<dots> = length ?xs" using ne by (cases ?xs) auto
  finally show ?thesis using Some l len by simp
qed

lemma expected_event_hash_build:
  assumes "is_obj p" "is_v2 p" "subject_ref_of env p aid = Inr sr"
  shows "expected_event_hash env (build_event env ty aty aid ac asg p sr occ l) =
    Inr (se_event_hash (build_event env ty aty aid ac asg p sr occ l))"
proof -
  have "or_empty_dict p = p"
    using assms(1) by (cases p) (auto simp: or_empty_dict_def)
  with assms show ?thesis
    by (simp add: expected_event_hash_def) (simp add: build_event_def Let_def)
qed

theorem append_keeps_chain:
  assumes ok: "chain_ok env db"
    and app: "append_event env ty aty aid ac asg p occ db = Inr (e, db')"
  shows "chain_ok env db'"
proof -
  from app obtain sr where p: "is_obj (or_empty_dict p)" "is_v2 (or_empty_dict p)"
      "subject_ref_of env (or_empty_dict p) aid = Inr sr"
    and e: "e = build_event env ty aty aid ac asg (or_empty_dict p) sr occ
      (latest_event (system_events db))"
    and db': "db' = db\<lparr>system_events := system_events db @ [e]\<rparr>"
    by (rule append_event_effect)
  let ?es = "system_events db"
  have seq: "se_seq e = 1 + length ?es"
    using chain_ok_latest_seq [OF ok] e by simp
  have "events_by_seq (?es @ [e]) = events_by_seq ?es @ [e]"
    using latest_event_fresh [of _ ?es] e by (intro events_by_seq_snoc) (auto intro: less_imp_le)
  moreover have "se_prev_hash e = chain_end [] (events_by_seq ?es)"
    by (simp add: e chain_end_latest)
  moreover have "length (events_by_seq ?es) = length ?es"
    by (simp add: events_by_seq_def)
  ultimately show ?thesis
    using ok seq expected_event_hash_build [OF p] e
    by (simp add: chain_ok_def verify_event_chain_def db' verify_from_snoc)
qed

subsection \<open>Auditing a service call\<close>

text \<open>
  \<open>audited env db db'\<close>: between the two states the log only grew, and if it verified before it
  verifies now. It is reflexive, transitive, closed under \<open>append_event\<close> and blind to every other
  table, so a service inherits it from the calls it makes.
\<close>

definition audited :: "env \<Rightarrow> 'a event_db_scheme \<Rightarrow> 'b event_db_scheme \<Rightarrow> bool" where
  "audited env db db' \<longleftrightarrow>
    prefix (system_events db) (system_events db') \<and> (chain_ok env db \<longrightarrow> chain_ok env db')"

lemma chain_ok_cong: "system_events db = system_events db' \<Longrightarrow> chain_ok env db \<longleftrightarrow> chain_ok env db'"
  by (simp add: chain_ok_def verify_event_chain_def)

lemma audited_same: "system_events db' = system_events db \<Longrightarrow> audited env db db'"
  by (auto simp: audited_def chain_ok_def verify_event_chain_def)

lemma audited_refl [simp]: "audited env db db"
  by (simp add: audited_same)

lemma audited_trans: "audited env db1 db2 \<Longrightarrow> audited env db2 db3 \<Longrightarrow> audited env db1 db3"
  by (auto simp: audited_def intro: prefix_order.order_trans)

lemma audited_append:
  "append_event env ty aty aid ac asg p occ db = Inr (e, db') \<Longrightarrow> audited env db db'"
  using append_keeps_chain [of env db ty aty aid ac asg p occ e db'] append_event_db [of env ty aty aid ac asg p occ db e db']
  by (simp add: audited_def)

lemma audited_cong_left:
  "system_events db0 = system_events db \<Longrightarrow> audited env db0 db' \<longleftrightarrow> audited env db db'"
  by (simp add: audited_def chain_ok_def verify_event_chain_def)

lemma audited_cong_right:
  "system_events db0 = system_events db' \<Longrightarrow> audited env db db0 \<longleftrightarrow> audited env db db'"
  by (simp add: audited_def chain_ok_def verify_event_chain_def)

lemma expected_event_hash_now [simp]: "expected_event_hash (env\<lparr>now := t\<rparr>) e = expected_event_hash env e"
proof -
  have "py_str (env\<lparr>now := t\<rparr>) v = py_str env v" for v by (cases v) simp_all
  then show ?thesis
    by (simp add: expected_event_hash_def subject_ref_of_def compute_event_hash_v2_def
        compute_event_hash_def hash_json_def Let_def cong: if_cong option.case_cong)
qed

lemma verify_from_now [simp]: "verify_from (env\<lparr>now := t\<rparr>) p n es = verify_from env p n es"
  by (induction es arbitrary: p n) (simp_all add: hash_json_def cong: if_cong)

text \<open>The verdict on a chain does not depend on the clock.\<close>

lemma chain_ok_now [simp]: "chain_ok (env\<lparr>now := t\<rparr>) db = chain_ok env db"
  by (simp add: chain_ok_def verify_event_chain_def)

lemma audited_now [simp]: "audited (env\<lparr>now := t\<rparr>) db db' = audited env db db'"
  by (simp add: audited_def)

text \<open>
  The interface the services see of the ledger: a log that an emit extends by one entry, and a
  verdict on the log that an emit keeps.
\<close>

locale event_sink =
  fixes emit :: "'arg \<Rightarrow> 's \<Rightarrow> ('e \<times> 's) result"
    and log :: "'s \<Rightarrow> 'e list"
    and ok :: "'s \<Rightarrow> bool"
  assumes emit_log: "emit a s = Inr (e, s') \<Longrightarrow> log s' = log s @ [e]"
    and emit_ok: "ok s \<Longrightarrow> emit a s = Inr (e, s') \<Longrightarrow> ok s'"

sublocale event_sink \<subseteq> history: guarded_service emit ok "\<lambda>s t. prefix (log s) (log t)"
  by unfold_locales (auto intro: emit_ok dest: emit_log prefix_order.order_trans)

context event_sink
begin

lemma run_log: "ok s \<Longrightarrow> ok (run_ops emit as s) \<and> prefix (log s) (log (run_ops emit as s))"
  by (simp add: history.run_inv history.run_rel)

end

record event_request =
  rq_event_type :: string
  rq_aggregate_type :: string
  rq_aggregate_id :: string
  rq_actor :: "int option"
  rq_assignment :: "int option"
  rq_payload :: json
  rq_occurred_at :: "time option"

definition emit_event ::
    "env \<Rightarrow> event_request \<Rightarrow> 'a event_db_scheme \<Rightarrow> (system_event \<times> 'a event_db_scheme) result" where
  "emit_event env rq db =
    append_event env (rq_event_type rq) (rq_aggregate_type rq) (rq_aggregate_id rq) (rq_actor rq)
      (rq_assignment rq) (rq_payload rq) (rq_occurred_at rq) db"

interpretation ledger: event_sink "emit_event env" system_events "chain_ok env" for env
  by unfold_locales
    (auto simp: emit_event_def intro: append_keeps_chain dest: append_event_db)

subsection \<open>Accepted payloads expose no denied key\<close>

fun all_keys :: "json \<Rightarrow> string set" where
  "all_keys (JObj kvs) = (\<Union>(k, v) \<in> set kvs. insert k (all_keys v))"
| "all_keys (JList xs) = (\<Union>x \<in> set xs. all_keys x)"
| "all_keys _ = {}"

text \<open>Wherever a dict has the key \<^verbatim>\<open>private_commitments\<close>, its value is a list.\<close>

fun commitments_are_lists :: "json \<Rightarrow> bool" where
  "commitments_are_lists (JObj kvs) =
    (\<forall>(k, v) \<in> set kvs. (k = ''private_commitments'' \<longrightarrow> is_list v) \<and> commitments_are_lists v)"
| "commitments_are_lists (JList xs) = (\<forall>x \<in> set xs. commitments_are_lists x)"
| "commitments_are_lists _ = True"

lemma commitment_keys_allowed:
  "k \<in> set commitment_keys \<Longrightarrow> k \<notin> set PUBLIC_LEDGER_DENYLIST_KEYS"
  by (auto simp: commitment_keys_def PUBLIC_LEDGER_DENYLIST_KEYS_def)

lemma private_commitments_allowed: "''private_commitments'' \<notin> set PUBLIC_LEDGER_DENYLIST_KEYS"
  by (simp add: PUBLIC_LEDGER_DENYLIST_KEYS_def)

lemma all_keys_scalar: "\<not> is_obj v \<Longrightarrow> \<not> is_list v \<Longrightarrow> all_keys v = {}"
  by (cases v) auto

lemma validate_node_safe:
  "validate_node inside path v = Inr () \<Longrightarrow> commitments_are_lists v \<Longrightarrow>
     all_keys v \<inter> set PUBLIC_LEDGER_DENYLIST_KEYS = {}"
  "validate_items inside path kvs = Inr () \<Longrightarrow> commitments_are_lists (JObj kvs) \<Longrightarrow>
     all_keys (JObj kvs) \<inter> set PUBLIC_LEDGER_DENYLIST_KEYS = {}"
  "validate_elems inside path idx xs = Inr () \<Longrightarrow> commitments_are_lists (JList xs) \<Longrightarrow>
     all_keys (JList xs) \<inter> set PUBLIC_LEDGER_DENYLIST_KEYS = {}"
proof (induction inside path v and inside path kvs and inside path idx xs
    rule: validate_node_validate_items_validate_elems.induct)
  case (8 inside path key v kvs)
  have rest: "all_keys (JObj kvs) \<inter> set PUBLIC_LEDGER_DENYLIST_KEYS = {}"
    using "8.IH"(3) "8.prems" by (auto simp: Let_def)
  have "key \<notin> set PUBLIC_LEDGER_DENYLIST_KEYS"
    using "8.prems"(1) commitment_keys_allowed private_commitments_allowed
    by (auto simp: Let_def split: if_splits)
  moreover have "all_keys v \<inter> set PUBLIC_LEDGER_DENYLIST_KEYS = {}"
  proof (cases "is_obj v \<or> is_list v")
    case False
    then show ?thesis by (simp add: all_keys_scalar)
  next
    case True
    then show ?thesis using "8.prems" "8.IH"(1,2)
      by (cases v) (auto simp: Let_def split: if_splits)
  qed
  ultimately show ?case using rest by auto
next
  case (10 inside path idx x xs)
  then have "all_keys x \<inter> set PUBLIC_LEDGER_DENYLIST_KEYS = {}"
    "all_keys (JList xs) \<inter> set PUBLIC_LEDGER_DENYLIST_KEYS = {}" by auto
  then show ?case by auto
qed simp_all

lemma validated_payload_safe:
  assumes "validate_public_ledger_payload p = Inr ()" and "commitments_are_lists p"
  shows "all_keys p \<inter> set PUBLIC_LEDGER_DENYLIST_KEYS = {}"
proof -
  from assms(1) have "validate_node False ''payload_json'' p = Inr ()"
    by (auto simp: validate_public_ledger_payload_def split: if_splits option.splits json.splits)
  then show ?thesis using assms(2) by (rule validate_node_safe(1))
qed

subsection \<open>Tamper evidence\<close>

definition sha_collision :: "env \<Rightarrow> bool" where
  "sha_collision env \<longleftrightarrow> (\<exists>u v. u \<noteq> v \<and> sha256 env u = sha256 env v)"

text \<open>What the public can recompute of an event.\<close>

definition public_view :: "system_event \<Rightarrow> nat \<times> string \<times> string \<times> json \<times> string \<times> string \<times> string" where
  "public_view e = (se_seq e, se_event_type e, se_aggregate_type e, sort_keys (se_payload_json e),
     se_payload_hash e, se_prev_hash e, se_event_hash e)"

lemma hash_json_inject:
  "hash_json env v = hash_json env w \<Longrightarrow> sha_collision env \<or> sort_keys v = sort_keys w"
  by (auto simp: hash_json_def sha_collision_def canonical_json_eq_iff [symmetric])

lemma sort_keys_get:
  assumes "sort_keys (JObj kvs) = sort_keys (JObj lws)"
    and "distinct (map fst kvs)" "distinct (map fst lws)"
  shows "map_option sort_keys (map_of kvs k) = map_option sort_keys (map_of lws k)"
  using assms json_get_sort_keys by metis

lemma hash_payload_v2_inject:
  assumes "sort_keys (event_hash_payload_v2 n ty aty sr ph prev) =
    sort_keys (event_hash_payload_v2 n' ty' aty' sr' ph' prev')"
  shows "n = n' \<and> ty = ty' \<and> aty = aty' \<and> ph = ph' \<and> prev = prev'"
  using sort_keys_get [OF assms [unfolded event_hash_payload_v2_def], of "''seq''"]
    sort_keys_get [OF assms [unfolded event_hash_payload_v2_def], of "''event_type''"]
    sort_keys_get [OF assms [unfolded event_hash_payload_v2_def], of "''aggregate_type''"]
    sort_keys_get [OF assms [unfolded event_hash_payload_v2_def], of "''payload_hash''"]
    sort_keys_get [OF assms [unfolded event_hash_payload_v2_def], of "''prev_hash''"]
  by simp

lemma hash_payload_v1_inject:
  assumes "sort_keys (event_hash_payload n ty aty aid ac asg ph prev) =
    sort_keys (event_hash_payload n' ty' aty' aid' ac' asg' ph' prev')"
  shows "n = n' \<and> ty = ty' \<and> aty = aty' \<and> ph = ph' \<and> prev = prev'"
  using sort_keys_get [OF assms [unfolded event_hash_payload_def], of "''seq''"]
    sort_keys_get [OF assms [unfolded event_hash_payload_def], of "''event_type''"]
    sort_keys_get [OF assms [unfolded event_hash_payload_def], of "''aggregate_type''"]
    sort_keys_get [OF assms [unfolded event_hash_payload_def], of "''payload_hash''"]
    sort_keys_get [OF assms [unfolded event_hash_payload_def], of "''prev_hash''"]
  by simp

lemma hash_payload_versions_differ:
  "sort_keys (event_hash_payload_v2 n ty aty sr ph prev) \<noteq>
   sort_keys (event_hash_payload n' ty' aty' aid' ac' asg' ph' prev')"
proof
  assume "sort_keys (event_hash_payload_v2 n ty aty sr ph prev) =
    sort_keys (event_hash_payload n' ty' aty' aid' ac' asg' ph' prev')"
  from sort_keys_get [OF this [unfolded event_hash_payload_v2_def event_hash_payload_def],
      of "''schema''"]
  show False by simp
qed

lemma expected_event_hash_cases:
  assumes "expected_event_hash env e = Inr h"
  obtains (v2) sr where "h = hash_json env (event_hash_payload_v2 (se_seq e) (se_event_type e)
      (se_aggregate_type e) sr (se_payload_hash e) (se_prev_hash e))"
  | (v1) "h = hash_json env (event_hash_payload (se_seq e) (se_event_type e) (se_aggregate_type e)
      (se_aggregate_id e) (se_actor_member_id e) (se_actor_role_assignment_id e)
      (se_payload_hash e) (se_prev_hash e))"
  using assms
  by (auto simp: expected_event_hash_def compute_event_hash_v2_def compute_event_hash_def Let_def
      split: if_splits)

lemma equal_hash_equal_event:
  assumes "expected_event_hash env e = Inr h" "expected_event_hash env f = Inr h"
    and "se_payload_hash e = hash_json env (se_payload_json e)"
    and "se_payload_hash f = hash_json env (se_payload_json f)"
    and "se_event_hash e = h" "se_event_hash f = h" and "\<not> sha_collision env"
  shows "public_view e = public_view f"
proof -
  have "se_seq e = se_seq f \<and> se_event_type e = se_event_type f \<and>
    se_aggregate_type e = se_aggregate_type f \<and> se_payload_hash e = se_payload_hash f \<and>
    se_prev_hash e = se_prev_hash f"
    using assms(1)
  proof (cases rule: expected_event_hash_cases)
    case (v2 sr)
    note e = this
    from assms(2) show ?thesis
    proof (cases rule: expected_event_hash_cases)
      case (v2 sr')
      with e assms(7) show ?thesis by (metis hash_json_inject hash_payload_v2_inject)
    next
      case v1
      with e assms(7) show ?thesis by (metis hash_json_inject hash_payload_versions_differ)
    qed
  next
    case v1
    note e = this
    from assms(2) show ?thesis
    proof (cases rule: expected_event_hash_cases)
      case (v2 sr')
      with e assms(7) show ?thesis by (metis hash_json_inject hash_payload_versions_differ)
    next
      case v1
      with e assms(7) show ?thesis by (metis hash_json_inject hash_payload_v1_inject)
    qed
  qed
  moreover have "sort_keys (se_payload_json e) = sort_keys (se_payload_json f)"
    using calculation assms(3,4,7) hash_json_inject by metis
  ultimately show ?thesis using assms(5,6) by (simp add: public_view_def)
qed

lemma chains_with_equal_end:
  assumes "verify_from env p n xs = Inr True" "verify_from env q n ys = Inr True"
    and "length xs = length ys" and "xs \<noteq> [] \<longrightarrow> se_event_hash (last xs) = se_event_hash (last ys)"
    and "\<not> sha_collision env"
  shows "map public_view xs = map public_view ys"
  using assms
proof (induction xs arbitrary: ys rule: rev_induct)
  case Nil
  then show ?case by simp
next
  case (snoc e xs)
  then obtain f ys' where ys: "ys = ys' @ [f]" and len: "length xs = length ys'"
    by (cases ys rule: rev_cases) auto
  have xs: "verify_from env p n xs = Inr True" "se_prev_hash e = chain_end p xs"
      "se_payload_hash e = hash_json env (se_payload_json e)"
      "expected_event_hash env e = Inr (se_event_hash e)"
    using snoc.prems(1) unfolding verify_from_snoc by blast+
  have ys': "verify_from env q n ys' = Inr True" "se_prev_hash f = chain_end q ys'"
      "se_payload_hash f = hash_json env (se_payload_json f)"
      "expected_event_hash env f = Inr (se_event_hash f)"
    using snoc.prems(2) unfolding ys verify_from_snoc by blast+
  have heq: "se_event_hash e = se_event_hash f" using snoc.prems(4) ys by simp
  have view: "public_view e = public_view f"
    by (rule equal_hash_equal_event [OF xs(4) ys'(4) [folded heq] xs(3) ys'(3) refl
          heq [symmetric] snoc.prems(5)])
  then have prev: "se_prev_hash e = se_prev_hash f" by (simp add: public_view_def)
  have "xs \<noteq> [] \<longrightarrow> se_event_hash (last xs) = se_event_hash (last ys')"
    using xs(2) ys'(2) prev len by (auto simp: chain_end_def split: if_splits)
  then have "map public_view xs = map public_view ys'"
    using snoc.IH [OF xs(1) ys'(1) len] snoc.prems(5) by simp
  with view ys show ?case by simp
qed

lemma last_seq_is_length:
  assumes "verify_from env p 1 xs = Inr True" and "xs \<noteq> []"
  shows "se_seq (last xs) = length xs"
  using assms by (cases xs rule: rev_cases) (auto simp: verify_from_snoc)

text \<open>
  Two logs that both verify and end in the same event hash hold the same public history, unless
  someone found two texts with the same digest.
\<close>

lemma chains_agree:
  assumes "verify_from env [] 1 xs = Inr True" "verify_from env [] 1 ys = Inr True"
    and "xs \<noteq> []" "ys \<noteq> []" "se_event_hash (last xs) = se_event_hash (last ys)"
    and "\<not> sha_collision env"
  shows "map public_view xs = map public_view ys"
proof -
  have "public_view (last xs) = public_view (last ys)"
  proof -
    obtain xs' e where xs: "xs = xs' @ [e]" using assms(3) by (cases xs rule: rev_cases) auto
    obtain ys' f where ys: "ys = ys' @ [f]" using assms(4) by (cases ys rule: rev_cases) auto
    have e: "se_payload_hash e = hash_json env (se_payload_json e)"
      "expected_event_hash env e = Inr (se_event_hash e)"
      using assms(1) unfolding xs verify_from_snoc by blast+
    have f: "se_payload_hash f = hash_json env (se_payload_json f)"
      "expected_event_hash env f = Inr (se_event_hash f)"
      using assms(2) unfolding ys verify_from_snoc by blast+
    have heq: "se_event_hash e = se_event_hash f" using assms(5) xs ys by simp
    from equal_hash_equal_event [OF e(2) f(2) [folded heq] e(1) f(1) refl heq [symmetric] assms(6)]
    show ?thesis by (simp add: xs ys)
  qed
  then have "length xs = length ys"
    using assms(1-4) last_seq_is_length by (metis public_view_def prod.inject)
  with assms show ?thesis by (intro chains_with_equal_end [of env "[]" 1 xs "[]" ys]) auto
qed

end
