(* ===== verification/Event_Payloads.thy ===== *)
theory Event_Payloads
  imports Event_Ledger
begin

text \<open>
  Members (\<^verbatim>\<open>core/models/identity.py: Member\<close>) and the shared part of \<^verbatim>\<open>core/event_payloads.py\<close>:
  the public wrapper, private commitments, masked member labels and public references. The
  builders of each component stand in that component's theory. \<open>public_event_payload_valid\<close>
  says when a wrapped payload passes the ledger's privacy check, and \<open>append_valid\<close> that
  appending a valid payload can then only fail on a digest clash.
\<close>

subsection \<open>Members\<close>

datatype member_status =
    MemberActive | PendingTraining | MemberPendingReview | Admitted | ApplicationRejected
  | Suspended | Exited

record member =
  m_id :: int
  m_member_no :: string
  m_user_active :: "bool option"  \<comment> \<open>linked login account, and whether it is active\<close>
  m_display_name :: string
  m_status :: member_status
  m_batch_id :: string
  m_joined_simulation_day :: "nat option"
  m_credit_floor :: int
  m_profile :: json
  m_created_at :: time
  m_metadata :: json

text \<open>An actor reference (\<^verbatim>\<open>core/service_utils.py: actor_ref\<close>) is a JSON dict.\<close>

definition actor_type_for_current_world :: "string \<Rightarrow> string" where
  "actor_type_for_current_world world_instance_type =
    (if world_instance_type = ''simulation'' then ''virtual_member'' else ''human_member'')"

text \<open>\<^verbatim>\<open>str(member.display_name or member.profile.get("display_name") or member.member_no)\<close>.\<close>

definition member_label :: "env \<Rightarrow> member option \<Rightarrow> string" where
  "member_label env mo = (case mo of None \<Rightarrow> []
     | Some m \<Rightarrow>
        (if m_display_name m \<noteq> [] then m_display_name m
         else (case json_get ''display_name'' (m_profile m) of
                 Some v \<Rightarrow> (if json_truthy v then py_str env v else m_member_no m)
               | None \<Rightarrow> m_member_no m)))"

definition actor_ref :: "env \<Rightarrow> string \<Rightarrow> member \<Rightarrow> json" where
  "actor_ref env world m =
    JObj [(''actor_id'', JStr (m_member_no m)),
          (''actor_type'', JStr (actor_type_for_current_world world)),
          (''display_name'', JStr (member_label env (Some m)))]"

text \<open>\<^verbatim>\<open>actor_member_from_ref\<close>: the member whose number is the reference's \<^verbatim>\<open>actor_id\<close>.\<close>

definition actor_member_from_ref :: "env \<Rightarrow> member list \<Rightarrow> json \<Rightarrow> member option" where
  "actor_member_from_ref env members ref =
    (if \<not> json_truthy ref then None
     else (case json_get ''actor_id'' ref of
        None \<Rightarrow> None
      | Some v \<Rightarrow> if json_truthy v then find_row (\<lambda>m. m_member_no m = py_str env v) members
                   else None))"

subsection \<open>Labels and references\<close>

text \<open>\<^verbatim>\<open>str(name or "").strip() or str(member_no or "").strip() or "new member"\<close>, then masked.\<close>

definition public_member_label :: "string \<Rightarrow> string \<Rightarrow> string" where
  "public_member_label name member_no =
    (let label = (if py_strip name \<noteq> [] then py_strip name
                  else if py_strip member_no \<noteq> [] then py_strip member_no
                  else ''new member'') in
     if length label \<le> 1 then ''*''
     else if length label = 2 then hd label # ''*''
     else hd label # ''**'' @ [last label])"

definition replace_spaces :: "string \<Rightarrow> string" where
  "replace_spaces s = map (\<lambda>c. if c = CHR '' '' then CHR ''-'' else c) s"

fun join_colon :: "string list \<Rightarrow> string" where
  "join_colon [] = []"
| "join_colon [s] = s"
| "join_colon (s # t # ss) = s @ '':'' @ join_colon (t # ss)"

definition public_ref :: "string list \<Rightarrow> string" where
  "public_ref parts =
    (let cleaned = map (\<lambda>p. replace_spaces (py_strip p)) (filter (\<lambda>p. py_strip p \<noteq> []) parts);
         joined = join_colon cleaned
     in if joined \<noteq> [] then joined else ''unknown'')"

subsection \<open>The wrapper\<close>

definition private_commitment :: "string \<Rightarrow> bool \<Rightarrow> string \<Rightarrow> json" where
  "private_commitment name present reason =
    JObj ([(''name'', JStr name), (''present'', JBool present)] @
          (if reason \<noteq> [] then [(''reason'', JStr reason)] else []))"

definition public_event_payload ::
    "string \<Rightarrow> string \<Rightarrow> string \<Rightarrow> string \<Rightarrow> string \<Rightarrow> string \<Rightarrow> (string \<times> json) list \<Rightarrow> json list \<Rightarrow> json" where
  "public_event_payload subject_type subject_ref subject_label action stage summary
      public_facts private_commitments =
    JObj [(''schema'', JStr PUBLIC_LEDGER_SCHEMA),
          (''subject'', JObj [(''type'', JStr subject_type), (''ref'', JStr subject_ref),
             (''label'', JStr subject_label)]),
          (''action'', JStr action), (''stage'', JStr stage), (''summary'', JStr summary),
          (''public_facts'', JObj public_facts),
          (''private_commitments'', JList private_commitments)]"

subsection \<open>When a wrapped payload is valid\<close>

fun scalar :: "json \<Rightarrow> bool" where
  "scalar (JObj _) = False"
| "scalar (JList _) = False"
| "scalar _ = True"

fun flat_value :: "json \<Rightarrow> bool" where
  "flat_value (JList xs) = list_all scalar xs"
| "flat_value (JObj _) = False"
| "flat_value _ = True"

definition safe_facts :: "(string \<times> json) list \<Rightarrow> bool" where
  "safe_facts facts = list_all (\<lambda>(k, v). k \<notin> set PUBLIC_LEDGER_DENYLIST_KEYS \<and>
     k \<noteq> ''private_commitments'' \<and> flat_value v) facts"

fun commitment_item :: "json \<Rightarrow> bool" where
  "commitment_item (JObj kvs) = list_all (\<lambda>(k, v). k \<in> set commitment_keys \<and> scalar v) kvs"
| "commitment_item _ = False"

lemma safe_facts_simps [simp]:
  "safe_facts []"
  "safe_facts ((k, v) # kvs) \<longleftrightarrow> k \<notin> set PUBLIC_LEDGER_DENYLIST_KEYS \<and>
     k \<noteq> ''private_commitments'' \<and> flat_value v \<and> safe_facts kvs"
  "safe_facts (xs @ ys) \<longleftrightarrow> safe_facts xs \<and> safe_facts ys"
  by (auto simp: safe_facts_def)

lemma private_commitment_item [simp]: "commitment_item (private_commitment n p r)"
  by (simp add: private_commitment_def commitment_keys_def)

lemma validate_scalar: "scalar v \<Longrightarrow> validate_node inside path v = Inr ()"
  by (cases v) auto

lemma scalar_iff: "scalar v \<longleftrightarrow> \<not> is_obj v \<and> \<not> is_list v"
  by (cases v) auto

lemma validate_scalars: "list_all scalar xs \<Longrightarrow> validate_elems inside path idx xs = Inr ()"
  by (induction xs arbitrary: idx) (auto simp: validate_scalar)

lemma validate_flat: "flat_value v \<Longrightarrow> validate_node False path v = Inr ()"
  by (cases v) (auto simp: validate_scalars)

lemma validate_safe_facts: "safe_facts facts \<Longrightarrow> validate_items False path facts = Inr ()"
  by (induction facts) (auto simp: Let_def validate_flat split: json.splits)

lemma validate_commitment_keys:
  "list_all (\<lambda>(k, v). k \<in> set commitment_keys \<and> scalar v) kvs \<Longrightarrow> validate_items True path kvs = Inr ()"
  by (induction kvs) (auto simp: Let_def scalar_iff)

lemma validate_commitments:
  "list_all commitment_item cs \<Longrightarrow> validate_elems True path idx cs = Inr ()"
proof (induction cs arbitrary: idx)
  case (Cons c cs)
  then obtain kvs where "c = JObj kvs" by (cases c) auto
  with Cons show ?case by (auto intro: validate_commitment_keys)
qed simp

lemma wrapper_keys_allowed:
  "set [''schema'', ''subject'', ''type'', ''ref'', ''label'', ''action'', ''stage'', ''summary'',
     ''public_facts''] \<inter> set PUBLIC_LEDGER_DENYLIST_KEYS = {}"
  by (simp add: PUBLIC_LEDGER_DENYLIST_KEYS_def)

definition nonblank :: "string \<Rightarrow> bool" where
  "nonblank s \<longleftrightarrow> py_strip s \<noteq> []"

lemma nonblank_iff: "nonblank s \<longleftrightarrow> (\<exists>c \<in> set s. \<not> is_space c)"
proof -
  have "dropWhile is_space s = [] \<longleftrightarrow> (\<forall>c \<in> set s. is_space c)" for s by (rule dropWhile_eq_Nil_conv)
  moreover have "(\<forall>c \<in> set (dropWhile is_space s). is_space c) \<longleftrightarrow> (\<forall>c \<in> set s. is_space c)"
    by (metis (no_types) dropWhile_eq_Nil_conv hd_dropWhile list.set_intros(1) list.set_sel(1) set_dropWhileD)
  ultimately show ?thesis by (auto simp: nonblank_def py_strip_def)
qed

lemma nonblank_append [simp]: "nonblank (s @ t) \<longleftrightarrow> nonblank s \<or> nonblank t"
  by (auto simp: nonblank_iff)

lemma nonblank_Cons [simp]: "nonblank (c # s) \<longleftrightarrow> \<not> is_space c \<or> nonblank s"
  by (auto simp: nonblank_iff)

lemma nonblank_Nil [simp]: "\<not> nonblank []"
  by (simp add: nonblank_iff)

lemma public_event_payload_valid:
  assumes "nonblank ty" "nonblank ref" "nonblank label" "nonblank action" "nonblank stage"
    "nonblank summary" "safe_facts facts" "list_all commitment_item cs"
  shows "validate_public_ledger_payload
    (public_event_payload ty ref label action stage summary facts cs) = Inr ()"
  using assms wrapper_keys_allowed
  by (simp add: validate_public_ledger_payload_def public_event_payload_def nonblank_def Let_def
      validate_safe_facts validate_commitments)

lemma public_event_payload_wf [simp]:
  "or_empty_dict (public_event_payload ty ref label action stage summary facts cs) =
     public_event_payload ty ref label action stage summary facts cs"
  "is_obj (public_event_payload ty ref label action stage summary facts cs)"
  "json_get ''schema'' (public_event_payload ty ref label action stage summary facts cs) =
     Some (JStr PUBLIC_LEDGER_SCHEMA)"
  "subject_ref_of env (public_event_payload ty ref label action stage summary facts cs) aid = Inr ref"
  by (simp_all add: public_event_payload_def or_empty_dict_def subject_ref_of_def)

text \<open>The event that appending a wrapped payload builds.\<close>

definition next_event ::
    "env \<Rightarrow> string \<Rightarrow> string \<Rightarrow> string \<Rightarrow> int option \<Rightarrow> int option \<Rightarrow> json \<Rightarrow> string \<Rightarrow> time option \<Rightarrow>
     'a event_db_scheme \<Rightarrow> system_event" where
  "next_event env ty aty aid ac asg p ref occ db =
    build_event env ty aty aid ac asg p ref occ (latest_event (system_events db))"

lemma append_attempts_stuck:
  "se_event_hash (build (latest_event (system_events db))) \<in> se_event_hash ` set (system_events db) \<Longrightarrow>
   append_attempts n build db = Inl IntegrityError"
  by (induction n) (auto simp: Let_def system_event_save_def image_iff)

lemma append_valid:
  assumes "validate_public_ledger_payload p = Inr ()"
    and "p = public_event_payload sty ref label action stage summary facts cs"
  shows "append_event env ty aty aid ac asg p occ db =
    (let e = next_event env ty aty aid ac asg p ref occ db in
     if se_event_hash e \<in> se_event_hash ` set (system_events db) then Inl IntegrityError
     else Inr (e, db\<lparr>system_events := system_events db @ [e]\<rparr>))"
proof -
  let ?build = "build_event env ty aty aid ac asg p ref occ"
  have "append_event env ty aty aid ac asg p occ db = append_attempts (Suc 2) ?build db"
    using assms by (simp add: append_event_def Let_def numeral_eq_Suc)
  moreover have "append_attempts (Suc 2) ?build db =
      Inr (?build (latest_event (system_events db)),
        db\<lparr>system_events := system_events db @ [?build (latest_event (system_events db))]\<rparr>)"
    if "se_event_hash (?build (latest_event (system_events db))) \<notin> se_event_hash ` set (system_events db)"
    using that by (rule append_attempts_Suc_Inr) simp
  ultimately show ?thesis
    by (auto simp: Let_def next_event_def append_attempts_stuck)
qed

subsection \<open>Masked labels\<close>

lemma py_strip_idem [simp]: "py_strip (py_strip s) = py_strip s"
proof -
  let ?d = "dropWhile is_space"
  have idem: "?d (?d x) = ?d x" for x by (metis dropWhile_idem)
  have hd: "?d (rev (?d (rev (?d s)))) = rev (?d (rev (?d s)))"
  proof (cases "rev (?d (rev (?d s)))")
    case (Cons c cs)
    have "prefix (rev (?d (rev (?d s)))) (?d s)"
      by (metis suffix_dropWhile suffix_to_prefix rev_rev_ident)
    then obtain zs where zs: "?d s = c # cs @ zs"
      using Cons by (auto simp: prefix_def)
    then have "\<not> is_space c" using hd_dropWhile [of is_space s] by (metis list.discI list.sel(1))
    with Cons show ?thesis by simp
  next
    case Nil
    then show ?thesis by (simp only: dropWhile.simps)
  qed
  show ?thesis by (simp add: py_strip_def hd idem)
qed

lemma public_member_label_length: "length (public_member_label name no) \<le> 4"
  by (simp add: public_member_label_def Let_def)

subsection \<open>Appending cannot fail without a digest collision\<close>

lemma verify_from_member:
  "verify_from env p n es = Inr True \<Longrightarrow> e \<in> set es \<Longrightarrow>
   se_payload_hash e = hash_json env (se_payload_json e) \<and> expected_event_hash env e = Inr (se_event_hash e)"
  by (induction es arbitrary: p n) (auto split: if_splits)

lemma sha_collision_now [simp]: "sha_collision (env\<lparr>now := t\<rparr>) = sha_collision env"
  by (simp add: sha_collision_def)

lemma append_succeeds:
  assumes ok: "chain_ok env db" and nc: "\<not> sha_collision env"
    and valid: "validate_public_ledger_payload p = Inr ()"
    and p: "p = public_event_payload sty ref label action stage summary facts cs"
  shows "append_event env ty aty aid ac asg p occ db =
    (let e = next_event env ty aty aid ac asg p ref occ db in
     Inr (e, db\<lparr>system_events := system_events db @ [e]\<rparr>))"
proof -
  define e where "e = next_event env ty aty aid ac asg p ref occ db"
  have exp: "expected_event_hash env e = Inr (se_event_hash e)"
    using p by (simp add: e_def next_event_def expected_event_hash_build is_v2_def)
  have "se_event_hash e \<notin> se_event_hash ` set (system_events db)"
  proof
    assume "se_event_hash e \<in> se_event_hash ` set (system_events db)"
    then obtain f where f: "f \<in> set (system_events db)" "se_event_hash f = se_event_hash e" by auto
    then have f': "se_payload_hash f = hash_json env (se_payload_json f)"
      "expected_event_hash env f = Inr (se_event_hash f)"
      using ok verify_from_member unfolding chain_ok_def verify_event_chain_def by (metis set_events_by_seq)+
    have "public_view e = public_view f"
      using equal_hash_equal_event [of env e "se_event_hash e" f] exp f f' nc
      by (simp add: e_def next_event_def)
    then have "se_seq f = se_seq e" by (simp add: public_view_def)
    with latest_event_fresh [OF f(1)] show False by (simp add: e_def next_event_def)
  qed
  with append_valid [OF valid p, of env ty aty aid ac asg occ db] show ?thesis by (simp add: Let_def e_def)
qed

text \<open>An environment whose digest is the text itself, used to run the services on examples.\<close>

definition plain_env :: env where
  "plain_env = \<lparr>sha256 = (\<lambda>s. s), str_of_container = (\<lambda>_. []), now = 0\<rparr>"

lemma plain_env_no_collision [simp]: "\<not> sha_collision plain_env"
  by (simp add: sha_collision_def plain_env_def)

lemma chain_ok_empty [simp]: "system_events db = [] \<Longrightarrow> chain_ok env db"
  by (simp add: chain_ok_def verify_event_chain_def events_by_seq_def)

definition example_member :: "int \<Rightarrow> string \<Rightarrow> member" where
  "example_member i no = \<lparr>m_id = i, m_member_no = no, m_user_active = Some True, m_display_name = no,
     m_status = MemberActive, m_batch_id = [], m_joined_simulation_day = None, m_credit_floor = 0,
     m_profile = JObj [], m_created_at = 0, m_metadata = JObj []\<rparr>"

lemma example_member_simps [simp]:
  "m_id (example_member i no) = i" "m_member_no (example_member i no) = no"
  "m_status (example_member i no) = MemberActive"
  by (simp_all add: example_member_def)

subsection \<open>Properties of the event ledger\<close>

definition empty_event_db :: event_db where
  "empty_event_db = \<lparr>system_events = []\<rparr>"

text \<open>C2. The audit chain verifies after every sequence of append requests, accepted or refused, and
  earlier events are never changed, removed or reordered by later requests.\<close>

theorem event_ledger_verifies:
  "verify_event_chain env (run_ops (emit_event env) rqs empty_event_db) = Inr True \<and>
   prefix (system_events (run_ops (emit_event env) rqs empty_event_db))
     (system_events (run_ops (emit_event env) (rqs @ later) empty_event_db))"
proof -
  let ?db = "run_ops (emit_event env) rqs empty_event_db"
  have "chain_ok env empty_event_db" by (simp add: empty_event_db_def)
  then have "chain_ok env ?db" using ledger.run_log by blast
  moreover have "prefix (system_events ?db) (system_events (run_ops (emit_event env) later ?db))"
    using ledger.run_log [OF calculation] by blast
  ultimately show ?thesis by (simp add: run_ops_append chain_ok_def)
qed


definition example_payload :: json where
  "example_payload = public_event_payload ''task'' ''task:1'' ''Task'' ''create'' ''draft'' ''created''
     [(''status'', JStr ''draft'')] [private_commitment ''amount'' True []]"

lemma example_payload_valid: "validate_public_ledger_payload example_payload = Inr ()"
  unfolding example_payload_def
  by (rule public_event_payload_valid) (simp_all add: is_space_def PUBLIC_LEDGER_DENYLIST_KEYS_def)

definition example_log :: event_db where
  "example_log = \<lparr>system_events = [next_event plain_env ''task_created'' ''Task'' ''1'' None None
     example_payload ''task:1'' None empty_event_db]\<rparr>"

lemma example_log_append:
  "append_event plain_env ''task_created'' ''Task'' ''1'' None None example_payload None empty_event_db =
   Inr (hd (system_events example_log), example_log)"
  using append_succeeds [OF _ plain_env_no_collision example_payload_valid example_payload_def,
      of empty_event_db "''task_created''" "''Task''" "''1''" None None None]
  by (simp add: Let_def example_log_def empty_event_db_def)


text \<open>C23. Privacy of accepted payloads: when every \<^verbatim>\<open>private_commitments\<close> entry of a payload is a list, a
  payload that passes validation contains no key of the denylist at any depth.\<close>

theorem accepted_payload_hides_denied_keys:
  assumes "validate_public_ledger_payload p = Inr ()" and "commitments_are_lists p"
  shows "all_keys p \<inter> set PUBLIC_LEDGER_DENYLIST_KEYS = {}"
  using assms by (rule validated_payload_safe)

theorem accepted_payload_hides_denied_keys_witness:
  "all_keys example_payload \<inter> set PUBLIC_LEDGER_DENYLIST_KEYS = {}"
  by (rule accepted_payload_hides_denied_keys [OF example_payload_valid])
    (simp add: example_payload_def public_event_payload_def private_commitment_def)


text \<open>Appending is live: on a verified ledger a well-formed wrapped payload is always stored, as the
  next event of the chain, unless the digest has a collision.\<close>

theorem append_event_live:
  assumes "chain_ok env db" "\<not> sha_collision env"
    and "nonblank sty" "nonblank ref" "nonblank label" "nonblank action" "nonblank stage"
      "nonblank summary" "safe_facts facts" "list_all commitment_item cs"
  shows "\<exists>e. append_event env ty aty aid ac asg
      (public_event_payload sty ref label action stage summary facts cs) occ db =
      Inr (e, db\<lparr>system_events := system_events db @ [e]\<rparr>) \<and> se_seq e = Suc (length (system_events db))"
  using append_succeeds [OF assms(1,2) public_event_payload_valid [OF assms(3-10)] refl,
      of ty aty aid ac asg occ] chain_ok_latest_seq [OF assms(1)]
  by (simp add: Let_def next_event_def)

theorem append_event_live_witness:
  "\<exists>e. append_event plain_env ''task_created'' ''Task'' ''1'' None None
      (public_event_payload ''task'' ''task:1'' ''Task'' ''create'' ''draft'' ''created'' [] []) None
      empty_event_db = Inr (e, empty_event_db\<lparr>system_events := [e]\<rparr>) \<and> se_seq e = 1"
  using append_event_live [of plain_env empty_event_db "''task''" "''task:1''" "''Task''" "''create''"
      "''draft''" "''created''" "[]" "[]" "''task_created''" "''Task''" "''1''" None None None]
  by (simp add: empty_event_db_def is_space_def)

text \<open>C24. The hashed text determines the value: two JSON values have the same canonical encoding only
  when they are equal up to the order of dict keys.\<close>

theorem canonical_encoding_injective:
  "canonical_json v = canonical_json w \<longleftrightarrow> sort_keys v = sort_keys w"
  by (rule canonical_json_eq_iff)

end
