(* ===== verification/Credit_Ledger.thy ===== *)
theory Credit_Ledger
  imports Event_Payloads
begin

text \<open>
  The double-entry credit ledger (\<^verbatim>\<open>core/models/credits.py\<close>, \<^verbatim>\<open>core/credit_services.py\<close> up to the
  redemption orders): accounts, posted transactions, balances derived from them, and the
  services that issue, lock, unlock, transfer, deduct, reverse and reward credits.

  A task, a ledger entry or an account is passed by the columns the services read of it: its
  primary key (and, for a ledger entry, its \<^verbatim>\<open>related_event_id\<close>). \<open>uid\<close> is the text drawn from
  \<^verbatim>\<open>uuid4().hex[:12]\<close> for a new primary key.
\<close>

subsection \<open>Rows\<close>

datatype account_type = ISSUANCE_POOL | TASK_LOCKED | MEMBER_ACCOUNT | FROZEN | BURN_ACCOUNT

datatype account_status = AccountActive | AccountFrozen | AccountClosed

fun account_type_value :: "account_type \<Rightarrow> string" where
  "account_type_value ISSUANCE_POOL = ''issuance_pool''"
| "account_type_value TASK_LOCKED = ''task_locked''"
| "account_type_value MEMBER_ACCOUNT = ''member''"
| "account_type_value FROZEN = ''frozen''"
| "account_type_value BURN_ACCOUNT = ''burn''"

fun account_type_label :: "account_type \<Rightarrow> string" where
  "account_type_label ISSUANCE_POOL = ''issuance pool''"
| "account_type_label TASK_LOCKED = ''task locked''"
| "account_type_label MEMBER_ACCOUNT = ''member''"
| "account_type_label FROZEN = ''frozen''"
| "account_type_label BURN_ACCOUNT = ''burn''"

definition account_type_choices :: "account_type list" where
  "account_type_choices = [ISSUANCE_POOL, TASK_LOCKED, MEMBER_ACCOUNT, FROZEN, BURN_ACCOUNT]"

record credit_account =
  ca_account_id :: string
  ca_account_type :: account_type
  ca_member_id :: "int option"
  ca_status :: account_status
  ca_metadata :: json
  ca_created_at :: time
  ca_updated_at :: "time option"

text \<open>\<^verbatim>\<open>CreditAccount.clean\<close>: member accounts have a member, system accounts have none.\<close>

definition credit_account_clean :: "credit_account \<Rightarrow> unit result" where
  "credit_account_clean a =
    (if ca_account_type a = MEMBER_ACCOUNT \<and> ca_member_id a = None then
       Inl (ValueError ''member account needs a member'')
     else if ca_account_type a \<noteq> MEMBER_ACCOUNT \<and> ca_member_id a \<noteq> None then
       Inl (ValueError ''system account cannot have a member'')
     else Inr ())"

datatype txn_type =
    ISSUANCE | LOCK | UNLOCK | TASK_REWARD | TRANSFER | CONSUME | BURN | FREEZE | UNFREEZE
  | CORRECTION | REVERSAL

datatype txn_status = POSTED | VOID

fun txn_type_value :: "txn_type \<Rightarrow> string" where
  "txn_type_value ISSUANCE = ''issuance''"
| "txn_type_value LOCK = ''lock''"
| "txn_type_value UNLOCK = ''unlock''"
| "txn_type_value TASK_REWARD = ''task_reward''"
| "txn_type_value TRANSFER = ''transfer''"
| "txn_type_value CONSUME = ''consume''"
| "txn_type_value BURN = ''burn''"
| "txn_type_value FREEZE = ''freeze''"
| "txn_type_value UNFREEZE = ''unfreeze''"
| "txn_type_value CORRECTION = ''correction''"
| "txn_type_value REVERSAL = ''reversal''"

definition txn_type_choices :: "txn_type list" where
  "txn_type_choices = [ISSUANCE, LOCK, UNLOCK, TASK_REWARD, TRANSFER, CONSUME, BURN, FREEZE,
     UNFREEZE, CORRECTION, REVERSAL]"

definition parse_txn_type :: "string \<Rightarrow> txn_type option" where
  "parse_txn_type s = find_row (\<lambda>t. txn_type_value t = s) txn_type_choices"

record credit_transaction =
  ct_transaction_id :: string
  ct_type :: txn_type
  ct_source :: "string option"
  ct_target :: "string option"
  ct_amount :: int
  ct_related_task :: "string option"
  ct_related_ledger_entry :: "string option"
  ct_related_event_id :: string
  ct_initiated_by :: "int option"
  ct_reviewed_by :: "int option"
  ct_reason :: string
  ct_metadata :: json
  ct_idempotency_key :: "string option"
  ct_reverses :: "string option"
  ct_status :: txn_status
  ct_prev_hash :: string
  ct_transaction_hash :: string
  ct_created_at :: time

record credit_db = event_db +
  credit_accounts :: "credit_account list"
  credit_transactions :: "credit_transaction list"

text \<open>The credit tables beside the member table, which the services that look members up need.\<close>

record people_db = credit_db +
  members :: "member list"

subsection \<open>Helpers\<close>

definition credit_balance_for_qs :: "(credit_transaction \<Rightarrow> bool) \<Rightarrow> credit_transaction list \<Rightarrow> int" where
  "credit_balance_for_qs P ts = sum_rows (\<lambda>t. P t \<and> ct_status t = POSTED) ct_amount ts"

definition normalise_idem_key :: "string option \<Rightarrow> string option" where
  "normalise_idem_key raw = (case raw of None \<Rightarrow> None
     | Some s \<Rightarrow> if py_strip s \<noteq> [] then Some (py_strip s) else None)"

datatype expected_field =
    ExpType txn_type | ExpAmount int | ExpSource "string option" | ExpTarget "string option"
  | ExpTask "string option" | ExpEntry "string option"

fun field_matches :: "credit_transaction \<Rightarrow> expected_field \<Rightarrow> bool" where
  "field_matches t (ExpType x) = (ct_type t = x)"
| "field_matches t (ExpAmount x) = (ct_amount t = x)"
| "field_matches t (ExpSource x) = (ct_source t = x)"
| "field_matches t (ExpTarget x) = (ct_target t = x)"
| "field_matches t (ExpTask x) = (ct_related_task t = x)"
| "field_matches t (ExpEntry x) = (ct_related_ledger_entry t = x)"

definition assert_idempotent_match :: "credit_transaction \<Rightarrow> expected_field list \<Rightarrow> unit result" where
  "assert_idempotent_match existing expected =
    (let mismatches = filter (\<lambda>f. \<not> field_matches existing f) expected in
     if mismatches \<noteq> [] then Inl (DomainError ''idempotency key used by a different transaction'')
     else Inr ())"

subsection \<open>Accounts\<close>

text \<open>The insert enforces the primary key and the one-to-one member column.\<close>

definition insert_account :: "credit_account \<Rightarrow> 'a credit_db_scheme \<Rightarrow> 'a credit_db_scheme result" where
  "insert_account a db =
    (if exists_row (\<lambda>x. ca_account_id x = ca_account_id a \<or>
          (ca_member_id a \<noteq> None \<and> ca_member_id x = ca_member_id a)) (credit_accounts db)
     then Inl IntegrityError
     else Inr (db\<lparr>credit_accounts := credit_accounts db @ [a]\<rparr>))"

definition get_or_create_account ::
    "(credit_account \<Rightarrow> bool) \<Rightarrow> credit_account \<Rightarrow> 'a credit_db_scheme \<Rightarrow>
     (credit_account \<times> 'a credit_db_scheme) result" where
  "get_or_create_account P a db =
    and_then (get_unique P (credit_accounts db)) (\<lambda>found. case found of
        Some x \<Rightarrow> Inr (x, db)
      | None \<Rightarrow> and_then (insert_account a db) (\<lambda>db'. Inr (a, db')))"

definition system_account :: "env \<Rightarrow> account_type \<Rightarrow> credit_account" where
  "system_account env ty =
    \<lparr>ca_account_id = ''acct-sys-'' @ account_type_value ty, ca_account_type = ty,
     ca_member_id = None, ca_status = AccountActive,
     ca_metadata = JObj [(''label'', JStr (account_type_label ty))],
     ca_created_at = now env, ca_updated_at = Some (now env)\<rparr>"

fun ensure_accounts_of :: "env \<Rightarrow> account_type list \<Rightarrow> 'a credit_db_scheme \<Rightarrow> 'a credit_db_scheme result" where
  "ensure_accounts_of env [] db = Inr db"
| "ensure_accounts_of env (ty # tys) db =
    (if ty = MEMBER_ACCOUNT then ensure_accounts_of env tys db
     else and_then (get_or_create_account (\<lambda>a. ca_account_type a = ty \<and> ca_member_id a = None)
            (system_account env ty) db) (\<lambda>(a, db'). ensure_accounts_of env tys db'))"

definition ensure_system_accounts :: "env \<Rightarrow> 'a credit_db_scheme \<Rightarrow> 'a credit_db_scheme result" where
  "ensure_system_accounts env db = ensure_accounts_of env account_type_choices db"

definition member_account :: "env \<Rightarrow> member \<Rightarrow> credit_account" where
  "member_account env m =
    \<lparr>ca_account_id = ''acct-member-'' @ m_member_no m, ca_account_type = MEMBER_ACCOUNT,
     ca_member_id = Some (m_id m), ca_status = AccountActive, ca_metadata = JObj [],
     ca_created_at = now env, ca_updated_at = Some (now env)\<rparr>"

definition get_or_create_member_credit_account ::
    "env \<Rightarrow> member \<Rightarrow> 'a credit_db_scheme \<Rightarrow> (credit_account \<times> 'a credit_db_scheme) result" where
  "get_or_create_member_credit_account env m db =
    get_or_create_account (\<lambda>a. ca_account_type a = MEMBER_ACCOUNT \<and> ca_member_id a = Some (m_id m))
      (member_account env m) db"

subsection \<open>Balances\<close>

definition credit_balance :: "string \<Rightarrow> 'a credit_db_scheme \<Rightarrow> int" where
  "credit_balance acct db =
    credit_balance_for_qs (\<lambda>t. ct_target t = Some acct) (credit_transactions db) -
    credit_balance_for_qs (\<lambda>t. ct_source t = Some acct) (credit_transactions db)"

definition member_account_row :: "member \<Rightarrow> 'a credit_db_scheme \<Rightarrow> credit_account option" where
  "member_account_row m db =
    find_row (\<lambda>a. ca_account_type a = MEMBER_ACCOUNT \<and> ca_member_id a = Some (m_id m))
      (credit_accounts db)"

definition member_credit_balance :: "member \<Rightarrow> 'a credit_db_scheme \<Rightarrow> int" where
  "member_credit_balance m db =
    (case member_account_row m db of None \<Rightarrow> 0 | Some a \<Rightarrow> credit_balance (ca_account_id a) db)"

definition member_available_credit_balance :: "member \<Rightarrow> 'a credit_db_scheme \<Rightarrow> int" where
  "member_available_credit_balance m db = member_credit_balance m db"

definition member_lifetime_contribution :: "member \<Rightarrow> 'a credit_db_scheme \<Rightarrow> int" where
  "member_lifetime_contribution m db =
    (case member_account_row m db of None \<Rightarrow> 0
     | Some a \<Rightarrow> credit_balance_for_qs
         (\<lambda>t. ct_type t = TASK_REWARD \<and> ct_target t = Some (ca_account_id a))
         (credit_transactions db))"

subsection \<open>Posting\<close>

fun txn_type_label :: "txn_type \<Rightarrow> string" where
  "txn_type_label ISSUANCE = ''issuance''"
| "txn_type_label LOCK = ''budget lock''"
| "txn_type_label UNLOCK = ''budget return''"
| "txn_type_label TASK_REWARD = ''task reward''"
| "txn_type_label TRANSFER = ''free transfer''"
| "txn_type_label CONSUME = ''consumption freeze''"
| "txn_type_label BURN = ''burn''"
| "txn_type_label FREEZE = ''freeze''"
| "txn_type_label UNFREEZE = ''unfreeze''"
| "txn_type_label CORRECTION = ''correction''"
| "txn_type_label REVERSAL = ''reversal''"

definition credit_event_payload :: "credit_transaction \<Rightarrow> json" where
  "credit_event_payload t =
    public_event_payload ''credit_transaction'' ''credit-ledger:posted'' ''credit ledger record''
      (txn_type_value (ct_type t)) ''posted'' (txn_type_label (ct_type t))
      [(''txn_type'', JStr (txn_type_value (ct_type t)))]
      [private_commitment ''amount'' True ''single amounts are not shown in the public summary'',
       private_commitment ''reason'' (ct_reason t \<noteq> []) ''transaction reason'',
       private_commitment ''metadata'' (json_truthy (ct_metadata t)) ''metadata'',
       private_commitment ''idempotency_key'' (ct_idempotency_key t \<noteq> None \<and> ct_idempotency_key t \<noteq> Some [])
         ''idempotency key'']"

definition emit_credit_event ::
    "env \<Rightarrow> credit_transaction \<Rightarrow> 'a credit_db_scheme \<Rightarrow> (system_event \<times> 'a credit_db_scheme) result" where
  "emit_credit_event env t db =
    append_event env ''credit_adjusted'' ''CreditTransaction'' (ct_transaction_id t) None None
      (credit_event_payload t) (Some (ct_created_at t)) db"

text \<open>The insert enforces the primary key and the unique, nullable idempotency key.\<close>

definition insert_transaction ::
    "credit_transaction \<Rightarrow> 'a credit_db_scheme \<Rightarrow> 'a credit_db_scheme result" where
  "insert_transaction t db =
    (if exists_row (\<lambda>x. ct_transaction_id x = ct_transaction_id t \<or>
          (ct_idempotency_key t \<noteq> None \<and> ct_idempotency_key x = ct_idempotency_key t))
        (credit_transactions db)
     then Inl IntegrityError
     else Inr (db\<lparr>credit_transactions := credit_transactions db @ [t]\<rparr>))"

definition posted_with_key ::
    "string option \<Rightarrow> (credit_transaction \<Rightarrow> bool) \<Rightarrow> 'a credit_db_scheme \<Rightarrow> credit_transaction option" where
  "posted_with_key key P db = (case key of None \<Rightarrow> None
     | Some k \<Rightarrow> find_row (\<lambda>t. ct_idempotency_key t = Some k \<and> P t \<and> ct_status t = POSTED)
         (credit_transactions db))"

text \<open>The keyword arguments of \<^verbatim>\<open>post_credit_transaction\<close>.\<close>

record posting =
  p_transaction_type :: string
  p_amount :: int
  p_source :: "string option"
  p_target :: "string option"
  p_idempotency_key :: "string option"
  p_related_task :: "string option"
  p_related_ledger_entry :: "string option"
  p_related_event_id :: string
  p_initiated_by :: "int option"
  p_reviewed_by :: "int option"
  p_reason :: string
  p_metadata :: json
  p_prev_hash :: string
  p_transaction_hash :: string
  p_created_at :: "time option"

text \<open>The defaults of the optional arguments.\<close>

definition posting_of :: "txn_type \<Rightarrow> int \<Rightarrow> string option \<Rightarrow> string option \<Rightarrow> string option \<Rightarrow> posting" where
  "posting_of ty amount source target key =
    \<lparr>p_transaction_type = txn_type_value ty, p_amount = amount, p_source = source,
     p_target = target, p_idempotency_key = key, p_related_task = None,
     p_related_ledger_entry = None, p_related_event_id = [], p_initiated_by = None,
     p_reviewed_by = None, p_reason = [], p_metadata = JNull, p_prev_hash = [],
     p_transaction_hash = [], p_created_at = None\<rparr>"

definition posting_row :: "env \<Rightarrow> string \<Rightarrow> txn_type \<Rightarrow> posting \<Rightarrow> credit_transaction" where
  "posting_row env uid ty p =
    \<lparr>ct_transaction_id = new_id ''ct'' uid, ct_type = ty, ct_source = p_source p,
     ct_target = p_target p, ct_amount = p_amount p, ct_related_task = p_related_task p,
     ct_related_ledger_entry = p_related_ledger_entry p,
     ct_related_event_id = p_related_event_id p, ct_initiated_by = p_initiated_by p,
     ct_reviewed_by = p_reviewed_by p, ct_reason = p_reason p,
     ct_metadata = or_empty_dict (p_metadata p),
     ct_idempotency_key = normalise_idem_key (p_idempotency_key p), ct_reverses = None,
     ct_status = POSTED, ct_prev_hash = p_prev_hash p,
     ct_transaction_hash = p_transaction_hash p,
     ct_created_at = (case p_created_at p of None \<Rightarrow> now env | Some t \<Rightarrow> t)\<rparr>"

definition posting_expected :: "txn_type \<Rightarrow> posting \<Rightarrow> expected_field list" where
  "posting_expected ty p =
    [ExpType ty, ExpAmount (p_amount p), ExpSource (p_source p), ExpTarget (p_target p),
     ExpTask (p_related_task p), ExpEntry (p_related_ledger_entry p)]"

definition post_credit_transaction ::
    "env \<Rightarrow> string \<Rightarrow> posting \<Rightarrow> 'a credit_db_scheme \<Rightarrow> (credit_transaction \<times> 'a credit_db_scheme) result" where
  "post_credit_transaction env uid p db =
    (if p_amount p \<le> 0 then Inl (DomainError ''credit amount must be positive'')
     else (case parse_txn_type (p_transaction_type p) of
       None \<Rightarrow> Inl (DomainError ''invalid transaction type'')
     | Some ty \<Rightarrow>
        (let dedupe_key = normalise_idem_key (p_idempotency_key p) in
         case posted_with_key dedupe_key (\<lambda>_. True) db of
           Some existing \<Rightarrow>
             and_then (assert_idempotent_match existing (posting_expected ty p))
               (\<lambda>_. Inr (existing, db))
         | None \<Rightarrow>
            (let txn = posting_row env uid ty p in
             case and_then (insert_transaction txn db) (emit_credit_event env txn) of
               Inr (e, db') \<Rightarrow> Inr (txn, db')
             | Inl IntegrityError \<Rightarrow>
                (case posted_with_key dedupe_key (\<lambda>_. True) db of
                   Some existing \<Rightarrow>
                     and_then (assert_idempotent_match existing (posting_expected ty p))
                       (\<lambda>_. Inr (existing, db))
                 | None \<Rightarrow> Inl (DomainError ''concurrent credit transaction conflict''))
             | Inl err \<Rightarrow> Inl err))))"

subsection \<open>Issuance and task budgets\<close>

definition pool :: "account_type \<Rightarrow> 'a credit_db_scheme \<Rightarrow> credit_account result" where
  "pool name db =
    (case find_row (\<lambda>a. ca_account_type a = name) (credit_accounts db) of
       None \<Rightarrow> Inl (DomainError ''system account does not exist'')
     | Some a \<Rightarrow> Inr a)"

definition issue_credits_to_pool ::
    "env \<Rightarrow> string \<Rightarrow> int \<Rightarrow> string \<Rightarrow> int option \<Rightarrow> int option \<Rightarrow> string option \<Rightarrow> 'a credit_db_scheme \<Rightarrow>
     (credit_transaction \<times> 'a credit_db_scheme) result" where
  "issue_credits_to_pool env uid amount reason initiated_by reviewed_by key db =
    and_then (pool ISSUANCE_POOL db) (\<lambda>a.
      post_credit_transaction env uid
        ((posting_of ISSUANCE amount None (Some (ca_account_id a)) key)
          \<lparr>p_reason := reason, p_initiated_by := initiated_by, p_reviewed_by := reviewed_by\<rparr>) db)"

definition task_locked_in :: "string \<Rightarrow> string \<Rightarrow> credit_transaction \<Rightarrow> bool" where
  "task_locked_in locked task t \<longleftrightarrow>
    ct_type t = LOCK \<and> ct_target t = Some locked \<and> ct_related_task t = Some task"

definition task_locked_out :: "txn_type \<Rightarrow> string \<Rightarrow> string \<Rightarrow> credit_transaction \<Rightarrow> bool" where
  "task_locked_out ty locked task t \<longleftrightarrow>
    ct_type t = ty \<and> ct_source t = Some locked \<and> ct_related_task t = Some task"

definition task_locked_credit_balance :: "string \<Rightarrow> 'a credit_db_scheme \<Rightarrow> int result" where
  "task_locked_credit_balance task db =
    and_then (pool TASK_LOCKED db) (\<lambda>a. let locked = ca_account_id a; ts = credit_transactions db in
      Inr (credit_balance_for_qs (task_locked_in locked task) ts -
           credit_balance_for_qs (task_locked_out TASK_REWARD locked task) ts -
           credit_balance_for_qs (task_locked_out UNLOCK locked task) ts))"

definition lock_task_credit_budget ::
    "env \<Rightarrow> string \<Rightarrow> string \<Rightarrow> int \<Rightarrow> string \<Rightarrow> int option \<Rightarrow> string option \<Rightarrow> 'a credit_db_scheme \<Rightarrow>
     (credit_transaction \<times> 'a credit_db_scheme) result" where
  "lock_task_credit_budget env uid task amount reason initiated_by key db =
    (let dedupe_key = normalise_idem_key key in
     case (find_row (\<lambda>a. ca_account_type a = ISSUANCE_POOL) (credit_accounts db),
           find_row (\<lambda>a. ca_account_type a = TASK_LOCKED) (credit_accounts db)) of
       (Some p, Some l) \<Rightarrow>
        (case posted_with_key dedupe_key (\<lambda>t. ct_type t = LOCK) db of
           Some existing \<Rightarrow>
             and_then (assert_idempotent_match existing
                [ExpType LOCK, ExpAmount amount, ExpSource (Some (ca_account_id p)),
                 ExpTarget (Some (ca_account_id l)), ExpTask (Some task)])
               (\<lambda>_. Inr (existing, db))
         | None \<Rightarrow>
            if credit_balance (ca_account_id p) db < amount then
              Inl (DomainError ''issuance pool balance is insufficient'')
            else post_credit_transaction env uid
              ((posting_of LOCK amount (Some (ca_account_id p)) (Some (ca_account_id l)) dedupe_key)
                \<lparr>p_related_task := Some task, p_reason := reason, p_initiated_by := initiated_by\<rparr>) db)
     | _ \<Rightarrow> Inl (DomainError ''task budget system accounts do not exist''))"

definition unlock_unused_task_credit_budget ::
    "env \<Rightarrow> string \<Rightarrow> string \<Rightarrow> int \<Rightarrow> string \<Rightarrow> int option \<Rightarrow> string option \<Rightarrow> 'a credit_db_scheme \<Rightarrow>
     (credit_transaction \<times> 'a credit_db_scheme) result" where
  "unlock_unused_task_credit_budget env uid task amount reason initiated_by key db =
    (let dedupe_key = normalise_idem_key key in
     and_then (pool TASK_LOCKED db) (\<lambda>l. and_then (pool ISSUANCE_POOL db) (\<lambda>p.
       (case posted_with_key dedupe_key (\<lambda>t. ct_type t = UNLOCK) db of
          Some existing \<Rightarrow>
            and_then (assert_idempotent_match existing
               [ExpType UNLOCK, ExpAmount amount, ExpSource (Some (ca_account_id l)),
                ExpTarget (Some (ca_account_id p)), ExpTask (Some task)])
              (\<lambda>_. Inr (existing, db))
        | None \<Rightarrow>
           and_then (task_locked_credit_balance task db) (\<lambda>remaining.
             if amount \<le> 0 \<or> amount > remaining then
               Inl (DomainError ''the amount exceeds the remaining locked budget of the task'')
             else post_credit_transaction env uid
               ((posting_of UNLOCK amount (Some (ca_account_id l)) (Some (ca_account_id p)) dedupe_key)
                 \<lparr>p_related_task := Some task, p_reason := reason, p_initiated_by := initiated_by\<rparr>) db)))))"

subsection \<open>Transfers, deductions and reversals\<close>

definition str_or :: "string \<Rightarrow> string \<Rightarrow> string" where
  "str_or s d = (if s \<noteq> [] then s else d)"

definition transfer_member_credits ::
    "env \<Rightarrow> string \<Rightarrow> member \<Rightarrow> member \<Rightarrow> int \<Rightarrow> string \<Rightarrow> int option \<Rightarrow> string option \<Rightarrow> 'a credit_db_scheme \<Rightarrow>
     (credit_transaction \<times> 'a credit_db_scheme) result" where
  "transfer_member_credits env uid from_member to_member amount reason initiated_by key db =
    (if amount \<le> 0 then Inl (DomainError ''transfer amount must be positive'')
     else if m_id from_member = m_id to_member then Inl (DomainError ''cannot transfer to oneself'')
     else and_then (get_or_create_member_credit_account env from_member db) (\<lambda>(fa, db1).
       and_then (get_or_create_member_credit_account env to_member db1) (\<lambda>(ta, db2).
         (case posted_with_key (normalise_idem_key key) (\<lambda>t. ct_type t = TRANSFER) db2 of
            Some existing \<Rightarrow>
              and_then (assert_idempotent_match existing
                 [ExpType TRANSFER, ExpAmount amount, ExpSource (Some (ca_account_id fa)),
                  ExpTarget (Some (ca_account_id ta))])
                (\<lambda>_. Inr (existing, db2))
          | None \<Rightarrow>
             (let current = credit_balance (ca_account_id fa) db2 in
              if current \<le> 0 then Inl (DomainError ''balance is not positive, no active transfer'')
              else if current - amount < 0 then Inl (DomainError ''balance is insufficient for the transfer'')
              else post_credit_transaction env uid
                ((posting_of TRANSFER amount (Some (ca_account_id fa)) (Some (ca_account_id ta)) key)
                  \<lparr>p_reason := str_or reason ''free transfer'',
                   p_initiated_by := (case initiated_by of None \<Rightarrow> Some (m_id from_member)
                      | Some i \<Rightarrow> Some i)\<rparr>) db2)))))"

definition passive_deduct_member_credits ::
    "env \<Rightarrow> string \<Rightarrow> member \<Rightarrow> int \<Rightarrow> string \<Rightarrow> int option \<Rightarrow> string option \<Rightarrow> 'a credit_db_scheme \<Rightarrow>
     (credit_transaction \<times> 'a credit_db_scheme) result" where
  "passive_deduct_member_credits env uid m amount reason initiated_by key db =
    (if amount \<le> 0 then Inl (DomainError ''deducted amount must be positive'')
     else and_then (get_or_create_member_credit_account env m db) (\<lambda>(ma, db1).
       and_then (pool BURN_ACCOUNT db1) (\<lambda>b.
         post_credit_transaction env uid
           ((posting_of CORRECTION amount (Some (ca_account_id ma)) (Some (ca_account_id b)) key)
             \<lparr>p_reason := reason, p_initiated_by := initiated_by\<rparr>) db1)))"

definition reverse_credit_transaction ::
    "env \<Rightarrow> string \<Rightarrow> string \<Rightarrow> string \<Rightarrow> int option \<Rightarrow> string option \<Rightarrow> 'a credit_db_scheme \<Rightarrow>
     (credit_transaction \<times> 'a credit_db_scheme) result" where
  "reverse_credit_transaction env uid original_id reason initiated_by key db =
    (case find_row (\<lambda>t. ct_transaction_id t = original_id) (credit_transactions db) of
       None \<Rightarrow> Inl (DoesNotExist ''CreditTransaction'')
     | Some original \<Rightarrow>
        if exists_row (\<lambda>t. ct_reverses t = Some original_id \<and> ct_status t = POSTED)
             (credit_transactions db)
        then Inl (DomainError ''the transaction is already reversed'')
        else and_then (post_credit_transaction env uid
            ((posting_of REVERSAL (ct_amount original) (ct_target original) (ct_source original) key)
              \<lparr>p_reason := reason, p_initiated_by := initiated_by\<rparr>) db) (\<lambda>(reversal, db').
          let reversal' = reversal\<lparr>ct_reverses := Some original_id\<rparr> in
          Inr (reversal', db'\<lparr>credit_transactions :=
            update_rows (\<lambda>t. ct_transaction_id t = ct_transaction_id reversal)
              (\<lambda>t. t\<lparr>ct_reverses := Some original_id\<rparr>) (credit_transactions db')\<rparr>)))"

subsection \<open>Task rewards\<close>

definition genesis_metadata :: "int option \<Rightarrow> member \<Rightarrow> string \<Rightarrow> int \<Rightarrow> json" where
  "genesis_metadata reviewed_by m reason pool_balance =
    JObj [(''genesis_unbudgeted'', JBool True), (''genesis_governance'', JBool True),
      (''self_review'', case reviewed_by of None \<Rightarrow> JNull | Some r \<Rightarrow> JBool (r = m_id m)),
      (''public_audit_required'', JBool True),
      (''genesis_reason'', JStr (str_or reason ''unbudgeted issue of the genesis period'')),
      (''pool_balance_at_reward'', JInt pool_balance)]"

definition task_reward_key :: "string \<Rightarrow> string" where
  "task_reward_key entry = ''task-reward:'' @ entry"

definition post_task_reward_credit_transaction ::
    "env \<Rightarrow> string \<Rightarrow> string \<Rightarrow> member \<Rightarrow> int \<Rightarrow> string \<Rightarrow> string \<Rightarrow> int option \<Rightarrow> string \<Rightarrow> bool \<Rightarrow>
     'a credit_db_scheme \<Rightarrow> (credit_transaction \<times> 'a credit_db_scheme) result" where
  "post_task_reward_credit_transaction env uid task m amount entry entry_event reviewed_by reason
      allow_unbudgeted_genesis db =
    and_then (get_or_create_member_credit_account env m db) (\<lambda>(ma, db1).
    and_then (if allow_unbudgeted_genesis then Inr None
              else and_then (pool TASK_LOCKED db1) (\<lambda>a. Inr (Some a))) (\<lambda>locked_acct.
    and_then (pool ISSUANCE_POOL db1) (\<lambda>issuance.
      let idem_key = task_reward_key entry;
          source = (case locked_acct of None \<Rightarrow> issuance | Some a \<Rightarrow> a);
          post = (\<lambda>meta. post_credit_transaction env uid
            ((posting_of TASK_REWARD amount (Some (ca_account_id source))
                (Some (ca_account_id ma)) (Some idem_key))
              \<lparr>p_related_task := Some task, p_related_ledger_entry := Some entry,
               p_related_event_id := entry_event, p_reason := str_or reason ''task acceptance reward'',
               p_reviewed_by := reviewed_by, p_initiated_by := reviewed_by, p_metadata := meta\<rparr>) db1)
      in case posted_with_key (Some idem_key) (\<lambda>t. ct_type t = TASK_REWARD) db1 of
           Some existing \<Rightarrow>
             and_then (assert_idempotent_match existing
               [ExpType TASK_REWARD, ExpAmount amount, ExpSource (Some (ca_account_id source)),
                ExpTarget (Some (ca_account_id ma)), ExpTask (Some task), ExpEntry (Some entry)])
               (\<lambda>_. if allow_unbudgeted_genesis \<and>
                      json_get ''genesis_unbudgeted'' (or_empty_dict (ct_metadata existing)) \<noteq> Some (JBool True)
                    then Inl (DomainError ''idempotency key used by a different transaction: metadata'')
                    else Inr (existing, db1))
         | None \<Rightarrow>
            if allow_unbudgeted_genesis then
              post (genesis_metadata reviewed_by m reason (credit_balance (ca_account_id issuance) db1))
            else and_then (task_locked_credit_balance task db1) (\<lambda>locked.
              if locked < amount then Inl (DomainError ''the locked budget of the task is insufficient'')
              else post (JObj [])))))"

subsection \<open>What a posting does\<close>

lemma parse_txn_type_value [simp]: "parse_txn_type (txn_type_value t) = Some t"
  by (cases t) (simp_all add: parse_txn_type_def txn_type_choices_def)

lemma normalise_idem_key_idem [simp]: "normalise_idem_key (normalise_idem_key k) = normalise_idem_key k"
  by (auto simp: normalise_idem_key_def split: option.splits)

lemma normalise_idem_key_None [simp]: "normalise_idem_key None = None"
  by (simp add: normalise_idem_key_def)

lemma posting_of_simps [simp]:
  "p_transaction_type (posting_of ty n s t k) = txn_type_value ty"
  "p_amount (posting_of ty n s t k) = n"
  "p_source (posting_of ty n s t k) = s"
  "p_target (posting_of ty n s t k) = t"
  "p_idempotency_key (posting_of ty n s t k) = k"
  "p_related_task (posting_of ty n s t k) = None"
  by (simp_all add: posting_of_def)

lemma posting_row_simps [simp]:
  "ct_transaction_id (posting_row env uid ty p) = new_id ''ct'' uid"
  "ct_type (posting_row env uid ty p) = ty"
  "ct_source (posting_row env uid ty p) = p_source p"
  "ct_target (posting_row env uid ty p) = p_target p"
  "ct_amount (posting_row env uid ty p) = p_amount p"
  "ct_related_task (posting_row env uid ty p) = p_related_task p"
  "ct_related_ledger_entry (posting_row env uid ty p) = p_related_ledger_entry p"
  "ct_idempotency_key (posting_row env uid ty p) = normalise_idem_key (p_idempotency_key p)"
  "ct_status (posting_row env uid ty p) = POSTED"
  "ct_reverses (posting_row env uid ty p) = None"
  by (simp_all add: posting_row_def)

lemma posted_with_key_SomeD:
  "posted_with_key key P db = Some t \<Longrightarrow>
   t \<in> set (credit_transactions db) \<and> P t \<and> ct_status t = POSTED \<and> key \<noteq> None \<and> ct_idempotency_key t = key"
  by (auto simp: posted_with_key_def split: option.splits dest!: find_row_Some_iff)

lemma assert_idempotent_match_ok [simp]:
  "assert_idempotent_match t fs = Inr u \<longleftrightarrow> (\<forall>f \<in> set fs. field_matches t f)"
  by (auto simp: assert_idempotent_match_def Let_def filter_empty_conv)

lemma insert_transaction_ok [simp]:
  "insert_transaction t db = Inr db' \<longleftrightarrow>
   db' = db\<lparr>credit_transactions := credit_transactions db @ [t]\<rparr> \<and>
   (\<forall>x \<in> set (credit_transactions db). ct_transaction_id x \<noteq> ct_transaction_id t \<and>
      (ct_idempotency_key t = None \<or> ct_idempotency_key x \<noteq> ct_idempotency_key t))"
  by (auto simp: insert_transaction_def)

lemma txn_type_nonblank [simp]: "nonblank (txn_type_value t)" "nonblank (txn_type_label t)"
  by (cases t; simp add: is_space_def)+

declare txn_type_value.simps [simp del]

lemma credit_event_payload_valid: "validate_public_ledger_payload (credit_event_payload t) = Inr ()"
  unfolding credit_event_payload_def
  by (rule public_event_payload_valid)
    (simp_all add: is_space_def PUBLIC_LEDGER_DENYLIST_KEYS_def)

lemma emit_credit_event_db:
  "emit_credit_event env t db = Inr (e, db') \<Longrightarrow> db' = db\<lparr>system_events := system_events db @ [e]\<rparr>"
  unfolding emit_credit_event_def by (rule append_event_db)

lemma emit_credit_event_audited:
  "emit_credit_event env t db = Inr (e, db') \<Longrightarrow> audited env db db'"
  unfolding emit_credit_event_def by (rule audited_append)

text \<open>A posting either replays a stored row or appends its row together with one event.\<close>

lemma post_cases [consumes 1, case_names Replay Fresh]:
  assumes "post_credit_transaction env uid p db = Inr (t, db')"
  obtains ty where "parse_txn_type (p_transaction_type p) = Some ty" "0 < p_amount p"
      "normalise_idem_key (p_idempotency_key p) \<noteq> None"
      "posted_with_key (normalise_idem_key (p_idempotency_key p)) (\<lambda>_. True) db = Some t"
      "\<forall>f \<in> set (posting_expected ty p). field_matches t f" "db' = db"
    | ty e where "parse_txn_type (p_transaction_type p) = Some ty" "0 < p_amount p"
      "posted_with_key (normalise_idem_key (p_idempotency_key p)) (\<lambda>_. True) db = None"
      "t = posting_row env uid ty p"
      "\<forall>x \<in> set (credit_transactions db). ct_transaction_id x \<noteq> ct_transaction_id t \<and>
        (ct_idempotency_key t = None \<or> ct_idempotency_key x \<noteq> ct_idempotency_key t)"
      "emit_credit_event env t (db\<lparr>credit_transactions := credit_transactions db @ [t]\<rparr>) = Inr (e, db')"
proof -
  from assms obtain ty where ty: "parse_txn_type (p_transaction_type p) = Some ty" "0 < p_amount p"
    by (auto simp: post_credit_transaction_def split: if_splits option.splits)
  let ?key = "normalise_idem_key (p_idempotency_key p)"
  let ?row = "posting_row env uid ty p"
  show thesis
  proof (cases "posted_with_key ?key (\<lambda>_. True) db")
    case (Some x)
    with assms ty have "t = x" "db' = db" "\<forall>f \<in> set (posting_expected ty p). field_matches x f"
      by (auto simp: post_credit_transaction_def Let_def)
    with Some ty posted_with_key_SomeD [OF Some] show thesis by (intro that(1)) auto
  next
    case None
    then have "and_then (insert_transaction ?row db) (emit_credit_event env ?row) \<noteq> Inl err" for err
      using assms ty by (cases err) (auto simp: post_credit_transaction_def Let_def)
    then obtain r where r: "and_then (insert_transaction ?row db) (emit_credit_event env ?row) = Inr r"
      by (cases "and_then (insert_transaction ?row db) (emit_credit_event env ?row)") auto
    then obtain e db2 where "r = (e, db2)" by (cases r)
    with r None assms ty have "t = ?row" "db2 = db'"
      by (auto simp: post_credit_transaction_def Let_def simp del: and_then_Inr_conv)
    with r None ty \<open>r = (e, db2)\<close> show thesis by (intro that(2) [of ty e]) auto
  qed
qed

lemma post_audited:
  "post_credit_transaction env uid p db = Inr (t, db') \<Longrightarrow> audited env db db'"
proof (induction rule: post_cases)
  case (Fresh ty e)
  then show ?case using emit_credit_event_audited
    by (subst audited_cong_left [of _ "db\<lparr>credit_transactions := credit_transactions db @ [t]\<rparr>"]) auto
qed simp

text \<open>The rows a service call adds: accounts, at most one transaction with its event.\<close>

lemma post_rows:
  assumes "post_credit_transaction env uid p db = Inr (t, db')"
  shows "t \<in> set (credit_transactions db')" "credit_accounts db' = credit_accounts db"
    "db' = db \<and> credit_transactions db' = credit_transactions db \<or>
     credit_transactions db' = credit_transactions db @ [t]"
    "ct_status t = POSTED" "ct_amount t = p_amount p" "ct_source t = p_source p"
    "ct_target t = p_target p" "ct_related_task t = p_related_task p"
    "ct_idempotency_key t = normalise_idem_key (p_idempotency_key p)"
    "parse_txn_type (p_transaction_type p) = Some (ct_type t)" "0 < p_amount p"
  using assms
  by (induction rule: post_cases;
      auto simp: posting_expected_def dest!: posted_with_key_SomeD emit_credit_event_db)+

subsection \<open>Balances as sums of signed movements\<close>

definition txn_delta :: "string \<Rightarrow> credit_transaction \<Rightarrow> int" where
  "txn_delta a t = (if ct_status t = POSTED then
     (if ct_target t = Some a then ct_amount t else 0) -
     (if ct_source t = Some a then ct_amount t else 0) else 0)"

lemma credit_balance_sum: "credit_balance a db = sum_list (map (txn_delta a) (credit_transactions db))"
proof -
  have "credit_balance_for_qs (\<lambda>t. ct_target t = Some a) ts -
      credit_balance_for_qs (\<lambda>t. ct_source t = Some a) ts = sum_list (map (txn_delta a) ts)" for ts
    by (induction ts) (auto simp: credit_balance_for_qs_def txn_delta_def)
  then show ?thesis by (simp add: credit_balance_def)
qed

lemma credit_balance_cong:
  "credit_transactions db' = credit_transactions db \<Longrightarrow> credit_balance a db' = credit_balance a db"
  by (simp add: credit_balance_def)

lemma credit_balance_snoc:
  "credit_transactions db' = credit_transactions db @ [t] \<Longrightarrow>
   credit_balance a db' = credit_balance a db + txn_delta a t"
  by (simp add: credit_balance_sum)

definition delta_in :: "string \<Rightarrow> int \<Rightarrow> string option \<Rightarrow> string option \<Rightarrow> int" where
  "delta_in a amount source target =
    (if target = Some a then amount else 0) - (if source = Some a then amount else 0)"

text \<open>The abstract ledger: a posting moves its amount from the source to the target balance.\<close>

definition move_credits ::
    "int \<Rightarrow> string option \<Rightarrow> string option \<Rightarrow> (string \<Rightarrow> int) \<Rightarrow> string \<Rightarrow> int" where
  "move_credits amount source target bal = (\<lambda>a. bal a + delta_in a amount source target)"

lemma post_balances:
  assumes "post_credit_transaction env uid p db = Inr (t, db')"
  shows "db' = db \<or>
    (\<lambda>a. credit_balance a db') = move_credits (p_amount p) (p_source p) (p_target p) (\<lambda>a. credit_balance a db)"
  using post_rows [OF assms]
  by (auto simp: move_credits_def delta_in_def txn_delta_def credit_balance_snoc fun_eq_iff)

subsection \<open>Well-formed ledgers\<close>

definition account_ids :: "'a credit_db_scheme \<Rightarrow> string list" where
  "account_ids db = map ca_account_id (credit_accounts db)"

definition is_system_account :: "credit_account \<Rightarrow> bool" where
  "is_system_account a \<longleftrightarrow> ca_account_type a \<noteq> MEMBER_ACCOUNT"

definition txn_ok :: "string set \<Rightarrow> credit_transaction \<Rightarrow> bool" where
  "txn_ok ids t \<longleftrightarrow> 0 < ct_amount t \<and> ct_status t = POSTED \<and>
     set_option (ct_source t) \<subseteq> ids \<and> set_option (ct_target t) \<subseteq> ids"

definition idem_keys :: "credit_transaction list \<Rightarrow> string option list" where
  "idem_keys ts = filter (\<lambda>k. k \<noteq> None) (map ct_idempotency_key ts)"

definition credit_wf :: "'a credit_db_scheme \<Rightarrow> bool" where
  "credit_wf db \<longleftrightarrow>
    distinct (account_ids db) \<and>
    distinct (map ca_account_type (filter is_system_account (credit_accounts db))) \<and>
    (\<forall>a \<in> set (credit_accounts db). is_system_account a \<longleftrightarrow> ca_member_id a = None) \<and>
    distinct (filter (\<lambda>m. m \<noteq> None) (map ca_member_id (credit_accounts db))) \<and>
    distinct (map ct_transaction_id (credit_transactions db)) \<and>
    distinct (idem_keys (credit_transactions db)) \<and>
    (\<forall>t \<in> set (credit_transactions db). txn_ok (set (account_ids db)) t)"

lemma txn_ok_mono: "txn_ok A t \<Longrightarrow> A \<subseteq> B \<Longrightarrow> txn_ok B t"
  by (auto simp: txn_ok_def)

lemma credit_wf_cong:
  "credit_accounts db' = credit_accounts db \<Longrightarrow> credit_transactions db' = credit_transactions db \<Longrightarrow>
   credit_wf db' = credit_wf db"
  by (simp add: credit_wf_def account_ids_def)

lemma account_ids_cong: "credit_accounts db' = credit_accounts db \<Longrightarrow> account_ids db' = account_ids db"
  by (simp add: account_ids_def)

lemma credit_wf_post:
  assumes wf: "credit_wf db" and post: "post_credit_transaction env uid p db = Inr (t, db')"
    and fk: "set_option (p_source p) \<subseteq> set (account_ids db)" "set_option (p_target p) \<subseteq> set (account_ids db)"
  shows "credit_wf db'"
  using post
proof (cases rule: post_cases)
  case (Fresh ty e)
  have db': "credit_accounts db' = credit_accounts db" "account_ids db' = account_ids db"
    "credit_transactions db' = credit_transactions db @ [t]"
    using emit_credit_event_db [OF Fresh(6)] by (simp_all add: account_ids_def)
  have "txn_ok (set (account_ids db)) t" using Fresh(2,4) fk by (simp add: txn_ok_def)
  moreover have "distinct (idem_keys (credit_transactions db @ [t]))"
    using wf Fresh(5) by (auto simp: credit_wf_def idem_keys_def)
  ultimately show ?thesis
    using wf Fresh(5) unfolding credit_wf_def db' by auto
qed (use wf in simp)

lemma credit_wf_insert:
  assumes wf: "credit_wf db" and ins: "insert_account a db = Inr db'"
    and kind: "is_system_account a \<longleftrightarrow> ca_member_id a = None"
    and fresh: "is_system_account a \<Longrightarrow> \<forall>x \<in> set (credit_accounts db). ca_account_type x \<noteq> ca_account_type a"
  shows "credit_wf db'"
proof -
  from ins have db': "credit_accounts db' = credit_accounts db @ [a]"
      "credit_transactions db' = credit_transactions db"
      "\<forall>x \<in> set (credit_accounts db). ca_account_id x \<noteq> ca_account_id a \<and>
        (ca_member_id a = None \<or> ca_member_id x \<noteq> ca_member_id a)"
    by (auto simp: insert_account_def split: if_splits)
  then have ids: "account_ids db' = account_ids db @ [ca_account_id a]" by (simp add: account_ids_def)
  have "txn_ok (set (account_ids db')) t" if "txn_ok (set (account_ids db)) t" for t
    using that by (rule txn_ok_mono) (auto simp: ids)
  moreover have "distinct (account_ids db')"
    using wf db'(3) unfolding ids by (auto simp: credit_wf_def account_ids_def)
  moreover have "distinct (filter (\<lambda>m. m \<noteq> None) (map ca_member_id (credit_accounts db')))"
    using wf db'(3) unfolding db'(1) by (auto simp: credit_wf_def)
  ultimately show ?thesis
    using wf kind fresh unfolding credit_wf_def by (auto simp: db'(1,2))
qed

lemma get_or_create_cases:
  assumes "get_or_create_account P a db = Inr (x, db')"
  obtains "db' = db" "x \<in> set (credit_accounts db)" "P x"
    | "insert_account a db = Inr db'" "x = a" "\<forall>y \<in> set (credit_accounts db). \<not> P y"
proof -
  from assms obtain found where g: "get_unique P (credit_accounts db) = Inr found"
    and r: "(case found of Some x \<Rightarrow> Inr (x, db)
      | None \<Rightarrow> and_then (insert_account a db) (\<lambda>db'. Inr (a, db'))) = Inr (x, db')"
    by (auto simp: get_or_create_account_def)
  show thesis
  proof (cases found)
    case None
    with g r show thesis by (intro that(2)) (auto dest: get_unique_NoneD)
  next
    case (Some y)
    with g r show thesis by (intro that(1)) (auto dest: get_unique_SomeD)
  qed
qed

lemma insert_account_ok:
  "insert_account a db = Inr db' \<Longrightarrow> db' = db\<lparr>credit_accounts := credit_accounts db @ [a]\<rparr>"
  by (auto simp: insert_account_def split: if_splits)

text \<open>Creating accounts touches neither the transactions nor the event ledger.\<close>

definition accounts_grow :: "'a credit_db_scheme \<Rightarrow> 'a credit_db_scheme \<Rightarrow> bool" where
  "accounts_grow db db' \<longleftrightarrow>
    (\<exists>new. db' = db\<lparr>credit_accounts := credit_accounts db @ new\<rparr> \<and> (credit_wf db \<longrightarrow> credit_wf db'))"

lemma accounts_grow_refl [simp]: "accounts_grow db db"
  by (auto simp: accounts_grow_def intro!: exI [of _ "[]"])

lemma accounts_grow_trans: "accounts_grow a b \<Longrightarrow> accounts_grow b c \<Longrightarrow> accounts_grow a c"
  unfolding accounts_grow_def by (elim exE conjE, rule_tac x = "new @ newa" in exI) auto

lemma accounts_growD:
  assumes "accounts_grow db db'"
  shows "credit_transactions db' = credit_transactions db" "system_events db' = system_events db"
    "credit_wf db \<Longrightarrow> credit_wf db'" "set (credit_accounts db) \<subseteq> set (credit_accounts db')"
    "credit_balance a db' = credit_balance a db" "set (account_ids db) \<subseteq> set (account_ids db')"
  using assms by (auto simp: accounts_grow_def credit_balance_def account_ids_def)

lemma accounts_growI:
  "insert_account a db = Inr db' \<Longrightarrow> (credit_wf db \<Longrightarrow> credit_wf db') \<Longrightarrow> accounts_grow db db'"
  by (auto simp: accounts_grow_def dest!: insert_account_ok)

lemma member_account_grow:
  assumes "get_or_create_member_credit_account env m db = Inr (a, db')"
  shows "accounts_grow db db'" "a \<in> set (credit_accounts db')" "ca_account_type a = MEMBER_ACCOUNT"
    "ca_member_id a = Some (m_id m)"
proof -
  let ?goal = "accounts_grow db db' \<and> a \<in> set (credit_accounts db') \<and>
    ca_account_type a = MEMBER_ACCOUNT \<and> ca_member_id a = Some (m_id m)"
  from assms have ?goal
    unfolding get_or_create_member_credit_account_def
  proof (cases rule: get_or_create_cases)
    case 2
    have "credit_wf db \<Longrightarrow> credit_wf db'"
      using 2 by (auto intro!: credit_wf_insert [OF _ 2(1)] simp: member_account_def is_system_account_def)
    then have "accounts_grow db db'" using accounts_growI [OF 2(1)] by blast
    moreover have "a \<in> set (credit_accounts db')" using insert_account_ok [OF 2(1)] 2(2) by simp
    ultimately show ?thesis using 2(2) by (simp add: member_account_def)
  qed auto
  then show "accounts_grow db db'" "a \<in> set (credit_accounts db')" "ca_account_type a = MEMBER_ACCOUNT"
    "ca_member_id a = Some (m_id m)" by blast+
qed

lemma ensure_accounts_grow: "ensure_accounts_of env tys db = Inr db' \<Longrightarrow> accounts_grow db db'"
proof (induction tys arbitrary: db)
  case (Cons ty tys)
  show ?case
  proof (cases "ty = MEMBER_ACCOUNT")
    case False
    with Cons.prems obtain a db1 where
      get: "get_or_create_account (\<lambda>a. ca_account_type a = ty \<and> ca_member_id a = None)
          (system_account env ty) db = Inr (a, db1)"
      and rest: "ensure_accounts_of env tys db1 = Inr db'" by auto
    from get have "accounts_grow db db1"
    proof (cases rule: get_or_create_cases)
      case 2
      have "\<forall>x \<in> set (credit_accounts db). ca_account_type x \<noteq> ty" if "credit_wf db"
        using that 2(3) False by (auto simp: credit_wf_def is_system_account_def)
      then show ?thesis using False
        by (intro accounts_growI [OF 2(1)] credit_wf_insert [OF _ 2(1)])
          (auto simp: system_account_def is_system_account_def)
    qed simp
    then show ?thesis using Cons.IH [OF rest] by (rule accounts_grow_trans)
  qed (use Cons in simp)
qed simp

subsection \<open>What a service call does to the ledger\<close>

text \<open>
  Posted rows are never removed or changed, except that a reversal row is linked to its original
  after it was posted. \<open>ledger_view\<close> is a row without that link.
\<close>

definition ledger_view :: "credit_transaction \<Rightarrow> credit_transaction" where
  "ledger_view t = t\<lparr>ct_reverses := None\<rparr>"

definition ledger_views :: "'a credit_db_scheme \<Rightarrow> credit_transaction list" where
  "ledger_views db = map ledger_view (credit_transactions db)"

definition credit_frame :: "'a credit_db_scheme \<Rightarrow> 'a credit_db_scheme \<Rightarrow> bool" where
  "credit_frame db db' \<longleftrightarrow> (\<exists>es as ts.
     db' = db\<lparr>system_events := es, credit_accounts := credit_accounts db @ as, credit_transactions := ts\<rparr>)"

definition credit_call ::
    "env \<Rightarrow> 'a credit_db_scheme \<Rightarrow> credit_transaction \<Rightarrow> 'a credit_db_scheme \<Rightarrow> bool" where
  "credit_call env db t db' \<longleftrightarrow>
    audited env db db' \<and> credit_frame db db' \<and> (credit_wf db \<longrightarrow> credit_wf db') \<and>
    t \<in> set (credit_transactions db') \<and> ct_status t = POSTED \<and>
    (ledger_views db' = ledger_views db \<or> ledger_views db' = ledger_views db @ [ledger_view t])"

lemma ledger_view_simps [simp]:
  "ct_type (ledger_view t) = ct_type t" "ct_source (ledger_view t) = ct_source t"
  "ct_target (ledger_view t) = ct_target t" "ct_amount (ledger_view t) = ct_amount t"
  "ct_status (ledger_view t) = ct_status t" "ct_related_task (ledger_view t) = ct_related_task t"
  "ct_transaction_id (ledger_view t) = ct_transaction_id t"
  "ct_idempotency_key (ledger_view t) = ct_idempotency_key t"
  "ct_related_ledger_entry (ledger_view t) = ct_related_ledger_entry t"
  "txn_delta a (ledger_view t) = txn_delta a t"
  "txn_ok ids (ledger_view t) = txn_ok ids t"
  "ledger_view (t\<lparr>ct_reverses := r\<rparr>) = ledger_view t"
  by (simp_all add: ledger_view_def txn_delta_def txn_ok_def)

lemma ledger_views_accounts [simp]:
  "ledger_views (db\<lparr>credit_accounts := as\<rparr>) = ledger_views db"
  "ledger_views (db\<lparr>system_events := es\<rparr>) = ledger_views db"
  by (simp_all add: ledger_views_def)

lemma sum_rows_views:
  "(\<And>t. P (ledger_view t) = P t) \<Longrightarrow> (\<And>t. f (ledger_view t) = f t) \<Longrightarrow>
   sum_rows P f (ledger_views db) = sum_rows P f (credit_transactions db)"
  by (induction "credit_transactions db" arbitrary: db rule: list.induct)
    (auto simp: ledger_views_def sum_rows_def filter_map o_def)

lemma credit_balance_views: "credit_balance a db = sum_list (map (txn_delta a) (ledger_views db))"
  by (simp add: credit_balance_sum ledger_views_def o_def)

lemma credit_frame_refl [simp]: "credit_frame db db"
  unfolding credit_frame_def
  by (intro exI [of _ "system_events db"] exI [of _ "[]"] exI [of _ "credit_transactions db"]) simp

lemma credit_frame_trans: "credit_frame a b \<Longrightarrow> credit_frame b c \<Longrightarrow> credit_frame a c"
  unfolding credit_frame_def by (elim exE, rule exI, rule_tac x = "as @ asa" in exI, rule exI) simp

lemma credit_frame_accounts: "accounts_grow db db' \<Longrightarrow> credit_frame db db'"
  unfolding accounts_grow_def credit_frame_def
  by (elim exE conjE, intro exI [of _ "system_events db"], rule_tac x = new in exI,
      intro exI [of _ "credit_transactions db"]) simp

lemma credit_frameD:
  assumes "credit_frame db db'"
  shows "set (credit_accounts db) \<subseteq> set (credit_accounts db')"
    "set (account_ids db) \<subseteq> set (account_ids db')"
  using assms by (auto simp: credit_frame_def account_ids_def)

lemma credit_call_after_accounts:
  assumes grow: "accounts_grow db db1" and call: "credit_call env db1 t db'"
  shows "credit_call env db t db'"
proof -
  have "audited env db db'"
    using call audited_cong_left [OF accounts_growD(2) [OF grow, symmetric], of env db']
    by (simp add: credit_call_def)
  moreover have "ledger_views db1 = ledger_views db"
    using accounts_growD(1) [OF grow] by (simp add: ledger_views_def)
  moreover have "credit_frame db db'"
    using credit_frame_accounts [OF grow] call by (auto simp: credit_call_def intro: credit_frame_trans)
  ultimately show ?thesis using call accounts_growD(3) [OF grow] by (simp add: credit_call_def)
qed

lemma credit_call_replay:
  assumes "posted_with_key k P db = Some t"
  shows "credit_call env db t db"
  using posted_with_key_SomeD [OF assms] by (simp add: credit_call_def)

lemma credit_call_post:
  assumes post: "post_credit_transaction env uid p db = Inr (t, db')"
    and fk: "set_option (p_source p) \<subseteq> set (account_ids db)" "set_option (p_target p) \<subseteq> set (account_ids db)"
  shows "credit_call env db t db'"
proof -
  have "credit_frame db db'" using post
  proof (cases rule: post_cases)
    case (Fresh ty e)
    show ?thesis unfolding credit_frame_def emit_credit_event_db [OF Fresh(6)]
      by (intro exI [of _ "system_events db @ [e]"] exI [of _ "[]"]
          exI [of _ "credit_transactions db @ [t]"]) simp
  qed simp
  then show ?thesis
    using post_audited [OF post] post_rows [OF post] credit_wf_post [OF _ post fk]
    by (auto simp: credit_call_def ledger_views_def)
qed

lemma pool_ok:
  "pool ty db = Inr a \<Longrightarrow> a \<in> set (credit_accounts db) \<and> ca_account_type a = ty"
  by (auto simp: pool_def split: option.splits dest!: find_row_Some_iff)

lemma pool_id [simp]: "pool ty db = Inr a \<Longrightarrow> ca_account_id a \<in> set (account_ids db)"
  by (auto simp: account_ids_def dest!: pool_ok)

lemma pool_frame: "credit_frame db db' \<Longrightarrow> pool ty db = Inr a \<Longrightarrow> pool ty db' = Inr a"
  by (auto simp: credit_frame_def pool_def split: option.splits if_splits)

lemma find_account_id [simp]:
  "find_row P (credit_accounts db) = Some a \<Longrightarrow> ca_account_id a \<in> set (account_ids db)"
  by (auto simp: account_ids_def dest!: find_row_Some_iff)

lemma account_id_member [simp]:
  "a \<in> set (credit_accounts db) \<Longrightarrow> ca_account_id a \<in> set (account_ids db)"
  by (simp add: account_ids_def)

subsection \<open>Each service is one ledger call\<close>

lemma issue_credits_call:
  assumes "issue_credits_to_pool env uid n rs i r k db = Inr (t, db')"
  shows "credit_call env db t db'"
  using assms by (auto simp: issue_credits_to_pool_def intro!: credit_call_post)

text \<open>What a successful call posts: the row it returns and why it was allowed.\<close>

lemma lock_cases:
  assumes "lock_task_credit_budget env uid task n rs i k db = Inr (t, db')"
  obtains p l where "pool ISSUANCE_POOL db = Inr p" "pool TASK_LOCKED db = Inr l"
    "ct_type t = LOCK" "ct_amount t = n" "ct_source t = Some (ca_account_id p)"
    "ct_target t = Some (ca_account_id l)" "ct_related_task t = Some task"
    "credit_call env db t db'" "ledger_views db' = ledger_views db \<or> n \<le> credit_balance (ca_account_id p) db"
proof -
  from assms obtain p l where pl: "find_row (\<lambda>a. ca_account_type a = ISSUANCE_POOL) (credit_accounts db) = Some p"
      "find_row (\<lambda>a. ca_account_type a = TASK_LOCKED) (credit_accounts db) = Some l"
    by (auto simp: lock_task_credit_budget_def Let_def split: option.splits)
  let ?k = "normalise_idem_key k"
  show thesis
  proof (cases "posted_with_key ?k (\<lambda>t. ct_type t = LOCK) db")
    case (Some x)
    with assms pl have "x = t" "db' = db" by (auto simp: lock_task_credit_budget_def Let_def)
    with assms pl Some credit_call_replay [OF Some] show thesis
      by (intro that [of p l]) (auto simp: lock_task_credit_budget_def Let_def pool_def)
  next
    case None
    with assms pl have "n \<le> credit_balance (ca_account_id p) db" and
      post: "post_credit_transaction env uid
              ((posting_of LOCK n (Some (ca_account_id p)) (Some (ca_account_id l)) ?k)
                \<lparr>p_related_task := Some task, p_reason := rs, p_initiated_by := i\<rparr>) db = Inr (t, db')"
      by (auto simp: lock_task_credit_budget_def Let_def)
    with pl post_rows [OF post] credit_call_post [OF post] show thesis
      by (intro that [of p l]) (auto simp: pool_def)
  qed
qed

lemma unlock_cases:
  assumes "unlock_unused_task_credit_budget env uid task n rs i k db = Inr (t, db')"
  obtains p l where "pool ISSUANCE_POOL db = Inr p" "pool TASK_LOCKED db = Inr l"
    "ct_type t = UNLOCK" "ct_amount t = n" "ct_source t = Some (ca_account_id l)"
    "ct_target t = Some (ca_account_id p)" "ct_related_task t = Some task"
    "credit_call env db t db'"
    "ledger_views db' = ledger_views db \<or>
     (\<exists>remaining. task_locked_credit_balance task db = Inr remaining \<and> n \<le> remaining)"
proof -
  from assms obtain p l where pl: "pool ISSUANCE_POOL db = Inr p" "pool TASK_LOCKED db = Inr l"
    by (auto simp: unlock_unused_task_credit_budget_def Let_def)
  let ?k = "normalise_idem_key k"
  show thesis
  proof (cases "posted_with_key ?k (\<lambda>t. ct_type t = UNLOCK) db")
    case (Some x)
    with assms pl have "x = t" "db' = db" by (auto simp: unlock_unused_task_credit_budget_def Let_def)
    with assms pl Some credit_call_replay [OF Some] show thesis
      by (intro that [of p l]) (auto simp: unlock_unused_task_credit_budget_def Let_def)
  next
    case None
    with assms pl obtain rem where rem: "task_locked_credit_balance task db = Inr rem" "n \<le> rem" and
      post: "post_credit_transaction env uid
              ((posting_of UNLOCK n (Some (ca_account_id l)) (Some (ca_account_id p)) ?k)
                \<lparr>p_related_task := Some task, p_reason := rs, p_initiated_by := i\<rparr>) db = Inr (t, db')"
      by (auto simp: unlock_unused_task_credit_budget_def Let_def)
    with pl post_rows [OF post] credit_call_post [OF post] show thesis
      by (intro that [of p l]) auto
  qed
qed

lemma transfer_cases:
  assumes "transfer_member_credits env uid m1 m2 n rs i k db = Inr (t, db')"
  obtains fa db1 ta db2 where "0 < n" "m_id m1 \<noteq> m_id m2"
    "get_or_create_member_credit_account env m1 db = Inr (fa, db1)"
    "get_or_create_member_credit_account env m2 db1 = Inr (ta, db2)" "accounts_grow db db2"
    "ct_type t = TRANSFER" "ct_amount t = n" "ct_source t = Some (ca_account_id fa)"
    "ct_target t = Some (ca_account_id ta)" "credit_call env db t db'" "credit_accounts db' = credit_accounts db2"
    "credit_transactions db' = credit_transactions db \<or>
     credit_transactions db' = credit_transactions db @ [t] \<and> n \<le> credit_balance (ca_account_id fa) db"
proof -
  from assms obtain fa db1 ta db2 where g: "0 < n" "m_id m1 \<noteq> m_id m2"
    "get_or_create_member_credit_account env m1 db = Inr (fa, db1)"
    "get_or_create_member_credit_account env m2 db1 = Inr (ta, db2)"
    by (auto simp: transfer_member_credits_def)
  note a1 = member_account_grow [OF g(3)] and a2 = member_account_grow [OF g(4)]
  have grow: "accounts_grow db db2" using a1(1) a2(1) by (rule accounts_grow_trans)
  have fa: "ca_account_id fa \<in> set (account_ids db2)" "ca_account_id ta \<in> set (account_ids db2)"
    using a1(2) a2(2) accounts_growD(4) [OF a2(1)] by (auto intro: account_id_member)
  note same = accounts_growD(1,5) [OF grow]
  show thesis
  proof (cases "posted_with_key (normalise_idem_key k) (\<lambda>t. ct_type t = TRANSFER) db2")
    case (Some x)
    with assms g have x: "x = t" "db' = db2" by (auto simp: transfer_member_credits_def)
    moreover have "ct_type t = TRANSFER" "ct_amount t = n" "ct_source t = Some (ca_account_id fa)"
      "ct_target t = Some (ca_account_id ta)"
      using assms g Some by (auto simp: transfer_member_credits_def)
    moreover have "credit_call env db t db'"
      using credit_call_after_accounts [OF grow credit_call_replay [OF Some, of env]] x by simp
    ultimately show thesis using g grow same by (intro that) auto
  next
    case None
    with assms g have bal: "n \<le> credit_balance (ca_account_id fa) db2" and
      post: "post_credit_transaction env uid
        ((posting_of TRANSFER n (Some (ca_account_id fa)) (Some (ca_account_id ta)) k)
          \<lparr>p_reason := str_or rs ''free transfer'',
           p_initiated_by := (case i of None \<Rightarrow> Some (m_id m1) | Some i \<Rightarrow> Some i)\<rparr>) db2 = Inr (t, db')"
      by (auto simp: transfer_member_credits_def Let_def split: if_splits)
    have "credit_call env db t db'"
      using credit_call_after_accounts [OF grow credit_call_post [OF post]] fa by simp
    with g grow bal same post_rows [OF post] show thesis by (intro that) auto
  qed
qed

lemma passive_deduct_cases:
  assumes "passive_deduct_member_credits env uid m n rs i k db = Inr (t, db')"
  obtains ma db1 b where "0 < n" "get_or_create_member_credit_account env m db = Inr (ma, db1)"
    "pool BURN_ACCOUNT db1 = Inr b" "credit_call env db t db'" "ct_type t = CORRECTION" "ct_amount t = n"
    "ct_source t = Some (ca_account_id ma)" "ct_target t = Some (ca_account_id b)"
proof -
  from assms obtain ma db1 b where g: "0 < n" "get_or_create_member_credit_account env m db = Inr (ma, db1)"
    "pool BURN_ACCOUNT db1 = Inr b" and
    post: "post_credit_transaction env uid
        ((posting_of CORRECTION n (Some (ca_account_id ma)) (Some (ca_account_id b)) k)
           \<lparr>p_reason := rs, p_initiated_by := i\<rparr>) db1 = Inr (t, db')"
    by (auto simp: passive_deduct_member_credits_def)
  note a = member_account_grow [OF g(2)]
  have "credit_call env db t db'"
    using credit_call_after_accounts [OF a(1) credit_call_post [OF post]] a(2) g(3) by simp
  with g post_rows [OF post] show thesis by (intro that) auto
qed

lemma link_reversal_wf:
  assumes "credit_wf db"
  shows "credit_wf (db\<lparr>credit_transactions := update_rows P (\<lambda>t. t\<lparr>ct_reverses := r\<rparr>) (credit_transactions db)\<rparr>)"
proof -
  let ?u = "\<lambda>t. t\<lparr>ct_reverses := r\<rparr>"
  have "map ct_transaction_id (update_rows P ?u ts) = map ct_transaction_id ts" for ts
    by (rule map_update_rows) simp
  moreover have "idem_keys (update_rows P ?u ts) = idem_keys ts" for ts
    by (simp add: idem_keys_def map_update_rows)
  moreover have "txn_ok ids (?u t) = txn_ok ids t" for ids t by (simp add: txn_ok_def)
  ultimately show ?thesis using assms by (auto simp: credit_wf_def account_ids_def set_update_rows)
qed

lemma ledger_views_link:
  "map ledger_view (update_rows P (\<lambda>t. t\<lparr>ct_reverses := r\<rparr>) ts) = map ledger_view ts"
  by (rule map_update_rows) simp

lemma reverse_post:
  assumes "reverse_credit_transaction env uid oid rs i k db = Inr (t, db')"
  obtains orig rv db1 where
    "find_row (\<lambda>t. ct_transaction_id t = oid) (credit_transactions db) = Some orig"
    "\<forall>x \<in> set (credit_transactions db). \<not> (ct_reverses x = Some oid \<and> ct_status x = POSTED)"
    "post_credit_transaction env uid
       ((posting_of REVERSAL (ct_amount orig) (ct_target orig) (ct_source orig) k)
         \<lparr>p_reason := rs, p_initiated_by := i\<rparr>) db = Inr (rv, db1)"
    "t = rv\<lparr>ct_reverses := Some oid\<rparr>"
    "db' = db1\<lparr>credit_transactions :=
            update_rows (\<lambda>t. ct_transaction_id t = ct_transaction_id rv)
              (\<lambda>t. t\<lparr>ct_reverses := Some oid\<rparr>) (credit_transactions db1)\<rparr>"
  using assms by (auto simp: reverse_credit_transaction_def Let_def split: option.splits)

text \<open>The reversal row carries the amount back; a well-formed ledger knows its accounts.\<close>

lemma reverse_cases:
  assumes "reverse_credit_transaction env uid oid rs i k db = Inr (t, db')" and wf: "credit_wf db"
  obtains orig where "find_row (\<lambda>t. ct_transaction_id t = oid) (credit_transactions db) = Some orig"
    "\<forall>x \<in> set (credit_transactions db). \<not> (ct_reverses x = Some oid \<and> ct_status x = POSTED)"
    "credit_call env db t db'" "ct_type t = REVERSAL" "ct_amount t = ct_amount orig"
    "ct_source t = ct_target orig" "ct_target t = ct_source orig" "ct_reverses t = Some oid"
proof -
  from assms(1) obtain orig rv db1 where
    orig: "find_row (\<lambda>t. ct_transaction_id t = oid) (credit_transactions db) = Some orig"
    and once: "\<forall>x \<in> set (credit_transactions db). \<not> (ct_reverses x = Some oid \<and> ct_status x = POSTED)"
    and post: "post_credit_transaction env uid
       ((posting_of REVERSAL (ct_amount orig) (ct_target orig) (ct_source orig) k)
         \<lparr>p_reason := rs, p_initiated_by := i\<rparr>) db = Inr (rv, db1)"
    and t: "t = rv\<lparr>ct_reverses := Some oid\<rparr>"
    and db': "db' = db1\<lparr>credit_transactions :=
            update_rows (\<lambda>t. ct_transaction_id t = ct_transaction_id rv)
              (\<lambda>t. t\<lparr>ct_reverses := Some oid\<rparr>) (credit_transactions db1)\<rparr>"
    by (rule reverse_post)
  have "txn_ok (set (account_ids db)) orig"
    using wf find_row_Some_iff [OF orig] by (auto simp: credit_wf_def)
  then have call: "credit_call env db rv db1" by (intro credit_call_post [OF post]) (auto simp: txn_ok_def)
  have "credit_call env db t db'"
  proof -
    have "audited env db db'" using call audited_cong_right [of db' db1 env db] db'
      by (simp add: credit_call_def)
    moreover have "credit_frame db db'"
    proof -
      have "credit_frame db1 db'" unfolding credit_frame_def db'
        by (intro exI [of _ "system_events db1"] exI [of _ "[]"] exI) simp
      then show ?thesis using call by (auto simp: credit_call_def intro: credit_frame_trans)
    qed
    moreover have "credit_wf db'" using call wf link_reversal_wf db' by (auto simp: credit_call_def)
    moreover have "t \<in> set (credit_transactions db')"
      using call by (auto simp: credit_call_def db' t set_update_rows)
    moreover have "ledger_views db' = ledger_views db1" by (simp add: ledger_views_def db' ledger_views_link)
    ultimately show ?thesis using call by (simp add: credit_call_def t)
  qed
  with orig once t post_rows [OF post] show thesis by (intro that) auto
qed

lemma task_reward_cases:
  assumes "post_task_reward_credit_transaction env uid task m n entry ev rb rs genesis db = Inr (t, db')"
  obtains ma db1 src where "get_or_create_member_credit_account env m db = Inr (ma, db1)"
    "pool (if genesis then ISSUANCE_POOL else TASK_LOCKED) db1 = Inr src"
    "ct_type t = TASK_REWARD" "ct_amount t = n" "ct_source t = Some (ca_account_id src)"
    "ct_target t = Some (ca_account_id ma)" "ct_related_task t = Some task" "credit_call env db t db'"
    "ledger_views db' = ledger_views db \<or> genesis \<or>
     (\<exists>locked. task_locked_credit_balance task db1 = Inr locked \<and> n \<le> locked)"
proof -
  from assms obtain ma db1 iss la where g: "get_or_create_member_credit_account env m db = Inr (ma, db1)"
    "pool ISSUANCE_POOL db1 = Inr iss"
    "(if genesis then Inr None else and_then (pool TASK_LOCKED db1) (\<lambda>a. Inr (Some a))) = Inr la"
    by (auto simp: post_task_reward_credit_transaction_def)
  define src where "src = (case la of None \<Rightarrow> iss | Some a \<Rightarrow> a)"
  have src: "pool (if genesis then ISSUANCE_POOL else TASK_LOCKED) db1 = Inr src"
    using g by (auto simp: src_def split: if_splits)
  note a = member_account_grow [OF g(1)]
  have views: "ledger_views db1 = ledger_views db"
    using accounts_growD(1) [OF a(1)] by (simp add: ledger_views_def)
  let ?posting = "\<lambda>meta. (posting_of TASK_REWARD n (Some (ca_account_id src))
                (Some (ca_account_id ma)) (Some (task_reward_key entry)))
              \<lparr>p_related_task := Some task, p_related_ledger_entry := Some entry,
               p_related_event_id := ev, p_reason := str_or rs ''task acceptance reward'',
               p_reviewed_by := rb, p_initiated_by := rb, p_metadata := meta\<rparr>"
  show thesis
  proof (cases "posted_with_key (Some (task_reward_key entry)) (\<lambda>t. ct_type t = TASK_REWARD) db1")
    case (Some x)
    with assms g have x: "x = t" "db' = db1" "ct_type t = TASK_REWARD" "ct_amount t = n"
      "ct_source t = Some (ca_account_id src)" "ct_target t = Some (ca_account_id ma)"
      "ct_related_task t = Some task"
      by (auto simp: post_task_reward_credit_transaction_def Let_def src_def)
    moreover have "credit_call env db t db'"
      using credit_call_after_accounts [OF a(1) credit_call_replay [OF Some, of env]] x by simp
    ultimately show thesis using g src views by (intro that) auto
  next
    case None
    with assms g obtain meta where
      post: "post_credit_transaction env uid (?posting meta) db1 = Inr (t, db')" and
      budget: "genesis \<or> (\<exists>locked. task_locked_credit_balance task db1 = Inr locked \<and> n \<le> locked)"
      by (auto simp: post_task_reward_credit_transaction_def Let_def src_def not_less split: if_splits)
    have "credit_call env db t db'"
      using credit_call_after_accounts [OF a(1) credit_call_post [OF post]] a(2) src by simp
    with g src budget post_rows [OF post] show thesis by (intro that) auto
  qed
qed

subsection \<open>Histories of credit services\<close>

datatype credit_op =
    EnsureSystemAccounts
  | IssueCredits int string "int option" "int option" "string option"
  | LockBudget string int string "int option" "string option"
  | UnlockBudget string int string "int option" "string option"
  | TransferCredits member member int string "int option" "string option"
  | DeductCredits member int string "int option" "string option"
  | ReverseTransaction string string "int option" "string option"
  | RewardTask string member int string string "int option" string bool

fun credit_service :: "env \<Rightarrow> string \<Rightarrow> credit_op \<Rightarrow> 'a credit_db_scheme \<Rightarrow>
    (credit_transaction option \<times> 'a credit_db_scheme) result" where
  "credit_service env uid EnsureSystemAccounts db =
     and_then (ensure_system_accounts env db) (\<lambda>db'. Inr (None, db'))"
| "credit_service env uid (IssueCredits n rs i r k) db =
     and_then (issue_credits_to_pool env uid n rs i r k db) (\<lambda>(t, db'). Inr (Some t, db'))"
| "credit_service env uid (LockBudget task n rs i k) db =
     and_then (lock_task_credit_budget env uid task n rs i k db) (\<lambda>(t, db'). Inr (Some t, db'))"
| "credit_service env uid (UnlockBudget task n rs i k) db =
     and_then (unlock_unused_task_credit_budget env uid task n rs i k db) (\<lambda>(t, db'). Inr (Some t, db'))"
| "credit_service env uid (TransferCredits m1 m2 n rs i k) db =
     and_then (transfer_member_credits env uid m1 m2 n rs i k db) (\<lambda>(t, db'). Inr (Some t, db'))"
| "credit_service env uid (DeductCredits m n rs i k) db =
     and_then (passive_deduct_member_credits env uid m n rs i k db) (\<lambda>(t, db'). Inr (Some t, db'))"
| "credit_service env uid (ReverseTransaction oid rs i k) db =
     and_then (reverse_credit_transaction env uid oid rs i k db) (\<lambda>(t, db'). Inr (Some t, db'))"
| "credit_service env uid (RewardTask task m n entry ev rb rs g) db =
     and_then (post_task_reward_credit_transaction env uid task m n entry ev rb rs g db)
       (\<lambda>(t, db'). Inr (Some t, db'))"

text \<open>One request of a history: the instant it runs at, the drawn identifier and the call.\<close>

fun credit_step :: "env \<Rightarrow> time \<times> string \<times> credit_op \<Rightarrow> 'a credit_db_scheme \<Rightarrow>
    (credit_transaction option \<times> 'a credit_db_scheme) result" where
  "credit_step env (at, uid, call) db = credit_service (env\<lparr>now := at\<rparr>) uid call db"

lemma credit_service_cases:
  assumes "credit_service env uid call db = Inr (r, db')" and "credit_wf db"
  obtains "call = EnsureSystemAccounts" "r = None" "accounts_grow db db'"
    | t where "call \<noteq> EnsureSystemAccounts" "r = Some t" "credit_call env db t db'"
  using assms
  by (cases call)
    (auto simp: ensure_system_accounts_def
      elim: lock_cases unlock_cases transfer_cases passive_deduct_cases reverse_cases task_reward_cases
      dest: ensure_accounts_grow issue_credits_call)

lemma credit_service_safe:
  assumes "credit_service env uid call db = Inr (r, db')" and wf: "credit_wf db"
  shows "credit_wf db' \<and> audited env db db' \<and> prefix (ledger_views db) (ledger_views db')"
  using assms
proof (cases rule: credit_service_cases)
  case 1
  then show ?thesis using wf accounts_growD [OF 1(3)]
    by (auto intro: audited_same simp: ledger_views_def)
next
  case (2 t)
  then show ?thesis using wf by (auto simp: credit_call_def)
qed

interpretation credit: guarded_service "credit_step env" credit_wf
  "\<lambda>db db'. audited env db db' \<and> prefix (ledger_views db) (ledger_views db')" for env
proof unfold_locales
  fix db db' db'' :: "'a credit_db_scheme" and x r
  show "credit_wf db'" if "credit_wf db" "credit_step env x db = Inr (r, db')"
    using that by (cases x) (auto dest: credit_service_safe)
  show "audited env db db' \<and> prefix (ledger_views db) (ledger_views db')"
    if "credit_wf db" "credit_step env x db = Inr (r, db')"
    using that by (cases x) (auto dest: credit_service_safe)
  show "audited env db db'' \<and> prefix (ledger_views db) (ledger_views db'')"
    if "audited env db db' \<and> prefix (ledger_views db) (ledger_views db')"
      "audited env db' db'' \<and> prefix (ledger_views db') (ledger_views db'')"
    using that by (auto intro: audited_trans prefix_order.order_trans)
qed simp

subsection \<open>Conservation\<close>

definition total_credits :: "'a credit_db_scheme \<Rightarrow> int" where
  "total_credits db = sum_list (map (\<lambda>a. credit_balance a db) (account_ids db))"

text \<open>Credits enter the system only through rows without a source and leave it only through rows
  without a target.\<close>

definition net_issued :: "'a credit_db_scheme \<Rightarrow> int" where
  "net_issued db =
    credit_balance_for_qs (\<lambda>t. ct_source t = None) (credit_transactions db) -
    credit_balance_for_qs (\<lambda>t. ct_target t = None) (credit_transactions db)"

definition empty_credit_db :: credit_db where
  "empty_credit_db = \<lparr>system_events = [], credit_accounts = [], credit_transactions = []\<rparr>"

lemma sum_list_indicator:
  "distinct as \<Longrightarrow> sum_list (map (\<lambda>a. if x = Some a then n else (0 :: int)) as) =
   (if x \<in> Some ` set as then n else 0)"
  by (induction as) auto

lemma txn_delta_total:
  assumes "distinct as" "txn_ok (set as) t"
  shows "sum_list (map (\<lambda>a. txn_delta a t) as) =
    (if ct_source t = None then ct_amount t else 0) - (if ct_target t = None then ct_amount t else 0)"
proof -
  have "sum_list (map (\<lambda>a. txn_delta a t) as) =
      sum_list (map (\<lambda>a. if ct_target t = Some a then ct_amount t else 0) as) -
      sum_list (map (\<lambda>a. if ct_source t = Some a then ct_amount t else 0) as)"
    using assms(2) by (simp add: txn_delta_def txn_ok_def sum_list_subtractf)
  then show ?thesis
    unfolding sum_list_indicator [OF assms(1)]
    using assms(2) by (cases "ct_source t"; cases "ct_target t") (auto simp: txn_ok_def)
qed

lemma sum_list_swap:
  "sum_list (map (\<lambda>a. sum_list (map (f a) ts)) as) = sum_list (map (\<lambda>t. sum_list (map (\<lambda>a. f a t) as)) ts)"
  for f :: "'a \<Rightarrow> 'b \<Rightarrow> int"
  by (induction as) (simp_all add: sum_list_addf)

lemma credits_conserved: "credit_wf db \<Longrightarrow> total_credits db = net_issued db"
proof -
  assume wf: "credit_wf db"
  have "sum_list (map (\<lambda>t. sum_list (map (\<lambda>a. txn_delta a t) (account_ids db))) ts) =
      credit_balance_for_qs (\<lambda>t. ct_source t = None) ts - credit_balance_for_qs (\<lambda>t. ct_target t = None) ts"
    if "\<forall>t \<in> set ts. txn_ok (set (account_ids db)) t" for ts
    using that wf
    by (induction ts) (auto simp: txn_delta_total credit_balance_for_qs_def credit_wf_def txn_ok_def)
  then show ?thesis
    unfolding total_credits_def net_issued_def credit_balance_sum
    by (subst sum_list_swap) (use wf in \<open>simp add: credit_wf_def\<close>)
qed

subsection \<open>Solvency\<close>

definition task_delta :: "string \<Rightarrow> string \<Rightarrow> credit_transaction \<Rightarrow> int" where
  "task_delta l task t = (if ct_status t = POSTED then
     (if task_locked_in l task t then ct_amount t else 0) -
     (if task_locked_out TASK_REWARD l task t \<or> task_locked_out UNLOCK l task t then ct_amount t else 0)
   else 0)"

definition task_budget :: "string \<Rightarrow> string \<Rightarrow> 'a credit_db_scheme \<Rightarrow> int" where
  "task_budget l task db = sum_list (map (task_delta l task) (ledger_views db))"

lemma task_delta_view [simp]: "task_delta l task (ledger_view t) = task_delta l task t"
  by (simp add: task_delta_def task_locked_in_def task_locked_out_def)

lemma task_locked_balance_budget:
  "task_locked_credit_balance task db = Inr n \<longleftrightarrow>
   (\<exists>l. pool TASK_LOCKED db = Inr l \<and> n = task_budget (ca_account_id l) task db)"
proof -
  have "credit_balance_for_qs (task_locked_in l task) ts -
       credit_balance_for_qs (task_locked_out TASK_REWARD l task) ts -
       credit_balance_for_qs (task_locked_out UNLOCK l task) ts = sum_list (map (task_delta l task) ts)" for l ts
    by (induction ts) (auto simp: credit_balance_for_qs_def task_delta_def task_locked_out_def)
  moreover have "task_budget l task db = sum_list (map (task_delta l task) (credit_transactions db))" for l
    by (simp add: task_budget_def ledger_views_def o_def)
  ultimately show ?thesis by (auto simp: task_locked_credit_balance_def Let_def)
qed

text \<open>The rows that touch the task-locked account are budget locks, unlocks and rewards of a task.\<close>

definition locked_txn :: "string \<Rightarrow> credit_transaction \<Rightarrow> bool" where
  "locked_txn l t \<longleftrightarrow>
    (ct_target t = Some l \<longrightarrow> ct_type t = LOCK \<and> ct_related_task t \<noteq> None) \<and>
    (ct_source t = Some l \<longrightarrow> ct_type t \<in> {TASK_REWARD, UNLOCK} \<and> ct_related_task t \<noteq> None)"

definition budgets_ok :: "string \<Rightarrow> 'a credit_db_scheme \<Rightarrow> bool" where
  "budgets_ok l db \<longleftrightarrow> (\<forall>t \<in> set (ledger_views db). locked_txn l t) \<and> (\<forall>task. 0 \<le> task_budget l task db)"

definition solvent :: "'a credit_db_scheme \<Rightarrow> bool" where
  "solvent db \<longleftrightarrow> credit_wf db \<and> (\<forall>a. 0 \<le> credit_balance a db) \<and>
    (\<forall>l \<in> set (credit_accounts db). ca_account_type l = TASK_LOCKED \<longrightarrow> budgets_ok (ca_account_id l) db)"

lemma locked_txn_split:
  assumes "locked_txn l t" "finite T" "set_option (ct_related_task t) \<subseteq> T"
  shows "(\<Sum>x \<in> T. task_delta l x t) = txn_delta l t"
proof (cases "ct_related_task t")
  case None
  then show ?thesis using assms(1)
    by (auto simp: locked_txn_def task_delta_def txn_delta_def task_locked_in_def task_locked_out_def)
next
  case (Some k)
  have "(\<Sum>x \<in> T. task_delta l x t) = (\<Sum>x \<in> T. if x = k then task_delta l k t else 0)"
    by (rule sum.cong) (auto simp: task_delta_def task_locked_in_def task_locked_out_def Some)
  also have "\<dots> = task_delta l k t" using assms(2,3) Some by (simp add: sum.delta)
  also have "\<dots> = txn_delta l t" using assms(1) Some
    by (auto simp: locked_txn_def task_delta_def txn_delta_def task_locked_in_def task_locked_out_def)
  finally show ?thesis .
qed

text \<open>The task-locked balance is the sum of the task budgets, so it covers each of them.\<close>

lemma locked_balance_split:
  assumes "\<forall>t \<in> set ts. locked_txn l t" "finite T" "\<forall>t \<in> set ts. set_option (ct_related_task t) \<subseteq> T"
  shows "(\<Sum>x \<in> T. sum_list (map (task_delta l x) ts)) = sum_list (map (txn_delta l) ts)"
  using assms by (induction ts) (simp_all add: sum.distrib locked_txn_split)

lemma budget_le_balance:
  assumes "budgets_ok l db" shows "task_budget l task db \<le> credit_balance l db"
proof -
  let ?ts = "ledger_views db"
  define T where "T = insert task (\<Union>t \<in> set ?ts. set_option (ct_related_task t))"
  have fin: "finite T" unfolding T_def by simp
  have cover: "\<forall>t \<in> set ?ts. set_option (ct_related_task t) \<subseteq> T" unfolding T_def by blast
  have "\<forall>t \<in> set ?ts. locked_txn l t" using assms by (simp add: budgets_ok_def)
  from locked_balance_split [OF this fin cover]
  have "credit_balance l db = (\<Sum>x \<in> T. task_budget l x db)"
    unfolding credit_balance_views task_budget_def by (rule sym)
  moreover have "task_budget l task db \<le> (\<Sum>x \<in> T. task_budget l x db)"
    using assms fin by (intro member_le_sum) (auto simp: budgets_ok_def T_def)
  ultimately show ?thesis by simp
qed

lemma account_same_id:
  "credit_wf db \<Longrightarrow> a \<in> set (credit_accounts db) \<Longrightarrow> b \<in> set (credit_accounts db) \<Longrightarrow>
   ca_account_id a = ca_account_id b \<Longrightarrow> a = b"
  unfolding credit_wf_def account_ids_def by (metis distinct_map_unique)

lemma system_account_unique:
  assumes "credit_wf db" "a \<in> set (credit_accounts db)" "b \<in> set (credit_accounts db)"
    "ca_account_type a = ca_account_type b" "ca_account_type a \<noteq> MEMBER_ACCOUNT"
  shows "a = b"
proof -
  have "a \<in> set (filter is_system_account (credit_accounts db))"
    "b \<in> set (filter is_system_account (credit_accounts db))"
    using assms by (auto simp: is_system_account_def)
  then show ?thesis using assms(1,4) distinct_map_unique unfolding credit_wf_def by metis
qed

lemma views_ok: "credit_wf db \<Longrightarrow> t \<in> set (ledger_views db) \<Longrightarrow> txn_ok (set (account_ids db)) t"
  by (auto simp: credit_wf_def ledger_views_def)

text \<open>No row mentions an account that does not exist.\<close>

lemma foreign_account:
  assumes wf: "credit_wf db" and "l \<notin> set (account_ids db)"
  shows "credit_balance l db = 0" "budgets_ok l db"
proof -
  have no: "ct_source t \<noteq> Some l" "ct_target t \<noteq> Some l" if "t \<in> set (ledger_views db)" for t
    using views_ok [OF wf that] assms(2) by (auto simp: txn_ok_def)
  have "map (txn_delta l) (ledger_views db) = map (\<lambda>_. 0) (ledger_views db)"
    using no by (auto simp: txn_delta_def)
  then show "credit_balance l db = 0" unfolding credit_balance_views by (simp only: sum_list_0)
  have "map (task_delta l task) (ledger_views db) = map (\<lambda>_. 0) (ledger_views db)" for task
    using no by (auto simp: task_delta_def task_locked_in_def task_locked_out_def)
  then have "task_budget l task db = 0" for task unfolding task_budget_def by (simp only: sum_list_0)
  then show "budgets_ok l db" using no by (auto simp: budgets_ok_def locked_txn_def)
qed

lemma budgets_ok_cong: "ledger_views db' = ledger_views db \<Longrightarrow> budgets_ok l db' = budgets_ok l db"
  by (simp add: budgets_ok_def task_budget_def)

text \<open>Budgets of every task-locked account, also of one that was just created.\<close>

lemma solvent_budgets:
  assumes s: "solvent db" and "credit_frame db db'" "credit_wf db'"
    and l: "l \<in> set (credit_accounts db')" "ca_account_type l = TASK_LOCKED"
  shows "budgets_ok (ca_account_id l) db"
proof (cases "ca_account_id l \<in> set (account_ids db)")
  case True
  then obtain x where x: "x \<in> set (credit_accounts db)" "ca_account_id x = ca_account_id l"
    by (auto simp: account_ids_def)
  then have "x = l" using account_same_id [OF assms(3)] l credit_frameD(1) [OF assms(2)] by blast
  with s x l show ?thesis by (auto simp: solvent_def)
next
  case False
  with s show ?thesis by (auto simp: solvent_def intro: foreign_account)
qed

lemma solvent_accounts: "solvent db \<Longrightarrow> accounts_grow db db' \<Longrightarrow> solvent db'"
  using solvent_budgets [of db db'] credit_frame_accounts [of db db'] accounts_growD [of db db']
    budgets_ok_cong [of db' db]
  by (auto simp: solvent_def ledger_views_def)

definition covered :: "'a credit_db_scheme \<Rightarrow> credit_transaction \<Rightarrow> bool" where
  "covered db t \<longleftrightarrow> (\<forall>s. ct_source t = Some s \<longrightarrow> ct_amount t \<le> credit_balance s db)"

definition budget_covered :: "string \<Rightarrow> 'a credit_db_scheme \<Rightarrow> credit_transaction \<Rightarrow> bool" where
  "budget_covered l db t \<longleftrightarrow> locked_txn l t \<and>
    (ct_source t = Some l \<longrightarrow> (\<forall>task. ct_related_task t = Some task \<longrightarrow> ct_amount t \<le> task_budget l task db))"

lemma solvent_call:
  assumes s: "solvent db" and call: "credit_call env db t db'"
    and ok: "ledger_views db' = ledger_views db \<or> covered db t \<and>
      (\<forall>l \<in> set (credit_accounts db'). ca_account_type l = TASK_LOCKED \<longrightarrow> budget_covered (ca_account_id l) db t)"
  shows "solvent db'"
proof -
  have wf: "credit_wf db'" and frame: "credit_frame db db'" using s call by (auto simp: solvent_def credit_call_def)
  have pos: "0 < ct_amount t" "ct_status t = POSTED"
    using wf call by (auto simp: credit_wf_def credit_call_def txn_ok_def)
  consider "ledger_views db' = ledger_views db" |
      "ledger_views db' = ledger_views db @ [ledger_view t]" "covered db t"
      "\<And>l. l \<in> set (credit_accounts db') \<Longrightarrow> ca_account_type l = TASK_LOCKED \<Longrightarrow> budget_covered (ca_account_id l) db t"
    using ok call by (auto simp: credit_call_def)
  then show ?thesis
  proof cases
    case 1
    then show ?thesis using s wf solvent_budgets [OF s frame wf] budgets_ok_cong [OF 1]
      by (auto simp: solvent_def credit_balance_views)
  next
    case 2
    have bal: "0 \<le> credit_balance a db'" for a
    proof -
      have "0 \<le> credit_balance a db" using s by (simp add: solvent_def)
      moreover have "credit_balance a db' = credit_balance a db + txn_delta a t"
        by (simp add: credit_balance_views 2(1))
      ultimately show ?thesis using 2(2) pos by (auto simp: covered_def txn_delta_def)
    qed
    have "budgets_ok (ca_account_id l) db'"
      if l: "l \<in> set (credit_accounts db')" "ca_account_type l = TASK_LOCKED" for l
    proof -
      note b = solvent_budgets [OF s frame wf l] and c = 2(3) [OF l]
      have "0 \<le> task_budget (ca_account_id l) task db + task_delta (ca_account_id l) task t" for task
        using b c pos
        by (auto simp: budgets_ok_def budget_covered_def task_delta_def task_locked_in_def task_locked_out_def)
      then show ?thesis using b c by (auto simp: budgets_ok_def 2(1) budget_covered_def task_budget_def locked_txn_def)
    qed
    with wf bal show ?thesis by (simp add: solvent_def)
  qed
qed

text \<open>A row between accounts that are not task-locked leaves the budgets alone.\<close>

lemma budget_covered_other:
  assumes wf: "credit_wf db'" and l: "l \<in> set (credit_accounts db')" "ca_account_type l = TASK_LOCKED"
    and "\<And>a. ct_source t = Some a \<or> ct_target t = Some a \<Longrightarrow>
      \<exists>x \<in> set (credit_accounts db'). ca_account_id x = a \<and> ca_account_type x \<noteq> TASK_LOCKED"
  shows "budget_covered (ca_account_id l) db t"
proof -
  have "ct_source t \<noteq> Some (ca_account_id l)" "ct_target t \<noteq> Some (ca_account_id l)"
    using assms(4) [of "ca_account_id l"] account_same_id [OF wf _ l(1)] l(2) by fastforce+
  then show ?thesis by (simp add: budget_covered_def locked_txn_def)
qed

lemma locked_account_unique:
  "credit_wf db' \<Longrightarrow> l \<in> set (credit_accounts db') \<Longrightarrow> ca_account_type l = TASK_LOCKED \<Longrightarrow>
   x \<in> set (credit_accounts db') \<Longrightarrow> ca_account_type x = TASK_LOCKED \<Longrightarrow> ca_account_id l = ca_account_id x"
  using system_account_unique [of db' l x] by simp

text \<open>
  Ordinary calls: everything but governance deductions, reversals and the unbudgeted genesis
  reward, the three paths on which the code lets a balance go below zero.
\<close>

fun ordinary_call :: "credit_op \<Rightarrow> bool" where
  "ordinary_call (DeductCredits m n rs i k) = False"
| "ordinary_call (ReverseTransaction oid rs i k) = False"
| "ordinary_call (RewardTask task m n entry ev rb rs g) = (\<not> g)"
| "ordinary_call _ = True"

lemma solvent_issue:
  assumes s: "solvent db" and i: "issue_credits_to_pool env uid n rs i r k db = Inr (t, db')"
  shows "solvent db'"
proof -
  from i obtain a where a: "pool ISSUANCE_POOL db = Inr a" and
    post: "post_credit_transaction env uid ((posting_of ISSUANCE n None (Some (ca_account_id a)) k)
      \<lparr>p_reason := rs, p_initiated_by := i, p_reviewed_by := r\<rparr>) db = Inr (t, db')"
    by (auto simp: issue_credits_to_pool_def)
  note call = issue_credits_call [OF i]
  have t: "ct_source t = None" "ct_target t = Some (ca_account_id a)" using post_rows [OF post] by simp_all
  have wf: "credit_wf db'" using s call by (simp add: solvent_def credit_call_def)
  have a': "a \<in> set (credit_accounts db')" "ca_account_type a = ISSUANCE_POOL"
    using pool_ok [OF a] call credit_frameD(1) by (auto simp: credit_call_def)
  have "budget_covered (ca_account_id l) db t" if "l \<in> set (credit_accounts db')" "ca_account_type l = TASK_LOCKED" for l
    by (rule budget_covered_other [OF wf that]) (use t a' in auto)
  with t s call show ?thesis by (intro solvent_call [OF s call]) (simp add: covered_def)
qed

lemma solvent_lock:
  assumes s: "solvent db" and i: "lock_task_credit_budget env uid task n rs i k db = Inr (t, db')"
  shows "solvent db'"
  using i
proof (cases rule: lock_cases)
  case (1 p l)
  have wf: "credit_wf db'" and sub: "set (credit_accounts db) \<subseteq> set (credit_accounts db')"
    using s 1(8) credit_frameD(1) by (auto simp: solvent_def credit_call_def)
  have pl: "p \<in> set (credit_accounts db')" "ca_account_type p = ISSUANCE_POOL"
    "l \<in> set (credit_accounts db')" "ca_account_type l = TASK_LOCKED"
    using pool_ok [OF 1(1)] pool_ok [OF 1(2)] sub by auto
  have "budget_covered (ca_account_id x) db t" if "x \<in> set (credit_accounts db')" "ca_account_type x = TASK_LOCKED" for x
  proof -
    have "x = l" using system_account_unique [OF wf that(1) pl(3)] that pl by simp
    moreover have "ca_account_id p \<noteq> ca_account_id l" using account_same_id [OF wf pl(1,3)] pl by auto
    ultimately show ?thesis using 1 by (simp add: budget_covered_def locked_txn_def)
  qed
  then show ?thesis using 1 by (intro solvent_call [OF s 1(8)]) (auto simp: covered_def)
qed

lemma solvent_spend_budget:
  assumes s: "solvent db" and call: "credit_call env db t db'" and grow: "accounts_grow db db1"
    and l: "pool TASK_LOCKED db1 = Inr l" "credit_accounts db1 = credit_accounts db'"
    and t: "ct_type t \<in> {TASK_REWARD, UNLOCK}" "ct_source t = Some (ca_account_id l)"
      "ct_related_task t = Some task" "ct_target t = Some b"
    and b: "x \<in> set (credit_accounts db')" "ca_account_id x = b" "ca_account_type x \<noteq> TASK_LOCKED"
    and rem: "ledger_views db' = ledger_views db \<or>
      (\<exists>rem. task_locked_credit_balance task db1 = Inr rem \<and> ct_amount t \<le> rem)"
  shows "solvent db'"
proof -
  have wf: "credit_wf db'" using s call by (simp add: solvent_def credit_call_def)
  have l': "l \<in> set (credit_accounts db')" "ca_account_type l = TASK_LOCKED"
    using pool_ok [OF l(1)] l(2) by auto
  have ne: "b \<noteq> ca_account_id l" using account_same_id [OF wf b(1) l'(1)] b l' by auto
  have views: "ledger_views db1 = ledger_views db"
    using accounts_growD(1) [OF grow] by (simp add: ledger_views_def)
  have ok: "budgets_ok (ca_account_id l) db"
    using solvent_budgets [OF s _ wf l'] call by (simp add: credit_call_def)
  {
    assume "ledger_views db' \<noteq> ledger_views db"
    with rem l views have n: "ct_amount t \<le> task_budget (ca_account_id l) task db"
      by (auto simp: task_locked_balance_budget task_budget_def)
    then have "covered db t" using budget_le_balance [OF ok, of task] t by (simp add: covered_def)
    moreover have "budget_covered (ca_account_id y) db t"
      if "y \<in> set (credit_accounts db')" "ca_account_type y = TASK_LOCKED" for y
      using locked_account_unique [OF wf that l'] n t ne by (auto simp: budget_covered_def locked_txn_def)
    ultimately have "covered db t \<and> (\<forall>l \<in> set (credit_accounts db'). ca_account_type l = TASK_LOCKED \<longrightarrow>
      budget_covered (ca_account_id l) db t)" by blast
  }
  then show ?thesis by (intro solvent_call [OF s call]) blast
qed

lemma call_accounts:
  "post_credit_transaction env uid p db = Inr (t, db') \<Longrightarrow> credit_accounts db' = credit_accounts db"
  by (rule post_rows(2))

lemma unlock_accounts:
  "unlock_unused_task_credit_budget env uid task n rs i k db = Inr (t, db') \<Longrightarrow>
   credit_accounts db' = credit_accounts db"
  by (auto simp: unlock_unused_task_credit_budget_def Let_def call_accounts split: option.splits if_splits)

lemma reward_accounts:
  assumes "post_task_reward_credit_transaction env uid task m n entry ev rb rs g db = Inr (t, db')"
    and "get_or_create_member_credit_account env m db = Inr (ma, db1)"
  shows "credit_accounts db' = credit_accounts db1"
proof (cases "posted_with_key (Some (task_reward_key entry)) (\<lambda>t. ct_type t = TASK_REWARD) db1")
  case None
  with assms show ?thesis
    by (auto simp: post_task_reward_credit_transaction_def Let_def call_accounts split: if_splits)
next
  case (Some x)
  with assms show ?thesis
    by (auto simp: post_task_reward_credit_transaction_def Let_def)
qed

lemma solvent_unlock:
  assumes s: "solvent db" and i: "unlock_unused_task_credit_budget env uid task n rs i k db = Inr (t, db')"
  shows "solvent db'"
  using i
proof (cases rule: unlock_cases)
  case (1 p l)
  note acc = unlock_accounts [OF i]
  have p: "p \<in> set (credit_accounts db')" "ca_account_type p \<noteq> TASK_LOCKED"
    using pool_ok [OF 1(1)] acc by auto
  show ?thesis
    using solvent_spend_budget [OF s 1(8) accounts_grow_refl 1(2) acc [symmetric] _ 1(5,7,6) p(1) refl p(2)]
      1(3,4,9) by auto
qed

lemma solvent_reward:
  assumes s: "solvent db"
    and i: "post_task_reward_credit_transaction env uid task m n entry ev rb rs False db = Inr (t, db')"
  shows "solvent db'"
  using i
proof (cases rule: task_reward_cases)
  case (1 ma db1 l)
  note acc = reward_accounts [OF i 1(1)] and a = member_account_grow [OF 1(1)]
  have l: "pool TASK_LOCKED db1 = Inr l" using 1(2) by simp
  have ma: "ma \<in> set (credit_accounts db')" "ca_account_type ma \<noteq> TASK_LOCKED" using a acc by auto
  show ?thesis
    using solvent_spend_budget [OF s 1(8) a(1) l acc [symmetric] _ 1(5,7,6) ma(1) refl ma(2)] 1(3,4,9) by auto
qed

lemma solvent_transfer:
  assumes s: "solvent db" and i: "transfer_member_credits env uid m1 m2 n rs i k db = Inr (t, db')"
  shows "solvent db'"
  using i
proof (cases rule: transfer_cases)
  case (1 fa db1 ta db2)
  note a1 = member_account_grow [OF 1(3)] and a2 = member_account_grow [OF 1(4)]
  have wf: "credit_wf db'" using s 1(10) by (simp add: solvent_def credit_call_def)
  have ft: "fa \<in> set (credit_accounts db')" "ca_account_type fa \<noteq> TASK_LOCKED"
    "ta \<in> set (credit_accounts db')" "ca_account_type ta \<noteq> TASK_LOCKED"
    using a1 a2 accounts_growD(4) [OF a2(1)] 1(11) by auto
  have "budget_covered (ca_account_id l) db t" if "l \<in> set (credit_accounts db')" "ca_account_type l = TASK_LOCKED" for l
    using budget_covered_other [OF wf that, of t db] 1(8,9) ft by auto
  then show ?thesis using 1(7,8,12)
    by (intro solvent_call [OF s 1(10)]) (auto simp: covered_def ledger_views_def)
qed

lemma solvent_service:
  "solvent db \<Longrightarrow> ordinary_call call \<Longrightarrow> credit_service env uid call db = Inr (r, db') \<Longrightarrow> solvent db'"
  by (cases call)
    (auto simp: ensure_system_accounts_def intro: solvent_issue solvent_lock solvent_unlock solvent_reward
      solvent_transfer dest: ensure_accounts_grow solvent_accounts)

text \<open>The credit service restricted to ordinary calls keeps the ledger solvent.\<close>

fun ordinary_step :: "env \<Rightarrow> time \<times> string \<times> credit_op \<Rightarrow> 'a credit_db_scheme \<Rightarrow>
    (credit_transaction option \<times> 'a credit_db_scheme) result" where
  "ordinary_step env (at, uid, call) db =
    (if ordinary_call call then credit_step env (at, uid, call) db else Inr (None, db))"

interpretation ordinary: state_service "ordinary_step env" solvent for env
proof
  fix db db' :: "'a credit_db_scheme" and x r
  show "solvent db'" if "solvent db" "ordinary_step env x db = Inr (r, db')"
    using that by (cases x) (auto split: if_splits dest: solvent_service)
qed

lemma run_ordinary:
  "list_all (\<lambda>(at, uid, call). ordinary_call call) reqs \<Longrightarrow>
   run_ops (credit_step env) reqs db = run_ops (ordinary_step env) reqs db"
  by (induction reqs arbitrary: db) (auto split: sum.splits)

lemma empty_credit_db_ok [simp]: "credit_wf empty_credit_db" "solvent empty_credit_db"
  by (simp_all add: credit_wf_def solvent_def empty_credit_db_def account_ids_def idem_keys_def
      credit_balance_def credit_balance_for_qs_def)

subsection \<open>Posting succeeds\<close>

lemma emit_credit_event_succeeds:
  assumes "chain_ok env db" "\<not> sha_collision env"
  shows "\<exists>e. emit_credit_event env t db = Inr (e, db\<lparr>system_events := system_events db @ [e]\<rparr>)"
  unfolding emit_credit_event_def
  using append_succeeds [OF assms credit_event_payload_valid credit_event_payload_def]
  by (simp add: Let_def)

definition credit_event :: "env \<Rightarrow> credit_transaction \<Rightarrow> 'a credit_db_scheme \<Rightarrow> system_event" where
  "credit_event env t db = (case emit_credit_event env t db of Inr (e, _) \<Rightarrow> e)"

text \<open>Without a digest collision a new posting is stored, with its event.\<close>

lemma post_fresh:
  assumes ok: "chain_ok env db" "\<not> sha_collision env"
    and args: "0 < p_amount p" "parse_txn_type (p_transaction_type p) = Some ty"
    and t: "t = posting_row env uid ty p"
    and fresh: "\<forall>x \<in> set (credit_transactions db). ct_transaction_id x \<noteq> new_id ''ct'' uid \<and>
      (normalise_idem_key (p_idempotency_key p) = None \<or>
       ct_idempotency_key x \<noteq> normalise_idem_key (p_idempotency_key p))"
  shows "post_credit_transaction env uid p db =
    Inr (t, db\<lparr>system_events := system_events db @
        [credit_event env t (db\<lparr>credit_transactions := credit_transactions db @ [t]\<rparr>)],
      credit_transactions := credit_transactions db @ [t]\<rparr>)"
proof -
  let ?db = "db\<lparr>credit_transactions := credit_transactions db @ [t]\<rparr>"
  have "chain_ok env ?db" using ok(1) chain_ok_cong [of ?db db env] by simp
  from emit_credit_event_succeeds [OF this ok(2)]
  obtain e where e: "emit_credit_event env t ?db = Inr (e, ?db\<lparr>system_events := system_events ?db @ [e]\<rparr>)"
    by blast
  have "posted_with_key (normalise_idem_key (p_idempotency_key p)) (\<lambda>_. True) db = None"
    using fresh by (cases "normalise_idem_key (p_idempotency_key p)")
      (auto simp: posted_with_key_def find_row_None_iff)
  moreover have "and_then (insert_transaction t db) (emit_credit_event env t) =
      Inr (e, ?db\<lparr>system_events := system_events ?db @ [e]\<rparr>)"
  proof -
    have ins: "insert_transaction t db = Inr ?db" using fresh t by simp
    show ?thesis unfolding ins by (simp only: and_then.simps e)
  qed
  ultimately show ?thesis using args t e
    by (simp add: post_credit_transaction_def Let_def credit_event_def del: and_then_Inr_conv)
qed

lemma post_keeps_chain:
  "chain_ok env db \<Longrightarrow> post_credit_transaction env uid p db = Inr (t, db') \<Longrightarrow> chain_ok env db'"
  using post_audited [of env uid p db t db'] by (simp add: audited_def)

subsection \<open>Member balances\<close>

lemma member_account_same:
  assumes wf: "credit_wf db" and a: "a \<in> set (credit_accounts db)" "ca_member_id a = Some i"
    and b: "b \<in> set (credit_accounts db)" "ca_member_id b = Some i"
  shows "a = b"
proof -
  have "distinct (map ca_member_id (filter (\<lambda>x. ca_member_id x \<noteq> None) (credit_accounts db)))"
    using wf by (simp add: credit_wf_def filter_map o_def)
  then show ?thesis using a b distinct_map_unique [of ca_member_id] by fastforce
qed

lemma member_account_row_unique:
  assumes "credit_wf db" "a \<in> set (credit_accounts db)" "ca_account_type a = MEMBER_ACCOUNT"
    "ca_member_id a = Some (m_id m)"
  shows "member_account_row m db = Some a"
  unfolding member_account_row_def
  by (rule find_row_unique) (use assms member_account_same in auto)

text \<open>The balance of a member is the balance of the member's account, also before it exists.\<close>

lemma member_balance_account:
  assumes wf: "credit_wf db" "credit_wf db'" and frame: "credit_frame db db'"
    and a: "a \<in> set (credit_accounts db')" "ca_account_type a = MEMBER_ACCOUNT"
      "ca_member_id a = Some (m_id m)"
  shows "member_credit_balance m db = credit_balance (ca_account_id a) db"
proof (cases "member_account_row m db")
  case (Some x)
  then have x: "x \<in> set (credit_accounts db)" "ca_member_id x = Some (m_id m)"
    by (auto simp: member_account_row_def dest!: find_row_Some_iff)
  then have "x = a" using member_account_same [OF wf(2)] a credit_frameD(1) [OF frame] by blast
  with Some show ?thesis by (simp add: member_credit_balance_def)
next
  case None
  have "ca_account_id a \<notin> set (account_ids db)"
  proof
    assume "ca_account_id a \<in> set (account_ids db)"
    then obtain x where x: "x \<in> set (credit_accounts db)" "ca_account_id x = ca_account_id a"
      by (auto simp: account_ids_def)
    then have "x = a" using account_same_id [OF wf(2)] a credit_frameD(1) [OF frame] by blast
    with x a None show False by (auto simp: member_account_row_def find_row_None_iff)
  qed
  then show ?thesis using None foreign_account(1) [OF wf(1)] by (simp add: member_credit_balance_def)
qed

lemma member_balance_account_now:
  assumes "credit_wf db" "a \<in> set (credit_accounts db)" "ca_account_type a = MEMBER_ACCOUNT"
    "ca_member_id a = Some (m_id m)"
  shows "member_credit_balance m db = credit_balance (ca_account_id a) db"
  using member_account_row_unique [OF assms] by (simp add: member_credit_balance_def)

text \<open>A row moves nobody's balance but that of its own accounts.\<close>

lemma member_balance_other:
  assumes wf: "credit_wf db" "credit_wf db'" and frame: "credit_frame db db'"
    and others: "\<And>a. a \<in> set (credit_accounts db') \<Longrightarrow> ca_member_id a = Some (m_id m) \<Longrightarrow>
      credit_balance (ca_account_id a) db' = credit_balance (ca_account_id a) db"
  shows "member_credit_balance m db' = member_credit_balance m db"
proof (cases "member_account_row m db'")
  case (Some a)
  then have a: "a \<in> set (credit_accounts db')" "ca_account_type a = MEMBER_ACCOUNT"
      "ca_member_id a = Some (m_id m)"
    by (auto simp: member_account_row_def dest!: find_row_Some_iff)
  then show ?thesis
    using member_balance_account [OF wf frame a] member_balance_account_now [OF wf(2) a] others by simp
next
  case None
  then have "member_account_row m db = None"
    using credit_frameD(1) [OF frame] by (auto simp: member_account_row_def find_row_None_iff)
  with None show ?thesis by (simp add: member_credit_balance_def)
qed

lemma transfer_balances:
  assumes wf: "credit_wf db"
    and t: "transfer_member_credits env uid m1 m2 n rs i k db = Inr (t, db')"
    and new: "credit_transactions db' \<noteq> credit_transactions db"
  shows "member_credit_balance m1 db' = member_credit_balance m1 db - n"
    "0 \<le> member_credit_balance m1 db'"
    "member_credit_balance m2 db' = member_credit_balance m2 db + n"
    "m_id m \<noteq> m_id m1 \<Longrightarrow> m_id m \<noteq> m_id m2 \<Longrightarrow> member_credit_balance m db' = member_credit_balance m db"
proof -
  from t obtain fa ta where ft: "fa \<in> set (credit_accounts db')" "ca_account_type fa = MEMBER_ACCOUNT"
      "ca_member_id fa = Some (m_id m1)" "ta \<in> set (credit_accounts db')"
      "ca_account_type ta = MEMBER_ACCOUNT" "ca_member_id ta = Some (m_id m2)"
    and ne: "m_id m1 \<noteq> m_id m2" and call: "credit_call env db t db'"
    and row: "ct_amount t = n" "ct_source t = Some (ca_account_id fa)" "ct_target t = Some (ca_account_id ta)"
    and tx: "credit_transactions db' = credit_transactions db @ [t]" "n \<le> credit_balance (ca_account_id fa) db"
  proof (cases rule: transfer_cases)
    case (1 fa db1 ta db2)
    note a1 = member_account_grow [OF 1(3)] and a2 = member_account_grow [OF 1(4)]
    show thesis
      using a1 a2 accounts_growD(4) [OF a2(1)] 1 new by (intro that [of fa ta]) auto
  qed
  have wf': "credit_wf db'" and frame: "credit_frame db db'" and st: "ct_status t = POSTED"
    using call wf by (simp_all add: credit_call_def)
  have bal: "credit_balance a db' = credit_balance a db + txn_delta a t" for a
    using credit_balance_snoc [OF tx(1)] .
  have ids: "ca_account_id fa \<noteq> ca_account_id ta" using account_same_id [OF wf' ft(1,4)] ft ne by auto
  note before = member_balance_account [OF wf wf' frame] and after = member_balance_account_now [OF wf']
  show m1: "member_credit_balance m1 db' = member_credit_balance m1 db - n"
    using before [OF ft(1-3)] after [OF ft(1-3)] bal row ids st by (simp add: txn_delta_def)
  show "0 \<le> member_credit_balance m1 db'" using m1 before [OF ft(1-3)] tx(2) by simp
  show "member_credit_balance m2 db' = member_credit_balance m2 db + n"
    using before [OF ft(4-6)] after [OF ft(4-6)] bal row ids st by (simp add: txn_delta_def)
  show "member_credit_balance m db' = member_credit_balance m db"
    if "m_id m \<noteq> m_id m1" "m_id m \<noteq> m_id m2"
  proof (rule member_balance_other [OF wf wf' frame])
    fix a assume a: "a \<in> set (credit_accounts db')" "ca_member_id a = Some (m_id m)"
    then have "ca_account_id a \<noteq> ca_account_id fa" "ca_account_id a \<noteq> ca_account_id ta"
      using account_same_id [OF wf' a(1)] ft that by (metis option.inject)+
    then show "credit_balance (ca_account_id a) db' = credit_balance (ca_account_id a) db"
      using bal row by (simp add: txn_delta_def)
  qed
qed

subsection \<open>Reversals\<close>

lemma reversed_marks:
  assumes "reverse_credit_transaction env uid oid rs i k db = Inr (t, db')"
  shows "\<exists>x \<in> set (credit_transactions db'). ct_reverses x = Some oid \<and> ct_status x = POSTED"
  using assms
proof (cases rule: reverse_post)
  case (1 orig rv db1)
  then show ?thesis using post_rows(1,4) [OF 1(3)]
    by (intro bexI [of _ "rv\<lparr>ct_reverses := Some oid\<rparr>"]) (auto simp: set_update_rows)
qed

lemma find_txn_views:
  assumes "find_row (\<lambda>t. ct_transaction_id t = x) (credit_transactions db) = Some orig"
    and "prefix (ledger_views db) (ledger_views db')"
  shows "\<exists>o2. find_row (\<lambda>t. ct_transaction_id t = x) (credit_transactions db') = Some o2"
proof -
  have "x \<in> ct_transaction_id ` set (credit_transactions db)"
    using find_row_Some_iff [OF assms(1)] by auto
  also have "\<dots> = ct_transaction_id ` set (ledger_views db)" by (auto simp: ledger_views_def image_iff)
  also have "\<dots> \<subseteq> ct_transaction_id ` set (ledger_views db')"
    using set_mono_prefix [OF assms(2)] by blast
  also have "\<dots> = ct_transaction_id ` set (credit_transactions db')" by (auto simp: ledger_views_def image_iff)
  finally show ?thesis
    by (cases "find_row (\<lambda>t. ct_transaction_id t = x) (credit_transactions db')")
      (auto simp: find_row_None_iff)
qed

lemma post_unkeyed_appends:
  assumes "post_credit_transaction env uid p db = Inr (t, db')" "normalise_idem_key (p_idempotency_key p) = None"
  shows "credit_transactions db' = credit_transactions db @ [t]"
  using assms(1) by (cases rule: post_cases) (use assms(2) in \<open>auto dest!: emit_credit_event_db\<close>)

lemma reverse_unkeyed_appends:
  assumes "reverse_credit_transaction env uid oid rs i k db = Inr (t, db')" "normalise_idem_key k = None"
  shows "ledger_views db' = ledger_views db @ [ledger_view t]"
  using assms(1)
proof (cases rule: reverse_post)
  case (1 orig rv db1)
  have "credit_transactions db1 = credit_transactions db @ [rv]"
    using post_unkeyed_appends [OF 1(3)] assms(2) by simp
  then show ?thesis by (simp add: ledger_views_def 1(4,5) ledger_views_link)
qed

subsection \<open>An example ledger\<close>

definition example_account :: "string \<Rightarrow> account_type \<Rightarrow> int option \<Rightarrow> credit_account" where
  "example_account i ty m = \<lparr>ca_account_id = i, ca_account_type = ty, ca_member_id = m,
     ca_status = AccountActive, ca_metadata = JObj [], ca_created_at = 0, ca_updated_at = None\<rparr>"

text \<open>Member 1 holds 100 credits from the issuance pool, member 2 an empty account.\<close>

definition example_ledger :: credit_db where
  "example_ledger = \<lparr>system_events = [],
     credit_accounts = [example_account ''pool'' ISSUANCE_POOL None,
       example_account ''locked'' TASK_LOCKED None,
       example_account ''a1'' MEMBER_ACCOUNT (Some 1), example_account ''a2'' MEMBER_ACCOUNT (Some 2)],
     credit_transactions =
       [posting_row plain_env ''0'' ISSUANCE (posting_of ISSUANCE 100 None (Some ''pool'') None),
        posting_row plain_env ''1'' TASK_REWARD
          (posting_of TASK_REWARD 100 (Some ''pool'') (Some ''a1'') None)]\<rparr>"

lemma example_account_simps [simp]:
  "ca_account_id (example_account i ty m) = i" "ca_account_type (example_account i ty m) = ty"
  "ca_member_id (example_account i ty m) = m"
  by (simp_all add: example_account_def)

lemma example_ledger_wf [simp]:
  "credit_wf example_ledger" "chain_ok plain_env example_ledger" "system_events example_ledger = []"
  by (simp_all add: example_ledger_def credit_wf_def account_ids_def is_system_account_def idem_keys_def
      txn_ok_def normalise_idem_key_def new_id_def)

lemma example_ledger_rows:
  "credit_transactions example_ledger =
       [posting_row plain_env ''0'' ISSUANCE (posting_of ISSUANCE 100 None (Some ''pool'') None),
        posting_row plain_env ''1'' TASK_REWARD
          (posting_of TASK_REWARD 100 (Some ''pool'') (Some ''a1'') None)]"
  by (simp add: example_ledger_def)

lemma example_transfer:
  "\<exists>t db'. transfer_member_credits plain_env ''2'' (example_member 1 ''M1'') (example_member 2 ''M2'') 30 []
     None (Some ''k'') example_ledger = Inr (t, db') \<and>
     credit_transactions db' = credit_transactions example_ledger @ [t]"
  by (simp add: transfer_member_credits_def get_or_create_member_credit_account_def
      get_or_create_account_def get_unique_def posted_with_key_def normalise_idem_key_def py_strip_def
      is_space_def credit_balance_sum txn_delta_def Let_def post_fresh [OF _ _ _ _ refl] new_id_def)
    (simp add: example_ledger_def credit_balance_sum txn_delta_def get_unique_def new_id_def
      post_fresh [OF _ _ _ _ refl] normalise_idem_key_def py_strip_def is_space_def)

subsection \<open>Properties of the credit ledger\<close>


text \<open>C3. In a history without governance deductions, reversals and genesis rewards no account is ever
  overdrawn, no task is paid or refunded more than was locked for it, and the task-locked account
  covers the budget of every task.\<close>

theorem ordinary_history_solvent:
  assumes "list_all (\<lambda>(at, uid, call). ordinary_call call) reqs"
  shows "let db = run_ops (credit_step env) reqs empty_credit_db in
    0 \<le> credit_balance a db \<and>
    (\<forall>task n l. task_locked_credit_balance task db = Inr n \<longrightarrow> pool TASK_LOCKED db = Inr l \<longrightarrow>
       0 \<le> n \<and> n \<le> credit_balance (ca_account_id l) db)"
proof -
  let ?db = "run_ops (credit_step env) reqs empty_credit_db"
  have s: "solvent ?db"
    unfolding run_ordinary [OF assms] by (rule ordinary.run_inv) simp
  have "0 \<le> task_budget (ca_account_id l) task ?db \<and>
      task_budget (ca_account_id l) task ?db \<le> credit_balance (ca_account_id l) ?db"
    if "pool TASK_LOCKED ?db = Inr l" for l task
  proof -
    have "budgets_ok (ca_account_id l) ?db" using s pool_ok [OF that] by (simp add: solvent_def)
    then show ?thesis using budget_le_balance by (simp add: budgets_ok_def)
  qed
  moreover have "0 \<le> credit_balance a ?db" using s by (simp add: solvent_def)
  ultimately show ?thesis by (auto simp: Let_def task_locked_balance_budget)
qed

theorem ordinary_history_solvent_witness:
  "0 \<le> credit_balance ''acct-member-M1'' (run_ops (credit_step plain_env)
     [(1, ''a'', EnsureSystemAccounts), (2, ''b'', IssueCredits 100 ''seed'' None None None),
      (3, ''c'', LockBudget ''T1'' 40 ''budget'' None None),
      (4, ''d'', RewardTask ''T1'' (example_member 1 ''M1'') 30 ''L1'' [] None [] False),
      (5, ''e'', TransferCredits (example_member 1 ''M1'') (example_member 2 ''M2'') 10 [] None None)]
     empty_credit_db)"
  using ordinary_history_solvent [of "[(1, ''a'', EnsureSystemAccounts),
      (2, ''b'', IssueCredits 100 ''seed'' None None None),
      (3, ''c'', LockBudget ''T1'' 40 ''budget'' None None),
      (4, ''d'', RewardTask ''T1'' (example_member 1 ''M1'') 30 ''L1'' [] None [] False),
      (5, ''e'', TransferCredits (example_member 1 ''M1'') (example_member 2 ''M2'') 10 [] None None)]"
      plain_env "''acct-member-M1''"]
  by (simp add: Let_def del: run_ops.simps)



text \<open>C10. Posting is idempotent in its key: repeating a keyed posting, at any later time and with any
  drawn identifier, returns the same row and stores nothing; reusing the key for a posting that
  differs in type, amount, accounts, task or ledger entry is refused.\<close>

theorem post_idempotent:
  assumes first: "post_credit_transaction env uid p db = Inr (t, db')"
    and key: "normalise_idem_key (p_idempotency_key p) \<noteq> None"
    and q: "normalise_idem_key (p_idempotency_key q) = normalise_idem_key (p_idempotency_key p)"
      "parse_txn_type (p_transaction_type q) = Some ty" "0 < p_amount q"
  shows "post_credit_transaction env' uid' q db' =
    (if \<forall>f \<in> set (posting_expected ty q). field_matches t f then Inr (t, db')
     else Inl (DomainError ''idempotency key used by a different transaction''))"
proof -
  have "posted_with_key (normalise_idem_key (p_idempotency_key p)) (\<lambda>_. True) db' = Some t"
    using first
  proof (cases rule: post_cases)
    case (Fresh ty e)
    from key obtain k where k: "normalise_idem_key (p_idempotency_key p) = Some k" by auto
    have "find_row (\<lambda>x. ct_idempotency_key x = Some k \<and> True \<and> ct_status x = POSTED)
        (credit_transactions db) = None"
      using Fresh(4,5) k by (auto simp: find_row_None_iff)
    then show ?thesis
      using Fresh k emit_credit_event_db [OF Fresh(6)] by (simp add: posted_with_key_def find_row_append)
  qed (auto simp: posting_expected_def)
  then show ?thesis
    using q by (auto simp: post_credit_transaction_def Let_def assert_idempotent_match_def filter_empty_conv)
qed

theorem post_idempotent_witness:
  "\<exists>t db'. post_credit_transaction plain_env ''2''
      (posting_of TRANSFER 5 (Some ''a1'') (Some ''a2'') (Some '' k '')) example_ledger = Inr (t, db') \<and>
     post_credit_transaction (plain_env\<lparr>now := 9\<rparr>) ''3''
      (posting_of TRANSFER 5 (Some ''a1'') (Some ''a2'') (Some ''k'')) db' = Inr (t, db') \<and>
     post_credit_transaction (plain_env\<lparr>now := 9\<rparr>) ''3''
      (posting_of TRANSFER 6 (Some ''a1'') (Some ''a2'') (Some ''k'')) db' =
        Inl (DomainError ''idempotency key used by a different transaction'')"
proof -
  let ?p = "\<lambda>n k. posting_of TRANSFER n (Some ''a1'') (Some ''a2'') (Some k)"
  have keys: "normalise_idem_key (Some '' k '') = Some ''k''" "normalise_idem_key (Some ''k'') = Some ''k''"
    by (simp_all add: normalise_idem_key_def py_strip_def is_space_def)
  have "\<exists>db'. post_credit_transaction plain_env ''2'' (?p 5 '' k '') example_ledger =
      Inr (posting_row plain_env ''2'' TRANSFER (?p 5 '' k ''), db')"
    using keys by (simp add: post_fresh [OF _ _ _ _ refl] example_ledger_rows new_id_def)
  then obtain db' where first: "post_credit_transaction plain_env ''2'' (?p 5 '' k '') example_ledger =
      Inr (posting_row plain_env ''2'' TRANSFER (?p 5 '' k ''), db')" by blast
  note again = post_idempotent [OF first, where env' = "plain_env\<lparr>now := 9\<rparr>" and uid' = "''3''" and ty = TRANSFER]
  show ?thesis
    using first again [of "?p 5 ''k''"] again [of "?p 6 ''k''"] keys by (auto simp: posting_expected_def posting_of_def)
qed

text \<open>C11. Reversing a transaction without a key takes its effect back from every account, and the same
  transaction cannot be reversed a second time.\<close>

theorem reversal_restores:
  assumes wf: "credit_wf db" and rev: "reverse_credit_transaction env uid oid rs i k db = Inr (t, db')"
    and key: "normalise_idem_key k = None"
  shows "\<exists>orig. find_row (\<lambda>t. ct_transaction_id t = oid) (credit_transactions db) = Some orig \<and>
    credit_balance a db' = credit_balance a db - txn_delta a orig \<and>
    reverse_credit_transaction env' uid' oid rs' i' k' db' =
      Inl (DomainError ''the transaction is already reversed'')"
  using rev wf
proof (cases rule: reverse_cases)
  case (1 orig)
  have "ct_status orig = POSTED" using wf find_row_Some_iff [OF 1(1)] by (auto simp: credit_wf_def txn_ok_def)
  then have "credit_balance a db' = credit_balance a db - txn_delta a orig"
    using reverse_unkeyed_appends [OF rev key] 1 by (simp add: credit_balance_views txn_delta_def credit_call_def)
  moreover have "prefix (ledger_views db) (ledger_views db')"
    using 1(3) by (auto simp: credit_call_def)
  then obtain o2 where "find_row (\<lambda>t. ct_transaction_id t = oid) (credit_transactions db') = Some o2"
    using find_txn_views [OF 1(1)] by blast
  then have "reverse_credit_transaction env' uid' oid rs' i' k' db' =
      Inl (DomainError ''the transaction is already reversed'')"
    using reversed_marks [OF rev] by (auto simp: reverse_credit_transaction_def)
  ultimately show ?thesis using 1(1) by blast
qed

theorem reversal_restores_witness:
  "\<exists>t db'. reverse_credit_transaction plain_env ''9'' ''ct-1'' ''mistake'' None None example_ledger = Inr (t, db') \<and>
     credit_balance ''a1'' db' = 0"
proof -
  have ids: "new_id ''ct'' ''0'' = ''ct-0''" "new_id ''ct'' ''1'' = ''ct-1''" "new_id ''ct'' ''9'' = ''ct-9''"
    by (simp_all add: new_id_def)
  have "\<exists>t db'. reverse_credit_transaction plain_env ''9'' ''ct-1'' ''mistake'' None None example_ledger = Inr (t, db')"
    by (simp add: reverse_credit_transaction_def example_ledger_rows ids post_fresh [OF _ _ _ _ refl] Let_def)
  then obtain t db' where
    r: "reverse_credit_transaction plain_env ''9'' ''ct-1'' ''mistake'' None None example_ledger = Inr (t, db')"
    by blast
  from reversal_restores [OF example_ledger_wf(1) r normalise_idem_key_None]
  have "credit_balance ''a1'' db' = 0"
    by (auto simp: example_ledger_rows credit_balance_sum txn_delta_def ids)
  with r show ?thesis by blast
qed

text \<open>Every history of credit services is audited: the event ledger it leaves verifies, and what was
  posted or recorded at some point of the history stays, in order, in everything that follows.\<close>

theorem credit_history_audited:
  "chain_ok env (run_ops (credit_step env) reqs empty_credit_db) \<and>
   prefix (system_events (run_ops (credit_step env) reqs empty_credit_db))
     (system_events (run_ops (credit_step env) (reqs @ later) empty_credit_db)) \<and>
   prefix (ledger_views (run_ops (credit_step env) reqs empty_credit_db))
     (ledger_views (run_ops (credit_step env) (reqs @ later) empty_credit_db))"
proof -
  let ?db = "run_ops (credit_step env) reqs empty_credit_db"
  have "chain_ok env empty_credit_db" by (simp add: empty_credit_db_def)
  moreover have "audited env empty_credit_db ?db"
    using credit.run_rel [of empty_credit_db env reqs] by simp
  ultimately have "chain_ok env ?db" by (simp add: audited_def)
  moreover have "audited env ?db (run_ops (credit_step env) later ?db) \<and>
      prefix (ledger_views ?db) (ledger_views (run_ops (credit_step env) later ?db))"
    using credit.run_rel [of ?db env later] credit.run_inv [of empty_credit_db env reqs] by simp
  ultimately show ?thesis by (simp add: run_ops_append audited_def)
qed



end
