(* ===== verification/Redemption.thy ===== *)
theory Redemption
  imports Credit_Ledger
begin

text \<open>
  Redemption orders and merchant settlements (\<^verbatim>\<open>core/credit_services.py\<close> from
  \<^verbatim>\<open>create_redemption_order\<close> on, \<^verbatim>\<open>core/models/credits.py: RedemptionOrder\<close>,
  \<^verbatim>\<open>core/models/merchants.py\<close>). Creating an order freezes credits, cancelling returns them,
  fulfilling burns them and records what a cash-settlement merchant is owed.

  Decimal columns are integers in their smallest unit: a settlement rate in 1/10000 RMB per
  credit, an amount of money in cents. The order argument of a service is its primary key, since
  each service reloads the row under a lock first.
\<close>

subsection \<open>Rows\<close>

datatype merchant_type = MEMBER_MICRO | CASH_SETTLEMENT
datatype merchant_status = MerchantActive | MerchantSuspended | MerchantClosed

record merchant_profile =
  mp_merchant_id :: string
  mp_display_name :: string
  mp_operator_member :: "int option"
  mp_merchant_type :: merchant_type
  mp_status :: merchant_status
  mp_settlement_rate :: "int option"
  mp_metadata :: json
  mp_created_at :: time
  mp_updated_at :: "time option"

datatype settlement_status =
  SettlementPending | SettlementApproved | SettlementPaid | SettlementDisputed | SettlementCancelled

record settlement_record =
  sr_settlement_id :: string
  sr_merchant :: string
  sr_redemption_order :: string
  sr_covered_credit_amount :: int
  sr_settlement_rate :: int
  sr_payable_rmb :: int
  sr_status :: settlement_status
  sr_reason :: string
  sr_metadata :: json
  sr_created_at :: time
  sr_updated_at :: "time option"

datatype order_status = OrderPending | OrderFulfilled | OrderCancelled | OrderDisputed | OrderReversed

datatype item_type =
  Meal | Goods | ResourceUse | RoomUpgrade | Storage | Parking | Training | Service | FeeReduction
  | OtherItem

fun item_type_value :: "item_type \<Rightarrow> string" where
  "item_type_value Meal = ''meal''"
| "item_type_value Goods = ''goods''"
| "item_type_value ResourceUse = ''resource_use''"
| "item_type_value RoomUpgrade = ''room_upgrade''"
| "item_type_value Storage = ''storage''"
| "item_type_value Parking = ''parking''"
| "item_type_value Training = ''training''"
| "item_type_value Service = ''service''"
| "item_type_value FeeReduction = ''fee_reduction''"
| "item_type_value OtherItem = ''other''"

definition parse_item_type :: "string \<Rightarrow> item_type option" where
  "parse_item_type s = find_row (\<lambda>t. item_type_value t = s)
     [Meal, Goods, ResourceUse, RoomUpgrade, Storage, Parking, Training, Service, FeeReduction, OtherItem]"

record redemption_order =
  ro_order_id :: string
  ro_member :: int
  ro_status :: order_status
  ro_item_type :: item_type
  ro_title :: string
  ro_original_amount_rmb :: "int option"
  ro_credit_amount :: int
  ro_cash_amount_rmb :: "int option"
  ro_merchant :: "string option"
  ro_related_task :: "string option"
  ro_related_event_id :: string
  ro_reason :: string
  ro_metadata :: json
  ro_resource_id :: string
  ro_item_snapshot :: json
  ro_finance_treatment_ref :: string
  ro_created_by :: "int option"
  ro_reviewed_by :: "int option"
  ro_fulfilled_at :: "time option"
  ro_cancelled_at :: "time option"
  ro_created_at :: time
  ro_updated_at :: "time option"

record redemption_db = people_db +
  merchants :: "merchant_profile list"
  redemption_orders :: "redemption_order list"
  settlement_records :: "settlement_record list"

subsection \<open>Creating an order\<close>

record order_request =
  rq_member :: member
  rq_credit_amount :: int
  rq_item_type :: string
  rq_title :: string
  rq_reason :: string
  rq_original_amount_rmb :: "int option"
  rq_cash_amount_rmb :: "int option"
  rq_related_task :: "string option"
  rq_resource_id :: string
  rq_item_snapshot :: json
  rq_finance_treatment_ref :: string
  rq_merchant :: "merchant_profile option"
  rq_idempotency_key :: "string option"
  rq_created_by :: "int option"

definition check_merchant :: "merchant_profile option \<Rightarrow> unit result" where
  "check_merchant mo = (case mo of None \<Rightarrow> Inr ()
     | Some m \<Rightarrow>
        if mp_merchant_type m = MEMBER_MICRO then
          Inl (DomainError ''micro merchants are paid by free transfer'')
        else if mp_status m \<noteq> MerchantActive then Inl (DomainError ''the merchant is not active'')
        else if mp_merchant_type m \<noteq> CASH_SETTLEMENT then
          Inl (DomainError ''only cash settlement merchants take redemption orders'')
        else Inr ())"

definition lacks_settlement_rate :: "merchant_profile option \<Rightarrow> bool" where
  "lacks_settlement_rate mo = (case mo of None \<Rightarrow> False
     | Some m \<Rightarrow> mp_merchant_type m = CASH_SETTLEMENT \<and> mp_settlement_rate m = None)"

text \<open>Two stored JSON values are equal as Python dicts when they agree up to the order of keys.\<close>

definition json_same :: "json \<Rightarrow> json \<Rightarrow> bool" where
  "json_same a b \<longleftrightarrow> sort_keys a = sort_keys b"

definition assert_same_order :: "redemption_order \<Rightarrow> item_type \<Rightarrow> order_request \<Rightarrow> unit result" where
  "assert_same_order ord ty rq =
    (if ro_member ord \<noteq> m_id (rq_member rq) then Inl (DomainError ''member mismatch'')
     else if ro_credit_amount ord \<noteq> rq_credit_amount rq then Inl (DomainError ''credit_amount mismatch'')
     else if ro_item_type ord \<noteq> ty then Inl (DomainError ''item_type mismatch'')
     else if ro_related_task ord \<noteq> rq_related_task rq then Inl (DomainError ''related_task mismatch'')
     else if ro_resource_id ord \<noteq> rq_resource_id rq then Inl (DomainError ''resource_id mismatch'')
     else if \<not> json_same (ro_item_snapshot ord) (or_empty_dict (rq_item_snapshot rq)) then
       Inl (DomainError ''item_snapshot mismatch'')
     else if ro_finance_treatment_ref ord \<noteq> rq_finance_treatment_ref rq then
       Inl (DomainError ''finance_treatment_ref mismatch'')
     else if map_option mp_merchant_id (rq_merchant rq) \<noteq> ro_merchant ord then
       Inl (DomainError ''merchant mismatch'')
     else Inr ())"

text \<open>The order that the freeze of an already used key belongs to.\<close>

definition order_of_key ::
    "env \<Rightarrow> string option \<Rightarrow> 'a redemption_db_scheme \<Rightarrow> (credit_transaction \<times> redemption_order) option" where
  "order_of_key env key db =
    (case posted_with_key key (\<lambda>t. ct_type t = CONSUME) db of
       None \<Rightarrow> None
     | Some t \<Rightarrow>
        (case json_get ''order_id'' (or_empty_dict (ct_metadata t)) of
           None \<Rightarrow> None
         | Some v \<Rightarrow> if json_truthy v then
               map_option (\<lambda>ord. (t, ord))
                 (find_row (\<lambda>ord. ro_order_id ord = py_str env v) (redemption_orders db))
             else None))"

definition new_order :: "env \<Rightarrow> string \<Rightarrow> item_type \<Rightarrow> order_request \<Rightarrow> redemption_order" where
  "new_order env oid ty rq =
    \<lparr>ro_order_id = oid, ro_member = m_id (rq_member rq), ro_status = OrderPending, ro_item_type = ty,
     ro_title = str_or (rq_title rq) (''redeem '' @ show_int (rq_credit_amount rq) @ '' credits''),
     ro_original_amount_rmb = rq_original_amount_rmb rq, ro_credit_amount = rq_credit_amount rq,
     ro_cash_amount_rmb = rq_cash_amount_rmb rq,
     ro_merchant = map_option mp_merchant_id (rq_merchant rq), ro_related_task = rq_related_task rq,
     ro_related_event_id = [], ro_reason = rq_reason rq, ro_metadata = JObj [],
     ro_resource_id = rq_resource_id rq, ro_item_snapshot = or_empty_dict (rq_item_snapshot rq),
     ro_finance_treatment_ref = rq_finance_treatment_ref rq,
     ro_created_by = (case rq_created_by rq of None \<Rightarrow> Some (m_id (rq_member rq)) | Some c \<Rightarrow> Some c),
     ro_reviewed_by = None, ro_fulfilled_at = None, ro_cancelled_at = None,
     ro_created_at = now env, ro_updated_at = Some (now env)\<rparr>"

definition get_or_create_order ::
    "string \<Rightarrow> redemption_order \<Rightarrow> 'a redemption_db_scheme \<Rightarrow>
     (redemption_order \<times> bool) \<times> 'a redemption_db_scheme" where
  "get_or_create_order oid ord db =
    (case find_row (\<lambda>x. ro_order_id x = oid) (redemption_orders db) of
       Some x \<Rightarrow> ((x, False), db)
     | None \<Rightarrow> ((ord, True), db\<lparr>redemption_orders := redemption_orders db @ [ord]\<rparr>))"

definition freeze_key :: "string \<Rightarrow> string" where "freeze_key oid = ''redemption-freeze:'' @ oid"
definition unfreeze_key :: "string \<Rightarrow> string" where "unfreeze_key oid = ''redemption-unfreeze:'' @ oid"
definition burn_key :: "string \<Rightarrow> string" where "burn_key oid = ''redemption-burn:'' @ oid"

definition create_redemption_order ::
    "env \<Rightarrow> string \<Rightarrow> string \<Rightarrow> order_request \<Rightarrow> 'a redemption_db_scheme \<Rightarrow>
     ((redemption_order \<times> credit_transaction) \<times> 'a redemption_db_scheme) result" where
  "create_redemption_order env order_uid txn_uid rq db =
    (if rq_credit_amount rq \<le> 0 then Inl (DomainError ''redeemed amount must be positive'')
     else case parse_item_type (rq_item_type rq) of
       None \<Rightarrow> Inl (DomainError ''invalid item type'')
     | Some ty \<Rightarrow>
       and_then (check_merchant (rq_merchant rq)) (\<lambda>_.
        (let dedupe_key = normalise_idem_key (rq_idempotency_key rq) in
         case order_of_key env dedupe_key db of
           Some (existing, ord) \<Rightarrow>
             and_then (get_or_create_member_credit_account env (rq_member rq) db) (\<lambda>(ma, db1).
             and_then (pool FROZEN db1) (\<lambda>f.
             and_then (assert_idempotent_match existing
                 [ExpType CONSUME, ExpAmount (rq_credit_amount rq), ExpSource (Some (ca_account_id ma)),
                  ExpTarget (Some (ca_account_id f))]) (\<lambda>_.
             and_then (assert_same_order ord ty rq) (\<lambda>_. Inr ((ord, existing), db1)))))
         | None \<Rightarrow>
            if lacks_settlement_rate (rq_merchant rq) then
              Inl (DomainError ''the merchant has no settlement rate'')
            else and_then (get_or_create_member_credit_account env (rq_member rq) db) (\<lambda>(ma, db1).
              let current = credit_balance (ca_account_id ma) db1 in
              if current \<le> 0 then Inl (DomainError ''balance is not positive, no redemption'')
              else if current < rq_credit_amount rq then Inl (DomainError ''balance is insufficient'')
              else
                (let oid = (case dedupe_key of Some k \<Rightarrow> ''ro-'' @ take 32 (sha256 env k)
                    | None \<Rightarrow> new_id ''ro'' order_uid) in
                 and_then (pool FROZEN db1) (\<lambda>f.
                   case get_or_create_order oid (new_order env oid ty rq) db1 of
                     ((ord, created), db2) \<Rightarrow>
                       if \<not> created \<and> ro_member ord \<noteq> m_id (rq_member rq) then
                         Inl (DomainError ''idempotency key used by an order of a different member'')
                       else and_then (post_credit_transaction env txn_uid
                         ((posting_of CONSUME (rq_credit_amount rq) (Some (ca_account_id ma))
                             (Some (ca_account_id f))
                             (Some (case dedupe_key of Some k \<Rightarrow> k | None \<Rightarrow> freeze_key oid)))
                           \<lparr>p_reason := str_or (rq_reason rq) (''redemption order '' @ oid),
                            p_initiated_by := (case rq_created_by rq of
                               None \<Rightarrow> Some (m_id (rq_member rq)) | Some c \<Rightarrow> Some c),
                            p_metadata := JObj [(''order_id'', JStr oid),
                               (''item_type'', JStr (rq_item_type rq))]\<rparr>) db2)
                         (\<lambda>(t, db3). Inr ((ord, t), db3))))))))"

subsection \<open>Cancelling, disputing and fulfilling\<close>

definition save_order ::
    "string \<Rightarrow> (redemption_order \<Rightarrow> redemption_order) \<Rightarrow> 'a redemption_db_scheme \<Rightarrow> 'a redemption_db_scheme" where
  "save_order oid f db =
    db\<lparr>redemption_orders := update_rows (\<lambda>x. ro_order_id x = oid) f (redemption_orders db)\<rparr>"

definition order_row :: "string \<Rightarrow> 'a redemption_db_scheme \<Rightarrow> redemption_order result" where
  "order_row oid db = (case find_row (\<lambda>x. ro_order_id x = oid) (redemption_orders db) of
     None \<Rightarrow> Inl (DoesNotExist ''RedemptionOrder'') | Some ord \<Rightarrow> Inr ord)"

definition order_member :: "redemption_order \<Rightarrow> 'a redemption_db_scheme \<Rightarrow> member result" where
  "order_member ord db = (case find_row (\<lambda>m. m_id m = ro_member ord) (members db) of
     None \<Rightarrow> Inl (DoesNotExist ''Member'') | Some m \<Rightarrow> Inr m)"

definition key_or :: "string option \<Rightarrow> string \<Rightarrow> string" where
  "key_or key d = (case normalise_idem_key key of None \<Rightarrow> d | Some k \<Rightarrow> k)"

definition cancel_redemption_order ::
    "env \<Rightarrow> string \<Rightarrow> string \<Rightarrow> string \<Rightarrow> int option \<Rightarrow> string option \<Rightarrow> 'a redemption_db_scheme \<Rightarrow>
     (redemption_order \<times> 'a redemption_db_scheme) result" where
  "cancel_redemption_order env uid oid reason cancelled_by key db =
    and_then (order_row oid db) (\<lambda>ord.
      if ro_status ord = OrderCancelled then Inr (ord, db)
      else if ro_status ord = OrderFulfilled then Inl (DomainError ''fulfilled orders cannot be cancelled'')
      else if ro_status ord = OrderReversed then Inl (DomainError ''reversed orders cannot be cancelled'')
      else and_then (order_member ord db) (\<lambda>m.
        and_then (get_or_create_member_credit_account env m db) (\<lambda>(ma, db1).
        and_then (pool FROZEN db1) (\<lambda>f.
        and_then (post_credit_transaction env uid
          ((posting_of UNFREEZE (ro_credit_amount ord) (Some (ca_account_id f))
              (Some (ca_account_id ma)) (Some (key_or key (unfreeze_key oid))))
            \<lparr>p_reason := str_or reason (''cancel order '' @ oid),
             p_initiated_by := (case cancelled_by of None \<Rightarrow> Some (ro_member ord) | Some c \<Rightarrow> Some c),
             p_metadata := JObj [(''order_id'', JStr oid), (''action'', JStr ''cancel'')]\<rparr>) db1)
          (\<lambda>(t, db2).
            let upd = (\<lambda>x. x\<lparr>ro_status := OrderCancelled, ro_cancelled_at := Some (now env),
                  ro_updated_at := Some (now env),
                  ro_metadata := json_set ''cancel_reason'' (JStr reason) (or_empty_dict (ro_metadata ord))\<rparr>)
            in Inr (upd ord, save_order oid upd db2))))))"

text \<open>\<^verbatim>\<open>Decimal.quantize(Decimal("0.01"), ROUND_HALF_UP)\<close> of a number of 1/10000 units.\<close>

definition round_half_up_cents :: "int \<Rightarrow> int" where
  "round_half_up_cents n = sgn n * ((\<bar>n\<bar> + 50) div 100)"

definition generate_settlement_record ::
    "env \<Rightarrow> redemption_order \<Rightarrow> 'a redemption_db_scheme \<Rightarrow> 'a redemption_db_scheme result" where
  "generate_settlement_record env ord db =
    (case ro_merchant ord of
       None \<Rightarrow> Inr db
     | Some mid \<Rightarrow>
        (case find_row (\<lambda>m. mp_merchant_id m = mid) (merchants db) of
           None \<Rightarrow> Inl (DoesNotExist ''MerchantProfile'')
         | Some m \<Rightarrow>
            if mp_merchant_type m \<noteq> CASH_SETTLEMENT then Inr db
            else (case mp_settlement_rate m of
                None \<Rightarrow> Inl (DomainError ''the merchant has no settlement rate'')
              | Some rate \<Rightarrow>
                 if exists_row (\<lambda>s. sr_redemption_order s = ro_order_id ord) (settlement_records db) then Inr db
                 else if exists_row (\<lambda>s. sr_settlement_id s = ''ms-'' @ ro_order_id ord) (settlement_records db)
                 then Inl IntegrityError
                 else Inr (db\<lparr>settlement_records := settlement_records db @
                   [\<lparr>sr_settlement_id = ''ms-'' @ ro_order_id ord, sr_merchant = mid,
                     sr_redemption_order = ro_order_id ord,
                     sr_covered_credit_amount = ro_credit_amount ord, sr_settlement_rate = rate,
                     sr_payable_rmb = round_half_up_cents (ro_credit_amount ord * rate),
                     sr_status = SettlementPending,
                     sr_reason = ''redemption fulfilled: '' @ ro_order_id ord, sr_metadata = JObj [],
                     sr_created_at = now env, sr_updated_at = None\<rparr>]\<rparr>))))"

definition fulfill_redemption_order ::
    "env \<Rightarrow> string \<Rightarrow> string \<Rightarrow> string \<Rightarrow> int option \<Rightarrow> string option \<Rightarrow> 'a redemption_db_scheme \<Rightarrow>
     (redemption_order \<times> 'a redemption_db_scheme) result" where
  "fulfill_redemption_order env uid oid reason reviewed_by key db =
    and_then (order_row oid db) (\<lambda>ord.
      if ro_status ord = OrderFulfilled then Inr (ord, db)
      else if ro_status ord = OrderCancelled then Inl (DomainError ''cancelled orders cannot be fulfilled'')
      else if ro_status ord = OrderReversed then Inl (DomainError ''reversed orders cannot be fulfilled'')
      else and_then (pool FROZEN db) (\<lambda>f. and_then (pool BURN_ACCOUNT db) (\<lambda>b.
        and_then (post_credit_transaction env uid
          ((posting_of BURN (ro_credit_amount ord) (Some (ca_account_id f))
              (Some (ca_account_id b)) (Some (key_or key (burn_key oid))))
            \<lparr>p_reason := str_or reason (''burn fulfilled order '' @ oid),
             p_initiated_by := (case reviewed_by of None \<Rightarrow> Some (ro_member ord) | Some c \<Rightarrow> Some c),
             p_metadata := JObj [(''order_id'', JStr oid), (''action'', JStr ''fulfill'')]\<rparr>) db)
          (\<lambda>(t, db1).
            let upd = (\<lambda>x. x\<lparr>ro_status := OrderFulfilled, ro_fulfilled_at := Some (now env),
                  ro_reviewed_by := reviewed_by, ro_updated_at := Some (now env)\<rparr>)
            in and_then (generate_settlement_record env (upd ord) (save_order oid upd db1))
                 (\<lambda>db2. Inr (upd ord, db2))))))"

definition report_redemption_order_issue ::
    "env \<Rightarrow> string \<Rightarrow> string \<Rightarrow> 'a redemption_db_scheme \<Rightarrow>
     (redemption_order \<times> 'a redemption_db_scheme) result" where
  "report_redemption_order_issue env oid reason db =
    and_then (order_row oid db) (\<lambda>ord.
      if ro_status ord = OrderFulfilled then Inl (DomainError ''fulfilled orders cannot be disputed'')
      else if ro_status ord = OrderCancelled then Inl (DomainError ''cancelled orders cannot be disputed'')
      else if ro_status ord = OrderReversed then Inl (DomainError ''reversed orders cannot be disputed'')
      else if ro_status ord = OrderDisputed then Inr (ord, db)
      else (let upd = (\<lambda>x. x\<lparr>ro_status := OrderDisputed, ro_updated_at := Some (now env),
              ro_metadata := json_set ''issue_reason'' (JStr reason) (or_empty_dict (ro_metadata ord))\<rparr>)
            in Inr (upd ord, save_order oid upd db)))"

subsection \<open>Histories\<close>

datatype redemption_op =
    CreateOrder string order_request
  | CancelOrder string string "int option" "string option"
  | FulfillOrder string string "int option" "string option"
  | ReportIssue string string
  | CreditCall credit_op

fun redemption_service :: "env \<Rightarrow> string \<Rightarrow> redemption_op \<Rightarrow> 'a redemption_db_scheme \<Rightarrow>
    (unit \<times> 'a redemption_db_scheme) result" where
  "redemption_service env uid (CreateOrder order_uid rq) db =
     and_then (create_redemption_order env order_uid uid rq db) (\<lambda>(r, db'). Inr ((), db'))"
| "redemption_service env uid (CancelOrder oid reason by key) db =
     and_then (cancel_redemption_order env uid oid reason by key db) (\<lambda>(r, db'). Inr ((), db'))"
| "redemption_service env uid (FulfillOrder oid reason by key) db =
     and_then (fulfill_redemption_order env uid oid reason by key db) (\<lambda>(r, db'). Inr ((), db'))"
| "redemption_service env uid (ReportIssue oid reason) db =
     and_then (report_redemption_order_issue env oid reason db) (\<lambda>(r, db'). Inr ((), db'))"
| "redemption_service env uid (CreditCall call) db =
     and_then (credit_service env uid call db) (\<lambda>(r, db'). Inr ((), db'))"

fun redemption_step :: "env \<Rightarrow> time \<times> string \<times> redemption_op \<Rightarrow> 'a redemption_db_scheme \<Rightarrow>
    (unit \<times> 'a redemption_db_scheme) result" where
  "redemption_step env (at, uid, call) db = redemption_service (env\<lparr>now := at\<rparr>) uid call db"

text \<open>
  The calls the HTTP interface makes: it passes no idempotency key, and an order identifier comes
  from \<^verbatim>\<open>uuid4().hex\<close>, which has no blanks. A reversal of a freeze is a correction by hand and is
  left out.
\<close>

fun keyless_call :: "redemption_op \<Rightarrow> bool" where
  "keyless_call (CreateOrder order_uid rq) =
     (normalise_idem_key (rq_idempotency_key rq) = None \<and> list_all (\<lambda>c. \<not> is_space c) order_uid)"
| "keyless_call (CancelOrder oid reason by key) = (normalise_idem_key key = None)"
| "keyless_call (FulfillOrder oid reason by key) = (normalise_idem_key key = None)"
| "keyless_call (ReportIssue oid reason) = True"
| "keyless_call (CreditCall (ReverseTransaction oid rs i k)) = False"
| "keyless_call (CreditCall call) = True"

subsection \<open>Frozen credits are those of the open orders\<close>

definition is_open :: "redemption_order \<Rightarrow> bool" where
  "is_open ord \<longleftrightarrow> ro_status ord \<in> {OrderPending, OrderDisputed}"

definition open_credits :: "'a redemption_db_scheme \<Rightarrow> int" where
  "open_credits db = sum_rows is_open ro_credit_amount (redemption_orders db)"

definition order_ids :: "'a redemption_db_scheme \<Rightarrow> string set" where
  "order_ids db = ro_order_id ` set (redemption_orders db)"

definition txn_with :: "txn_type \<Rightarrow> string \<Rightarrow> credit_transaction \<Rightarrow> bool" where
  "txn_with ty key t \<longleftrightarrow> ct_type t = ty \<and> ct_idempotency_key t = Some key"

definition plain_key :: "string \<Rightarrow> bool" where
  "plain_key k \<longleftrightarrow> normalise_idem_key (Some k) = Some k"

definition plain_order_id :: "string \<Rightarrow> bool" where
  "plain_order_id oid \<longleftrightarrow> plain_key (freeze_key oid) \<and> plain_key (unfreeze_key oid) \<and> plain_key (burn_key oid)"

definition orders_inv :: "'a redemption_db_scheme \<Rightarrow> bool" where
  "orders_inv db \<longleftrightarrow> credit_wf db \<and> distinct (map ro_order_id (redemption_orders db)) \<and>
    (\<forall>x \<in> order_ids db. plain_order_id x) \<and>
    (\<forall>v \<in> set (ledger_views db). \<forall>x. txn_with CONSUME (freeze_key x) v \<longrightarrow> x \<in> order_ids db) \<and>
    (\<forall>x \<in> order_ids db. \<exists>v \<in> set (ledger_views db). txn_with CONSUME (freeze_key x) v) \<and>
    (\<forall>v \<in> set (ledger_views db). \<forall>x.
       txn_with UNFREEZE (unfreeze_key x) v \<or> txn_with BURN (burn_key x) v \<longrightarrow>
       (\<exists>ord \<in> set (redemption_orders db). ro_order_id ord = x \<and> \<not> is_open ord)) \<and>
    (redemption_orders db \<noteq> [] \<longrightarrow> (\<exists>f. pool FROZEN db = Inr f)) \<and>
    (\<forall>f. pool FROZEN db = Inr f \<longrightarrow> credit_balance (ca_account_id f) db = open_credits db)"

lemma plain_key_nonspace:
  assumes "\<forall>c \<in> set s. \<not> is_space c" "s \<noteq> []" shows "plain_key s"
proof -
  have "dropWhile is_space xs = xs" if "\<forall>c \<in> set xs. \<not> is_space c" for xs
    using that by (cases xs) auto
  from this [of s] this [of "rev s"] have "py_strip s = s" using assms(1) by (simp add: py_strip_def)
  then show ?thesis using assms(2) by (simp add: plain_key_def normalise_idem_key_def)
qed

lemma plain_order_id_new: "list_all (\<lambda>c. \<not> is_space c) uid \<Longrightarrow> plain_order_id (new_id ''ro'' uid)"
  unfolding plain_order_id_def
  by (intro conjI plain_key_nonspace)
    (auto simp: freeze_key_def unfreeze_key_def burn_key_def new_id_def list_all_iff is_space_def)

lemma keys_inject [simp]:
  "freeze_key x = freeze_key y \<longleftrightarrow> x = y" "unfreeze_key x = unfreeze_key y \<longleftrightarrow> x = y"
  "burn_key x = burn_key y \<longleftrightarrow> x = y"
  by (simp_all add: freeze_key_def unfreeze_key_def burn_key_def)

lemma orders_frame [simp]:
  "credit_frame db db' \<Longrightarrow> redemption_orders db' = redemption_orders db"
  by (auto simp: credit_frame_def)

text \<open>The frozen account before a call, also when the call created the account.\<close>

lemma frozen_before:
  assumes inv: "orders_inv db" and frame: "credit_frame db db'" and wf: "credit_wf db'"
    and f: "pool FROZEN db' = Inr f"
  shows "credit_balance (ca_account_id f) db = open_credits db"
proof (cases "pool FROZEN db")
  case (Inr g)
  with pool_frame [OF frame Inr] f have "g = f" by simp
  with inv Inr show ?thesis by (simp add: orders_inv_def)
next
  case (Inl e)
  then have none: "\<forall>a \<in> set (credit_accounts db). ca_account_type a \<noteq> FROZEN"
    by (auto simp: pool_def find_row_None_iff split: option.splits)
  have f': "f \<in> set (credit_accounts db')" "ca_account_type f = FROZEN" using pool_ok [OF f] by auto
  have "ca_account_id f \<notin> set (account_ids db)"
  proof
    assume "ca_account_id f \<in> set (account_ids db)"
    then obtain x where x: "x \<in> set (credit_accounts db)" "ca_account_id x = ca_account_id f"
      by (auto simp: account_ids_def)
    then have "x = f" using account_same_id [OF wf] f' credit_frameD(1) [OF frame] by blast
    with x none f' show False by auto
  qed
  moreover have "redemption_orders db = []" using inv Inl by (auto simp: orders_inv_def)
  moreover have "credit_wf db" using inv by (simp add: orders_inv_def)
  ultimately show ?thesis using foreign_account(1) [of db] by (simp add: open_credits_def)
qed

text \<open>A call that leaves the frozen account alone and is none of the three order movements.\<close>

lemma orders_inv_other:
  assumes inv: "orders_inv db" and frame: "credit_frame db db'" and wf: "credit_wf db'"
    and views: "ledger_views db' = ledger_views db \<or>
      ledger_views db' = ledger_views db @ [ledger_view t] \<and> ct_type t \<notin> {CONSUME, UNFREEZE, BURN} \<and>
      (\<forall>f. pool FROZEN db' = Inr f \<longrightarrow> txn_delta (ca_account_id f) t = 0)"
  shows "orders_inv db'"
proof -
  note orders = orders_frame [OF frame]
  have ids: "order_ids db' = order_ids db" "open_credits db' = open_credits db"
    by (simp_all add: order_ids_def open_credits_def orders)
  have V: "v \<in> set (ledger_views db') \<Longrightarrow> v \<in> set (ledger_views db) \<or> ct_type v \<notin> {CONSUME, UNFREEZE, BURN}" for v
    using views by auto
  have sub: "set (ledger_views db) \<subseteq> set (ledger_views db')" using views by auto
  have bal: "credit_balance (ca_account_id f) db' = open_credits db" if "pool FROZEN db' = Inr f" for f
    using frozen_before [OF inv frame wf that] views that by (auto simp: credit_balance_views)
  have "\<exists>f. pool FROZEN db' = Inr f" if "redemption_orders db \<noteq> []"
    using inv that pool_frame [OF frame] unfolding orders_inv_def by blast
  then show ?thesis
    using inv wf V sub bal unfolding orders_inv_def ids orders
    by (simp add: txn_with_def) blast
qed

text \<open>The accounts of a row that a credit service posts, reversals apart.\<close>

definition between :: "account_type set \<Rightarrow> 'a credit_db_scheme \<Rightarrow> credit_transaction \<Rightarrow> bool" where
  "between tys db t \<longleftrightarrow> (\<forall>a. ct_source t = Some a \<or> ct_target t = Some a \<longrightarrow>
     (\<exists>x \<in> set (credit_accounts db). ca_account_id x = a \<and> ca_account_type x \<in> tys))"

lemma betweenI:
  "ct_source t = Some (ca_account_id x) \<Longrightarrow> ct_target t = Some (ca_account_id y) \<Longrightarrow>
   x \<in> set (credit_accounts db) \<Longrightarrow> y \<in> set (credit_accounts db) \<Longrightarrow>
   ca_account_type x \<in> tys \<Longrightarrow> ca_account_type y \<in> tys \<Longrightarrow> between tys db t"
  by (auto simp: between_def)

lemma between_delta:
  assumes wf: "credit_wf db" and t: "between tys db t" and f: "pool ty db = Inr f" "ty \<notin> tys"
  shows "txn_delta (ca_account_id f) t = 0"
proof -
  have "ct_source t \<noteq> Some (ca_account_id f)" "ct_target t \<noteq> Some (ca_account_id f)"
    using t f pool_ok [OF f(1)] account_same_id [OF wf] unfolding between_def by metis+
  then show ?thesis by (simp add: txn_delta_def)
qed

lemma call_accounts_sub:
  "credit_call env db t db' \<Longrightarrow> set (credit_accounts db) \<subseteq> set (credit_accounts db')"
  by (auto simp: credit_call_def dest: credit_frameD(1))

lemma grow_call_sub:
  assumes "get_or_create_member_credit_account env m db = Inr (a, db1)"
    and "post_credit_transaction env uid p db1 = Inr (t, db')"
  shows "set (credit_accounts db1) \<subseteq> set (credit_accounts db')"
  using post_rows(2) [OF assms(2)] by simp

lemma deduct_accounts:
  assumes "passive_deduct_member_credits env uid m n rs i k db = Inr (t, db')"
    and "get_or_create_member_credit_account env m db = Inr (ma, db1)"
  shows "credit_accounts db' = credit_accounts db1"
  using assms by (auto simp: passive_deduct_member_credits_def call_accounts)

lemma service_between:
  assumes s: "credit_service env uid call db = Inr (Some t, db')"
    and r: "keyless_call (CreditCall call)"
  shows "ct_type t \<notin> {CONSUME, UNFREEZE, BURN} \<and> between (- {FROZEN}) db' t"
proof (cases call)
  case (IssueCredits n rs i rv k)
  with s obtain a where a: "pool ISSUANCE_POOL db = Inr a" and
    post: "post_credit_transaction env uid ((posting_of ISSUANCE n None (Some (ca_account_id a)) k)
      \<lparr>p_reason := rs, p_initiated_by := i, p_reviewed_by := rv\<rparr>) db = Inr (t, db')"
    by (auto simp: issue_credits_to_pool_def)
  show ?thesis using post_rows [OF post] pool_ok [OF a] by (auto simp: between_def)
next
  case (LockBudget task n rs i k)
  with s have "lock_task_credit_budget env uid task n rs i k db = Inr (t, db')" by auto
  then show ?thesis
  proof (cases rule: lock_cases)
    case (1 p l)
    then show ?thesis using pool_ok [OF 1(1)] pool_ok [OF 1(2)] call_accounts_sub [OF 1(8)]
      by (auto intro!: betweenI [OF 1(5,6)])
  qed
next
  case (UnlockBudget task n rs i k)
  with s have "unlock_unused_task_credit_budget env uid task n rs i k db = Inr (t, db')" by auto
  then show ?thesis
  proof (cases rule: unlock_cases)
    case (1 p l)
    then show ?thesis using pool_ok [OF 1(1)] pool_ok [OF 1(2)] call_accounts_sub [OF 1(8)]
      by (auto intro!: betweenI [OF 1(5,6)])
  qed
next
  case (TransferCredits m1 m2 n rs i k)
  with s have "transfer_member_credits env uid m1 m2 n rs i k db = Inr (t, db')" by auto
  then show ?thesis
  proof (cases rule: transfer_cases)
    case (1 fa db1 ta db2)
    note a1 = member_account_grow [OF 1(3)] and a2 = member_account_grow [OF 1(4)]
    have "fa \<in> set (credit_accounts db')" "ta \<in> set (credit_accounts db')"
      using a1(2) a2(2) accounts_growD(4) [OF a2(1)] 1(11) by auto
    then show ?thesis using 1(6) a1(3) a2(3) by (auto intro!: betweenI [OF 1(8,9)])
  qed
next
  case (DeductCredits m n rs i k)
  with s have d: "passive_deduct_member_credits env uid m n rs i k db = Inr (t, db')" by auto
  then show ?thesis
  proof (cases rule: passive_deduct_cases)
    case (1 ma db1 b)
    then show ?thesis
      using member_account_grow [OF 1(2)] pool_ok [OF 1(3)] deduct_accounts [OF d 1(2)]
      by (auto intro!: betweenI [of t ma b])
  qed
next
  case (RewardTask task m n entry ev rb rs g)
  with s have d: "post_task_reward_credit_transaction env uid task m n entry ev rb rs g db = Inr (t, db')" by auto
  then show ?thesis
  proof (cases rule: task_reward_cases)
    case (1 ma db1 src)
    then show ?thesis
      using member_account_grow [OF 1(1)] pool_ok [OF 1(2)] reward_accounts [OF d 1(1)]
      by (auto intro!: betweenI [of t src ma] split: if_splits)
  qed
qed (use s r in auto)

lemma orders_inv_credit:
  assumes inv: "orders_inv db" and s: "credit_service env uid call db = Inr (r, db')"
    and k: "keyless_call (CreditCall call)"
  shows "orders_inv db'"
proof -
  have wf: "credit_wf db" using inv by (simp add: orders_inv_def)
  from s wf show ?thesis
  proof (cases rule: credit_service_cases)
    case 1
    then show ?thesis
      using orders_inv_other [OF inv credit_frame_accounts [OF 1(3)]] wf accounts_growD(1,3) [OF 1(3)]
      by (simp add: ledger_views_def)
  next
    case (2 t)
    have wf': "credit_wf db'" using 2 wf by (simp add: credit_call_def)
    note b = service_between [OF s [unfolded 2(2)] k]
    show ?thesis
      by (rule orders_inv_other [OF inv _ wf', where t = t])
        (use 2 b between_delta [OF wf'] in \<open>auto simp: credit_call_def\<close>)
  qed
qed

lemma order_row_ok:
  "order_row oid db = Inr ord \<Longrightarrow> ord \<in> set (redemption_orders db) \<and> ro_order_id ord = oid"
  by (auto simp: order_row_def split: option.splits dest!: find_row_Some_iff)

lemma save_order_simps [simp]:
  "ledger_views (save_order oid u db) = ledger_views db"
  "credit_accounts (save_order oid u db) = credit_accounts db"
  "credit_transactions (save_order oid u db) = credit_transactions db"
  "system_events (save_order oid u db) = system_events db"
  "pool ty (save_order oid u db) = pool ty db"
  "credit_balance a (save_order oid u db) = credit_balance a db"
  "credit_wf (save_order oid u db) = credit_wf db"
  "redemption_orders (save_order oid u db) =
     update_rows (\<lambda>x. ro_order_id x = oid) u (redemption_orders db)"
  by (simp_all add: save_order_def ledger_views_def pool_def credit_balance_def credit_wf_def account_ids_def)

text \<open>An update of one order that keeps its identifier and amount.\<close>

lemma save_order_ids:
  assumes u: "\<And>x. ro_order_id (u x) = ro_order_id x"
  shows "map ro_order_id (redemption_orders (save_order oid u db)) = map ro_order_id (redemption_orders db)"
    "order_ids (save_order oid u db) = order_ids db"
proof -
  show m: "map ro_order_id (redemption_orders (save_order oid u db)) = map ro_order_id (redemption_orders db)"
    by (simp add: map_update_rows u)
  show "order_ids (save_order oid u db) = order_ids db"
    unfolding order_ids_def list.set_map [symmetric] m by simp
qed

lemma save_order_credits:
  assumes d: "distinct (map ro_order_id (redemption_orders db))" and o: "ord \<in> set (redemption_orders db)"
    and u: "ro_credit_amount (u ord) = ro_credit_amount ord" and op: "is_open ord"
  shows "open_credits (save_order (ro_order_id ord) u db) =
    open_credits db - (if is_open (u ord) then 0 else ro_credit_amount ord)"
  using sum_rows_update_unique [OF d o, of is_open ro_credit_amount u] u op
  by (simp add: open_credits_def)

text \<open>An order is closed by the one movement that empties its share of the frozen account.\<close>

lemma orders_inv_close:
  assumes inv: "orders_inv db" and o: "ord \<in> set (redemption_orders db)" "is_open ord"
    and call: "credit_call env db t db1" and new: "ledger_views db1 = ledger_views db @ [ledger_view t]"
    and t: "ct_type t = UNFREEZE \<and> ct_idempotency_key t = Some (unfreeze_key (ro_order_id ord)) \<or>
       ct_type t = BURN \<and> ct_idempotency_key t = Some (burn_key (ro_order_id ord))"
    and f: "pool FROZEN db1 = Inr f" "txn_delta (ca_account_id f) t = - ro_credit_amount ord"
    and u: "\<And>x. ro_order_id (u x) = ro_order_id x" "ro_credit_amount (u ord) = ro_credit_amount ord"
      "\<And>x. \<not> is_open (u x)"
  shows "orders_inv (save_order (ro_order_id ord) u db1)"
proof -
  let ?db = "save_order (ro_order_id ord) u db1"
  have wf: "credit_wf db1" and frame: "credit_frame db db1" using call inv by (auto simp: credit_call_def orders_inv_def)
  note orders = orders_frame [OF frame]
  have ids: "order_ids ?db = order_ids db" "distinct (map ro_order_id (redemption_orders ?db))"
    unfolding save_order_ids [OF u(1)] using inv orders by (simp_all add: order_ids_def orders_inv_def)
  have "credit_balance (ca_account_id f) db = open_credits db" by (rule frozen_before [OF inv frame wf f(1)])
  then have "credit_balance (ca_account_id f) ?db = open_credits db - ro_credit_amount ord"
    using new f(2) by (simp add: credit_balance_views)
  moreover have "open_credits ?db = open_credits db - ro_credit_amount ord"
    using save_order_credits [of db1 ord u] inv o u orders by (simp add: open_credits_def orders_inv_def)
  ultimately have bal: "credit_balance (ca_account_id f) ?db = open_credits ?db" by simp
  have closed: "\<exists>x \<in> set (redemption_orders ?db). ro_order_id x = ro_order_id y \<and> \<not> is_open x"
    if "y \<in> set (redemption_orders db)" "\<not> is_open y \<or> y = ord" for y
    using that u by (intro bexI [of _ "if ro_order_id y = ro_order_id ord then u y else y"])
      (auto simp: orders set_update_rows)
  have I3: "\<exists>x \<in> set (redemption_orders ?db). ro_order_id x = k \<and> \<not> is_open x"
    if v: "v \<in> set (ledger_views ?db)" "txn_with UNFREEZE (unfreeze_key k) v \<or> txn_with BURN (burn_key k) v" for v k
  proof (cases "v \<in> set (ledger_views db)")
    case True
    with v inv obtain y where "y \<in> set (redemption_orders db)" "ro_order_id y = k" "\<not> is_open y"
      unfolding orders_inv_def by blast
    with closed [of y] show ?thesis by auto
  next
    case False
    with v new have "v = ledger_view t" by simp
    with v t have "k = ro_order_id ord" by (auto simp: txn_with_def)
    with closed [of ord] o show ?thesis by auto
  qed
  have I12: "(\<forall>v \<in> set (ledger_views ?db). \<forall>x. txn_with CONSUME (freeze_key x) v \<longrightarrow> x \<in> order_ids db)"
    "\<forall>x \<in> order_ids db. \<exists>v \<in> set (ledger_views ?db). txn_with CONSUME (freeze_key x) v"
    using inv new t unfolding orders_inv_def by (auto simp: txn_with_def)
  show ?thesis
    unfolding orders_inv_def ids(1)
    using I12 I3 ids(2) wf f(1) bal inv by (auto simp: orders_inv_def)
qed

lemma frozen_delta:
  assumes wf: "credit_wf db" and f: "pool FROZEN db = Inr f" and "a \<in> set (credit_accounts db)"
    and "ca_account_type a \<noteq> FROZEN" and t: "ct_status t = POSTED"
  shows "ct_source t = Some (ca_account_id f) \<Longrightarrow> ct_target t = Some (ca_account_id a) \<Longrightarrow>
      txn_delta (ca_account_id f) t = - ct_amount t"
    "ct_source t = Some (ca_account_id a) \<Longrightarrow> ct_target t = Some (ca_account_id f) \<Longrightarrow>
      txn_delta (ca_account_id f) t = ct_amount t"
proof -
  have "ca_account_id a \<noteq> ca_account_id f"
    using account_same_id [OF wf, of a f] pool_ok [OF f] assms(3,4) by auto
  then show "ct_source t = Some (ca_account_id f) \<Longrightarrow> ct_target t = Some (ca_account_id a) \<Longrightarrow>
      txn_delta (ca_account_id f) t = - ct_amount t"
    "ct_source t = Some (ca_account_id a) \<Longrightarrow> ct_target t = Some (ca_account_id f) \<Longrightarrow>
      txn_delta (ca_account_id f) t = ct_amount t"
    using t by (auto simp: txn_delta_def)
qed

text \<open>A posting under a key that no stored row of its type carries is new.\<close>

lemma post_new_key:
  assumes post: "post_credit_transaction env uid p db = Inr (t, db')"
    and key: "normalise_idem_key (p_idempotency_key p) = Some k"
    and ty: "parse_txn_type (p_transaction_type p) = Some ty"
    and none: "\<And>v. v \<in> set (ledger_views db) \<Longrightarrow> \<not> txn_with ty k v"
  shows "credit_transactions db' = credit_transactions db @ [t]"
  using post
proof (cases rule: post_cases)
  case (Replay ty')
  then have "ledger_view t \<in> set (ledger_views db)" "txn_with ty k (ledger_view t)"
    using posted_with_key_SomeD [OF Replay(4)] ty key
    by (auto simp: ledger_views_def txn_with_def posting_expected_def)
  with none show ?thesis by blast
next
  case (Fresh ty' e)
  then show ?thesis by (auto dest!: emit_credit_event_db)
qed

lemma open_order_unmoved:
  assumes inv: "orders_inv db" and ord: "ord \<in> set (redemption_orders db)" and op: "is_open ord"
    and v: "v \<in> set (ledger_views db)"
  shows "\<not> txn_with UNFREEZE (unfreeze_key (ro_order_id ord)) v \<and>
    \<not> txn_with BURN (burn_key (ro_order_id ord)) v"
proof (rule ccontr)
  assume "\<not> ?thesis"
  then have "\<exists>x \<in> set (redemption_orders db). ro_order_id x = ro_order_id ord \<and> \<not> is_open x"
    using inv v unfolding orders_inv_def by blast
  then obtain x where x: "x \<in> set (redemption_orders db)" "ro_order_id x = ro_order_id ord" "\<not> is_open x"
    by blast
  then have "x = ord" using ord inv distinct_map_unique unfolding orders_inv_def by metis
  with x op show False by simp
qed

lemma cancel_inv:
  assumes inv: "orders_inv db" and key: "normalise_idem_key key = None"
    and c: "cancel_redemption_order env uid oid reason by_m key db = Inr (r, db')"
  shows "orders_inv db'"
proof -
  from c obtain ord where o: "order_row oid db = Inr ord" by (auto simp: cancel_redemption_order_def)
  note ord = order_row_ok [OF o]
  show ?thesis
  proof (cases "ro_status ord = OrderCancelled")
    case True
    with c o inv show ?thesis by (simp add: cancel_redemption_order_def)
  next
    case False
    with c o key obtain m ma db1 f t db2 u where
      st: "is_open ord" and ma: "get_or_create_member_credit_account env m db = Inr (ma, db1)"
      and f: "pool FROZEN db1 = Inr f"
      and post: "post_credit_transaction env uid
          ((posting_of UNFREEZE (ro_credit_amount ord) (Some (ca_account_id f))
              (Some (ca_account_id ma)) (Some (unfreeze_key oid)))
            \<lparr>p_reason := str_or reason (''cancel order '' @ oid),
             p_initiated_by := (case by_m of None \<Rightarrow> Some (ro_member ord) | Some c \<Rightarrow> Some c),
             p_metadata := JObj [(''order_id'', JStr oid), (''action'', JStr ''cancel'')]\<rparr>) db1 = Inr (t, db2)"
      and db': "db' = save_order oid u db2"
      and u: "u = (\<lambda>x. x\<lparr>ro_status := OrderCancelled, ro_cancelled_at := Some (now env),
                  ro_updated_at := Some (now env),
                  ro_metadata := json_set ''cancel_reason'' (JStr reason) (or_empty_dict (ro_metadata ord))\<rparr>)"
      by (cases "ro_status ord")
        (auto simp: cancel_redemption_order_def Let_def is_open_def key_or_def)
    note a = member_account_grow [OF ma]
    have k: "normalise_idem_key (Some (unfreeze_key oid)) = Some (unfreeze_key oid)"
      using inv ord by (auto simp: orders_inv_def order_ids_def plain_order_id_def plain_key_def)
    have "ledger_views db1 = ledger_views db"
      using accounts_growD(1) [OF a(1)] by (simp add: ledger_views_def)
    then have "\<not> txn_with UNFREEZE (unfreeze_key oid) v" if "v \<in> set (ledger_views db1)" for v
      using open_order_unmoved [OF inv _ st] ord that by auto
    then have tx: "credit_transactions db2 = credit_transactions db1 @ [t]"
      using post_new_key [OF post] k by simp
    have call: "credit_call env db t db2"
      using credit_call_after_accounts [OF a(1) credit_call_post [OF post]] a(2) f by simp
    have wf: "credit_wf db2" using call inv by (simp add: credit_call_def orders_inv_def)
    have f2: "pool FROZEN db2 = Inr f" "ma \<in> set (credit_accounts db2)"
      using f a(2) post_rows(2) [OF post] by (simp_all add: pool_def)
    have "txn_delta (ca_account_id f) t = - ro_credit_amount ord"
      using frozen_delta(1) [OF wf f2(1,2)] a(3) post_rows [OF post] by simp
    moreover have "ledger_views db2 = ledger_views db @ [ledger_view t]"
      using tx accounts_growD(1) [OF a(1)] by (simp add: ledger_views_def)
    ultimately have "orders_inv (save_order (ro_order_id ord) u db2)"
      using post_rows [OF post] k ord u
      by (intro orders_inv_close [OF inv _ st call]) (use f2 in \<open>auto simp: is_open_def\<close>)
    with db' ord show ?thesis by simp
  qed
qed

lemma settlement_frame:
  assumes "generate_settlement_record env ord db = Inr db'"
  shows "\<exists>s. db' = db\<lparr>settlement_records := s\<rparr>"
proof -
  have "\<exists>s. db = db\<lparr>settlement_records := s\<rparr>" by (rule exI [of _ "settlement_records db"]) simp
  with assms show ?thesis
    by (auto simp: generate_settlement_record_def split: option.splits if_splits)
qed

lemma orders_inv_settlement [simp]: "orders_inv (db\<lparr>settlement_records := s\<rparr>) = orders_inv db"
  by (simp add: orders_inv_def credit_wf_def account_ids_def order_ids_def ledger_views_def pool_def
      credit_balance_def open_credits_def)

lemma fulfill_inv:
  assumes inv: "orders_inv db" and key: "normalise_idem_key key = None"
    and c: "fulfill_redemption_order env uid oid reason by_m key db = Inr (r, db')"
  shows "orders_inv db'"
proof -
  from c obtain ord where o: "order_row oid db = Inr ord" by (auto simp: fulfill_redemption_order_def)
  note ord = order_row_ok [OF o]
  show ?thesis
  proof (cases "ro_status ord = OrderFulfilled")
    case True
    with c o inv show ?thesis by (simp add: fulfill_redemption_order_def)
  next
    case False
    with c o key obtain f b t db2 db3 u where
      st: "is_open ord" and f: "pool FROZEN db = Inr f" and b: "pool BURN_ACCOUNT db = Inr b"
      and post: "post_credit_transaction env uid
          ((posting_of BURN (ro_credit_amount ord) (Some (ca_account_id f))
              (Some (ca_account_id b)) (Some (burn_key oid)))
            \<lparr>p_reason := str_or reason (''burn fulfilled order '' @ oid),
             p_initiated_by := (case by_m of None \<Rightarrow> Some (ro_member ord) | Some c \<Rightarrow> Some c),
             p_metadata := JObj [(''order_id'', JStr oid), (''action'', JStr ''fulfill'')]\<rparr>) db = Inr (t, db2)"
      and u: "u = (\<lambda>x. x\<lparr>ro_status := OrderFulfilled, ro_fulfilled_at := Some (now env),
                  ro_reviewed_by := by_m, ro_updated_at := Some (now env)\<rparr>)"
      and db': "generate_settlement_record env (u ord) (save_order oid u db2) = Inr db'"
      by (cases "ro_status ord")
        (auto simp: fulfill_redemption_order_def Let_def is_open_def key_or_def)
    have k: "normalise_idem_key (Some (burn_key oid)) = Some (burn_key oid)"
      using inv ord by (auto simp: orders_inv_def order_ids_def plain_order_id_def plain_key_def)
    have "\<not> txn_with BURN (burn_key oid) v" if "v \<in> set (ledger_views db)" for v
      using open_order_unmoved [OF inv _ st] ord that by auto
    then have tx: "ledger_views db2 = ledger_views db @ [ledger_view t]"
      using post_new_key [OF post] k by (simp add: ledger_views_def)
    have call: "credit_call env db t db2" using credit_call_post [OF post] f b by simp
    have wf: "credit_wf db2" using call inv by (simp add: credit_call_def orders_inv_def)
    have f2: "pool FROZEN db2 = Inr f" "b \<in> set (credit_accounts db2)"
      using f pool_ok [OF b] post_rows(2) [OF post] by (simp_all add: pool_def)
    have "txn_delta (ca_account_id f) t = - ro_credit_amount ord"
      using frozen_delta(1) [OF wf f2(1,2)] pool_ok [OF b] post_rows [OF post] by simp
    with tx have "orders_inv (save_order (ro_order_id ord) u db2)"
      using post_rows [OF post] k ord u
      by (intro orders_inv_close [OF inv _ st call]) (use f2 in \<open>auto simp: is_open_def\<close>)
    with settlement_frame [OF db'] ord show ?thesis by auto
  qed
qed

text \<open>What a successful creation went through, unless it replayed an earlier one.\<close>

lemma create_cases [consumes 2, case_names Oid Key New]:
  assumes c: "create_redemption_order env ouid uid rq db = Inr (r, db')"
    and none: "order_of_key env (normalise_idem_key (rq_idempotency_key rq)) db = None"
    and oid: "oid = (case normalise_idem_key (rq_idempotency_key rq) of
      Some k \<Rightarrow> ''ro-'' @ take 32 (sha256 env k) | None \<Rightarrow> new_id ''ro'' ouid)"
    and key: "key = (case normalise_idem_key (rq_idempotency_key rq) of Some k \<Rightarrow> k | None \<Rightarrow> freeze_key oid)"
  obtains ty ma db1 f ord created db2 t where "0 < rq_credit_amount rq"
    "get_or_create_member_credit_account env (rq_member rq) db = Inr (ma, db1)"
    "rq_credit_amount rq \<le> credit_balance (ca_account_id ma) db1" "pool FROZEN db1 = Inr f"
    "get_or_create_order oid (new_order env oid ty rq) db1 = ((ord, created), db2)"
    "post_credit_transaction env uid
       ((posting_of CONSUME (rq_credit_amount rq) (Some (ca_account_id ma)) (Some (ca_account_id f)) (Some key))
         \<lparr>p_reason := str_or (rq_reason rq) (''redemption order '' @ oid),
          p_initiated_by := (case rq_created_by rq of
             None \<Rightarrow> Some (m_id (rq_member rq)) | Some c \<Rightarrow> Some c),
          p_metadata := JObj [(''order_id'', JStr oid), (''item_type'', JStr (rq_item_type rq))]\<rparr>) db2 = Inr (t, db')"
    "r = (ord, t)"
proof -
  from c obtain ty where ty: "parse_item_type (rq_item_type rq) = Some ty" "0 < rq_credit_amount rq"
    by (auto simp: create_redemption_order_def split: if_splits option.splits)
  from c ty none obtain ma db1 f where
    g: "get_or_create_member_credit_account env (rq_member rq) db = Inr (ma, db1)"
    "rq_credit_amount rq \<le> credit_balance (ca_account_id ma) db1" "pool FROZEN db1 = Inr f"
    by (auto simp: create_redemption_order_def Let_def)
  obtain ord created db2 where
    o: "get_or_create_order oid (new_order env oid ty rq) db1 = ((ord, created), db2)"
    by (metis prod.exhaust)
  from c ty none g o obtain t where "r = (ord, t)" and
    "post_credit_transaction env uid
       ((posting_of CONSUME (rq_credit_amount rq) (Some (ca_account_id ma)) (Some (ca_account_id f)) (Some key))
         \<lparr>p_reason := str_or (rq_reason rq) (''redemption order '' @ oid),
          p_initiated_by := (case rq_created_by rq of
             None \<Rightarrow> Some (m_id (rq_member rq)) | Some c \<Rightarrow> Some c),
          p_metadata := JObj [(''order_id'', JStr oid), (''item_type'', JStr (rq_item_type rq))]\<rparr>) db2 = Inr (t, db')"
    by (auto simp: create_redemption_order_def Let_def oid [symmetric] key [symmetric])
  with ty g o show thesis by (intro that) auto
qed

text \<open>A new pending order together with its freeze.\<close>

lemma orders_inv_open:
  assumes inv: "orders_inv db" and frame: "credit_frame db db1" "credit_wf db1"
    and new: "ro_order_id ord \<notin> order_ids db" "plain_order_id (ro_order_id ord)" "is_open ord"
    and orders: "redemption_orders db' = redemption_orders db @ [ord]"
    and acc: "credit_accounts db' = credit_accounts db1" "credit_wf db'"
    and views: "ledger_views db' = ledger_views db @ [ledger_view t]"
    and t: "ct_type t = CONSUME" "ct_idempotency_key t = Some (freeze_key (ro_order_id ord))"
    and f: "pool FROZEN db1 = Inr f" "txn_delta (ca_account_id f) t = ro_credit_amount ord"
  shows "orders_inv db'"
proof -
  have ids: "order_ids db' = insert (ro_order_id ord) (order_ids db)" by (simp add: order_ids_def orders)
  have f': "pool FROZEN db' = Inr f" using f(1) acc(1) by (simp add: pool_def)
  have "credit_balance (ca_account_id f) db' = open_credits db + ro_credit_amount ord"
    using frozen_before [OF inv frame f(1)] views f(2) by (simp add: credit_balance_views)
  then have bal: "credit_balance (ca_account_id f) db' = open_credits db'"
    using new(3) by (simp add: open_credits_def orders)
  have I1: "x \<in> order_ids db'" if "v \<in> set (ledger_views db')" "txn_with CONSUME (freeze_key x) v" for v x
    using that inv t(2) unfolding views ids by (auto simp: orders_inv_def txn_with_def)
  have I2: "\<exists>v \<in> set (ledger_views db'). txn_with CONSUME (freeze_key x) v" if "x \<in> order_ids db'" for x
  proof (cases "x \<in> order_ids db")
    case True
    with inv obtain v where "v \<in> set (ledger_views db)" "txn_with CONSUME (freeze_key x) v"
      unfolding orders_inv_def by blast
    then show ?thesis unfolding views by (intro bexI [of _ v]) auto
  next
    case False
    with that ids have "x = ro_order_id ord" by simp
    then show ?thesis unfolding views using t by (intro bexI [of _ "ledger_view t"]) (auto simp: txn_with_def)
  qed
  have I3: "\<exists>y \<in> set (redemption_orders db'). ro_order_id y = x \<and> \<not> is_open y"
    if v: "v \<in> set (ledger_views db')" "txn_with UNFREEZE (unfreeze_key x) v \<or> txn_with BURN (burn_key x) v" for v x
  proof -
    have "v \<in> set (ledger_views db)" using v t(1) unfolding views by (auto simp: txn_with_def)
    then have "\<exists>y \<in> set (redemption_orders db). ro_order_id y = x \<and> \<not> is_open y"
      using inv v(2) unfolding orders_inv_def by blast
    then show ?thesis by (auto simp: orders)
  qed
  have "distinct (map ro_order_id (redemption_orders db'))"
    using inv new(1) by (auto simp: orders orders_inv_def order_ids_def)
  moreover have "\<forall>x \<in> order_ids db'. plain_order_id x" using inv new(2) by (simp add: ids orders_inv_def)
  ultimately show ?thesis unfolding orders_inv_def using acc(2) I1 I2 I3 f' bal by auto
qed

lemma redemption_order_update_credit [simp]:
  "credit_wf (db\<lparr>redemption_orders := os\<rparr>) = credit_wf db"
  "account_ids (db\<lparr>redemption_orders := os\<rparr>) = account_ids db"
  "ledger_views (db\<lparr>redemption_orders := os\<rparr>) = ledger_views db"
  by (simp_all add: credit_wf_def account_ids_def ledger_views_def)

lemma create_inv:
  assumes inv: "orders_inv db" and key: "normalise_idem_key (rq_idempotency_key rq) = None"
    and uid: "list_all (\<lambda>c. \<not> is_space c) ouid"
    and c: "create_redemption_order env ouid uid rq db = Inr (r, db')"
  shows "orders_inv db'"
proof -
  let ?oid = "new_id ''ro'' ouid"
  have "order_of_key env (normalise_idem_key (rq_idempotency_key rq)) db = None"
    using key by (simp add: order_of_key_def posted_with_key_def)
  from c this show ?thesis
  proof (cases rule: create_cases [where oid = ?oid and key = "freeze_key ?oid"])
  case (New ty ma db1 f ord created db2 t)
  note a = member_account_grow [OF New(2)] and post = New(6)
  have wf1: "credit_wf db1" and frame: "credit_frame db db1"
    using inv accounts_growD(3) [OF a(1)] credit_frame_accounts [OF a(1)] by (auto simp: orders_inv_def)
  have views: "ledger_views db1 = ledger_views db"
    using accounts_growD(1) [OF a(1)] by (simp add: ledger_views_def)
  have k: "normalise_idem_key (Some (freeze_key ?oid)) = Some (freeze_key ?oid)"
    using plain_order_id_new [OF uid] by (simp add: plain_order_id_def plain_key_def)
  have db2: "credit_accounts db2 = credit_accounts db1" "ledger_views db2 = ledger_views db1"
    "credit_transactions db2 = credit_transactions db1" "credit_wf db2" "account_ids db2 = account_ids db1"
    using New(5) wf1 by (auto simp: get_or_create_order_def split: option.splits)
  have acc: "credit_accounts db' = credit_accounts db1" using post_rows(2) [OF post] db2 by simp
  have fk: "ca_account_id ma \<in> set (account_ids db2)" "ca_account_id f \<in> set (account_ids db2)"
    using a(2) New(4) db2 by auto
  have call: "credit_call env db2 t db'" using credit_call_post [OF post] fk by simp
  have wf': "credit_wf db'" using call db2 by (simp add: credit_call_def)
  show ?thesis
  proof (cases "find_row (\<lambda>x. ro_order_id x = ?oid) (redemption_orders db1)")
    case (Some x)
    with New(5) have "db2 = db1" by (simp add: get_or_create_order_def)
    have "?oid \<in> order_ids db"
      using find_row_Some_iff [OF Some] orders_frame [OF frame] by (metis image_eqI order_ids_def)
    then have "\<exists>w \<in> set (ledger_views db). txn_with CONSUME (freeze_key ?oid) w"
      using inv unfolding orders_inv_def by blast
    then obtain v where "v \<in> set (credit_transactions db1)" "ct_idempotency_key v = Some (freeze_key ?oid)"
      unfolding views [symmetric] by (auto simp: ledger_views_def txn_with_def)
    with post have "db' = db2" by (cases rule: post_cases) (use k \<open>db2 = db1\<close> in auto)
    with \<open>db2 = db1\<close> show ?thesis using orders_inv_other [OF inv frame wf1] views by simp
  next
    case None
    then have new: "?oid \<notin> order_ids db"
      unfolding find_row_None_iff order_ids_def orders_frame [OF frame] by (metis imageE)
    have o: "ord = new_order env ?oid ty rq" "db2 = db1\<lparr>redemption_orders := redemption_orders db1 @ [ord]\<rparr>"
      using New(5) None by (auto simp: get_or_create_order_def)
    have "\<not> txn_with CONSUME (freeze_key ?oid) v" if "v \<in> set (ledger_views db2)" for v
      using inv new that views db2 by (auto simp: orders_inv_def)
    then have tx: "ledger_views db' = ledger_views db @ [ledger_view t]"
      using post_new_key [OF post] k views db2 by (simp add: ledger_views_def)
    have f': "pool FROZEN db' = Inr f" "ma \<in> set (credit_accounts db')"
      using New(4) a(2) acc by (simp_all add: pool_def)
    have delta: "txn_delta (ca_account_id f) t = ro_credit_amount ord"
      using frozen_delta(2) [OF wf' f'] a(3) post_rows [OF post] o(1) by (simp add: new_order_def)
    have "redemption_orders db' = redemption_orders db2"
      using call by (auto simp: credit_call_def)
    then have orders: "redemption_orders db' = redemption_orders db @ [ord]"
      using o(2) orders_frame [OF frame] by simp
    have id: "ro_order_id ord = ?oid" "is_open ord" using o(1) by (simp_all add: new_order_def is_open_def)
    show ?thesis
      by (rule orders_inv_open [OF inv frame wf1 _ _ id(2) orders acc wf' tx _ _ New(4) delta])
        (use new id plain_order_id_new [OF uid] post_rows [OF post] k in simp_all)
  qed
qed (use key in simp_all)
qed

lemma report_inv:
  assumes inv: "orders_inv db" and c: "report_redemption_order_issue env oid reason db = Inr (r, db')"
  shows "orders_inv db'"
proof -
  from c obtain ord where o: "order_row oid db = Inr ord" by (auto simp: report_redemption_order_issue_def)
  note ord = order_row_ok [OF o]
  define u where "u = (\<lambda>x :: redemption_order. x\<lparr>ro_status := OrderDisputed, ro_updated_at := Some (now env),
     ro_metadata := json_set ''issue_reason'' (JStr reason) (or_empty_dict (ro_metadata ord))\<rparr>)"
  from c o consider "db' = db" | "is_open ord" "db' = save_order oid u db"
    by (cases "ro_status ord") (auto simp: report_redemption_order_issue_def Let_def is_open_def u_def)
  then show ?thesis
  proof cases
    case 2
    have u: "ro_order_id (u x) = ro_order_id x" "ro_credit_amount (u x) = ro_credit_amount x" "is_open (u x)" for x
      by (simp_all add: u_def is_open_def)
    have ids: "order_ids db' = order_ids db" "map ro_order_id (redemption_orders db') = map ro_order_id (redemption_orders db)"
      unfolding 2(2) by (simp_all only: save_order_ids u)
    have cr: "open_credits db' = open_credits db"
      using save_order_credits [of db ord u] inv ord 2 u by (simp add: orders_inv_def)
    have keep: "y \<in> set (redemption_orders db')" if "y \<in> set (redemption_orders db)" "\<not> is_open y" for y
    proof -
      have "ro_order_id y \<noteq> oid"
        using that ord 2(1) inv distinct_map_unique unfolding orders_inv_def by metis
      then show ?thesis using that 2(2) by (force simp: set_update_rows)
    qed
    have I3: "\<exists>y \<in> set (redemption_orders db'). ro_order_id y = x \<and> \<not> is_open y"
      if "v \<in> set (ledger_views db)" "txn_with UNFREEZE (unfreeze_key x) v \<or> txn_with BURN (burn_key x) v" for v x
      using that inv keep unfolding orders_inv_def by metis
    have same: "ledger_views db' = ledger_views db" "pool ty db' = pool ty db" "credit_wf db' = credit_wf db"
      "credit_balance a db' = credit_balance a db" for ty a using 2(2) by simp_all
    have "redemption_orders db' = [] \<longleftrightarrow> redemption_orders db = []" using ids(2) by (metis map_is_Nil_conv)
    then show ?thesis
      using inv I3 unfolding orders_inv_def ids cr same by blast
  qed (use inv in simp)
qed

subsection \<open>The life of an order\<close>

inductive order_step :: "order_status \<Rightarrow> order_status \<Rightarrow> bool" where
  dispute: "order_step OrderPending OrderDisputed"
| cancel: "s \<in> {OrderPending, OrderDisputed} \<Longrightarrow> order_step s OrderCancelled"
| fulfill: "s \<in> {OrderPending, OrderDisputed} \<Longrightarrow> order_step s OrderFulfilled"

inductive_cases order_step_closedE:
  "order_step OrderCancelled s" "order_step OrderFulfilled s" "order_step OrderReversed s"

lemma closed_stays:
  "order_step\<^sup>*\<^sup>* s s' \<Longrightarrow> s \<in> {OrderCancelled, OrderFulfilled, OrderReversed} \<Longrightarrow> s' = s"
  by (induction rule: rtranclp_induct) (auto elim: order_step_closedE)

text \<open>Every order is still there, the same order, further along its life.\<close>

definition orders_progress :: "'a redemption_db_scheme \<Rightarrow> 'a redemption_db_scheme \<Rightarrow> bool" where
  "orders_progress db db' \<longleftrightarrow> (\<forall>o1 \<in> set (redemption_orders db). \<exists>o2 \<in> set (redemption_orders db').
     ro_order_id o2 = ro_order_id o1 \<and> ro_member o2 = ro_member o1 \<and>
     ro_credit_amount o2 = ro_credit_amount o1 \<and> order_step\<^sup>*\<^sup>* (ro_status o1) (ro_status o2))"

definition orders_wf :: "'a redemption_db_scheme \<Rightarrow> bool" where
  "orders_wf db \<longleftrightarrow> credit_wf db \<and> distinct (map ro_order_id (redemption_orders db))"

lemma orders_progress_refl [simp]: "orders_progress db db"
  by (auto simp: orders_progress_def)

lemma orders_progress_sub:
  "set (redemption_orders db) \<subseteq> set (redemption_orders db') \<Longrightarrow> orders_progress db db'"
  by (force simp: orders_progress_def)

lemma orders_progress_trans: "orders_progress a b \<Longrightarrow> orders_progress b c \<Longrightarrow> orders_progress a c"
  unfolding orders_progress_def by (metis rtranclp_trans)

definition redemption_safe :: "env \<Rightarrow> 'a redemption_db_scheme \<Rightarrow> 'a redemption_db_scheme \<Rightarrow> bool" where
  "redemption_safe env db db' \<longleftrightarrow> audited env db db' \<and> orders_progress db db'"

lemma save_order_progress:
  assumes d: "distinct (map ro_order_id (redemption_orders db))" and o: "ord \<in> set (redemption_orders db)"
    and same: "redemption_orders db1 = redemption_orders db"
    and u: "\<And>x. ro_order_id (u x) = ro_order_id x \<and> ro_member (u x) = ro_member x \<and>
      ro_credit_amount (u x) = ro_credit_amount x"
    and st: "order_step (ro_status ord) (ro_status (u ord))"
  shows "orders_progress db (save_order (ro_order_id ord) u db1)"
  unfolding orders_progress_def
proof
  fix x assume x: "x \<in> set (redemption_orders db)"
  let ?y = "if ro_order_id x = ro_order_id ord then u x else x"
  have "?y \<in> set (redemption_orders (save_order (ro_order_id ord) u db1))"
    using x same by (auto simp: set_update_rows)
  moreover have "order_step\<^sup>*\<^sup>* (ro_status x) (ro_status ?y)"
    using distinct_map_unique [OF d x o] st by auto
  ultimately show "\<exists>o2 \<in> set (redemption_orders (save_order (ro_order_id ord) u db1)).
     ro_order_id o2 = ro_order_id x \<and> ro_member o2 = ro_member x \<and>
     ro_credit_amount o2 = ro_credit_amount x \<and> order_step\<^sup>*\<^sup>* (ro_status x) (ro_status o2)"
    using u by (intro bexI [of _ ?y]) auto
qed

lemma save_order_wf:
  assumes "orders_wf db1" "\<And>x. ro_order_id (u x) = ro_order_id x"
  shows "orders_wf (save_order oid u db1)"
  using assms unfolding orders_wf_def by (simp add: map_update_rows)

lemma call_orders_wf: "credit_call env db t db' \<Longrightarrow> orders_wf db \<Longrightarrow> orders_wf db'"
  by (auto simp: orders_wf_def credit_call_def)

lemma cancel_safe:
  assumes wf: "orders_wf db" and c: "cancel_redemption_order env uid oid reason by_m key db = Inr (r, db')"
  shows "orders_wf db' \<and> redemption_safe env db db'"
proof -
  from c obtain ord where o: "order_row oid db = Inr ord" by (auto simp: cancel_redemption_order_def)
  note ord = order_row_ok [OF o]
  from c o consider "db' = db" | m ma db1 f p t db2 u where
      "ro_status ord \<in> {OrderPending, OrderDisputed}" "get_or_create_member_credit_account env m db = Inr (ma, db1)"
      "pool FROZEN db1 = Inr f" "post_credit_transaction env uid p db1 = Inr (t, db2)"
      "p_source p = Some (ca_account_id f)" "p_target p = Some (ca_account_id ma)"
      "db' = save_order oid u db2"
      "u = (\<lambda>x. x\<lparr>ro_status := OrderCancelled, ro_cancelled_at := Some (now env),
                  ro_updated_at := Some (now env),
                  ro_metadata := json_set ''cancel_reason'' (JStr reason) (or_empty_dict (ro_metadata ord))\<rparr>)"
    by (cases "ro_status ord") (auto simp: cancel_redemption_order_def Let_def)
  then show ?thesis
  proof cases
    case (2 m ma db1 f p t db2 u)
    note a = member_account_grow [OF 2(2)]
    have call: "credit_call env db t db2"
      using credit_call_after_accounts [OF a(1) credit_call_post [OF 2(4)]] a(2) 2 by simp
    have "orders_progress db db'"
      using save_order_progress [of db ord db2 u] wf ord 2(1,7,8) call
      by (auto simp: orders_wf_def credit_call_def intro: order_step.cancel)
    moreover have "orders_wf db'" using call_orders_wf [OF call wf] 2(7,8) by (simp add: save_order_wf)
    moreover have "audited env db db'"
      using call audited_cong_right [of db' db2 env db] 2(7) by (simp add: credit_call_def)
    ultimately show ?thesis by (simp add: redemption_safe_def)
  qed (use wf in \<open>simp add: redemption_safe_def\<close>)
qed

lemma fulfill_safe:
  assumes wf: "orders_wf db" and c: "fulfill_redemption_order env uid oid reason by_m key db = Inr (r, db')"
  shows "orders_wf db' \<and> redemption_safe env db db'"
proof -
  from c obtain ord where o: "order_row oid db = Inr ord" by (auto simp: fulfill_redemption_order_def)
  note ord = order_row_ok [OF o]
  from c o consider "db' = db" | f b p t db2 u where
      "ro_status ord \<in> {OrderPending, OrderDisputed}" "pool FROZEN db = Inr f" "pool BURN_ACCOUNT db = Inr b"
      "post_credit_transaction env uid p db = Inr (t, db2)"
      "p_source p = Some (ca_account_id f)" "p_target p = Some (ca_account_id b)"
      "generate_settlement_record env (u ord) (save_order oid u db2) = Inr db'"
      "u = (\<lambda>x. x\<lparr>ro_status := OrderFulfilled, ro_fulfilled_at := Some (now env),
                  ro_reviewed_by := by_m, ro_updated_at := Some (now env)\<rparr>)"
    by (cases "ro_status ord") (auto simp: fulfill_redemption_order_def Let_def)
  then show ?thesis
  proof cases
    case (2 f b p t db2 u)
    have call: "credit_call env db t db2" using credit_call_post [OF 2(4)] 2 by simp
    obtain s where s: "db' = (save_order oid u db2)\<lparr>settlement_records := s\<rparr>" using settlement_frame [OF 2(7)] by blast
    have "orders_progress db (save_order oid u db2)"
      using save_order_progress [of db ord db2 u] wf ord 2(1,8) call
      by (auto simp: orders_wf_def credit_call_def intro: order_step.fulfill)
    moreover have "orders_wf (save_order oid u db2)"
      using call_orders_wf [OF call wf] 2(8) by (simp add: save_order_wf)
    moreover have "audited env db db'"
      using call audited_cong_right [of db' db2 env db] s by (simp add: credit_call_def)
    ultimately show ?thesis
      by (simp add: redemption_safe_def s orders_wf_def orders_progress_def credit_wf_def account_ids_def)
  qed (use wf in \<open>simp add: redemption_safe_def\<close>)
qed

lemma report_safe:
  assumes wf: "orders_wf db" and c: "report_redemption_order_issue env oid reason db = Inr (r, db')"
  shows "orders_wf db' \<and> redemption_safe env db db'"
proof -
  from c obtain ord where o: "order_row oid db = Inr ord" by (auto simp: report_redemption_order_issue_def)
  note ord = order_row_ok [OF o]
  from c o consider "db' = db" | u where "ro_status ord = OrderPending" "db' = save_order oid u db"
      "u = (\<lambda>x. x\<lparr>ro_status := OrderDisputed, ro_updated_at := Some (now env),
     ro_metadata := json_set ''issue_reason'' (JStr reason) (or_empty_dict (ro_metadata ord))\<rparr>)"
    by (cases "ro_status ord") (auto simp: report_redemption_order_issue_def Let_def)
  then show ?thesis
  proof cases
    case (2 u)
    have "orders_progress db db'"
      using save_order_progress [of db ord db u] wf ord 2 by (auto simp: orders_wf_def intro: order_step.dispute)
    moreover have "orders_wf db'" using wf 2 by (simp add: save_order_wf)
    moreover have "audited env db db'" using 2(2) by (intro audited_same) simp
    ultimately show ?thesis by (simp add: redemption_safe_def)
  qed (use wf in \<open>simp add: redemption_safe_def\<close>)
qed

lemma create_safe:
  assumes wf: "orders_wf db" and c: "create_redemption_order env ouid uid rq db = Inr (r, db')"
  shows "orders_wf db' \<and> redemption_safe env db db'"
proof -
  let ?key = "normalise_idem_key (rq_idempotency_key rq)"
  from c obtain ma db1 where ma: "get_or_create_member_credit_account env (rq_member rq) db = Inr (ma, db1)"
    by (cases "order_of_key env ?key db")
      (auto simp: create_redemption_order_def Let_def split: if_splits option.splits)
  note a = member_account_grow [OF ma]
  have grow: "orders_wf db1" "audited env db db1" "redemption_orders db1 = redemption_orders db"
    using wf accounts_growD [OF a(1)] credit_frame_accounts [OF a(1)]
    by (auto simp: orders_wf_def intro: audited_same)
  show ?thesis
  proof (cases "order_of_key env ?key db")
    case (Some x)
    with c ma have "db' = db1"
      by (cases x) (auto simp: create_redemption_order_def Let_def split: if_splits option.splits)
    with grow show ?thesis by (simp add: redemption_safe_def orders_progress_def) auto
  next
    case None
    define oid where "oid = (case ?key of Some k \<Rightarrow> ''ro-'' @ take 32 (sha256 env k) | None \<Rightarrow> new_id ''ro'' ouid)"
    define key where "key = (case ?key of Some k \<Rightarrow> k | None \<Rightarrow> freeze_key oid)"
    from c None obtain ty f ord created db2 p t where
      f: "pool FROZEN db1 = Inr f"
      and o: "get_or_create_order oid (new_order env oid ty rq) db1 = ((ord, created), db2)"
      and post: "post_credit_transaction env uid p db2 = Inr (t, db')"
      and p: "p_source p = Some (ca_account_id ma)" "p_target p = Some (ca_account_id f)"
    proof (cases rule: create_cases [where oid = oid and key = key])
      case (New ty ma' db1' f ord created db2 t)
      then show ?thesis using ma by (intro that) auto
    qed (simp_all add: oid_def key_def)
    have db2: "orders_wf db2" "account_ids db2 = account_ids db1" "system_events db2 = system_events db1"
      "set (redemption_orders db1) \<subseteq> set (redemption_orders db2)"
      using o grow(1)
      by (auto simp: get_or_create_order_def orders_wf_def new_order_def find_row_None_iff split: option.splits)
    have call: "credit_call env db2 t db'"
      using credit_call_post [OF post] p a(2) f db2(2) by simp
    then have orders: "redemption_orders db' = redemption_orders db2" by (simp add: credit_call_def)
    have "audited env db2 db'" using call by (simp add: credit_call_def)
    then have "audited env db1 db'" using audited_cong_left [OF db2(3) [symmetric], of env db'] by simp
    then have "audited env db db'" using grow(2) audited_trans by blast
    moreover have "orders_progress db db'" using db2(4) orders grow(3) by (intro orders_progress_sub) simp
    ultimately show ?thesis using call_orders_wf [OF call db2(1)] by (simp add: redemption_safe_def)
  qed
qed

lemma redemption_service_safe:
  assumes wf: "orders_wf db" and s: "redemption_service env uid call db = Inr (r, db')"
  shows "orders_wf db' \<and> redemption_safe env db db'"
proof (cases call)
  case (CreditCall x)
  with s obtain r' where c: "credit_service env uid x db = Inr (r', db')" by auto
  have "credit_wf db" using wf by (simp add: orders_wf_def)
  note safe = credit_service_safe [OF c this]
  have "credit_frame db db'" using c \<open>credit_wf db\<close>
    by (cases rule: credit_service_cases) (auto simp: credit_call_def intro: credit_frame_accounts)
  then have "redemption_orders db' = redemption_orders db" by simp
  with safe wf show ?thesis
    by (auto simp: redemption_safe_def orders_wf_def intro!: orders_progress_sub)
qed (use s create_safe [OF wf] cancel_safe [OF wf] fulfill_safe [OF wf] report_safe [OF wf] in auto)

interpretation redemption: guarded_service "redemption_step env" orders_wf "redemption_safe env" for env
proof unfold_locales
  fix db db' db'' :: "'a redemption_db_scheme" and x r
  show "orders_wf db'" if "orders_wf db" "redemption_step env x db = Inr (r, db')"
    using that by (cases x) (auto dest: redemption_service_safe)
  show "redemption_safe env db db'" if "orders_wf db" "redemption_step env x db = Inr (r, db')"
    using that redemption_service_safe [of db "env\<lparr>now := fst x\<rparr>"]
    by (cases x) (auto simp: redemption_safe_def)
  show "redemption_safe env db db''" if "redemption_safe env db db'" "redemption_safe env db' db''"
    using that by (auto simp: redemption_safe_def intro: audited_trans orders_progress_trans)
qed (simp add: redemption_safe_def)

fun keyless_step :: "env \<Rightarrow> time \<times> string \<times> redemption_op \<Rightarrow> 'a redemption_db_scheme \<Rightarrow>
    (unit \<times> 'a redemption_db_scheme) result" where
  "keyless_step env (at, uid, call) db =
    (if keyless_call call then redemption_step env (at, uid, call) db else Inr ((), db))"

interpretation keyless: state_service "keyless_step env" orders_inv for env
proof
  fix db db' :: "'a redemption_db_scheme" and x r
  assume inv: "orders_inv db" and s: "keyless_step env x db = Inr (r, db')"
  obtain at uid call where x: "x = (at, uid, call)" by (cases x)
  show "orders_inv db'"
  proof (cases "keyless_call call")
    case True
    with s x have "redemption_service (env\<lparr>now := at\<rparr>) uid call db = Inr (r, db')" by simp
    with True inv show ?thesis
      by (cases call) (auto intro: create_inv cancel_inv fulfill_inv report_inv orders_inv_credit)
  qed (use s x inv in simp)
qed

lemma run_keyless:
  "list_all (\<lambda>(at, uid, call). keyless_call call) reqs \<Longrightarrow>
   run_ops (redemption_step env) reqs db = run_ops (keyless_step env) reqs db"
  by (induction reqs arbitrary: db) (auto split: sum.splits)

definition empty_redemption_db :: "member list \<Rightarrow> merchant_profile list \<Rightarrow> redemption_db" where
  "empty_redemption_db ms mps = \<lparr>system_events = [], credit_accounts = [], credit_transactions = [],
     members = ms, merchants = mps, redemption_orders = [], settlement_records = []\<rparr>"

lemma empty_redemption_ok [simp]: "orders_inv (empty_redemption_db ms mps)" "orders_wf (empty_redemption_db ms mps)"
  by (simp_all add: empty_redemption_db_def orders_inv_def orders_wf_def credit_wf_def account_ids_def
      idem_keys_def order_ids_def ledger_views_def pool_def)

subsection \<open>Settlements\<close>

lemma round_half_up_cents_bound:
  assumes "0 \<le> n" shows "n - 50 < 100 * round_half_up_cents n" "100 * round_half_up_cents n \<le> n + 50"
proof -
  have "round_half_up_cents n = (n + 50) div 100"
    using assms by (cases "n = 0") (simp_all add: round_half_up_cents_def)
  then show "n - 50 < 100 * round_half_up_cents n" "100 * round_half_up_cents n \<le> n + 50" by presburger+
qed

lemma call_settlements:
  "post_credit_transaction env uid p db = Inr (t, db') \<Longrightarrow>
   settlement_records db' = settlement_records db \<and> merchants db' = merchants db"
  by (cases rule: post_cases) (auto dest!: emit_credit_event_db)

lemma fulfill_settles:
  assumes c: "fulfill_redemption_order env uid oid reason rb key db = Inr (r, db')"
    and o: "order_row oid db = Inr ord" "is_open ord" "ro_merchant ord = Some mid"
    and m: "find_row (\<lambda>m. mp_merchant_id m = mid) (merchants db) = Some m"
      "mp_merchant_type m = CASH_SETTLEMENT" "mp_settlement_rate m = Some rate"
    and new: "\<forall>s \<in> set (settlement_records db). sr_redemption_order s \<noteq> oid"
  shows "\<exists>s. settlement_records db' = settlement_records db @ [s] \<and> sr_redemption_order s = oid \<and>
    sr_merchant s = mid \<and> sr_status s = SettlementPending \<and>
    sr_covered_credit_amount s = ro_credit_amount ord \<and> sr_settlement_rate s = rate \<and>
    sr_payable_rmb s = round_half_up_cents (ro_credit_amount ord * rate)"
proof -
  from c o(1,2) obtain p t db1 u where
    post: "post_credit_transaction env uid p db = Inr (t, db1)"
    and u: "u = (\<lambda>x. x\<lparr>ro_status := OrderFulfilled, ro_fulfilled_at := Some (now env),
                  ro_reviewed_by := rb, ro_updated_at := Some (now env)\<rparr>)"
    and g: "generate_settlement_record env (u ord) (save_order oid u db1) = Inr db'"
    by (cases "ro_status ord") (auto simp: fulfill_redemption_order_def Let_def is_open_def)
  have ord: "ro_order_id ord = oid" using order_row_ok [OF o(1)] by simp
  show ?thesis
    using g u m o(3) ord new call_settlements [OF post]
    by (auto simp: generate_settlement_record_def save_order_def split: if_splits)
qed

subsection \<open>Properties of redemption orders\<close>


definition example_order_request :: order_request where
  "example_order_request = \<lparr>rq_member = example_member 1 ''M1'', rq_credit_amount = 30,
     rq_item_type = ''meal'', rq_title = [], rq_reason = [], rq_original_amount_rmb = None,
     rq_cash_amount_rmb = None, rq_related_task = None, rq_resource_id = [], rq_item_snapshot = JNull,
     rq_finance_treatment_ref = [], rq_merchant = None, rq_idempotency_key = None, rq_created_by = None\<rparr>"


text \<open>C13. Orders only move forward: in any history, whatever keys callers choose, every order stays
  stored with its member and amount, its status moves only from pending to disputed and from there
  or from pending to cancelled or fulfilled, and the event ledger keeps verifying.\<close>

theorem orders_only_progress:
  "let s0 = empty_redemption_db ms mps;
       db = run_ops (redemption_step env) reqs s0;
       db' = run_ops (redemption_step env) (reqs @ later) s0
   in orders_progress db db' \<and> chain_ok env db' \<and> prefix (system_events db) (system_events db')"
proof -
  let ?s0 = "empty_redemption_db ms mps"
  let ?db = "run_ops (redemption_step env) reqs ?s0"
  have "redemption_safe env ?db (run_ops (redemption_step env) later ?db)"
    using redemption.run_rel [of ?db env later] redemption.run_inv [of ?s0 env reqs] by simp
  moreover have "redemption_safe env ?s0 ?db" using redemption.run_rel [of ?s0 env reqs] by simp
  moreover have "chain_ok env ?s0" by (simp add: empty_redemption_db_def)
  ultimately show ?thesis by (simp add: Let_def run_ops_append redemption_safe_def audited_def)
qed

text \<open>An order that was cancelled, fulfilled or reversed keeps its status under every later call.\<close>

theorem closed_order_final:
  assumes "orders_wf db" "redemption_step env req db = Inr (r, db')"
    and "ord \<in> set (redemption_orders db)" "ro_status ord \<in> {OrderCancelled, OrderFulfilled, OrderReversed}"
  shows "\<exists>ord' \<in> set (redemption_orders db'). ro_order_id ord' = ro_order_id ord \<and> ro_status ord' = ro_status ord"
proof -
  have "orders_progress db db'" using redemption.step_rel [OF assms(1,2)] by (simp add: redemption_safe_def)
  with assms(3) obtain o2 where "o2 \<in> set (redemption_orders db')" "ro_order_id o2 = ro_order_id ord"
    "order_step\<^sup>*\<^sup>* (ro_status ord) (ro_status o2)" by (auto simp: orders_progress_def)
  with closed_stays [OF _ assms(4)] show ?thesis by blast
qed

text \<open>An example: a frozen order of 7 credits at a cash-settlement merchant, rate 0.5050.\<close>

definition example_merchant :: merchant_profile where
  "example_merchant = \<lparr>mp_merchant_id = ''shop'', mp_display_name = ''Shop'', mp_operator_member = None,
     mp_merchant_type = CASH_SETTLEMENT, mp_status = MerchantActive, mp_settlement_rate = Some 5050,
     mp_metadata = JObj [], mp_created_at = 0, mp_updated_at = None\<rparr>"

definition example_order :: redemption_order where
  "example_order = (new_order plain_env ''ro-1'' Meal (example_order_request\<lparr>rq_credit_amount := 7\<rparr>))
     \<lparr>ro_merchant := Some ''shop''\<rparr>"

definition example_redemption :: redemption_db where
  "example_redemption = \<lparr>system_events = [],
     credit_accounts = [example_account ''frozen'' FROZEN None, example_account ''burn'' BURN_ACCOUNT None,
       example_account ''a1'' MEMBER_ACCOUNT (Some 1)],
     credit_transactions = [posting_row plain_env ''0'' CONSUME
       (posting_of CONSUME 7 (Some ''a1'') (Some ''frozen'') (Some ''redemption-freeze:ro-1''))],
     members = [example_member 1 ''M1''], merchants = [example_merchant],
     redemption_orders = [example_order], settlement_records = []\<rparr>"

lemma example_fulfill:
  "\<exists>r db'. fulfill_redemption_order plain_env ''1'' ''ro-1'' [] None None example_redemption = Inr (r, db')"
  by (simp add: fulfill_redemption_order_def order_row_def example_redemption_def example_order_def
      new_order_def pool_def Let_def key_or_def burn_key_def example_order_request_def
      post_fresh [OF _ _ _ _ refl] normalise_idem_key_def py_strip_def is_space_def new_id_def
      generate_settlement_record_def save_order_def example_merchant_def)

theorem closed_order_final_witness:
  "\<exists>ord' \<in> set (redemption_orders (example_redemption\<lparr>redemption_orders := [example_order\<lparr>ro_status := OrderCancelled\<rparr>]\<rparr>)).
     ro_order_id ord' = ''ro-1'' \<and> ro_status ord' = OrderCancelled"
proof -
  let ?ord = "example_order\<lparr>ro_status := OrderCancelled\<rparr>"
  let ?db = "example_redemption\<lparr>redemption_orders := [?ord]\<rparr>"
  have "orders_wf ?db"
    by (simp add: example_redemption_def orders_wf_def credit_wf_def account_ids_def is_system_account_def
        idem_keys_def txn_ok_def normalise_idem_key_def py_strip_def is_space_def)
  moreover have "redemption_step plain_env (0, ''1'', CancelOrder ''ro-1'' [] None None) ?db = Inr ((), ?db)"
    by (simp add: cancel_redemption_order_def order_row_def example_order_def new_order_def)
  ultimately show ?thesis
    using closed_order_final [of ?db plain_env "(0, ''1'', CancelOrder ''ro-1'' [] None None)" "()" ?db ?ord]
    by (simp add: example_order_def new_order_def)
qed

text \<open>C14. Fulfilling an open order at a cash-settlement merchant burns its credits and records one pending
  debt for it, whose amount is the credits times the current rate rounded half up to a cent.\<close>

theorem fulfill_settles_half_up:
  assumes "fulfill_redemption_order env uid oid reason rb key db = Inr (r, db')"
    and "order_row oid db = Inr ord" "is_open ord" "ro_merchant ord = Some mid"
    and "find_row (\<lambda>m. mp_merchant_id m = mid) (merchants db) = Some m"
      "mp_merchant_type m = CASH_SETTLEMENT" "mp_settlement_rate m = Some rate"
    and "\<forall>s \<in> set (settlement_records db). sr_redemption_order s \<noteq> oid"
    and "0 \<le> ro_credit_amount ord * rate"
  shows "\<exists>s. settlement_records db' = settlement_records db @ [s] \<and> sr_redemption_order s = oid \<and>
    sr_merchant s = mid \<and> sr_status s = SettlementPending \<and>
    sr_covered_credit_amount s = ro_credit_amount ord \<and>
    ro_credit_amount ord * rate - 50 < 100 * sr_payable_rmb s \<and>
    100 * sr_payable_rmb s \<le> ro_credit_amount ord * rate + 50"
proof -
  from fulfill_settles [OF assms(1-8)] obtain s where
    "settlement_records db' = settlement_records db @ [s]" "sr_redemption_order s = oid"
    "sr_merchant s = mid" "sr_status s = SettlementPending"
    "sr_covered_credit_amount s = ro_credit_amount ord"
    "sr_payable_rmb s = round_half_up_cents (ro_credit_amount ord * rate)" by blast
  with round_half_up_cents_bound [OF assms(9)] show ?thesis by (intro exI [of _ s]) simp
qed

theorem fulfill_settles_half_up_witness:
  "\<exists>r db' s. fulfill_redemption_order plain_env ''1'' ''ro-1'' [] None None example_redemption = Inr (r, db') \<and>
     settlement_records db' = [s] \<and> sr_payable_rmb s = 354"
proof -
  from example_fulfill obtain r db' where
    f: "fulfill_redemption_order plain_env ''1'' ''ro-1'' [] None None example_redemption = Inr (r, db')" by blast
  have "\<exists>s. settlement_records db' = [s] \<and> 35300 < 100 * sr_payable_rmb s \<and> 100 * sr_payable_rmb s \<le> 35400"
    using fulfill_settles_half_up [OF f, of example_order "''shop''" example_merchant 5050]
    by (simp add: order_row_def example_redemption_def example_order_def new_order_def is_open_def
        example_merchant_def example_order_request_def) blast
  then obtain s where "settlement_records db' = [s]" "sr_payable_rmb s = 354" by force
  with f show ?thesis by blast
qed

end
