(* ===== verification/Task_Workflow.thy ===== *)
theory Task_Workflow
  imports Credit_Ledger
begin

text \<open>
  Tasks from draft to accepted labor (\<^verbatim>\<open>core/tasks/authoring.py\<close>, \<^verbatim>\<open>funding.py\<close>,
  \<^verbatim>\<open>member_workflow.py\<close>, \<^verbatim>\<open>review.py\<close>), the contribution ledger (\<^verbatim>\<open>core/ledger_services.py\<close>), the
  models \<^verbatim>\<open>Task\<close>, \<^verbatim>\<open>LedgerEntry\<close> (\<^verbatim>\<open>core/models/operations.py\<close>) and \<^verbatim>\<open>Event\<close>
  (\<^verbatim>\<open>core/models/events.py\<close>), and the payloads they publish (\<^verbatim>\<open>core/event_payloads.py\<close>).

  A role coefficient is an integer in 1/1000. The descriptive load columns of a task, which no
  service reads or writes, are left out of its record. The text of an instant
  (\<^verbatim>\<open>datetime.isoformat\<close>), which only goes into metadata, is the numeral of the instant.
\<close>

subsection \<open>Rows\<close>

datatype task_type =
  Cooking | Dishwashing | PublicCleaning | Waste | Warehouse | Repair | Purchase | Farming | Duty
  | Care | TaskTraining | Administration

fun task_type_value :: "task_type \<Rightarrow> string" where
  "task_type_value Cooking = ''cooking''"
| "task_type_value Dishwashing = ''dishwashing''"
| "task_type_value PublicCleaning = ''public_cleaning''"
| "task_type_value Waste = ''waste''"
| "task_type_value Warehouse = ''warehouse''"
| "task_type_value Repair = ''repair''"
| "task_type_value Purchase = ''purchase''"
| "task_type_value Farming = ''farming''"
| "task_type_value Duty = ''duty''"
| "task_type_value Care = ''care''"
| "task_type_value TaskTraining = ''training''"
| "task_type_value Administration = ''administration''"

definition parse_task_type :: "string \<Rightarrow> task_type option" where
  "parse_task_type s = find_row (\<lambda>t. task_type_value t = s)
     [Cooking, Dishwashing, PublicCleaning, Waste, Warehouse, Repair, Purchase, Farming, Duty, Care,
      TaskTraining, Administration]"

datatype task_status =
  Draft | Open | Claimed | InProgress | PendingReview | Accepted | Rejected | Disputed | Closed | Reversed

fun task_status_value :: "task_status \<Rightarrow> string" where
  "task_status_value Draft = ''draft''"
| "task_status_value Open = ''open''"
| "task_status_value Claimed = ''claimed''"
| "task_status_value InProgress = ''in_progress''"
| "task_status_value PendingReview = ''pending_review''"
| "task_status_value Accepted = ''accepted''"
| "task_status_value Rejected = ''rejected''"
| "task_status_value Disputed = ''disputed''"
| "task_status_value Closed = ''closed''"
| "task_status_value Reversed = ''reversed''"

definition failure_consequences :: "string list" where
  "failure_consequences = [''low'', ''medium'', ''high'', ''critical'']"

record task =
  tk_task_id :: string
  tk_title :: string
  tk_task_type :: task_type
  tk_status :: task_status
  tk_standard_minutes :: int
  tk_base_points :: int
  tk_role_coefficient :: int
  tk_can_be_delayed :: bool
  tk_requires_review :: bool
  tk_failure_consequence :: string
  tk_assignee_member :: "int option"
  tk_plan_node :: "string option"
  tk_source_type :: string
  tk_rule_version :: string
  tk_created_at :: time
  tk_due_at :: "time option"
  tk_submitted_at :: "time option"
  tk_reviewed_at :: "time option"
  tk_metadata :: json

datatype entry_type = Contribution | Consumption | Penalty | Compensation | EntryCorrection | EntryReversal

fun entry_type_value :: "entry_type \<Rightarrow> string" where
  "entry_type_value Contribution = ''contribution''"
| "entry_type_value Consumption = ''consumption''"
| "entry_type_value Penalty = ''penalty''"
| "entry_type_value Compensation = ''compensation''"
| "entry_type_value EntryCorrection = ''correction''"
| "entry_type_value EntryReversal = ''reversal''"

datatype entry_status = EntryPosted | EntryPendingReview | EntryReversed

fun entry_status_value :: "entry_status \<Rightarrow> string" where
  "entry_status_value EntryPosted = ''posted''"
| "entry_status_value EntryPendingReview = ''pending_review''"
| "entry_status_value EntryReversed = ''reversed''"

record ledger_entry =
  le_ledger_entry_id :: string
  le_member :: int
  le_amount :: int
  le_entry_type :: entry_type
  le_reason :: string
  le_related_task :: "string option"
  le_related_event_id :: string
  le_rule_version :: string
  le_created_at :: time
  le_created_by :: json
  le_reviewer :: json
  le_status :: entry_status
  le_reverses_entry :: "string option"
  le_system_event :: "nat option"
  le_metadata :: json

text \<open>A row of the replayable event stream, \<^verbatim>\<open>core/models/events.py: Event\<close>.\<close>

record stream_event =
  ev_event_id :: string
  ev_event_type :: string
  ev_simulation_day :: int
  ev_severity :: string
  ev_title :: string
  ev_summary :: string
  ev_involved_member_ids :: "json list"
  ev_related_task :: "string option"
  ev_occurred_at :: time
  ev_generated_by :: string
  ev_visibility :: string
  ev_payload :: json

record task_db = people_db +
  tasks :: "task list"
  ledger_entries :: "ledger_entry list"
  stream_events :: "stream_event list"

subsection \<open>Published payloads\<close>

definition task_extra_public_keys :: "string list" where
  "task_extra_public_keys = [''action_type'', ''accepted'']"

definition task_base_facts :: "env \<Rightarrow> task \<Rightarrow> member option \<Rightarrow> (string \<times> json) list" where
  "task_base_facts env t assignee =
    [(''title'', JStr (tk_title t)), (''task_type'', JStr (task_type_value (tk_task_type t))),
     (''status'', JStr (task_status_value (tk_status t)))] @
    (case assignee of None \<Rightarrow> []
     | Some m \<Rightarrow> [(''assignee_label'', JStr (public_member_label (member_label env (Some m)) (m_member_no m)))]) @
    (case tk_plan_node t of None \<Rightarrow> []
     | Some n \<Rightarrow> if n = [] then [] else [(''plan_node_id'', JStr n)])"

text \<open>The loop over \<^verbatim>\<open>extra\<close>: known public keys become facts, every other key a commitment.\<close>

fun add_task_extra ::
    "(string \<times> json) list \<Rightarrow> (string \<times> json) list \<Rightarrow> json list \<Rightarrow> (string \<times> json) list \<times> json list" where
  "add_task_extra [] facts private = (facts, private)"
| "add_task_extra ((k, v) # extra) facts private =
    (if k \<in> fst ` set facts then add_task_extra extra facts private
     else if k \<in> set task_extra_public_keys then add_task_extra extra (facts @ [(k, v)]) private
     else add_task_extra extra facts
       (private @ [private_commitment k True ''extra fields of the task are not public'']))"

definition task_event_payload ::
    "env \<Rightarrow> task \<Rightarrow> member option \<Rightarrow> string \<Rightarrow> json \<Rightarrow> (string \<times> json) list \<Rightarrow> json" where
  "task_event_payload env t assignee action actor extra =
    (let private =
       [private_commitment ''assignee_member_no'' True ''the member number of the assignee is private'',
        private_commitment ''assignee_member_id'' True ''internal id of the assignee'',
        private_commitment ''actor'' (json_truthy actor) ''the actor is private'',
        private_commitment ''metadata'' (json_truthy (tk_metadata t)) ''metadata''];
         (facts, commitments) = add_task_extra extra (task_base_facts env t assignee) private
     in public_event_payload ''task'' (public_ref [''task'', tk_task_id t]) (tk_title t) action
          (task_status_value (tk_status t))
          (''task '' @ tk_title t @ '' '' @ action @ '', now '' @ task_status_value (tk_status t))
          facts commitments)"

definition ledger_entry_payload :: "env \<Rightarrow> ledger_entry \<Rightarrow> member \<Rightarrow> json" where
  "ledger_entry_payload env e m =
    (let label = public_member_label (member_label env (Some m)) (m_member_no m) in
     public_event_payload ''ledger_entry'' (public_ref [''ledger-entry'', le_ledger_entry_id e])
       ''ledger entry'' (entry_type_value (le_entry_type e)) (entry_status_value (le_status e))
       (''member '' @ label @ '' '' @ entry_type_value (le_entry_type e) @ '' '' @
          show_int (le_amount e) @ '' credits'')
       [(''member_label'', JStr label), (''amount'', JInt (le_amount e)),
        (''entry_type'', JStr (entry_type_value (le_entry_type e))),
        (''status'', JStr (entry_status_value (le_status e))),
        (''rule_version'', JStr (le_rule_version e))]
       [private_commitment ''member_no'' True ''the member number is private'',
        private_commitment ''member_id'' True ''internal id of the member'',
        private_commitment ''reason_raw'' (le_reason e \<noteq> []) ''the raw reason is not public'',
        private_commitment ''related_event_id'' True ''the related event is internal'',
        private_commitment ''system_event_id'' True ''internal id of the system event'',
        private_commitment ''created_by'' True ''creator'',
        private_commitment ''reviewer'' True ''reviewer''])"

definition ledger_entry_event_type :: "ledger_entry \<Rightarrow> string" where
  "ledger_entry_event_type e =
    (if le_entry_type e = EntryReversal \<or> le_reverses_entry e \<noteq> None then ''credit_reversed''
     else if le_entry_type e \<in> {Consumption, Penalty} \<or> le_amount e < 0 then ''credit_deducted''
     else if le_entry_type e \<in> {EntryCorrection, Compensation} then ''credit_adjusted''
     else ''credit_earned'')"

subsection \<open>Contribution ledger\<close>

definition ref_member :: "env \<Rightarrow> 'a people_db_scheme \<Rightarrow> json \<Rightarrow> int option" where
  "ref_member env db ref = map_option m_id (actor_member_from_ref env (members db) ref)"

text \<open>\<^verbatim>\<open>a or b\<close> on optional members.\<close>

definition or_else :: "'x option \<Rightarrow> 'x option \<Rightarrow> 'x option" where
  "or_else a b = (case a of None \<Rightarrow> b | Some x \<Rightarrow> Some x)"

definition insert_ledger_entry :: "ledger_entry \<Rightarrow> 'a task_db_scheme \<Rightarrow> 'a task_db_scheme result" where
  "insert_ledger_entry e db =
    (if exists_row (\<lambda>x. le_ledger_entry_id x = le_ledger_entry_id e) (ledger_entries db)
     then Inl IntegrityError
     else Inr (db\<lparr>ledger_entries := ledger_entries db @ [e]\<rparr>))"

text \<open>\<open>e\<close> is the row built from the arguments, before its event exists; \<open>m\<close> is its member.\<close>

definition create_ledger_entry ::
    "env \<Rightarrow> ledger_entry \<Rightarrow> member \<Rightarrow> 'a task_db_scheme \<Rightarrow> (ledger_entry \<times> 'a task_db_scheme) result" where
  "create_ledger_entry env e m db =
    and_then (insert_ledger_entry e db) (\<lambda>db1.
    and_then (append_event env (ledger_entry_event_type e) ''LedgerEntry'' (le_ledger_entry_id e)
        (or_else (ref_member env db (le_created_by e)) (ref_member env db (le_reviewer e))) None
        (ledger_entry_payload env e m) (Some (le_created_at e)) db1) (\<lambda>(event, db2).
      Inr (e\<lparr>le_system_event := Some (se_seq event)\<rparr>,
        db2\<lparr>ledger_entries := update_rows (\<lambda>x. le_ledger_entry_id x = le_ledger_entry_id e)
          (\<lambda>x. x\<lparr>le_system_event := Some (se_seq event)\<rparr>) (ledger_entries db2)\<rparr>)))"

definition reversal_entry :: "env \<Rightarrow> ledger_entry \<Rightarrow> string \<Rightarrow> string \<Rightarrow> json \<Rightarrow> time option \<Rightarrow> ledger_entry" where
  "reversal_entry env entry reversal_id reason created_by created_at =
    \<lparr>le_ledger_entry_id = reversal_id, le_member = le_member entry, le_amount = - le_amount entry,
     le_entry_type = EntryReversal, le_reason = reason, le_related_task = le_related_task entry,
     le_related_event_id = le_related_event_id entry, le_rule_version = le_rule_version entry,
     le_created_at = (case created_at of None \<Rightarrow> now env | Some t \<Rightarrow> t),
     le_created_by = created_by, le_reviewer = or_empty_dict created_by, le_status = EntryPosted,
     le_reverses_entry = Some (le_ledger_entry_id entry), le_system_event = None,
     le_metadata = JObj [(''reverses_entry_id'', JStr (le_ledger_entry_id entry))]\<rparr>"

text \<open>Without an identifier the code calls \<^verbatim>\<open>uuid4\<close>, a name its module does not import.\<close>

definition reverse_ledger_entry ::
    "env \<Rightarrow> string \<Rightarrow> string \<Rightarrow> json \<Rightarrow> string option \<Rightarrow> time option \<Rightarrow> 'a task_db_scheme \<Rightarrow>
     (ledger_entry \<times> 'a task_db_scheme) result" where
  "reverse_ledger_entry env entry_id reason created_by new_entry_id created_at db =
    (case find_row (\<lambda>x. le_ledger_entry_id x = entry_id) (ledger_entries db) of
       None \<Rightarrow> Inl (DoesNotExist ''LedgerEntry'')
     | Some entry \<Rightarrow>
        (case find_row (\<lambda>m. m_id m = le_member entry) (members db) of
           None \<Rightarrow> Inl (DoesNotExist ''Member'')
         | Some m \<Rightarrow>
            (case new_entry_id of
               None \<Rightarrow> Inl (NameError ''uuid4'')
             | Some reversal_id \<Rightarrow>
                if reversal_id = [] then Inl (NameError ''uuid4'')
                else create_ledger_entry env
                  (reversal_entry env entry reversal_id reason created_by created_at) m db)))"

definition ledger_balance_for_member :: "member \<Rightarrow> 'a task_db_scheme \<Rightarrow> int" where
  "ledger_balance_for_member m db =
    sum_rows (\<lambda>e. le_member e = m_id m \<and> le_status e = EntryPosted) le_amount (ledger_entries db)"

subsection \<open>Task rows and events\<close>

definition isoformat :: "time \<Rightarrow> string" where
  "isoformat t = show_int t"

definition dict_update :: "json \<Rightarrow> (string \<times> json) list \<Rightarrow> json" where
  "dict_update d kvs = foldl (\<lambda>d (k, v). json_set k v d) d kvs"

definition task_row :: "string \<Rightarrow> 'a task_db_scheme \<Rightarrow> task result" where
  "task_row tid db = (case find_row (\<lambda>t. tk_task_id t = tid) (tasks db) of
     None \<Rightarrow> Inl (DoesNotExist ''Task'') | Some t \<Rightarrow> Inr t)"

definition save_task :: "task \<Rightarrow> 'a task_db_scheme \<Rightarrow> 'a task_db_scheme" where
  "save_task t db = db\<lparr>tasks := update_rows (\<lambda>x. tk_task_id x = tk_task_id t) (\<lambda>_. t) (tasks db)\<rparr>"

definition task_assignee :: "task \<Rightarrow> 'a task_db_scheme \<Rightarrow> member option result" where
  "task_assignee t db = (case tk_assignee_member t of None \<Rightarrow> Inr None
     | Some i \<Rightarrow> (case find_row (\<lambda>m. m_id m = i) (members db) of
         None \<Rightarrow> Inl (DoesNotExist ''Member'') | Some m \<Rightarrow> Inr (Some m)))"

definition emit_task_event ::
    "env \<Rightarrow> string \<Rightarrow> task \<Rightarrow> string \<Rightarrow> json \<Rightarrow> int option \<Rightarrow> (string \<times> json) list \<Rightarrow> 'a task_db_scheme \<Rightarrow>
     'a task_db_scheme result" where
  "emit_task_event env event_type t action actor actor_member extra db =
    and_then (task_assignee t db) (\<lambda>assignee.
    and_then (append_event env event_type ''Task'' (tk_task_id t) actor_member None
        (task_event_payload env t assignee action actor extra) (Some (now env)) db) (\<lambda>(e, db').
      Inr db'))"

text \<open>\<^verbatim>\<open>for _ in range(5)\<close>: the first of five drawn identifiers that is not taken.\<close>

fun first_free_id :: "nat \<Rightarrow> string \<Rightarrow> (string \<Rightarrow> bool) \<Rightarrow> (nat \<Rightarrow> string) \<Rightarrow> string result" where
  "first_free_id 0 stem taken draw = Inl (DomainError ''cannot generate an id, retry'')"
| "first_free_id (Suc n) stem taken draw =
    (if taken (stem @ ''-'' @ draw 0) then first_free_id n stem taken (\<lambda>i. draw (Suc i))
     else Inr (stem @ ''-'' @ draw 0))"

lemma first_free_id_free: "first_free_id n stem taken draw = Inr i \<Longrightarrow> \<not> taken i"
  by (induction n arbitrary: draw) (auto split: if_splits)

definition generate_task_id :: "(nat \<Rightarrow> string) \<Rightarrow> 'a task_db_scheme \<Rightarrow> string result" where
  "generate_task_id draw db =
    first_free_id 5 ''task'' (\<lambda>i. exists_row (\<lambda>t. tk_task_id t = i) (tasks db)) draw"

subsection \<open>Authoring\<close>

record task_fields =
  tf_title :: string
  tf_task_type :: string
  tf_standard_minutes :: int
  tf_base_points :: int
  tf_role_coefficient :: int
  tf_failure_consequence :: string
  tf_can_be_delayed :: bool
  tf_requires_review :: bool
  tf_rule_version :: string
  tf_created_by :: json
  tf_due_at :: "time option"
  tf_source_type :: string

definition create_task_draft ::
    "env \<Rightarrow> (nat \<Rightarrow> string) \<Rightarrow> task_fields \<Rightarrow> 'a task_db_scheme \<Rightarrow> (task \<times> 'a task_db_scheme) result" where
  "create_task_draft env draw f db =
    (let cleaned_title = py_strip (tf_title f) in
     if cleaned_title = [] then Inl (DomainError ''the task title is empty'')
     else case parse_task_type (tf_task_type f) of
       None \<Rightarrow> Inl (DomainError ''the task type is invalid'')
     | Some ty \<Rightarrow>
        if tf_standard_minutes f \<le> 0 then Inl (DomainError ''standard minutes must be positive'')
        else if tf_base_points f < 0 then Inl (DomainError ''base points must not be negative'')
        else if tf_role_coefficient f \<le> 0 then Inl (DomainError ''the role coefficient must be positive'')
        else if tf_failure_consequence f \<noteq> [] \<and> tf_failure_consequence f \<notin> set failure_consequences then
          Inl (DomainError ''the failure consequence is invalid'')
        else if tf_rule_version f = [] then Inl (DomainError ''the rule version is missing'')
        else and_then (generate_task_id draw db) (\<lambda>tid.
          let t = \<lparr>tk_task_id = tid, tk_title = cleaned_title, tk_task_type = ty, tk_status = Draft,
              tk_standard_minutes = tf_standard_minutes f, tk_base_points = tf_base_points f,
              tk_role_coefficient = tf_role_coefficient f, tk_can_be_delayed = tf_can_be_delayed f,
              tk_requires_review = tf_requires_review f,
              tk_failure_consequence = tf_failure_consequence f, tk_assignee_member = None,
              tk_plan_node = None, tk_source_type = tf_source_type f,
              tk_rule_version = tf_rule_version f, tk_created_at = now env, tk_due_at = tf_due_at f,
              tk_submitted_at = None, tk_reviewed_at = None,
              tk_metadata = JObj [(''source'', JStr ''control_task_authoring''),
                (''created_by'', tf_created_by f)]\<rparr>
          in and_then (emit_task_event env ''task_created'' t ''create'' (tf_created_by f)
                (ref_member env db (tf_created_by f)) [] (db\<lparr>tasks := tasks db @ [t]\<rparr>))
               (\<lambda>db'. Inr (t, db'))))"

text \<open>\<^verbatim>\<open>Decimal.to_integral_value()\<close> of a number of thousandths: round half to even.\<close>

definition round_half_even_thousandths :: "int \<Rightarrow> int" where
  "round_half_even_thousandths n =
    (let q = n div 1000; r = n mod 1000 in
     if r < 500 \<or> r = 500 \<and> even q then q else q + 1)"

definition task_expected_reward :: "task \<Rightarrow> int" where
  "task_expected_reward t =
    (if tk_base_points t \<le> 0 then 0
     else round_half_even_thousandths (tk_base_points t * tk_role_coefficient t))"

definition publish_task ::
    "env \<Rightarrow> string \<Rightarrow> json \<Rightarrow> 'a task_db_scheme \<Rightarrow> (task \<times> 'a task_db_scheme) result" where
  "publish_task env tid publisher db =
    and_then (task_row tid db) (\<lambda>t.
      if tk_status t \<noteq> Draft then Inl (DomainError ''only draft tasks can be published'')
      else if tk_assignee_member t \<noteq> None then Inl (DomainError ''assigned tasks cannot be opened'')
      else and_then (if tk_base_points t > 0 then
             and_then (task_locked_credit_balance tid db) (\<lambda>locked.
               if locked < task_expected_reward t then
                 Inl (DomainError ''the locked budget does not cover the reward'')
               else Inr ())
           else Inr ()) (\<lambda>_.
        let t' = t\<lparr>tk_status := Open, tk_metadata := dict_update (tk_metadata t)
              [(''published_by'', publisher), (''published_at'', JStr (isoformat (now env)))]\<rparr>
        in and_then (emit_task_event env ''task_published'' t' ''publish'' publisher
              (ref_member env db publisher) [] (save_task t' db)) (\<lambda>db'. Inr (t', db'))))"

definition assign_task ::
    "env \<Rightarrow> string \<Rightarrow> member \<Rightarrow> json \<Rightarrow> 'a task_db_scheme \<Rightarrow> (task \<times> 'a task_db_scheme) result" where
  "assign_task env tid m operator db =
    and_then (task_row tid db) (\<lambda>t.
      if tk_status t \<noteq> Open then Inl (DomainError ''only open tasks can be assigned'')
      else if tk_assignee_member t \<noteq> None then Inl (DomainError ''the task already has an assignee'')
      else if m_status m \<notin> {Admitted, MemberActive} then
        Inl (DomainError ''only admitted or active members can be assigned'')
      else (let t' = t\<lparr>tk_assignee_member := Some (m_id m), tk_status := Claimed,
              tk_metadata := dict_update (tk_metadata t)
                [(''assigned_by'', operator), (''assigned_at'', JStr (isoformat (now env)))]\<rparr>
            in and_then (emit_task_event env ''task_assigned'' t' ''assign'' operator
                 (ref_member env db operator)
                 [(''assigned_member_no'', JStr (m_member_no m)),
                  (''assigned_member_display_name'', JStr (m_display_name m))]
                 (save_task t' db)) (\<lambda>db'. Inr (t', db'))))"

definition close_task ::
    "env \<Rightarrow> string \<Rightarrow> json \<Rightarrow> string \<Rightarrow> 'a task_db_scheme \<Rightarrow> (task \<times> 'a task_db_scheme) result" where
  "close_task env tid operator reason db =
    (let cleaned_reason = py_strip reason in
     if cleaned_reason = [] then Inl (DomainError ''the reason is empty'')
     else and_then (task_row tid db) (\<lambda>t.
       if tk_status t \<notin> {Draft, Open} then Inl (DomainError ''only draft or open tasks can be closed'')
       else if tk_assignee_member t \<noteq> None then Inl (DomainError ''assigned tasks cannot be closed here'')
       else (let t' = t\<lparr>tk_status := Closed, tk_metadata := dict_update (tk_metadata t)
                [(''closed_by'', operator), (''closed_at'', JStr (isoformat (now env))),
                 (''close_reason'', JStr cleaned_reason)]\<rparr>
             in and_then (emit_task_event env ''task_closed'' t' ''close'' operator
                  (ref_member env db operator) [(''reason'', JStr cleaned_reason)] (save_task t' db))
                  (\<lambda>db'. Inr (t', db')))))"

subsection \<open>Funding\<close>

record task_budget_status =
  bs_expected_reward :: int
  bs_locked_budget :: int
  bs_pool_balance :: int
  bs_shortfall :: int
  bs_pool_deficit :: int

definition can_fund :: "task_budget_status \<Rightarrow> bool" where
  "can_fund b \<longleftrightarrow> bs_pool_deficit b = 0"

definition task_budget_status_of ::
    "task \<Rightarrow> int option \<Rightarrow> int option \<Rightarrow> 'a task_db_scheme \<Rightarrow> task_budget_status result" where
  "task_budget_status_of t locked_budget pool_balance db =
    and_then (case locked_budget of Some n \<Rightarrow> Inr n
              | None \<Rightarrow> task_locked_credit_balance (tk_task_id t) db) (\<lambda>locked.
      let pool_n = (case pool_balance of Some n \<Rightarrow> n
            | None \<Rightarrow> (case find_row (\<lambda>a. ca_account_type a = ISSUANCE_POOL) (credit_accounts db) of
                Some a \<Rightarrow> credit_balance (ca_account_id a) db | None \<Rightarrow> 0));
          reward = task_expected_reward t;
          shortfall = max (reward - locked) 0
      in Inr \<lparr>bs_expected_reward = reward, bs_locked_budget = locked, bs_pool_balance = pool_n,
              bs_shortfall = shortfall, bs_pool_deficit = max (shortfall - pool_n) 0\<rparr>)"

definition fund_and_publish_task ::
    "env \<Rightarrow> string \<Rightarrow> string \<Rightarrow> json \<Rightarrow> int option \<Rightarrow> string \<Rightarrow> 'a task_db_scheme \<Rightarrow>
     ((task \<times> task_budget_status \<times> bool) \<times> 'a task_db_scheme) result" where
  "fund_and_publish_task env uid tid publisher initiated_by lock_reason db =
    and_then (task_row tid db) (\<lambda>t.
      if tk_status t \<noteq> Draft then Inl (DomainError ''only draft tasks can be published'')
      else if tk_assignee_member t \<noteq> None then Inl (DomainError ''assigned tasks cannot be opened'')
      else (case find_row (\<lambda>a. ca_account_type a = ISSUANCE_POOL) (credit_accounts db) of
          None \<Rightarrow> Inl (DomainError ''the issuance pool does not exist'')
        | Some p \<Rightarrow>
           and_then (task_locked_credit_balance tid db) (\<lambda>locked.
           and_then (task_budget_status_of t (Some locked) (Some (credit_balance (ca_account_id p) db)) db)
             (\<lambda>budget.
               if \<not> can_fund budget then Inr ((t, budget, False), db)
               else and_then (if bs_shortfall budget > 0 then
                      and_then (lock_task_credit_budget env uid tid (bs_shortfall budget) lock_reason
                        initiated_by None db) (\<lambda>(txn, db'). Inr db')
                    else Inr db) (\<lambda>db1.
                 and_then (publish_task env tid publisher db1) (\<lambda>(t', db2).
                   Inr ((t', budget, True), db2)))))))"

definition default_lock_reason :: string where
  "default_lock_reason = ''budget locked on publication''"

definition create_task_with_funding ::
    "env \<Rightarrow> (nat \<Rightarrow> string) \<Rightarrow> string \<Rightarrow> json \<Rightarrow> int option \<Rightarrow> task_fields \<Rightarrow> 'a task_db_scheme \<Rightarrow>
     ((task \<times> task_budget_status \<times> bool) \<times> 'a task_db_scheme) result" where
  "create_task_with_funding env draw uid publisher initiated_by f db =
    and_then (create_task_draft env draw f db) (\<lambda>(t, db1).
      fund_and_publish_task env uid (tk_task_id t) publisher initiated_by default_lock_reason db1)"

subsection \<open>Member workflow\<close>

definition claim_task ::
    "env \<Rightarrow> string \<Rightarrow> string \<Rightarrow> member \<Rightarrow> 'a task_db_scheme \<Rightarrow> (task \<times> 'a task_db_scheme) result" where
  "claim_task env world tid m db =
    and_then (task_row tid db) (\<lambda>t.
      if tk_status t \<noteq> Open then Inl (DomainError ''Only open tasks can be claimed.'')
      else if tk_assignee_member t \<noteq> None then Inl (DomainError ''Task already has an assignee.'')
      else (let t' = t\<lparr>tk_assignee_member := Some (m_id m), tk_status := Claimed\<rparr>
            in and_then (emit_task_event env ''task_claimed'' t' ''claim'' (actor_ref env world m)
                 (Some (m_id m)) [] (save_task t' db)) (\<lambda>db'. Inr (t', db'))))"

definition submit_labor ::
    "env \<Rightarrow> string \<Rightarrow> string \<Rightarrow> member \<Rightarrow> string \<Rightarrow> string list \<Rightarrow> 'a task_db_scheme \<Rightarrow>
     (task \<times> 'a task_db_scheme) result" where
  "submit_labor env world tid m labor_note evidence_refs db =
    and_then (task_row tid db) (\<lambda>t.
      if tk_assignee_member t \<noteq> Some (m_id m) then
        Inl (DomainError ''Only the assigned member can submit this task.'')
      else if tk_status t \<notin> {Claimed, InProgress} then
        Inl (DomainError ''Task must be claimed or in progress before submission.'')
      else (let extra = [(''labor_note'', JStr labor_note),
                (''evidence_refs'', JList (map JStr evidence_refs))];
              t' = t\<lparr>tk_status := PendingReview, tk_submitted_at := Some (now env),
                tk_metadata := dict_update (tk_metadata t) extra\<rparr>
            in and_then (emit_task_event env ''task_submitted'' t' ''submit_labor''
                 (actor_ref env world m) (Some (m_id m)) extra (save_task t' db))
                 (\<lambda>db'. Inr (t', db'))))"

subsection \<open>Review\<close>

text \<open>\<^verbatim>\<open>int(v)\<close> of a JSON value: digits may be grouped by single underscores.\<close>

fun underscores_ok :: "string \<Rightarrow> bool" where
  "underscores_ok [] = False"
| "underscores_ok [c] = is_digit c"
| "underscores_ok (c # d # s) = (is_digit c \<and> (if d = CHR ''_'' then underscores_ok s else underscores_ok (d # s)))"

definition parse_unsigned :: "string \<Rightarrow> int result" where
  "parse_unsigned s = (if underscores_ok s then Inr (int (read_nat (filter is_digit s)))
     else Inl (ValueError ''invalid literal for int()''))"

fun py_int :: "json \<Rightarrow> int result" where
  "py_int (JInt i) = Inr i"
| "py_int (JBool b) = Inr (if b then 1 else 0)"
| "py_int (JStr s) = (case py_strip s of
      c # cs \<Rightarrow> if c = CHR ''-'' then and_then (parse_unsigned cs) (\<lambda>n. Inr (- n))
                 else if c = CHR ''+'' then parse_unsigned cs else parse_unsigned (c # cs)
    | [] \<Rightarrow> Inl (ValueError ''invalid literal for int()''))"
| "py_int _ = Inl (TypeError ''int() argument'')"

definition insert_stream_event :: "stream_event \<Rightarrow> 'a task_db_scheme \<Rightarrow> 'a task_db_scheme result" where
  "insert_stream_event e db =
    (if ev_simulation_day e < 0 \<or> exists_row (\<lambda>x. ev_event_id x = ev_event_id e) (stream_events db)
     then Inl IntegrityError
     else Inr (db\<lparr>stream_events := stream_events db @ [e]\<rparr>))"

definition review_event_id :: "string \<Rightarrow> string" where "review_event_id tid = ''event-task-'' @ tid"
definition review_entry_id :: "string \<Rightarrow> string" where "review_entry_id tid = ''ledger-task-'' @ tid"

definition check_not_rewarded :: "string \<Rightarrow> 'a task_db_scheme \<Rightarrow> unit result" where
  "check_not_rewarded tid db =
    (if exists_row (\<lambda>e. ev_event_id e = review_event_id tid) (stream_events db) then
       Inl (DomainError ''Task review event already exists.'')
     else if exists_row (\<lambda>e. le_ledger_entry_id e = review_entry_id tid) (ledger_entries db) then
       Inl (DomainError ''Task review ledger entry already exists.'')
     else if exists_row (\<lambda>e. le_related_task e = Some tid \<and> le_entry_type e = Contribution \<and>
            le_status e = EntryPosted) (ledger_entries db) then
       Inl (DomainError ''Task already has a posted contribution ledger entry.'')
     else Inr ())"

definition review_amount :: "task \<Rightarrow> int" where
  "review_amount t = round_half_even_thousandths (tk_base_points t * tk_role_coefficient t)"

text \<open>What an accepted review with a reward writes after the task event.\<close>

definition settle_reward ::
    "env \<Rightarrow> string \<Rightarrow> task \<Rightarrow> member \<Rightarrow> json \<Rightarrow> int option \<Rightarrow> string \<Rightarrow> bool \<Rightarrow> 'a task_db_scheme \<Rightarrow>
     (ledger_entry \<times> 'a task_db_scheme) result" where
  "settle_reward env uid t m reviewer reviewer_member reason genesis db =
    (let amount = review_amount t; tid = tk_task_id t in
     and_then (py_int (case json_get ''simulation_day'' (tk_metadata t) of None \<Rightarrow> JInt 1 | Some v \<Rightarrow> v)) (\<lambda>day.
     and_then (insert_stream_event
        \<lparr>ev_event_id = review_event_id tid, ev_event_type = ''task'', ev_simulation_day = day,
         ev_severity = ''info'', ev_title = ''Task accepted'',
         ev_summary = ''Task '' @ tid @ '' was accepted by a reviewer.'',
         ev_involved_member_ids = [JStr (m_member_no m)], ev_related_task = Some tid, ev_occurred_at = now env,
         ev_generated_by = ''live_os'', ev_visibility = ''public'',
         ev_payload = JObj [(''points_awarded'', JInt amount), (''reason'', JStr reason)]\<rparr> db) (\<lambda>db1.
     and_then (create_ledger_entry env
        \<lparr>le_ledger_entry_id = review_entry_id tid, le_member = m_id m, le_amount = amount,
         le_entry_type = Contribution, le_reason = reason, le_related_task = Some tid,
         le_related_event_id = review_event_id tid, le_rule_version = tk_rule_version t,
         le_created_at = now env, le_created_by = reviewer, le_reviewer = or_empty_dict reviewer,
         le_status = EntryPosted, le_reverses_entry = None, le_system_event = None,
         le_metadata = JObj []\<rparr> m db1) (\<lambda>(entry, db2).
     and_then (ensure_system_accounts env db2) (\<lambda>db3.
     and_then (get_or_create_member_credit_account env m db3) (\<lambda>(a, db4).
     and_then (post_task_reward_credit_transaction env uid tid m amount (review_entry_id tid)
        (review_event_id tid) reviewer_member reason genesis db4) (\<lambda>(txn, db5).
       Inr (entry, db5))))))))"

definition reviewed_task :: "env \<Rightarrow> bool \<Rightarrow> string \<Rightarrow> task \<Rightarrow> task" where
  "reviewed_task env accepted reason t =
    t\<lparr>tk_status := (if accepted then Accepted else Rejected), tk_reviewed_at := Some (now env),
      tk_metadata := dict_update (tk_metadata t) [(''review_reason'', JStr reason)]\<rparr>"

definition review_task ::
    "env \<Rightarrow> string \<Rightarrow> string \<Rightarrow> json \<Rightarrow> bool \<Rightarrow> string \<Rightarrow> bool \<Rightarrow> 'a task_db_scheme \<Rightarrow>
     ((task \<times> ledger_entry list) \<times> 'a task_db_scheme) result" where
  "review_task env uid tid reviewer accepted reason allow_unbudgeted_genesis db =
    and_then (task_row tid db) (\<lambda>t.
      if tk_status t \<noteq> PendingReview then Inl (DomainError ''Only tasks pending review can be reviewed.'')
      else and_then (task_assignee t db) (\<lambda>assignee. case assignee of
          None \<Rightarrow> Inl (DomainError ''Cannot review a task without an assignee.'')
        | Some m \<Rightarrow>
           and_then (if accepted then check_not_rewarded tid db else Inr ()) (\<lambda>_.
             let t' = reviewed_task env accepted reason t;
                 reviewer_member = ref_member env db reviewer
             in and_then (emit_task_event env ''task_reviewed'' t' ''review'' reviewer reviewer_member
                  [(''accepted'', JBool accepted), (''reason'', JStr reason)] (save_task t' db)) (\<lambda>db1.
                if \<not> accepted \<or> review_amount t' = 0 then Inr ((t', []), db1)
                else and_then (settle_reward env uid t' m reviewer reviewer_member reason
                       allow_unbudgeted_genesis db1) (\<lambda>(entry, db2). Inr ((t', [entry]), db2))))))"

subsection \<open>Histories\<close>

datatype task_op =
    CreateDraft "nat \<Rightarrow> string" task_fields
  | Publish string json
  | Assign string member json
  | Close string json string
  | FundAndPublish string json "int option" string
  | CreateWithFunding "nat \<Rightarrow> string" json "int option" task_fields
  | Claim string string member
  | Submit string string member string "string list"
  | Review string json bool string bool
  | ReverseEntry string string json "string option" "time option"
  | TaskCredit credit_op

fun task_service :: "env \<Rightarrow> string \<Rightarrow> task_op \<Rightarrow> 'a task_db_scheme \<Rightarrow> (unit \<times> 'a task_db_scheme) result" where
  "task_service env uid (CreateDraft draw f) db =
     and_then (create_task_draft env draw f db) (\<lambda>(r, db'). Inr ((), db'))"
| "task_service env uid (Publish tid p) db =
     and_then (publish_task env tid p db) (\<lambda>(r, db'). Inr ((), db'))"
| "task_service env uid (Assign tid m op) db =
     and_then (assign_task env tid m op db) (\<lambda>(r, db'). Inr ((), db'))"
| "task_service env uid (Close tid op reason) db =
     and_then (close_task env tid op reason db) (\<lambda>(r, db'). Inr ((), db'))"
| "task_service env uid (FundAndPublish tid p i reason) db =
     and_then (fund_and_publish_task env uid tid p i reason db) (\<lambda>(r, db'). Inr ((), db'))"
| "task_service env uid (CreateWithFunding draw p i f) db =
     and_then (create_task_with_funding env draw uid p i f db) (\<lambda>(r, db'). Inr ((), db'))"
| "task_service env uid (Claim world tid m) db =
     and_then (claim_task env world tid m db) (\<lambda>(r, db'). Inr ((), db'))"
| "task_service env uid (Submit world tid m note refs) db =
     and_then (submit_labor env world tid m note refs db) (\<lambda>(r, db'). Inr ((), db'))"
| "task_service env uid (Review tid reviewer accepted reason genesis) db =
     and_then (review_task env uid tid reviewer accepted reason genesis db) (\<lambda>(r, db'). Inr ((), db'))"
| "task_service env uid (ReverseEntry eid reason by new at) db =
     and_then (reverse_ledger_entry env eid reason by new at db) (\<lambda>(r, db'). Inr ((), db'))"
| "task_service env uid (TaskCredit call) db =
     and_then (credit_service env uid call db) (\<lambda>(r, db'). Inr ((), db'))"

fun task_step :: "env \<Rightarrow> time \<times> string \<times> task_op \<Rightarrow> 'a task_db_scheme \<Rightarrow> (unit \<times> 'a task_db_scheme) result" where
  "task_step env (at, uid, call) db = task_service (env\<lparr>now := at\<rparr>) uid call db"

subsection \<open>What each service writes\<close>

lemma emit_task_event_ok:
  assumes "emit_task_event env ty t action actor am extra db = Inr db'"
  shows "\<exists>e. db' = db\<lparr>system_events := system_events db @ [e]\<rparr>" "audited env db db'"
  using assms by (auto simp: emit_task_event_def dest: append_event_db audited_append)

inductive task_status_step :: "task_status \<Rightarrow> task_status \<Rightarrow> bool" where
  publish: "task_status_step Draft Open"
| claim: "task_status_step Open Claimed"
| submit: "s \<in> {Claimed, InProgress} \<Longrightarrow> task_status_step s PendingReview"
| accept: "task_status_step PendingReview Accepted"
| reject: "task_status_step PendingReview Rejected"
| close: "s \<in> {Draft, Open} \<Longrightarrow> task_status_step s Closed"

inductive_simps task_status_step_simps [simp]:
  "task_status_step Accepted s" "task_status_step Rejected s" "task_status_step Closed s"
  "task_status_step Disputed s" "task_status_step Reversed s"

declare task_status_step.intros [intro, simp]

text \<open>A status change of one task together with its event; what the reward depends on stays.\<close>

definition saved_with_event :: "env \<Rightarrow> task \<Rightarrow> 'a task_db_scheme \<Rightarrow> 'a task_db_scheme \<Rightarrow> bool" where
  "saved_with_event env t db db' \<longleftrightarrow>
    (\<exists>e. db' = (save_task t db)\<lparr>system_events := system_events db @ [e]\<rparr>) \<and> audited env db db'"

definition task_moved :: "env \<Rightarrow> string \<Rightarrow> task \<Rightarrow> task \<Rightarrow> 'a task_db_scheme \<Rightarrow> 'a task_db_scheme \<Rightarrow> bool" where
  "task_moved env tid t t' db db' \<longleftrightarrow>
    task_row tid db = Inr t \<and> tk_task_id t' = tk_task_id t \<and> tk_title t' = tk_title t \<and>
    tk_base_points t' = tk_base_points t \<and> tk_role_coefficient t' = tk_role_coefficient t \<and>
    task_status_step (tk_status t) (tk_status t') \<and>
    (tk_assignee_member t' = None \<longleftrightarrow> tk_status t' \<in> {Open, Closed}) \<and>
    (tk_assignee_member t = None \<longleftrightarrow> tk_status t \<in> {Draft, Open}) \<and>
    saved_with_event env t' db db'"

lemma task_row_ok: "task_row tid db = Inr t \<Longrightarrow> t \<in> set (tasks db) \<and> tk_task_id t = tid"
  by (auto simp: task_row_def split: option.splits dest!: find_row_Some_iff)

lemma emit_saved:
  assumes "emit_task_event env ty t' action actor am extra (save_task t' db) = Inr db'"
  shows "saved_with_event env t' db db'"
proof -
  have "system_events db = system_events (save_task t' db)" by (simp add: save_task_def)
  then show ?thesis
    using emit_task_event_ok [OF assms] audited_cong_left [of db "save_task t' db" env db']
    by (simp add: saved_with_event_def)
qed

lemma publish_moved:
  assumes "publish_task env tid p db = Inr (r, db')"
  obtains t where "task_moved env tid t r db db'" "tk_status t = Draft" "tk_status r = Open"
    "tk_base_points t \<le> 0 \<or> (\<exists>n. task_locked_credit_balance tid db = Inr n \<and> task_expected_reward t \<le> n)"
  using assms
  by (auto simp: publish_task_def task_moved_def Let_def not_less dest!: emit_saved split: if_splits)

lemma assign_moved:
  assumes "assign_task env tid m op db = Inr (r, db')"
  obtains t where "task_moved env tid t r db db'" "tk_status t = Open" "tk_status r = Claimed"
    "tk_assignee_member r = Some (m_id m)"
  using assms
  by (auto simp: assign_task_def task_moved_def Let_def dest!: emit_saved split: if_splits)

lemma claim_moved:
  assumes "claim_task env world tid m db = Inr (r, db')"
  obtains t where "task_moved env tid t r db db'" "tk_status t = Open" "tk_status r = Claimed"
    "tk_assignee_member r = Some (m_id m)"
  using assms
  by (auto simp: claim_task_def task_moved_def Let_def dest!: emit_saved split: if_splits)

lemma close_moved:
  assumes "close_task env tid op reason db = Inr (r, db')"
  obtains t where "task_moved env tid t r db db'" "tk_status r = Closed"
  using assms
  by (auto simp: close_task_def task_moved_def Let_def dest!: emit_saved split: if_splits)

lemma submit_moved:
  assumes "submit_labor env world tid m note refs db = Inr (r, db')"
  obtains t where "task_moved env tid t r db db'" "tk_status t \<in> {Claimed, InProgress}"
    "tk_status r = PendingReview" "tk_assignee_member t = Some (m_id m)"
  using assms
  by (auto simp: submit_labor_def task_moved_def Let_def dest!: emit_saved split: if_splits)

lemma create_draft_ok:
  assumes "create_task_draft env draw f db = Inr (r, db')"
  obtains e where "tk_status r = Draft" "tk_assignee_member r = None" "nonblank (tk_title r)"
    "0 \<le> tk_base_points r" "0 < tk_role_coefficient r"
    "\<forall>x \<in> set (tasks db). tk_task_id x \<noteq> tk_task_id r"
    "db' = db\<lparr>tasks := tasks db @ [r], system_events := system_events db @ [e]\<rparr>" "audited env db db'"
proof -
  from assms obtain ty where ty: "parse_task_type (tf_task_type f) = Some ty"
    by (auto simp: create_task_draft_def Let_def split: if_splits option.splits)
  with assms obtain am where r: "tk_status r = Draft" "tk_assignee_member r = None" "nonblank (tk_title r)"
      "0 \<le> tk_base_points r" "0 < tk_role_coefficient r"
    and i: "generate_task_id draw db = Inr (tk_task_id r)"
    and em: "emit_task_event env ''task_created'' r ''create'' (tf_created_by f) am [] (db\<lparr>tasks := tasks db @ [r]\<rparr>) = Inr db'"
    by (auto simp: create_task_draft_def Let_def nonblank_def not_le not_less split: if_splits)
  obtain e where e: "db' = db\<lparr>tasks := tasks db @ [r], system_events := system_events db @ [e]\<rparr>"
    using emit_task_event_ok(1) [OF em] by auto
  have "audited env db db'"
    using emit_task_event_ok(2) [OF em] audited_cong_left [of db "db\<lparr>tasks := tasks db @ [r]\<rparr>" env db'] by simp
  with r e show thesis using first_free_id_free [OF i [unfolded generate_task_id_def]] by (intro that [of e]) auto
qed

lemma create_entry_ok:
  assumes "create_ledger_entry env e m db = Inr (r, db')"
  obtains ev where "r = e\<lparr>le_system_event := Some (se_seq ev)\<rparr>"
    "\<forall>x \<in> set (ledger_entries db). le_ledger_entry_id x \<noteq> le_ledger_entry_id e"
    "db' = db\<lparr>system_events := system_events db @ [ev], ledger_entries := ledger_entries db @ [r]\<rparr>"
    "audited env db db'"
proof -
  let ?db1 = "db\<lparr>ledger_entries := ledger_entries db @ [e]\<rparr>"
  from assms obtain ac ev db2 where
    fresh: "\<forall>x \<in> set (ledger_entries db). le_ledger_entry_id x \<noteq> le_ledger_entry_id e"
    and app: "append_event env (ledger_entry_event_type e) ''LedgerEntry'' (le_ledger_entry_id e)
        ac None (ledger_entry_payload env e m) (Some (le_created_at e)) ?db1 = Inr (ev, db2)"
    and r: "r = e\<lparr>le_system_event := Some (se_seq ev)\<rparr>"
    and db': "db' = db2\<lparr>ledger_entries := update_rows (\<lambda>x. le_ledger_entry_id x = le_ledger_entry_id e)
          (\<lambda>x. x\<lparr>le_system_event := Some (se_seq ev)\<rparr>) (ledger_entries db2)\<rparr>"
    by (auto simp: create_ledger_entry_def insert_ledger_entry_def split: if_splits)
  have "update_rows (\<lambda>x. le_ledger_entry_id x = le_ledger_entry_id e)
      (\<lambda>x. x\<lparr>le_system_event := Some (se_seq ev)\<rparr>) (ledger_entries db) = ledger_entries db"
    unfolding update_rows_def by (rule map_idI) (use fresh in auto)
  then have db2: "db' = db\<lparr>system_events := system_events db @ [ev], ledger_entries := ledger_entries db @ [r]\<rparr>"
    using append_event_db [OF app] db' r by simp
  have "audited env db db2"
    using audited_append [OF app] audited_cong_left [of db ?db1 env db2] by simp
  then have "audited env db db'" using audited_cong_right [of db' db2 env db] db' by simp
  with r fresh db2 show thesis by (intro that)
qed

lemma save_task_simps [simp]:
  "system_events (save_task t db) = system_events db"
  "credit_accounts (save_task t db) = credit_accounts db"
  "credit_transactions (save_task t db) = credit_transactions db"
  "members (save_task t db) = members db"
  "ledger_entries (save_task t db) = ledger_entries db"
  "stream_events (save_task t db) = stream_events db"
  "tasks (save_task t db) = update_rows (\<lambda>x. tk_task_id x = tk_task_id t) (\<lambda>_. t) (tasks db)"
  by (simp_all add: save_task_def)

text \<open>Two states with the same credit tables agree on everything the credit ledger says.\<close>

definition same_credit :: "'a credit_db_scheme \<Rightarrow> 'b credit_db_scheme \<Rightarrow> bool" where
  "same_credit db db' \<longleftrightarrow> credit_accounts db' = credit_accounts db \<and>
     credit_transactions db' = credit_transactions db"

lemma same_creditD:
  assumes "same_credit db db'"
  shows "credit_wf db' = credit_wf db" "ledger_views db' = ledger_views db" "pool ty db' = pool ty db"
    "credit_balance a db' = credit_balance a db" "task_budget l k db' = task_budget l k db"
    "task_locked_credit_balance k db' = task_locked_credit_balance k db"
    "member_credit_balance m db' = member_credit_balance m db"
  using assms
  by (simp_all cong: option.case_cong add: same_credit_def credit_wf_def account_ids_def ledger_views_def pool_def credit_balance_def
      task_budget_def task_locked_credit_balance_def member_credit_balance_def member_account_row_def)

lemma moved_frame:
  assumes "task_moved env tid t t' db db'"
  shows "same_credit db db'" "ledger_entries db' = ledger_entries db" "stream_events db' = stream_events db"
    "members db' = members db" "audited env db db'"
    "tasks db' = update_rows (\<lambda>x. tk_task_id x = tid) (\<lambda>_. t') (tasks db)"
    "t \<in> set (tasks db)" "tk_task_id t = tid" "tk_task_id t' = tid"
  using assms task_row_ok [of tid db t]
  by (auto simp: task_moved_def saved_with_event_def same_credit_def)

subsection \<open>Tasks only move forward\<close>

definition tasks_wf :: "'a task_db_scheme \<Rightarrow> bool" where
  "tasks_wf db \<longleftrightarrow> credit_wf db \<and> distinct (map tk_task_id (tasks db)) \<and>
    distinct (map le_ledger_entry_id (ledger_entries db)) \<and>
    (\<forall>t \<in> set (tasks db). 0 \<le> tk_base_points t \<and> 0 < tk_role_coefficient t \<and> nonblank (tk_title t) \<and>
       (tk_assignee_member t = None \<longleftrightarrow> tk_status t \<in> {Draft, Open, Closed}))"

definition tasks_progress :: "'a task_db_scheme \<Rightarrow> 'a task_db_scheme \<Rightarrow> bool" where
  "tasks_progress db db' \<longleftrightarrow> (\<forall>t \<in> set (tasks db). \<exists>t' \<in> set (tasks db').
     tk_task_id t' = tk_task_id t \<and> tk_title t' = tk_title t \<and> tk_base_points t' = tk_base_points t \<and>
     tk_role_coefficient t' = tk_role_coefficient t \<and> task_status_step\<^sup>*\<^sup>* (tk_status t) (tk_status t'))"

definition task_safe :: "env \<Rightarrow> 'a task_db_scheme \<Rightarrow> 'a task_db_scheme \<Rightarrow> bool" where
  "task_safe env db db' \<longleftrightarrow> audited env db db' \<and> tasks_progress db db' \<and>
     prefix (ledger_entries db) (ledger_entries db')"

lemma tasks_progress_sub: "set (tasks db) \<subseteq> set (tasks db') \<Longrightarrow> tasks_progress db db'"
  by (force simp: tasks_progress_def)

lemma tasks_progress_trans:
  assumes "tasks_progress a b" "tasks_progress b c" shows "tasks_progress a c"
  unfolding tasks_progress_def
proof
  fix t assume "t \<in> set (tasks a)"
  with assms(1) obtain u where u: "u \<in> set (tasks b)" "tk_task_id u = tk_task_id t" "tk_title u = tk_title t"
    "tk_base_points u = tk_base_points t" "tk_role_coefficient u = tk_role_coefficient t"
    "task_status_step\<^sup>*\<^sup>* (tk_status t) (tk_status u)" unfolding tasks_progress_def by blast
  from assms(2) u(1) obtain v where v: "v \<in> set (tasks c)" "tk_task_id v = tk_task_id u" "tk_title v = tk_title u"
    "tk_base_points v = tk_base_points u" "tk_role_coefficient v = tk_role_coefficient u"
    "task_status_step\<^sup>*\<^sup>* (tk_status u) (tk_status v)" unfolding tasks_progress_def by blast
  show "\<exists>t' \<in> set (tasks c). tk_task_id t' = tk_task_id t \<and> tk_title t' = tk_title t \<and>
     tk_base_points t' = tk_base_points t \<and> tk_role_coefficient t' = tk_role_coefficient t \<and>
     task_status_step\<^sup>*\<^sup>* (tk_status t) (tk_status t')"
    using u v by (intro bexI [of _ v]) (auto intro: rtranclp_trans)
qed

lemma task_safe_trans: "task_safe env a b \<Longrightarrow> task_safe env b c \<Longrightarrow> task_safe env a c"
  using tasks_progress_trans [of a b c] audited_trans [of env a b c]
  by (auto simp: task_safe_def intro: prefix_order.order_trans)

lemma task_safe_refl [simp]: "task_safe env db db"
  by (simp add: task_safe_def tasks_progress_sub)

lemma update_task_rows:
  assumes "distinct (map tk_task_id ts)" "t \<in> set ts" "tk_task_id t = tid" "tk_task_id t' = tid"
  shows "map tk_task_id (update_rows (\<lambda>x. tk_task_id x = tid) (\<lambda>_. t') ts) = map tk_task_id ts"
    "set (update_rows (\<lambda>x. tk_task_id x = tid) (\<lambda>_. t') ts) = insert t' (set ts - {t})"
  using update_unique_row(1) [OF assms] update_unique_row(2) [OF assms, of tk_task_id] assms(3,4) by simp_all

lemma moved_safe:
  assumes wf: "tasks_wf db" and m: "task_moved env tid t t' db db'"
  shows "tasks_wf db' \<and> task_safe env db db'"
proof -
  note fr = moved_frame [OF m]
  have d: "distinct (map tk_task_id (tasks db))" using wf by (simp add: tasks_wf_def)
  note up = update_task_rows [OF d fr(7,8,9)]
  have props: "tk_title t' = tk_title t" "tk_base_points t' = tk_base_points t"
      "tk_role_coefficient t' = tk_role_coefficient t" "task_status_step (tk_status t) (tk_status t')"
      "tk_assignee_member t' = None \<longleftrightarrow> tk_status t' \<in> {Open, Closed}"
    using m by (auto simp: task_moved_def)
  have nd: "tk_status t' \<noteq> Draft" using props(4) by (auto elim: task_status_step.cases)
  have "tasks_wf db'"
    unfolding tasks_wf_def fr(2,6) up same_creditD(1) [OF fr(1)]
    using wf fr(7) props nd by (auto simp: tasks_wf_def)
  moreover have "tasks_progress db db'"
    unfolding tasks_progress_def fr(6) up(2)
  proof
    fix x assume x: "x \<in> set (tasks db)"
    show "\<exists>y \<in> insert t' (set (tasks db) - {t}). tk_task_id y = tk_task_id x \<and> tk_title y = tk_title x \<and>
        tk_base_points y = tk_base_points x \<and> tk_role_coefficient y = tk_role_coefficient x \<and>
        task_status_step\<^sup>*\<^sup>* (tk_status x) (tk_status y)"
      using x props fr(8,9) by (cases "x = t") auto
  qed
  ultimately show ?thesis using fr by (simp add: task_safe_def)
qed

lemma created_safe:
  assumes wf: "tasks_wf db" and c: "create_task_draft env draw f db = Inr (r, db')"
  shows "tasks_wf db' \<and> task_safe env db db'"
  using c
proof (cases rule: create_draft_ok)
  case (1 e)
  have sc: "same_credit db db'" using 1(7) by (simp add: same_credit_def)
  have "tasks_wf db'"
    using wf 1(1-7) same_creditD(1) [OF sc] by (auto simp: tasks_wf_def)
  then show ?thesis using 1(7,8) by (auto simp: task_safe_def intro: tasks_progress_sub)
qed

lemma entry_safe:
  assumes wf: "tasks_wf db" and c: "create_ledger_entry env e m db = Inr (r, db')"
  shows "tasks_wf db' \<and> task_safe env db db'"
  using c
proof (cases rule: create_entry_ok)
  case (1 ev)
  have "same_credit db db'" using 1(3) by (simp add: same_credit_def)
  from same_creditD(1) [OF this] show ?thesis using wf 1
    by (auto simp: tasks_wf_def task_safe_def intro: tasks_progress_sub)
qed

lemma credit_frame_tasks:
  assumes "credit_frame db db'"
  shows "tasks db' = tasks db" "ledger_entries db' = ledger_entries db" "members db' = members db"
    "stream_events db' = stream_events db"
  using assms by (auto simp: credit_frame_def)

lemma credit_change_safe:
  assumes wf: "tasks_wf db" and f: "credit_frame db db'" "audited env db db'" "credit_wf db \<Longrightarrow> credit_wf db'"
  shows "tasks_wf db' \<and> task_safe env db db'"
  using wf f(2,3) credit_frame_tasks [OF f(1)]
  by (auto simp: tasks_wf_def task_safe_def intro: tasks_progress_sub)

lemma call_safe: "tasks_wf db \<Longrightarrow> credit_call env db t db' \<Longrightarrow> tasks_wf db' \<and> task_safe env db db'"
  by (rule credit_change_safe) (auto simp: credit_call_def)

lemma grow_safe: "tasks_wf db \<Longrightarrow> accounts_grow db db' \<Longrightarrow> tasks_wf db' \<and> task_safe env db db'"
  by (rule credit_change_safe) (auto intro: credit_frame_accounts accounts_growD audited_same)

lemma fund_cases [consumes 1, case_names Short Lock Enough]:
  assumes "fund_and_publish_task env uid tid p i reason db = Inr (r, db')"
  obtains t locked budget pl where "task_row tid db = Inr t" "tk_status t = Draft" "pool ISSUANCE_POOL db = Inr pl"
      "task_locked_credit_balance tid db = Inr locked"
      "task_budget_status_of t (Some locked) (Some (credit_balance (ca_account_id pl) db)) db = Inr budget"
      "\<not> can_fund budget" "r = (t, budget, False)" "db' = db"
    | t locked budget pl txn db1 t' where "task_row tid db = Inr t" "tk_status t = Draft" "pool ISSUANCE_POOL db = Inr pl"
      "task_locked_credit_balance tid db = Inr locked"
      "task_budget_status_of t (Some locked) (Some (credit_balance (ca_account_id pl) db)) db = Inr budget"
      "can_fund budget" "bs_shortfall budget > 0"
      "lock_task_credit_budget env uid tid (bs_shortfall budget) reason i None db = Inr (txn, db1)"
      "publish_task env tid p db1 = Inr (t', db')" "r = (t', budget, True)"
    | t locked budget pl t' where "task_row tid db = Inr t" "tk_status t = Draft" "pool ISSUANCE_POOL db = Inr pl"
      "task_locked_credit_balance tid db = Inr locked"
      "task_budget_status_of t (Some locked) (Some (credit_balance (ca_account_id pl) db)) db = Inr budget"
      "can_fund budget" "bs_shortfall budget \<le> 0" "publish_task env tid p db = Inr (t', db')" "r = (t', budget, True)"
proof -
  from assms obtain t pl locked budget where g: "task_row tid db = Inr t" "tk_status t = Draft"
    "find_row (\<lambda>a. ca_account_type a = ISSUANCE_POOL) (credit_accounts db) = Some pl"
    "task_locked_credit_balance tid db = Inr locked"
    "task_budget_status_of t (Some locked) (Some (credit_balance (ca_account_id pl) db)) db = Inr budget"
    "tk_assignee_member t = None"
    by (auto simp: fund_and_publish_task_def split: if_splits option.splits)
  have pl: "pool ISSUANCE_POOL db = Inr pl" using g(3) by (simp add: pool_def)
  consider "\<not> can_fund budget" | "can_fund budget" "bs_shortfall budget > 0"
    | "can_fund budget" "bs_shortfall budget \<le> 0" by linarith
  then show thesis
  proof cases
    case 1
    with assms g have "r = (t, budget, False)" "db' = db" by (auto simp: fund_and_publish_task_def)
    with that(1) g pl 1 show thesis by blast
  next
    case 2
    with assms g obtain txn db1 t' where
      "lock_task_credit_budget env uid tid (bs_shortfall budget) reason i None db = Inr (txn, db1)"
      "publish_task env tid p db1 = Inr (t', db')" "r = (t', budget, True)"
      by (auto simp: fund_and_publish_task_def)
    with that(2) g pl 2 show thesis by blast
  next
    case 3
    with assms g obtain t' where "publish_task env tid p db = Inr (t', db')" "r = (t', budget, True)"
      by (auto simp: fund_and_publish_task_def)
    with that(3) g pl 3 show thesis by blast
  qed
qed

lemma publish_safe:
  assumes "tasks_wf db" "publish_task env tid p db = Inr (r, db')"
  shows "tasks_wf db' \<and> task_safe env db db'"
  using assms(2) by (cases rule: publish_moved) (use assms(1) moved_safe in blast)

lemma fund_safe:
  assumes wf: "tasks_wf db" and c: "fund_and_publish_task env uid tid p i reason db = Inr (r, db')"
  shows "tasks_wf db' \<and> task_safe env db db'"
  using c
proof (cases rule: fund_cases)
  case (Lock t locked budget pl txn db1 t')
  have "tasks_wf db1 \<and> task_safe env db db1"
    using Lock(8) by (cases rule: lock_cases) (rule call_safe [OF wf])
  then show ?thesis using publish_safe [OF _ Lock(9)] task_safe_trans by blast
next
  case (Enough t locked budget pl t')
  then show ?thesis using publish_safe [OF wf Enough(8)] by simp
qed (use wf in simp)

lemma task_assignee_ok:
  "task_assignee t db = Inr (Some m) \<Longrightarrow> tk_assignee_member t = Some (m_id m) \<and> m \<in> set (members db)"
  by (auto simp: task_assignee_def split: option.splits dest!: find_row_Some_iff)

lemma review_cases [consumes 1, case_names Review]:
  assumes "review_task env uid tid reviewer accepted reason genesis db = Inr ((t', es), db')"
  obtains t m db1 where "task_moved env tid t t' db db1" "tk_status t = PendingReview"
    "tk_status t' = (if accepted then Accepted else Rejected)" "tk_assignee_member t' = tk_assignee_member t"
    "task_assignee t db = Inr (Some m)" "accepted \<longrightarrow> check_not_rewarded tid db = Inr ()"
    "(\<not> accepted \<or> review_amount t' = 0) \<and> es = [] \<and> db' = db1 \<or>
     accepted \<and> review_amount t' \<noteq> 0 \<and> (\<exists>entry. es = [entry] \<and>
       settle_reward env uid t' m reviewer (ref_member env db reviewer) reason genesis db1 = Inr (entry, db'))"
proof -
  from assms obtain t m where t: "task_row tid db = Inr t" "tk_status t = PendingReview"
      "task_assignee t db = Inr (Some m)" "accepted \<longrightarrow> check_not_rewarded tid db = Inr ()"
    by (auto simp: review_task_def split: option.splits if_splits)
  have am: "tk_assignee_member t \<noteq> None" using task_assignee_ok [OF t(3)] by simp
  let ?t = "reviewed_task env accepted reason t"
  have chk: "(if accepted then check_not_rewarded tid db else Inr ()) = Inr ()" using t(4) by simp
  have "and_then (emit_task_event env ''task_reviewed'' ?t ''review'' reviewer (ref_member env db reviewer)
      [(''accepted'', JBool accepted), (''reason'', JStr reason)] (save_task ?t db)) (\<lambda>db1.
      if \<not> accepted \<or> review_amount ?t = 0 then Inr ((?t, []), db1)
      else and_then (settle_reward env uid ?t m reviewer (ref_member env db reviewer) reason genesis db1)
         (\<lambda>(entry, db2). Inr ((?t, [entry]), db2))) = Inr ((t', es), db')"
    using assms t(1-3) chk
    by (simp add: review_task_def Let_def del: if_Inl_eq_Inr and_then_Inr_conv)
  from this [unfolded and_then_Inr_conv]
  obtain db1 where
    em: "emit_task_event env ''task_reviewed'' ?t ''review'' reviewer (ref_member env db reviewer)
      [(''accepted'', JBool accepted), (''reason'', JStr reason)] (save_task ?t db) = Inr db1"
    and rs: "(if \<not> accepted \<or> review_amount ?t = 0 then Inr ((?t, []), db1)
       else and_then (settle_reward env uid ?t m reviewer (ref_member env db reviewer) reason genesis db1)
         (\<lambda>(entry, db2). Inr ((?t, [entry]), db2))) = Inr ((t', es), db')"
    by blast
  have t': "t' = ?t" using rs by (auto split: if_splits)
  have rest: "(\<not> accepted \<or> review_amount ?t = 0) \<and> es = [] \<and> db' = db1 \<or>
     accepted \<and> review_amount ?t \<noteq> 0 \<and> (\<exists>entry. es = [entry] \<and>
       settle_reward env uid ?t m reviewer (ref_member env db reviewer) reason genesis db1 = Inr (entry, db'))"
    using rs by (auto split: if_splits)
  have "task_moved env tid t t' db db1"
    using t am emit_saved [OF em] t' by (auto simp: task_moved_def reviewed_task_def)
  moreover have "tk_status t' = (if accepted then Accepted else Rejected)" "tk_assignee_member t' = tk_assignee_member t"
    using t' by (simp_all add: reviewed_task_def)
  ultimately show thesis using t rest t' by (intro that) auto
qed

definition reward_entry :: "env \<Rightarrow> task \<Rightarrow> member \<Rightarrow> json \<Rightarrow> string \<Rightarrow> ledger_entry" where
  "reward_entry env t m reviewer reason =
    \<lparr>le_ledger_entry_id = review_entry_id (tk_task_id t), le_member = m_id m, le_amount = review_amount t,
     le_entry_type = Contribution, le_reason = reason, le_related_task = Some (tk_task_id t),
     le_related_event_id = review_event_id (tk_task_id t), le_rule_version = tk_rule_version t,
     le_created_at = now env, le_created_by = reviewer, le_reviewer = or_empty_dict reviewer,
     le_status = EntryPosted, le_reverses_entry = None, le_system_event = None, le_metadata = JObj []\<rparr>"

lemma settle_cases [consumes 1, case_names Settle]:
  assumes "settle_reward env uid t m reviewer rm reason genesis db = Inr (entry, db')"
  obtains ev sev db2 db4 txn where "entry = (reward_entry env t m reviewer reason)\<lparr>le_system_event := Some (se_seq ev)\<rparr>"
    "\<forall>x \<in> set (ledger_entries db). le_ledger_entry_id x \<noteq> review_entry_id (tk_task_id t)"
    "db2 = db\<lparr>stream_events := stream_events db @ [sev], system_events := system_events db @ [ev],
       ledger_entries := ledger_entries db @ [entry]\<rparr>"
    "audited env db db2" "accounts_grow db2 db4"
    "post_task_reward_credit_transaction env uid (tk_task_id t) m (review_amount t) (review_entry_id (tk_task_id t))
       (review_event_id (tk_task_id t)) rm reason genesis db4 = Inr (txn, db')"
proof -
  from assms obtain sev db2 db3 a db4 txn where
    e: "create_ledger_entry env (reward_entry env t m reviewer reason) m
      (db\<lparr>stream_events := stream_events db @ [sev]\<rparr>) = Inr (entry, db2)"
    and g: "ensure_system_accounts env db2 = Inr db3" "get_or_create_member_credit_account env m db3 = Inr (a, db4)"
    and r: "post_task_reward_credit_transaction env uid (tk_task_id t) m (review_amount t) (review_entry_id (tk_task_id t))
       (review_event_id (tk_task_id t)) rm reason genesis db4 = Inr (txn, db')"
    by (auto simp: settle_reward_def Let_def insert_stream_event_def reward_entry_def split: if_splits)
  have grow: "accounts_grow db2 db4"
    using ensure_accounts_grow [OF g(1) [unfolded ensure_system_accounts_def]] member_account_grow(1) [OF g(2)]
    by (rule accounts_grow_trans)
  from e show thesis
  proof (cases rule: create_entry_ok)
    case (1 ev)
    have "audited env db db2"
      using 1(4) audited_cong_left [of db "db\<lparr>stream_events := stream_events db @ [sev]\<rparr>" env db2] by simp
    moreover have "le_ledger_entry_id (reward_entry env t m reviewer reason) = review_entry_id (tk_task_id t)"
      by (simp add: reward_entry_def)
    ultimately show thesis using 1 grow r by (intro that [of ev db2 sev db4 txn]) auto
  qed
qed

lemma settle_safe:
  assumes wf: "tasks_wf db" and s: "settle_reward env uid t m reviewer rm reason genesis db = Inr (entry, db')"
  shows "tasks_wf db' \<and> task_safe env db db'"
  using s
proof (cases rule: settle_cases)
  case (Settle ev sev db2 db4 txn)
  have sc: "same_credit db db2" using Settle(3) by (simp add: same_credit_def)
  have "le_ledger_entry_id entry = review_entry_id (tk_task_id t)" using Settle(1) by (simp add: reward_entry_def)
  then have "tasks_wf db2 \<and> task_safe env db db2"
    using wf Settle(2,3,4) same_creditD(1) [OF sc]
    by (auto simp: tasks_wf_def task_safe_def intro: tasks_progress_sub)
  moreover have "tasks_wf db4 \<and> task_safe env db2 db4" using grow_safe [OF _ Settle(5)] calculation by blast
  moreover from Settle(6) have "tasks_wf db' \<and> task_safe env db4 db'"
    by (cases rule: task_reward_cases) (use calculation call_safe in blast)
  ultimately show ?thesis using task_safe_trans by blast
qed

lemma review_safe:
  assumes wf: "tasks_wf db" and c: "review_task env uid tid reviewer accepted reason genesis db = Inr (r, db')"
  shows "tasks_wf db' \<and> task_safe env db db'"
proof -
  obtain t' es where r: "r = (t', es)" by (cases r)
  from c [unfolded r] show ?thesis
  proof (cases rule: review_cases)
    case (Review t m db1)
    note one = moved_safe [OF wf Review(1)]
    from Review(7) show ?thesis
    proof
      assume "accepted \<and> review_amount t' \<noteq> 0 \<and> (\<exists>entry. es = [entry] \<and>
        settle_reward env uid t' m reviewer (ref_member env db reviewer) reason genesis db1 = Inr (entry, db'))"
      then show ?thesis using one settle_safe task_safe_trans by blast
    qed (use one in simp)
  qed
qed

lemma reverse_entry_safe:
  assumes wf: "tasks_wf db" and c: "reverse_ledger_entry env eid reason created_by nid at db = Inr (r, db')"
  shows "tasks_wf db' \<and> task_safe env db db'"
  using c entry_safe [OF wf] by (auto simp: reverse_ledger_entry_def split: option.splits if_splits)

lemma task_service_safe:
  assumes wf: "tasks_wf db" and s: "task_service env uid call db = Inr (r, db')"
  shows "tasks_wf db' \<and> task_safe env db db'"
proof (cases call)
  case (CreateWithFunding draw p i f)
  with s obtain t db1 r' where "create_task_draft env draw f db = Inr (t, db1)"
    "fund_and_publish_task env uid (tk_task_id t) p i default_lock_reason db1 = Inr (r', db')"
    by (auto simp: create_task_with_funding_def)
  then show ?thesis using created_safe [OF wf] fund_safe task_safe_trans by blast
next
  case (TaskCredit x)
  with s obtain r' where c: "credit_service env uid x db = Inr (r', db')" by auto
  have cw: "credit_wf db" using wf by (simp add: tasks_wf_def)
  from c cw show ?thesis
    by (cases rule: credit_service_cases) (use wf call_safe grow_safe in blast)+
qed (use s wf in \<open>auto elim!: publish_moved assign_moved close_moved claim_moved submit_moved
      dest: moved_safe created_safe fund_safe review_safe reverse_entry_safe\<close>)

interpretation task_history: guarded_service "task_step env" tasks_wf "task_safe env" for env
proof unfold_locales
  fix db db' db'' :: "'a task_db_scheme" and x r
  show "tasks_wf db'" if "tasks_wf db" "task_step env x db = Inr (r, db')"
    using that by (cases x) (auto dest: task_service_safe)
  show "task_safe env db db'" if "tasks_wf db" "task_step env x db = Inr (r, db')"
    using that task_service_safe [of db "env\<lparr>now := fst x\<rparr>"] by (cases x) (auto simp: task_safe_def)
  show "task_safe env db db''" if "task_safe env db db'" "task_safe env db' db''"
    using that by (rule task_safe_trans)
qed simp

subsection \<open>Contributions are earned once\<close>

text \<open>Every contribution entry is the one reward of an accepted task, of the task's amount.\<close>

definition contributions_earned :: "'a task_db_scheme \<Rightarrow> bool" where
  "contributions_earned db \<longleftrightarrow> (\<forall>e \<in> set (ledger_entries db). le_entry_type e = Contribution \<longrightarrow>
     (\<exists>t \<in> set (tasks db). le_related_task e = Some (tk_task_id t) \<and>
        le_ledger_entry_id e = review_entry_id (tk_task_id t) \<and> tk_status t = Accepted \<and>
        tk_assignee_member t = Some (le_member e) \<and> le_amount e = review_amount t))"

definition contributions_inv :: "'a task_db_scheme \<Rightarrow> bool" where
  "contributions_inv db \<longleftrightarrow> tasks_wf db \<and> contributions_earned db"

text \<open>At most one contribution entry names a given task.\<close>

lemma contribution_unique:
  assumes inv: "contributions_inv db" and e: "e \<in> set (ledger_entries db)" "e' \<in> set (ledger_entries db)"
    and c: "le_entry_type e = Contribution" "le_entry_type e' = Contribution" "le_related_task e = le_related_task e'"
  shows "e = e'"
proof -
  have "le_ledger_entry_id e = le_ledger_entry_id e'"
    using inv e c unfolding contributions_inv_def contributions_earned_def by (metis option.inject)
  then show ?thesis using inv e distinct_map_unique
    unfolding contributions_inv_def tasks_wf_def by metis
qed

lemma contributions_same:
  assumes "contributions_earned db" "tasks db' = tasks db" "ledger_entries db' = ledger_entries db"
  shows "contributions_earned db'"
  using assms by (simp add: contributions_earned_def)

lemma contributions_moved:
  assumes inv: "contributions_inv db" and m: "task_moved env tid t t' db db'"
  shows "contributions_inv db'"
proof -
  have wf: "tasks_wf db" using inv by (simp add: contributions_inv_def)
  note fr = moved_frame [OF m]
  have d: "distinct (map tk_task_id (tasks db))" using wf by (simp add: tasks_wf_def)
  have "tk_status t \<noteq> Accepted" using m by (auto simp: task_moved_def)
  then have "x \<in> set (tasks db')" if "x \<in> set (tasks db)" "tk_status x = Accepted" for x
    using that unfolding fr(6) update_task_rows(2) [OF d fr(7,8,9)] by auto
  then have "contributions_earned db'"
    using inv unfolding contributions_inv_def contributions_earned_def fr(2) by metis
  then show ?thesis using moved_safe [OF wf m] by (simp add: contributions_inv_def)
qed

lemma contributions_created:
  assumes inv: "contributions_inv db" and c: "create_task_draft env draw f db = Inr (r, db')"
  shows "contributions_inv db'"
  using c
proof (cases rule: create_draft_ok)
  case (1 e)
  have "contributions_earned db'" using inv 1(7) by (auto simp: contributions_inv_def contributions_earned_def)
  then show ?thesis using created_safe [OF _ c] inv by (simp add: contributions_inv_def)
qed

lemma contributions_credit:
  "contributions_inv db \<Longrightarrow> credit_frame db db' \<Longrightarrow> tasks_wf db' \<Longrightarrow> contributions_inv db'"
  using credit_frame_tasks [of db db'] contributions_same [of db db'] by (simp add: contributions_inv_def)

lemma contributions_call:
  "contributions_inv db \<Longrightarrow> credit_call env db t db' \<Longrightarrow> contributions_inv db'"
  using call_safe [of db env t db'] contributions_credit [of db db']
  by (simp add: contributions_inv_def credit_call_def)

lemma contributions_publish:
  assumes "contributions_inv db" "publish_task env tid p db = Inr (r, db')" shows "contributions_inv db'"
  using assms(2) by (cases rule: publish_moved) (rule contributions_moved [OF assms(1)])

lemma contributions_fund:
  assumes inv: "contributions_inv db" and c: "fund_and_publish_task env uid tid p i reason db = Inr (r, db')"
  shows "contributions_inv db'"
  using c
proof (cases rule: fund_cases)
  case (Lock t locked budget pl txn db1 t')
  have "contributions_inv db1"
    using Lock(8) by (cases rule: lock_cases) (rule contributions_call [OF inv])
  then show ?thesis using contributions_publish [OF _ Lock(9)] by blast
qed (use inv contributions_publish in auto)

lemma contributions_settle:
  assumes inv: "contributions_inv db" and t: "t \<in> set (tasks db)" "tk_status t = Accepted"
      "tk_assignee_member t = Some (m_id m)"
    and s: "settle_reward env uid t m reviewer rm reason genesis db = Inr (entry, db')"
  shows "contributions_inv db'"
  using s
proof (cases rule: settle_cases)
  case (Settle ev sev db2 db4 txn)
  have e: "le_related_task entry = Some (tk_task_id t)" "le_ledger_entry_id entry = review_entry_id (tk_task_id t)"
    "le_amount entry = review_amount t" "le_member entry = m_id m"
    using Settle(1) by (simp_all add: reward_entry_def)
  have "contributions_earned db2"
    using inv t e Settle(3) by (auto simp: contributions_inv_def contributions_earned_def)
  moreover have "tasks db' = tasks db2" "ledger_entries db' = ledger_entries db2"
  proof -
    have "credit_frame db4 db'" using Settle(6) by (cases rule: task_reward_cases) (simp add: credit_call_def)
    then have "credit_frame db2 db'" using credit_frame_accounts [OF Settle(5)] credit_frame_trans by blast
    then show "tasks db' = tasks db2" "ledger_entries db' = ledger_entries db2" by (simp_all add: credit_frame_tasks)
  qed
  ultimately have "contributions_earned db'" by (rule contributions_same)
  then show ?thesis using settle_safe [OF _ s] inv by (simp add: contributions_inv_def)
qed

lemma contributions_review:
  assumes inv: "contributions_inv db" and c: "review_task env uid tid reviewer accepted reason genesis db = Inr (r, db')"
  shows "contributions_inv db'"
proof -
  obtain t' es where r: "r = (t', es)" by (cases r)
  from c [unfolded r] show ?thesis
  proof (cases rule: review_cases)
    case (Review t m db1)
    note one = contributions_moved [OF inv Review(1)] and fr = moved_frame [OF Review(1)]
    have "distinct (map tk_task_id (tasks db))" using inv by (simp add: contributions_inv_def tasks_wf_def)
    then have "t' \<in> set (tasks db1)" unfolding fr(6) using update_task_rows(2) [OF _ fr(7,8,9)] by blast
    then show ?thesis
      using Review one task_assignee_ok [OF Review(5)] contributions_settle [OF one, of t' m] by auto
  qed
qed

lemma contributions_reverse:
  assumes inv: "contributions_inv db" and c: "reverse_ledger_entry env eid reason created_by nid at db = Inr (r, db')"
  shows "contributions_inv db'"
proof -
  from c obtain orig rid m where
    "create_ledger_entry env (reversal_entry env orig rid reason created_by at) m db = Inr (r, db')"
    by (auto simp: reverse_ledger_entry_def split: option.splits if_splits)
  then obtain e where e: "create_ledger_entry env e m db = Inr (r, db')" "le_entry_type e = EntryReversal"
    using that by (simp add: reversal_entry_def)
  from e(1) have "contributions_earned db'"
    by (cases rule: create_entry_ok) (use inv e(2) in \<open>auto simp: contributions_inv_def contributions_earned_def\<close>)
  then show ?thesis using inv reverse_entry_safe [OF _ c] by (simp add: contributions_inv_def)
qed

interpretation contributions: state_service "task_step env" contributions_inv for env
proof
  fix db db' :: "'a task_db_scheme" and x r
  assume inv: "contributions_inv db" and s: "task_step env x db = Inr (r, db')"
  obtain at uid call where x: "x = (at, uid, call)" by (cases x)
  let ?env = "env\<lparr>now := at\<rparr>"
  from s x have sv: "task_service ?env uid call db = Inr (r, db')" by simp
  show "contributions_inv db'"
  proof (cases call)
    case (CreateWithFunding draw p i f)
    with sv obtain t db1 r' where "create_task_draft ?env draw f db = Inr (t, db1)"
      "fund_and_publish_task ?env uid (tk_task_id t) p i default_lock_reason db1 = Inr (r', db')"
      by (auto simp: create_task_with_funding_def)
    then show ?thesis using contributions_created [OF inv] contributions_fund by blast
  next
    case (TaskCredit c)
    with sv obtain r' where c: "credit_service ?env uid c db = Inr (r', db')" by auto
    have "credit_wf db" using inv by (simp add: contributions_inv_def tasks_wf_def)
    with c have "credit_frame db db'"
      by (cases rule: credit_service_cases) (auto simp: credit_call_def intro: credit_frame_accounts)
    then show ?thesis using inv task_service_safe [OF _ sv] contributions_credit
      by (auto simp: contributions_inv_def)
  qed (use sv inv in \<open>auto elim!: publish_moved assign_moved close_moved claim_moved submit_moved
      dest: contributions_moved contributions_created contributions_fund contributions_review contributions_reverse\<close>)
qed

subsection \<open>Published tasks stay funded\<close>

definition active_status :: "task_status \<Rightarrow> bool" where
  "active_status s \<longleftrightarrow> s \<in> {Open, Claimed, InProgress, PendingReview}"

text \<open>Every published, unfinished task has its whole reward locked for it.\<close>

definition published_funded :: "'a task_db_scheme \<Rightarrow> bool" where
  "published_funded db \<longleftrightarrow> (\<forall>t \<in> set (tasks db). active_status (tk_status t) \<and> 0 < tk_base_points t \<longrightarrow>
     (\<exists>n. task_locked_credit_balance (tk_task_id t) db = Inr n \<and> task_expected_reward t \<le> n))"

definition funded_inv :: "'a task_db_scheme \<Rightarrow> bool" where
  "funded_inv db \<longleftrightarrow> tasks_wf db \<and> published_funded db"

text \<open>Credit calls of an operator that take nothing out of a task's budget by hand.\<close>

fun leaves_budgets :: "task_op \<Rightarrow> bool" where
  "leaves_budgets (TaskCredit (UnlockBudget task n rs i k)) = False"
| "leaves_budgets (TaskCredit (RewardTask task m n entry ev rb rs g)) = False"
| "leaves_budgets (TaskCredit (ReverseTransaction oid rs i k)) = False"
| "leaves_budgets _ = True"

lemma funded_moved:
  assumes inv: "funded_inv db" and m: "task_moved env tid t t' db db'"
    and new: "active_status (tk_status t') \<Longrightarrow> active_status (tk_status t) \<or> tk_base_points t' \<le> 0 \<or>
      (\<exists>n. task_locked_credit_balance tid db = Inr n \<and> task_expected_reward t' \<le> n)"
  shows "funded_inv db'"
proof -
  have wf: "tasks_wf db" using inv by (simp add: funded_inv_def)
  note fr = moved_frame [OF m]
  have d: "distinct (map tk_task_id (tasks db))" using wf by (simp add: tasks_wf_def)
  have same: "task_expected_reward t' = task_expected_reward t" "tk_base_points t' = tk_base_points t"
    using m by (simp_all add: task_moved_def task_expected_reward_def)
  have "published_funded db'"
    unfolding published_funded_def fr(6) update_task_rows(2) [OF d fr(7,8,9)] same_creditD(6) [OF fr(1)]
    using inv new fr(7,8,9) same by (auto simp: funded_inv_def published_funded_def)
  then show ?thesis using moved_safe [OF wf m] by (simp add: funded_inv_def)
qed

lemma locked_balance_mono:
  assumes n: "task_locked_credit_balance k db = Inr n" and frame: "credit_frame db db'"
    and views: "ledger_views db' = ledger_views db \<or>
      ledger_views db' = ledger_views db @ [ledger_view x] \<and> (\<forall>l. 0 \<le> task_delta l k x)"
  shows "\<exists>n'. task_locked_credit_balance k db' = Inr n' \<and> n \<le> n'"
proof -
  from n obtain l where l: "pool TASK_LOCKED db = Inr l" "n = task_budget (ca_account_id l) k db"
    by (auto simp: task_locked_balance_budget)
  have "n \<le> task_budget (ca_account_id l) k db'" using views l(2) by (auto simp: task_budget_def)
  then show ?thesis using pool_frame [OF frame l(1)] by (auto simp: task_locked_balance_budget)
qed

lemma funded_credit:
  assumes inv: "funded_inv db" and frame: "credit_frame db db'" and wf: "tasks_wf db'"
    and views: "ledger_views db' = ledger_views db \<or>
      ledger_views db' = ledger_views db @ [ledger_view x] \<and>
      (\<forall>l. \<forall>t \<in> set (tasks db). active_status (tk_status t) \<longrightarrow> 0 \<le> task_delta l (tk_task_id t) x)"
  shows "funded_inv db'"
proof -
  have "\<exists>n. task_locked_credit_balance (tk_task_id t) db' = Inr n \<and> task_expected_reward t \<le> n"
    if t: "t \<in> set (tasks db)" "active_status (tk_status t)" "0 < tk_base_points t" for t
  proof -
    from inv t obtain n where n: "task_locked_credit_balance (tk_task_id t) db = Inr n" "task_expected_reward t \<le> n"
      by (auto simp: funded_inv_def published_funded_def)
    have "ledger_views db' = ledger_views db \<or>
      ledger_views db' = ledger_views db @ [ledger_view x] \<and> (\<forall>l. 0 \<le> task_delta l (tk_task_id t) x)"
      using views t by blast
    from locked_balance_mono [OF n(1) frame this] n(2) show ?thesis by (meson order_trans)
  qed
  then show ?thesis using wf credit_frame_tasks(1) [OF frame] by (simp add: funded_inv_def published_funded_def)
qed

lemma inflow_delta:
  "ct_type x \<notin> {TASK_REWARD, UNLOCK} \<Longrightarrow> 0 \<le> ct_amount x \<Longrightarrow> 0 \<le> task_delta l k x"
  by (auto simp: task_delta_def task_locked_out_def)

lemma call_amount: "credit_call env db x db' \<Longrightarrow> credit_wf db \<Longrightarrow> 0 \<le> ct_amount x"
proof -
  assume call: "credit_call env db x db'" and wf: "credit_wf db"
  then have "credit_wf db'" "x \<in> set (credit_transactions db')" by (simp_all add: credit_call_def)
  then have "txn_ok (set (account_ids db')) x" by (simp only: credit_wf_def)
  then show "0 \<le> ct_amount x" by (simp add: txn_ok_def)
qed

lemma funded_inflow:
  assumes inv: "funded_inv db" and call: "credit_call env db x db'" and ty: "ct_type x \<notin> {TASK_REWARD, UNLOCK}"
  shows "funded_inv db'"
proof -
  have wf: "tasks_wf db" "credit_wf db" using inv by (auto simp: funded_inv_def tasks_wf_def)
  show ?thesis
    by (rule funded_credit [OF inv, where x = x])
      (use call call_safe [OF wf(1) call] inflow_delta [OF ty call_amount [OF call wf(2)]] in
        \<open>auto simp: credit_call_def\<close>)
qed

lemma funded_publish:
  assumes inv: "funded_inv db" and p: "publish_task env tid p db = Inr (r, db')"
  shows "funded_inv db'"
  using p
proof (cases rule: publish_moved)
  case (1 t)
  have "tk_base_points r = tk_base_points t" "task_expected_reward r = task_expected_reward t"
    using 1(1) by (simp_all add: task_moved_def task_expected_reward_def)
  then show ?thesis using 1 by (intro funded_moved [OF inv 1(1)]) auto
qed

lemma funded_created:
  assumes inv: "funded_inv db" and c: "create_task_draft env draw f db = Inr (r, db')"
  shows "funded_inv db'"
  using c
proof (cases rule: create_draft_ok)
  case (1 e)
  have "same_credit db db'" using 1(7) by (simp add: same_credit_def)
  then have "published_funded db'"
    using inv 1(1,7) same_creditD(6) [of db db'] by (auto simp: funded_inv_def published_funded_def active_status_def)
  then show ?thesis using created_safe [OF _ c] inv by (simp add: funded_inv_def)
qed

lemma funded_fund:
  assumes inv: "funded_inv db" and c: "fund_and_publish_task env uid tid p i reason db = Inr (r, db')"
  shows "funded_inv db'"
  using c
proof (cases rule: fund_cases)
  case (Lock t locked budget pl txn db1 t')
  have "funded_inv db1"
    using Lock(8) by (cases rule: lock_cases) (rule funded_inflow [OF inv], auto)
  then show ?thesis using funded_publish [OF _ Lock(9)] by blast
qed (use inv funded_publish in auto)

lemma funded_same:
  assumes "funded_inv db" "same_credit db db'" "tasks db' = tasks db" "tasks_wf db'"
  shows "funded_inv db'"
  using assms same_creditD(6) [OF assms(2)] by (simp add: funded_inv_def published_funded_def)

text \<open>Paying one task leaves the budget of every other task as it was.\<close>

lemma funded_settle:
  assumes inv: "funded_inv db" and t: "t \<in> set (tasks db)" "\<not> active_status (tk_status t)"
    and s: "settle_reward env uid t m reviewer rm reason genesis db = Inr (entry, db')"
  shows "funded_inv db'"
  using s
proof (cases rule: settle_cases)
  case (Settle ev sev db2 db4 txn)
  have wf: "tasks_wf db" using inv by (simp add: funded_inv_def)
  have sc: "same_credit db db2" "tasks db2 = tasks db" using Settle(3) by (simp_all add: same_credit_def)
  have "le_ledger_entry_id entry = review_entry_id (tk_task_id t)" using Settle(1) by (simp add: reward_entry_def)
  then have wf2: "tasks_wf db2"
    using wf Settle(2,3) same_creditD(1) [OF sc(1)] by (auto simp: tasks_wf_def)
  have f2: "funded_inv db2" by (rule funded_same [OF inv sc wf2])
  have wf4: "tasks_wf db4" using grow_safe [OF wf2 Settle(5)] by blast
  have f4: "funded_inv db4"
    by (rule funded_credit [OF f2 credit_frame_accounts [OF Settle(5)] wf4])
      (simp add: ledger_views_def accounts_growD(1) [OF Settle(5)])
  have tasks4: "tasks db4 = tasks db" using sc(2) credit_frame_tasks(1) [OF credit_frame_accounts [OF Settle(5)]] by simp
  from Settle(6) show ?thesis
  proof (cases rule: task_reward_cases)
    case (1 ma db5 src)
    have "0 \<le> task_delta l (tk_task_id y) txn"
      if y: "y \<in> set (tasks db4)" "active_status (tk_status y)" for l y
    proof -
      have "tk_task_id y \<noteq> tk_task_id t"
        using y t tasks4 wf distinct_map_unique unfolding tasks_wf_def by metis
      then show ?thesis using 1(3,7) by (simp add: task_delta_def task_locked_in_def task_locked_out_def)
    qed
    then show ?thesis
      using 1(8) call_safe [OF wf4 1(8)] by (intro funded_credit [OF f4, where x = txn]) (auto simp: credit_call_def)
  qed
qed

lemma funded_review:
  assumes inv: "funded_inv db" and c: "review_task env uid tid reviewer accepted reason genesis db = Inr (r, db')"
  shows "funded_inv db'"
proof -
  obtain t' es where r: "r = (t', es)" by (cases r)
  from c [unfolded r] show ?thesis
  proof (cases rule: review_cases)
    case (Review t m db1)
    have st: "\<not> active_status (tk_status t')" using Review(3) by (simp add: active_status_def)
    have one: "funded_inv db1" by (rule funded_moved [OF inv Review(1)]) (use st in simp)
    note fr = moved_frame [OF Review(1)]
    have "distinct (map tk_task_id (tasks db))" using inv by (simp add: funded_inv_def tasks_wf_def)
    then have "t' \<in> set (tasks db1)" unfolding fr(6) using update_task_rows(2) [OF _ fr(7,8,9)] by blast
    then show ?thesis using Review(7) one funded_settle [OF one] st by auto
  qed
qed

lemma funded_call_credit:
  assumes inv: "funded_inv db" and c: "credit_service env uid call db = Inr (r, db')"
    and ok: "leaves_budgets (TaskCredit call)"
  shows "funded_inv db'"
proof -
  have wf: "tasks_wf db" "credit_wf db" using inv by (auto simp: funded_inv_def tasks_wf_def)
  show ?thesis
  proof (cases "call = EnsureSystemAccounts")
    case True
    then have g: "accounts_grow db db'" using credit_service_cases [OF c wf(2)] by blast
    show ?thesis
      by (rule funded_credit [OF inv credit_frame_accounts [OF g], where x = undefined])
        (use grow_safe [OF wf(1) g] accounts_growD(1) [OF g] in \<open>auto simp: ledger_views_def\<close>)
  next
    case False
    then obtain t where t: "r = Some t" "credit_call env db t db'" using credit_service_cases [OF c wf(2)] by blast
    have "ct_type t \<notin> {TASK_REWARD, UNLOCK}"
      using c ok t(1)
      by (cases call) (auto elim: lock_cases transfer_cases passive_deduct_cases
          simp: issue_credits_to_pool_def dest!: post_rows(10))
    then show ?thesis by (rule funded_inflow [OF inv t(2)])
  qed
qed

lemma funded_reverse:
  assumes inv: "funded_inv db" and c: "reverse_ledger_entry env eid reason created_by nid at db = Inr (r, db')"
  shows "funded_inv db'"
proof -
  from c obtain e m where "create_ledger_entry env e m db = Inr (r, db')"
    by (auto simp: reverse_ledger_entry_def split: option.splits if_splits)
  then have "same_credit db db' \<and> tasks db' = tasks db"
    by (cases rule: create_entry_ok) (simp add: same_credit_def)
  then show ?thesis
    using funded_same [OF inv] reverse_entry_safe [OF _ c] inv by (auto simp: funded_inv_def)
qed

text \<open>The services as the application calls them: budgets leave the locked account only through reviews.\<close>

fun funded_step :: "env \<Rightarrow> time \<times> string \<times> task_op \<Rightarrow> 'a task_db_scheme \<Rightarrow> (unit \<times> 'a task_db_scheme) result" where
  "funded_step env (at, uid, call) db =
    (if leaves_budgets call then task_step env (at, uid, call) db else Inr ((), db))"

lemma funded_service:
  assumes inv: "funded_inv db" and s: "task_service env uid call db = Inr (r, db')" and ok: "leaves_budgets call"
  shows "funded_inv db'"
proof (cases call)
  case (CreateWithFunding draw p i f)
  with s obtain t db1 r' where "create_task_draft env draw f db = Inr (t, db1)"
    "fund_and_publish_task env uid (tk_task_id t) p i default_lock_reason db1 = Inr (r', db')"
    by (auto simp: create_task_with_funding_def)
  then show ?thesis using funded_created [OF inv] funded_fund by blast
next
  case (Claim world tid m)
  with s obtain r' where "claim_task env world tid m db = Inr (r', db')" by auto
  then show ?thesis by (rule claim_moved) (rule funded_moved [OF inv], auto simp: active_status_def)
next
  case (Assign tid m op)
  with s obtain r' where "assign_task env tid m op db = Inr (r', db')" by auto
  then show ?thesis by (rule assign_moved) (rule funded_moved [OF inv], auto simp: active_status_def)
next
  case (Submit world tid m txt' refs)
  with s obtain r' where "submit_labor env world tid m txt' refs db = Inr (r', db')" by auto
  then show ?thesis by (rule submit_moved) (rule funded_moved [OF inv], auto simp: active_status_def)
next
  case (Close tid op reason)
  with s obtain r' where "close_task env tid op reason db = Inr (r', db')" by auto
  then show ?thesis by (rule close_moved) (rule funded_moved [OF inv], auto simp: active_status_def)
next
  case (TaskCredit x)
  with s ok show ?thesis using funded_call_credit [OF inv] by auto
qed (use s inv in \<open>auto dest: funded_publish funded_created funded_fund funded_review funded_reverse\<close>)

interpretation funded: state_service "funded_step env" funded_inv for env
proof
  fix db db' :: "'a task_db_scheme" and x r
  show "funded_inv db'" if "funded_inv db" "funded_step env x db = Inr (r, db')"
    using that by (cases x) (auto split: if_splits dest: funded_service)
qed

lemma run_funded:
  "list_all (\<lambda>(at, uid, call). leaves_budgets call) reqs \<Longrightarrow>
   run_ops (task_step env) reqs db = run_ops (funded_step env) reqs db"
  by (induction reqs arbitrary: db) (auto split: sum.splits)

definition empty_task_db :: task_db where
  "empty_task_db = \<lparr>system_events = [], credit_accounts = [], credit_transactions = [], members = [],
     tasks = [], ledger_entries = [], stream_events = []\<rparr>"

lemma empty_task_db_ok [simp]:
  "tasks_wf empty_task_db" "contributions_inv empty_task_db" "funded_inv empty_task_db" "chain_ok env empty_task_db"
  by (simp_all add: empty_task_db_def tasks_wf_def credit_wf_def account_ids_def idem_keys_def
      contributions_inv_def contributions_earned_def funded_inv_def published_funded_def)

subsection \<open>Properties of the task workflow\<close>




definition example_fields :: task_fields where
  "example_fields = \<lparr>tf_title = ''cook'', tf_task_type = ''cooking'', tf_standard_minutes = 60,
     tf_base_points = 10, tf_role_coefficient = 1500, tf_failure_consequence = ''low'', tf_can_be_delayed = True,
     tf_requires_review = True, tf_rule_version = ''v1'', tf_created_by = JObj [], tf_due_at = None,
     tf_source_type = ''manual''\<rparr>"


definition example_entry :: ledger_entry where
  "example_entry = \<lparr>le_ledger_entry_id = ''L1'', le_member = 1, le_amount = 5, le_entry_type = Contribution,
     le_reason = ''cooked'', le_related_task = None, le_related_event_id = [], le_rule_version = ''v1'',
     le_created_at = 0, le_created_by = JObj [], le_reviewer = JObj [], le_status = EntryPosted,
     le_reverses_entry = None, le_system_event = None, le_metadata = JObj []\<rparr>"

text \<open>Reversing a ledger entry without naming the new entry raises a \<^verbatim>\<open>NameError\<close>, for every stored
  entry of a known member.\<close>

theorem reverse_without_id_fails:
  assumes "find_row (\<lambda>x. le_ledger_entry_id x = eid) (ledger_entries db) = Some entry"
    and "find_row (\<lambda>m. m_id m = le_member entry) (members db) = Some m"
  shows "reverse_ledger_entry env eid reason by' None at db = Inl (NameError ''uuid4'')"
  using assms by (simp add: reverse_ledger_entry_def)

theorem reverse_without_id_fails_witness:
  "reverse_ledger_entry plain_env ''L1'' ''mistake'' (JObj []) None None
     (empty_task_db\<lparr>members := [example_member 1 ''M1''],
        ledger_entries := [example_entry]\<rparr>) = Inl (NameError ''uuid4'')"
  using reverse_without_id_fails [where eid = "''L1''" and entry = example_entry and m = "example_member 1 ''M1''"
      and db = "empty_task_db\<lparr>members := [example_member 1 ''M1''], ledger_entries := [example_entry]\<rparr>"]
  by (simp add: example_entry_def)

end
