(* ===== verification/Resource_Ledger.thy ===== *)
theory Resource_Ledger
  imports Task_Workflow
begin

text \<open>
  Resource stock and its append-only movements: \<^verbatim>\<open>core/resource_services.py\<close>, the models
  \<^verbatim>\<open>Resource\<close> and \<^verbatim>\<open>ResourceTransaction\<close> (\<^verbatim>\<open>core/models/operations.py\<close>), their identifiers
  (\<^verbatim>\<open>core/id_generators.py\<close>) and the payload of an adjustment (\<^verbatim>\<open>core/event_payloads.py\<close>).

  Quantities are integers in 1/1000 of the unit, the scale of the columns, printed with three
  decimals as the database returns them. Labels of choices are given in English.
\<close>

subsection \<open>Rows\<close>

datatype resource_type =
    Facility | Room | ResourceSystem | Material | Equipment | Grain | Vegetables | Water | Electricity
  | Cash | Medicine | Tools | CleaningSupplies | Beds | WarehouseCapacity

fun resource_type_value :: "resource_type \<Rightarrow> string" where
  "resource_type_value Facility = ''facility''"
| "resource_type_value Room = ''room''"
| "resource_type_value ResourceSystem = ''system''"
| "resource_type_value Material = ''material''"
| "resource_type_value Equipment = ''equipment''"
| "resource_type_value Grain = ''grain''"
| "resource_type_value Vegetables = ''vegetables''"
| "resource_type_value Water = ''water''"
| "resource_type_value Electricity = ''electricity''"
| "resource_type_value Cash = ''cash''"
| "resource_type_value Medicine = ''medicine''"
| "resource_type_value Tools = ''tools''"
| "resource_type_value CleaningSupplies = ''cleaning_supplies''"
| "resource_type_value Beds = ''beds''"
| "resource_type_value WarehouseCapacity = ''warehouse_capacity''"

datatype resource_unit = Kg | Bag | Liter | Kwh | Yuan | Count | Slot | CubicMeter

fun resource_unit_value :: "resource_unit \<Rightarrow> string" where
  "resource_unit_value Kg = ''kg''"
| "resource_unit_value Bag = ''bag''"
| "resource_unit_value Liter = ''liter''"
| "resource_unit_value Kwh = ''kwh''"
| "resource_unit_value Yuan = ''yuan''"
| "resource_unit_value Count = ''count''"
| "resource_unit_value Slot = ''slot''"
| "resource_unit_value CubicMeter = ''cubic_meter''"

datatype replenishment_method = ByPurchase | ByDonation | ByProduction | ByReuse | ManualAdjustment

fun replenishment_method_value :: "replenishment_method \<Rightarrow> string" where
  "replenishment_method_value ByPurchase = ''purchase''"
| "replenishment_method_value ByDonation = ''donation''"
| "replenishment_method_value ByProduction = ''production''"
| "replenishment_method_value ByReuse = ''reuse''"
| "replenishment_method_value ManualAdjustment = ''manual_adjustment''"

definition parse_replenishment_method :: "string \<Rightarrow> replenishment_method option" where
  "parse_replenishment_method s = find_row (\<lambda>x. replenishment_method_value x = s)
     [ByPurchase, ByDonation, ByProduction, ByReuse, ManualAdjustment]"

datatype resource_status = ResourceActive | ResourceInactive | ResourceMaintenance | ResourceRetired

record resource =
  rs_resource_id :: string
  rs_name :: string
  rs_resource_type :: resource_type
  rs_location :: string
  rs_description :: string
  rs_status :: resource_status
  rs_unit :: resource_unit
  rs_current_stock :: int
  rs_daily_consumption_estimate :: int
  rs_replenishment_method :: replenishment_method
  rs_loss_rate :: int
  rs_warning_threshold :: int
  rs_shortage_impact :: json
  rs_updated_at :: time
  rs_rule_version :: string
  rs_accepts_offers :: bool
  rs_metadata :: json

datatype stock_movement_type =
  Inbound | Outbound | StocktakeAdjustment | Loss | Scrap | StockTransfer | StockManualAdjustment

record resource_transaction =
  rt_transaction_id :: string
  rt_resource :: string
  rt_transaction_type :: stock_movement_type
  rt_quantity_delta :: int
  rt_stock_before :: int
  rt_stock_after :: int
  rt_reason :: string
  rt_operator :: json
  rt_related_task :: "string option"
  rt_related_supplier_quote :: "string option"
  rt_system_event :: "nat option"
  rt_occurred_at :: time
  rt_created_at :: time
  rt_metadata :: json

record resource_db = task_db +
  resources :: "resource list"
  resource_transactions :: "resource_transaction list"

subsection \<open>Text of a quantity\<close>

definition three_digits :: "nat \<Rightarrow> string" where
  "three_digits n = [digit_char (n div 100 mod 10), digit_char (n div 10 mod 10), digit_char (n mod 10)]"

definition show_milli :: "int \<Rightarrow> string" where
  "show_milli n = (if n < 0 then ''-'' else []) @ show_nat (nat \<bar>n\<bar> div 1000) @ ''.'' @
     three_digits (nat \<bar>n\<bar> mod 1000)"

subsection \<open>Adjustments\<close>

definition generate_resource_event_id :: "(nat \<Rightarrow> string) \<Rightarrow> 'a resource_db_scheme \<Rightarrow> string result" where
  "generate_resource_event_id draw db =
    first_free_id 5 ''event-resource'' (\<lambda>i. exists_row (\<lambda>e. ev_event_id e = i) (stream_events db)) draw"

definition generate_resource_transaction_id :: "(nat \<Rightarrow> string) \<Rightarrow> 'a resource_db_scheme \<Rightarrow> string result" where
  "generate_resource_transaction_id draw db =
    first_free_id 5 ''res-tx'' (\<lambda>i. exists_row (\<lambda>t. rt_transaction_id t = i) (resource_transactions db)) draw"

definition transaction_type_for_delta :: "int \<Rightarrow> stock_movement_type" where
  "transaction_type_for_delta delta =
    (if delta > 0 then Inbound else if delta < 0 then Outbound else StockManualAdjustment)"

definition resource_adjustment_payload ::
    "resource \<Rightarrow> json \<Rightarrow> int \<Rightarrow> int \<Rightarrow> string \<Rightarrow> bool \<Rightarrow> string \<Rightarrow> json" where
  "resource_adjustment_payload r actor old_stock delta reason warning transaction_id =
    (let name = (if rs_name r \<noteq> [] then rs_name r else rs_resource_id r) in
     public_event_payload ''resource'' (public_ref [''resource'', rs_resource_id r]) name
       ''adjusted'' ''adjusted''
       (''resource '' @ name @ '' adjusted by '' @ show_milli delta @ '' '' @ resource_unit_value (rs_unit r))
       [(''name'', JStr name), (''resource_type'', JStr (resource_type_value (rs_resource_type r))),
        (''unit'', JStr (resource_unit_value (rs_unit r))), (''delta'', JStr (show_milli delta)),
        (''is_warning'', JBool warning), (''transaction_id'', JStr transaction_id)]
       [private_commitment ''old_stock'' True ''exact stock'',
        private_commitment ''new_stock'' True ''exact stock'',
        private_commitment ''warning_threshold'' True ''warning threshold'',
        private_commitment ''reason_raw'' (reason \<noteq> []) ''the reason of the adjustment is not public'',
        private_commitment ''actor'' (json_truthy actor) ''the operator is private''])"

definition resource_row :: "string \<Rightarrow> 'a resource_db_scheme \<Rightarrow> resource result" where
  "resource_row rid db = (case find_row (\<lambda>r. rs_resource_id r = rid) (resources db) of
     None \<Rightarrow> Inl (DoesNotExist ''Resource'') | Some r \<Rightarrow> Inr r)"

definition save_resource :: "resource \<Rightarrow> 'a resource_db_scheme \<Rightarrow> 'a resource_db_scheme" where
  "save_resource r db =
    db\<lparr>resources := update_rows (\<lambda>x. rs_resource_id x = rs_resource_id r) (\<lambda>_. r) (resources db)\<rparr>"

text \<open>The row after the adjustment, with the last adjustment noted in its metadata.\<close>

definition adjusted_resource ::
    "env \<Rightarrow> resource \<Rightarrow> int \<Rightarrow> json \<Rightarrow> string \<Rightarrow> replenishment_method \<Rightarrow> resource" where
  "adjusted_resource env r delta operator reason ty =
    r\<lparr>rs_current_stock := rs_current_stock r + delta, rs_replenishment_method := ty,
      rs_updated_at := now env,
      rs_metadata := json_set ''last_adjustment''
        (JObj [(''source'', JStr ''control_resource_adjustment''), (''operator'', operator),
           (''reason'', JStr reason), (''delta'', JStr (show_milli delta)),
           (''old_stock'', JStr (show_milli (rs_current_stock r))),
           (''new_stock'', JStr (show_milli (rs_current_stock r + delta))),
           (''recorded_at'', JStr (isoformat (now env)))]) (rs_metadata r)\<rparr>"

definition stock_movement ::
    "env \<Rightarrow> string \<Rightarrow> resource \<Rightarrow> int \<Rightarrow> json \<Rightarrow> string \<Rightarrow> replenishment_method \<Rightarrow> resource_transaction" where
  "stock_movement env txid r delta operator reason ty =
    \<lparr>rt_transaction_id = txid, rt_resource = rs_resource_id r,
     rt_transaction_type = transaction_type_for_delta delta, rt_quantity_delta = delta,
     rt_stock_before = rs_current_stock r, rt_stock_after = rs_current_stock r + delta,
     rt_reason = reason, rt_operator = operator, rt_related_task = None,
     rt_related_supplier_quote = None, rt_system_event = None, rt_occurred_at = now env,
     rt_created_at = now env,
     rt_metadata = JObj [(''source'', JStr ''control_resource_adjustment''),
       (''replenishment_method'', JStr (replenishment_method_value ty))]\<rparr>"

definition stock_stream_event ::
    "env \<Rightarrow> string \<Rightarrow> resource \<Rightarrow> int \<Rightarrow> json \<Rightarrow> string \<Rightarrow> replenishment_method \<Rightarrow> int \<Rightarrow> stream_event" where
  "stock_stream_event env eid r delta operator reason ty day =
    (let old_stock = rs_current_stock r; new_stock = old_stock + delta;
         warning = (new_stock \<le> rs_warning_threshold r);
         label = resource_type_value (rs_resource_type r); unit_label = resource_unit_value (rs_unit r)
     in \<lparr>ev_event_id = eid, ev_event_type = ''resource'', ev_simulation_day = day,
         ev_severity = (if warning then ''warning'' else ''info''),
         ev_title = label @ '' stock adjusted'',
         ev_summary = label @ '' stock adjusted from '' @ show_milli old_stock @ '' '' @ unit_label @
           '' to '' @ show_milli new_stock @ '' '' @ unit_label @ ''. '' @ reason,
         ev_involved_member_ids = (case json_get ''actor_id'' operator of None \<Rightarrow> []
            | Some v \<Rightarrow> if json_truthy v then [v] else []),
         ev_related_task = None, ev_occurred_at = now env, ev_generated_by = ''human_operator'',
         ev_visibility = ''public'',
         ev_payload = JObj [(''resource_id'', JStr (rs_resource_id r)),
           (''resource_type'', JStr label), (''unit'', JStr unit_label),
           (''old_stock'', JStr (show_milli old_stock)), (''delta'', JStr (show_milli delta)),
           (''new_stock'', JStr (show_milli new_stock)),
           (''warning_threshold'', JStr (show_milli (rs_warning_threshold r))),
           (''is_warning'', JBool warning),
           (''replenishment_method'', JStr (replenishment_method_value ty)),
           (''reason'', JStr reason), (''operator'', operator)]\<rparr>)"

text \<open>\<open>draw_tx\<close> and \<open>draw_ev\<close> are the drawn identifiers of the movement and of the event.\<close>

definition record_resource_adjustment ::
    "env \<Rightarrow> (nat \<Rightarrow> string) \<Rightarrow> (nat \<Rightarrow> string) \<Rightarrow> string \<Rightarrow> int \<Rightarrow> json \<Rightarrow> string \<Rightarrow> string \<Rightarrow> int \<Rightarrow>
     'a resource_db_scheme \<Rightarrow> ((resource \<times> stream_event \<times> resource_transaction) \<times> 'a resource_db_scheme) result" where
  "record_resource_adjustment env draw_tx draw_ev rid delta operator reason replenishment simulation_day db =
    (let cleaned_reason = py_strip reason in
     if cleaned_reason = [] then Inl (DomainError ''the reason of the adjustment is empty'')
     else case parse_replenishment_method replenishment of
       None \<Rightarrow> Inl (DomainError ''the replenishment method is invalid'')
     | Some ty \<Rightarrow>
        and_then (resource_row rid db) (\<lambda>r.
          let old_stock = rs_current_stock r; new_stock = old_stock + delta in
          if new_stock < 0 then Inl (DomainError ''the stock cannot become negative'')
          else
            let r' = adjusted_resource env r delta operator cleaned_reason ty;
                db1 = save_resource r' db
            in and_then (generate_resource_transaction_id draw_tx db1) (\<lambda>txid.
               let txn = stock_movement env txid r delta operator cleaned_reason ty;
                   db2 = db1\<lparr>resource_transactions := resource_transactions db1 @ [txn]\<rparr>
               in and_then (generate_resource_event_id draw_ev db2) (\<lambda>eid.
                  let ev = stock_stream_event env eid r delta operator cleaned_reason ty simulation_day;
                      warning = (new_stock \<le> rs_warning_threshold r)
                  in and_then (insert_stream_event ev db2) (\<lambda>db3.
                     and_then (append_event env ''resource_adjusted'' ''Resource'' rid
                       (ref_member env db operator) None
                       (resource_adjustment_payload r' operator old_stock delta cleaned_reason warning txid)
                       (Some (now env)) db3) (\<lambda>(se, db4).
                         let txn' = txn\<lparr>rt_system_event := Some (se_seq se)\<rparr>
                         in Inr ((r', ev, txn'),
                              db4\<lparr>resource_transactions := update_rows
                                (\<lambda>x. rt_transaction_id x = txid) (\<lambda>_. txn') (resource_transactions db4)\<rparr>)))))))"

subsection \<open>What an adjustment writes\<close>

lemma resource_row_ok: "resource_row rid db = Inr r \<Longrightarrow> r \<in> set (resources db) \<and> rs_resource_id r = rid"
  by (auto simp: resource_row_def split: option.splits dest!: find_row_Some_iff)

lemma stock_movement_simps [simp]:
  "rt_transaction_id (stock_movement env i r d op rs ty) = i"
  "rt_resource (stock_movement env i r d op rs ty) = rs_resource_id r"
  "rt_quantity_delta (stock_movement env i r d op rs ty) = d"
  "rt_stock_before (stock_movement env i r d op rs ty) = rs_current_stock r"
  "rt_stock_after (stock_movement env i r d op rs ty) = rs_current_stock r + d"
  by (simp_all add: stock_movement_def)

lemma adjusted_resource_simps [simp]:
  "rs_resource_id (adjusted_resource env r d op rs ty) = rs_resource_id r"
  "rs_current_stock (adjusted_resource env r d op rs ty) = rs_current_stock r + d"
  "rs_accepts_offers (adjusted_resource env r d op rs ty) = rs_accepts_offers r"
  by (simp_all add: adjusted_resource_def)

lemma adjust_cases [consumes 1, case_names Adjust]:
  assumes "record_resource_adjustment env dt de rid delta op reason m day db = Inr ((r', ev, txn), db')"
  obtains r ty txid se where "resource_row rid db = Inr r" "0 \<le> rs_current_stock r + delta"
    "parse_replenishment_method m = Some ty"
    "r' = adjusted_resource env r delta op (py_strip reason) ty"
    "txn = (stock_movement env txid r delta op (py_strip reason) ty)\<lparr>rt_system_event := Some (se_seq se)\<rparr>"
    "\<forall>x \<in> set (resource_transactions db). rt_transaction_id x \<noteq> txid"
    "db' = db\<lparr>system_events := system_events db @ [se], stream_events := stream_events db @ [ev],
       resources := update_rows (\<lambda>x. rs_resource_id x = rid) (\<lambda>_. r') (resources db),
       resource_transactions := resource_transactions db @ [txn]\<rparr>"
    "audited env db db'"
proof -
  from assms obtain ty r where ty: "parse_replenishment_method m = Some ty" and row: "resource_row rid db = Inr r"
    by (auto simp: record_resource_adjustment_def Let_def split: if_splits option.splits)
  let ?r' = "adjusted_resource env r delta op (py_strip reason) ty"
  let ?txn = "\<lambda>i. stock_movement env i r delta op (py_strip reason) ty"
  let ?db2 = "\<lambda>i. (save_resource ?r' db)\<lparr>resource_transactions := resource_transactions db @ [?txn i]\<rparr>"
  have rid: "rs_resource_id ?r' = rid" using resource_row_ok [OF row] by simp
  from assms ty row obtain txid pay se db4 where
    i: "generate_resource_transaction_id dt (save_resource ?r' db) = Inr txid"
    and ev: "insert_stream_event ev (?db2 txid) = Inr ((?db2 txid)\<lparr>stream_events := stream_events db @ [ev]\<rparr>)"
    and app: "append_event env ''resource_adjusted'' ''Resource'' rid (ref_member env db op) None pay
        (Some (now env)) ((?db2 txid)\<lparr>stream_events := stream_events db @ [ev]\<rparr>) = Inr (se, db4)"
    and r: "r' = ?r'" "txn = (?txn txid)\<lparr>rt_system_event := Some (se_seq se)\<rparr>" "0 \<le> rs_current_stock r + delta"
    and db': "db' = db4\<lparr>resource_transactions := update_rows (\<lambda>x. rt_transaction_id x = txid)
        (\<lambda>_. txn) (resource_transactions db4)\<rparr>"
    by (auto simp: record_resource_adjustment_def Let_def save_resource_def insert_stream_event_def split: if_splits)
  have fresh: "\<forall>x \<in> set (resource_transactions db). rt_transaction_id x \<noteq> txid"
    using first_free_id_free [OF i [unfolded generate_resource_transaction_id_def]] by (auto simp: save_resource_def)
  note db4 = append_event_db [OF app]
  have "update_rows (\<lambda>x. rt_transaction_id x = txid) (\<lambda>_. txn) (resource_transactions db) = resource_transactions db"
    unfolding update_rows_def by (rule map_idI) (use fresh in auto)
  then have eq: "db' = db\<lparr>system_events := system_events db @ [se], stream_events := stream_events db @ [ev],
       resources := update_rows (\<lambda>x. rs_resource_id x = rid) (\<lambda>_. r') (resources db),
       resource_transactions := resource_transactions db @ [txn]\<rparr>"
    using db' db4 r rid by (simp add: save_resource_def)
  have "audited env db db4"
    using audited_append [OF app] by (rule audited_cong_left [THEN iffD1, rotated]) (simp add: save_resource_def)
  then have "audited env db db'" using audited_cong_right [of db' db4 env db] db' by simp
  with row r ty fresh eq show thesis by (intro that [of r ty se txid])
qed

subsection \<open>Stock is the replay of its movements\<close>

text \<open>The abstract specification: replaying movements from an opening stock, refusing a movement that
  does not start where the previous one ended or that leaves a negative stock.\<close>

fun replay :: "int \<Rightarrow> resource_transaction list \<Rightarrow> int option" where
  "replay n [] = Some n"
| "replay n (t # ts) =
    (if rt_stock_before t = n \<and> rt_stock_after t = n + rt_quantity_delta t \<and> 0 \<le> rt_stock_after t
     then replay (rt_stock_after t) ts else None)"

definition movements :: "string \<Rightarrow> 'a resource_db_scheme \<Rightarrow> resource_transaction list" where
  "movements rid db = filter (\<lambda>t. rt_resource t = rid) (resource_transactions db)"

definition stock_inv :: "(string \<Rightarrow> int) \<Rightarrow> 'a resource_db_scheme \<Rightarrow> bool" where
  "stock_inv start db \<longleftrightarrow> distinct (map rs_resource_id (resources db)) \<and>
     distinct (map rt_transaction_id (resource_transactions db)) \<and>
     (\<forall>r \<in> set (resources db). 0 \<le> rs_current_stock r \<and>
        replay (start (rs_resource_id r)) (movements (rs_resource_id r) db) = Some (rs_current_stock r))"

lemma replay_append: "replay n (ts @ us) = (case replay n ts of None \<Rightarrow> None | Some k \<Rightarrow> replay k us)"
  by (induction ts arbitrary: n) auto

lemma replay_sum: "replay n ts = Some k \<Longrightarrow> k = n + sum_list (map rt_quantity_delta ts)"
proof (induction ts arbitrary: n)
  case (Cons t ts)
  then have "replay (rt_stock_after t) ts = Some k" "rt_stock_after t = n + rt_quantity_delta t"
    by (simp_all split: if_splits)
  with Cons.IH show ?case by force
qed simp

definition same_movement :: "resource_transaction \<Rightarrow> resource_transaction \<Rightarrow> bool" where
  "same_movement t u \<longleftrightarrow> rt_resource u = rt_resource t \<and> rt_quantity_delta u = rt_quantity_delta t \<and>
     rt_stock_before u = rt_stock_before t \<and> rt_stock_after u = rt_stock_after t"

lemma replay_cong: "list_all2 same_movement ts us \<Longrightarrow> replay n us = replay n ts"
  by (induction ts us arbitrary: n rule: list_all2_induct) (auto simp: same_movement_def)

lemma same_movement_filter:
  "list_all2 same_movement ts us \<Longrightarrow>
   list_all2 same_movement (filter (\<lambda>t. rt_resource t = k) ts) (filter (\<lambda>t. rt_resource t = k) us)"
  by (induction ts us rule: list_all2_induct) (auto simp: same_movement_def)

text \<open>Fields of a movement other than its quantities do not matter.\<close>

lemma stock_inv_cong:
  assumes "stock_inv start db" "resources db' = resources db"
    "list_all2 same_movement (resource_transactions db) (resource_transactions db')"
    "map rt_transaction_id (resource_transactions db') = map rt_transaction_id (resource_transactions db)"
  shows "stock_inv start db'"
proof -
  have "replay n (movements k db') = replay n (movements k db)" for n k
    unfolding movements_def by (rule replay_cong) (rule same_movement_filter [OF assms(3)])
  then show ?thesis using assms by (simp add: stock_inv_def)
qed

lemma stock_inv_adjust:
  assumes inv: "stock_inv start db"
    and a: "record_resource_adjustment env dt de rid delta op reason m day db = Inr ((r', ev, txn), db')"
  shows "stock_inv start db'"
  using a
proof (cases rule: adjust_cases)
  case (Adjust r ty txid se)
  have r: "r \<in> set (resources db)" "rs_resource_id r = rid" using resource_row_ok [OF Adjust(1)] by auto
  have d: "distinct (map rs_resource_id (resources db))" using inv by (simp add: stock_inv_def)
  have ids: "map rs_resource_id (resources db') = map rs_resource_id (resources db)"
    unfolding Adjust(7) by (simp, rule map_update_rows) (simp add: Adjust(4) r(2))
  have mv: "movements k db' = movements k db @ (if k = rid then [txn] else [])" for k
    using r(2) by (simp add: Adjust(5,7) movements_def)
  have "replay (start rid) (movements rid db) = Some (rs_current_stock r)"
    using inv r by (auto simp: stock_inv_def)
  then have here: "replay (start rid) (movements rid db') = Some (rs_current_stock r')"
    using Adjust(2) by (simp add: mv replay_append Adjust(4,5))
  have "0 \<le> rs_current_stock x \<and> replay (start (rs_resource_id x)) (movements (rs_resource_id x) db') =
      Some (rs_current_stock x)" if x: "x \<in> set (resources db')" for x
  proof (cases "rs_resource_id x = rid")
    case True
    have "x = r'"
    proof -
      from x obtain y where y: "y \<in> set (resources db)" "x = (if rs_resource_id y = rid then r' else y)"
        by (auto simp: Adjust(7) set_update_rows)
      with True show ?thesis by (auto split: if_splits)
    qed
    then show ?thesis using here Adjust(2,4) True by simp
  next
    case False
    with x have "x \<in> set (resources db)" using r(2) by (auto simp: Adjust(4,7) set_update_rows split: if_splits)
    with False inv show ?thesis by (simp add: mv stock_inv_def)
  qed
  moreover have "distinct (map rt_transaction_id (resource_transactions db'))"
    using inv Adjust(6) by (auto simp: stock_inv_def Adjust(5,7))
  ultimately show ?thesis using ids d by (simp add: stock_inv_def)
qed

record adjustment =
  ad_resource :: string
  ad_delta :: int
  ad_operator :: json
  ad_reason :: string
  ad_method :: string
  ad_simulation_day :: int

fun resource_step ::
    "env \<Rightarrow> time \<times> (nat \<Rightarrow> string) \<times> (nat \<Rightarrow> string) \<times> adjustment \<Rightarrow> 'a resource_db_scheme \<Rightarrow>
     ((resource \<times> stream_event \<times> resource_transaction) \<times> 'a resource_db_scheme) result" where
  "resource_step env (at, dt, de, a) db =
    record_resource_adjustment (env\<lparr>now := at\<rparr>) dt de (ad_resource a) (ad_delta a) (ad_operator a)
      (ad_reason a) (ad_method a) (ad_simulation_day a) db"

definition stock_safe :: "env \<Rightarrow> 'a resource_db_scheme \<Rightarrow> 'a resource_db_scheme \<Rightarrow> bool" where
  "stock_safe env db db' \<longleftrightarrow> audited env db db' \<and>
     prefix (resource_transactions db) (resource_transactions db')"

interpretation stock: guarded_service "resource_step env" "stock_inv start" "stock_safe env" for env start
proof
  fix db db' db'' :: "'a resource_db_scheme" and x :: "time \<times> (nat \<Rightarrow> string) \<times> (nat \<Rightarrow> string) \<times> adjustment"
    and r :: "resource \<times> stream_event \<times> resource_transaction"
  obtain at dt de a where x: "x = (at, dt, de, a)" by (cases x)
  obtain r' ev txn where r: "r = (r', ev, txn)" by (cases r)
  show "stock_inv start db'" if "stock_inv start db" "resource_step env x db = Inr (r, db')"
    using that stock_inv_adjust unfolding x r by (simp, blast)
  show "stock_safe env db db'" if s: "resource_step env x db = Inr (r, db')"
  proof -
    from s have "record_resource_adjustment (env\<lparr>now := at\<rparr>) dt de (ad_resource a) (ad_delta a) (ad_operator a)
      (ad_reason a) (ad_method a) (ad_simulation_day a) db = Inr ((r', ev, txn), db')" by (simp add: x r)
    then show ?thesis by (cases rule: adjust_cases) (simp add: stock_safe_def)
  qed
  show "stock_safe env db db''" if "stock_safe env db db'" "stock_safe env db' db''"
    using that audited_trans [of env db db' db''] by (auto simp: stock_safe_def intro: prefix_order.order_trans)
qed (simp add: stock_safe_def)

subsection \<open>Properties of the stock ledger\<close>


definition example_resource :: resource where
  "example_resource = \<lparr>rs_resource_id = ''rice'', rs_name = ''Rice'', rs_resource_type = Grain, rs_location = [],
     rs_description = [], rs_status = ResourceActive, rs_unit = Kg, rs_current_stock = 5000,
     rs_daily_consumption_estimate = 1000, rs_replenishment_method = ByPurchase, rs_loss_rate = 0,
     rs_warning_threshold = 2000, rs_shortage_impact = JObj [], rs_updated_at = 0, rs_rule_version = ''v1'',
     rs_accepts_offers = True, rs_metadata = JObj []\<rparr>"

definition example_store :: resource_db where
  "example_store = \<lparr>system_events = [], credit_accounts = [], credit_transactions = [], members = [],
     tasks = [], ledger_entries = [], stream_events = [], resources = [example_resource],
     resource_transactions = []\<rparr>"

definition take_rice :: adjustment where
  "take_rice = \<lparr>ad_resource = ''rice'', ad_delta = -1500, ad_operator = JObj [], ad_reason = ''dinner'',
     ad_method = ''manual_adjustment'', ad_simulation_day = 1\<rparr>"


end
