(* ===== verification/Authorization.thy ===== *)
theory Authorization
  imports Resource_Ledger "HOL-Library.Product_Lexorder"
begin

text \<open>
  Who may do what: the role catalog (\<^verbatim>\<open>core/role_catalog.py\<close>), the models \<^verbatim>\<open>Organization\<close>,
  \<^verbatim>\<open>Role\<close>, \<^verbatim>\<open>Permission\<close>, \<^verbatim>\<open>RoleAssignment\<close>, \<^verbatim>\<open>RolePermission\<close> (\<^verbatim>\<open>core/models/identity.py\<close>), current
  role facts (\<^verbatim>\<open>core/member_roles.py\<close>), permissions derived from them
  (\<^verbatim>\<open>core/permission_services.py\<close>) and the runtime boundary with OpenFGA
  (\<^verbatim>\<open>core/authorization_services.py\<close>, \<^verbatim>\<open>core/access.py\<close>).

  OpenFGA is an external service: \<open>fga_check\<close> is its answer to one check, \<open>None\<close> a failed request.
  The settings the code reads are fields of the record \<open>fga\<close>. A permission row is named by its
  unique code. The tuples the code asks OpenFGA to delete after a denied check are
  \<open>stale_tuples\<close>; the request itself leaves the program.
\<close>

subsection \<open>Rows\<close>

datatype organization_status = OrgActive | OrgInactive | OrgArchived

record organization =
  og_id :: int
  og_name :: string
  og_role_catalog_key :: "string option"
  og_parent :: "int option"
  og_status :: organization_status
  og_created_at :: time
  og_updated_at :: time

datatype role_status = RoleActive | RoleInactive | RoleRetired

record role =
  rl_id :: int
  rl_organization :: int
  rl_name :: string
  rl_description :: string
  rl_status :: role_status
  rl_appointment_electorate_role :: "int option"
  rl_appointment_required_percent :: int
  rl_appointment_deadline_days :: int
  rl_created_at :: time
  rl_updated_at :: time

record permission =
  pm_code :: string
  pm_name :: string
  pm_category :: string
  pm_description :: string

datatype assignment_status = AssignmentActive | AssignmentRevoked | AssignmentSuspended | AssignmentExpired

datatype assignment_source = SourceDirect | SourceSelfApplication | SourceProposal | SourceInitialization | SourceSystem

record role_assignment =
  ra_id :: int
  ra_member :: int
  ra_role :: int
  ra_status :: assignment_status
  ra_start_at :: time
  ra_end_at :: time
  ra_granted_by :: "int option"
  ra_revoked_by :: "int option"
  ra_source_type :: assignment_source
  ra_created_at :: time
  ra_updated_at :: time

record role_permission =
  rp_role :: int
  rp_permission :: string
  rp_scope :: string
  rp_constraints_json :: json

record role_db = resource_db +
  organizations :: "organization list"
  roles :: "role list"
  permissions :: "permission list"
  role_permissions :: "role_permission list"
  role_assignments :: "role_assignment list"

subsection \<open>The role catalog\<close>

definition ROLE_CATALOG_ORGANIZATION_NAME :: string where [catalog_defs]:
  "ROLE_CATALOG_ORGANIZATION_NAME = ''membership and duties''"
definition ROLE_CATALOG_ORGANIZATION_KEY :: string where [catalog_defs]:
  "ROLE_CATALOG_ORGANIZATION_KEY = ''member-role-catalog''"
definition ROLE_COVENANTER :: string where [catalog_defs]: "ROLE_COVENANTER = ''covenanter''"
definition ROLE_DELIBERATOR :: string where [catalog_defs]: "ROLE_DELIBERATOR = ''deliberator''"
definition ROLE_ADMINISTRATOR :: string where [catalog_defs]: "ROLE_ADMINISTRATOR = ''manager''"

datatype role_dimension = MemberQualification | DeliberationDuty | AdministrationDuty
datatype term_rule = AppointmentDefined | OneYearSelfApplication

record role_definition =
  rd_code :: string
  rd_display_name :: string
  rd_description :: string
  rd_dimension :: role_dimension
  rd_direct_assignable :: bool
  rd_electorate_selectable :: bool
  rd_requires_covenanter :: bool
  rd_term_rule :: term_rule
  rd_openfga_relation :: string

definition ROLE_DEFINITIONS :: "role_definition list" where [catalog_defs]:
  "ROLE_DEFINITIONS =
    [\<lparr>rd_code = ''covenanter'', rd_display_name = ROLE_COVENANTER,
      rd_description = ''membership gained by admission as a covenanter'',
      rd_dimension = MemberQualification, rd_direct_assignable = True, rd_electorate_selectable = True,
      rd_requires_covenanter = False, rd_term_rule = AppointmentDefined,
      rd_openfga_relation = ''covenanter''\<rparr>,
     \<lparr>rd_code = ''deliberator'', rd_display_name = ROLE_DELIBERATOR,
      rd_description = ''one-year deliberation duty a covenanter applied for'',
      rd_dimension = DeliberationDuty, rd_direct_assignable = True, rd_electorate_selectable = True,
      rd_requires_covenanter = True, rd_term_rule = OneYearSelfApplication,
      rd_openfga_relation = ''deliberator''\<rparr>,
     \<lparr>rd_code = ''administrator'', rd_display_name = ROLE_ADMINISTRATOR,
      rd_description = ''independent duty with explicit administration permissions'',
      rd_dimension = AdministrationDuty, rd_direct_assignable = True, rd_electorate_selectable = True,
      rd_requires_covenanter = True, rd_term_rule = AppointmentDefined,
      rd_openfga_relation = ''administrator''\<rparr>]"

definition ADMINISTRATOR_PERMISSION_CODES :: "string list" where [catalog_defs]:
  "ADMINISTRATOR_PERMISSION_CODES =
    [''governance.view_admin'', ''governance.manage_people'', ''governance.manage_organizations'',
     ''governance.manage_roles'', ''governance.manage_permissions'',
     ''governance.manage_professional_qualifications'', ''governance.manage_deliberator_exam'',
     ''governance.manage_proposal_policies'', ''governance.resolve_proposals'',
     ''governance.view_event_ledger'']"

definition role_definition_for_name :: "string \<Rightarrow> role_definition option" where
  "role_definition_for_name name = find_row (\<lambda>d. rd_display_name d = name) ROLE_DEFINITIONS"

definition role_definition_for_code :: "string \<Rightarrow> role_definition option" where
  "role_definition_for_code code = find_row (\<lambda>d. rd_code d = code) ROLE_DEFINITIONS"

definition catalog_role_definition_for_role :: "role \<Rightarrow> 'a role_db_scheme \<Rightarrow> role_definition option" where
  "catalog_role_definition_for_role r db =
    (case role_definition_for_name (rl_name r) of None \<Rightarrow> None
     | Some d \<Rightarrow>
        if exists_row (\<lambda>og. og_id og = rl_organization r \<and>
             og_role_catalog_key og = Some ROLE_CATALOG_ORGANIZATION_KEY \<and>
             og_name og = ROLE_CATALOG_ORGANIZATION_NAME \<and> og_status og = OrgActive) (organizations db)
        then Some d else None)"

subsection \<open>Current role facts\<close>

definition member_allows_role_facts :: "member \<Rightarrow> bool" where
  "member_allows_role_facts m \<longleftrightarrow>
    m_status m \<in> {MemberActive, Admitted} \<and> (m_user_active m = None \<or> m_user_active m = Some True)"

definition in_window :: "time \<Rightarrow> role_assignment \<Rightarrow> bool" where
  "in_window at a \<longleftrightarrow> ra_start_at a \<le> at \<and> at < ra_end_at a"

definition role_of :: "role_assignment \<Rightarrow> 'a role_db_scheme \<Rightarrow> role option" where
  "role_of a db = find_row (\<lambda>r. rl_id r = ra_role a) (roles db)"

definition organization_of :: "role \<Rightarrow> 'a role_db_scheme \<Rightarrow> organization option" where
  "organization_of r db = find_row (\<lambda>og. og_id og = rl_organization r) (organizations db)"

text \<open>One joined row of the query: an active assignment in its window to an active catalog role.\<close>

definition catalog_assignment :: "string list \<Rightarrow> time \<Rightarrow> 'a role_db_scheme \<Rightarrow> role_assignment \<Rightarrow> bool" where
  "catalog_assignment names at db a \<longleftrightarrow> ra_status a = AssignmentActive \<and> in_window at a \<and>
    (case role_of a db of None \<Rightarrow> False
     | Some r \<Rightarrow> rl_status r = RoleActive \<and> rl_name r \<in> set names \<and>
        (case organization_of r db of None \<Rightarrow> False
         | Some og \<Rightarrow> og_role_catalog_key og = Some ROLE_CATALOG_ORGANIZATION_KEY))"

definition current_catalog_role_filter :: "string list \<Rightarrow> time \<Rightarrow> 'a role_db_scheme \<Rightarrow> member \<Rightarrow> bool" where
  "current_catalog_role_filter names at db m \<longleftrightarrow> member_allows_role_facts m \<and>
    exists_row (\<lambda>a. ra_member a = m_id m \<and> catalog_assignment names at db a) (role_assignments db)"

definition member_role_filter :: "string list \<Rightarrow> time \<Rightarrow> 'a role_db_scheme \<Rightarrow> member \<Rightarrow> bool" where
  "member_role_filter names at db m \<longleftrightarrow>
    names \<noteq> [] \<and> list_all (\<lambda>n. role_definition_for_name n \<noteq> None) names \<and>
    current_catalog_role_filter names at db m \<and>
    (list_ex (\<lambda>n. case role_definition_for_name n of None \<Rightarrow> False | Some d \<Rightarrow> rd_requires_covenanter d) names \<longrightarrow>
       current_catalog_role_filter [ROLE_COVENANTER] at db m)"

text \<open>The catalog order is the order of the display names, by which the code sorts.\<close>

definition active_member_role_names :: "time \<Rightarrow> 'a role_db_scheme \<Rightarrow> member \<Rightarrow> string list" where
  "active_member_role_names at db m =
    (if \<not> member_allows_role_facts m then []
     else filter (\<lambda>n. exists_row (\<lambda>x. m_id x = m_id m \<and> member_role_filter [n] at db x) (members db))
       (map rd_display_name ROLE_DEFINITIONS))"

definition member_has_role :: "string list \<Rightarrow> time \<Rightarrow> 'a role_db_scheme \<Rightarrow> member \<Rightarrow> bool" where
  "member_has_role names at db m \<longleftrightarrow>
    names \<noteq> [] \<and> list_all (\<lambda>n. role_definition_for_name n \<noteq> None) names \<and>
    list_ex (\<lambda>n. n \<in> set names) (active_member_role_names at db m)"

definition participation_status :: "time \<Rightarrow> 'a role_db_scheme \<Rightarrow> member \<Rightarrow> string option" where
  "participation_status at db m =
    (if \<not> member_allows_role_facts m then None
     else if \<not> member_has_role [ROLE_COVENANTER] at db m then Some ''contributor'' else None)"

subsection \<open>Permissions of role facts\<close>

text \<open>\<^verbatim>\<open>{str(item) for item in v}\<close>: the texts of what a JSON value iterates over.\<close>

fun iter_texts :: "env \<Rightarrow> json \<Rightarrow> string list result" where
  "iter_texts env (JList xs) = Inr (map (py_str env) xs)"
| "iter_texts env (JObj kvs) = Inr (map fst kvs)"
| "iter_texts env (JStr s) = Inr (map (\<lambda>c. [c]) s)"
| "iter_texts env _ = Inl (TypeError ''object is not iterable'')"

definition role_permission_applies_to_resource ::
    "env \<Rightarrow> role_permission \<Rightarrow> resource option \<Rightarrow> bool result" where
  "role_permission_applies_to_resource env rp resource =
    (case resource of None \<Rightarrow> Inr True
     | Some r \<Rightarrow>
        let constraints = or_empty_dict (rp_constraints_json rp) in
        if \<not> is_obj constraints then Inl (AttributeError ''get'')
        else (case json_get ''resource_id'' constraints of
            Some v \<Rightarrow> if json_truthy v then Inr (py_str env v = rs_resource_id r)
              else (case json_get ''resource_ids'' constraints of
                  Some w \<Rightarrow> if json_truthy w then and_then (iter_texts env w) (\<lambda>ts. Inr (rs_resource_id r \<in> set ts))
                    else Inr (rp_scope rp \<in> {[], ''global'', ''all''})
                | None \<Rightarrow> Inr (rp_scope rp \<in> {[], ''global'', ''all''}))
          | None \<Rightarrow>
             (case json_get ''resource_ids'' constraints of
                  Some w \<Rightarrow> if json_truthy w then and_then (iter_texts env w) (\<lambda>ts. Inr (rs_resource_id r \<in> set ts))
                    else Inr (rp_scope rp \<in> {[], ''global'', ''all''})
                | None \<Rightarrow> Inr (rp_scope rp \<in> {[], ''global'', ''all''}))))"

definition permission_requires_covenanter :: "string \<Rightarrow> bool" where
  "permission_requires_covenanter code \<longleftrightarrow> prefix ''governance.'' code \<or> prefix ''finance.'' code"

text \<open>An assignment that lends its role's permissions at an instant.\<close>

definition lends_role :: "time \<Rightarrow> 'a role_db_scheme \<Rightarrow> member \<Rightarrow> role_assignment \<Rightarrow> bool" where
  "lends_role at db m a \<longleftrightarrow> ra_member a = m_id m \<and> ra_status a = AssignmentActive \<and> in_window at a \<and>
    (case role_of a db of None \<Rightarrow> False | Some r \<Rightarrow> rl_status r = RoleActive)"

definition legacy_member_has_permission ::
    "env \<Rightarrow> member \<Rightarrow> string \<Rightarrow> resource option \<Rightarrow> time \<Rightarrow> 'a role_db_scheme \<Rightarrow> bool result" where
  "legacy_member_has_permission env m code resource checked_at db =
    (if \<not> member_allows_role_facts m then Inr False
     else if permission_requires_covenanter code \<and> \<not> member_has_role [ROLE_COVENANTER] checked_at db m
       then Inr False
     else any_result (\<lambda>rp. role_permission_applies_to_resource env rp resource)
       (filter (\<lambda>rp. rp_permission rp = code \<and>
          exists_row (\<lambda>a. lends_role checked_at db m a \<and> ra_role a = rp_role rp) (role_assignments db))
        (role_permissions db)))"

text \<open>The covenanter condition is checked at the present, whatever instant is asked about.\<close>

definition members_with_permission :: "env \<Rightarrow> string \<Rightarrow> time option \<Rightarrow> 'a role_db_scheme \<Rightarrow> member list" where
  "members_with_permission env code at_time db =
    (let checked_at = (case at_time of None \<Rightarrow> now env | Some t \<Rightarrow> t) in
     filter (\<lambda>m. member_allows_role_facts m \<and>
        (permission_requires_covenanter code \<longrightarrow> member_role_filter [ROLE_COVENANTER] (now env) db m) \<and>
        exists_row (\<lambda>a. lends_role checked_at db m a \<and>
          exists_row (\<lambda>rp. rp_role rp = ra_role a \<and> rp_permission rp = code) (role_permissions db))
          (role_assignments db)) (members db))"

subsection \<open>OpenFGA objects\<close>

text \<open>\<^verbatim>\<open>urlsafe_b64encode\<close> of the bytes of a text, without the padding.\<close>

definition b64_char :: "nat \<Rightarrow> char" where
  "b64_char n =
    (if n < 26 then char_of (65 + n) else if n < 52 then char_of (71 + n)
     else if n < 62 then char_of (n - 4) else if n = 62 then CHR ''-'' else CHR ''_'')"

fun b64url :: "nat list \<Rightarrow> string" where
  "b64url [] = []"
| "b64url [a] = [b64_char (a div 4), b64_char (a mod 4 * 16)]"
| "b64url [a, b] = [b64_char (a div 4), b64_char (a mod 4 * 16 + b div 16), b64_char (b mod 16 * 4)]"
| "b64url (a # b # c # bs) =
    b64_char (a div 4) # b64_char (a mod 4 * 16 + b div 16) # b64_char (b mod 16 * 4 + c div 64) #
    b64_char (c mod 64) # b64url bs"

definition openfga_object_id_part :: "string \<Rightarrow> string" where
  "openfga_object_id_part v = b64url (map of_char v)"

definition openfga_member_user :: "member \<Rightarrow> string" where
  "openfga_member_user m = ''member:'' @ show_int (m_id m)"

definition openfga_role_object :: "int \<Rightarrow> string" where
  "openfga_role_object i = ''role:'' @ show_int i"

definition permission_object_type :: "string \<Rightarrow> string" where
  "permission_object_type code =
    (if permission_requires_covenanter code then ''guarded_permission'' else ''permission'')"

definition resource_permission_object_type :: "string \<Rightarrow> string" where
  "resource_permission_object_type code =
    (if permission_requires_covenanter code then ''guarded_resource_permission'' else ''resource_permission'')"

definition openfga_permission_object :: "string \<Rightarrow> string" where
  "openfga_permission_object code = permission_object_type code @ '':'' @ code"

definition openfga_global_resource_permission_object :: "string \<Rightarrow> string" where
  "openfga_global_resource_permission_object code =
    resource_permission_object_type code @ '':'' @ openfga_object_id_part code @ ''.global''"

definition openfga_resource_permission_object :: "string \<Rightarrow> string \<Rightarrow> string" where
  "openfga_resource_permission_object code rid =
    resource_permission_object_type code @ '':'' @ openfga_object_id_part code @ ''.'' @ openfga_object_id_part rid"

subsection \<open>The authorization boundary\<close>

record fga_context =
  fc_world_kind :: string
  fc_api_url :: string
  fc_store_name :: string
  fc_store_id :: string
  fc_authorization_model_id :: string
  fc_platform_object :: string

record fga =
  fga_backend :: string
  fga_current_world :: "string option"  \<comment> \<open>the type of the current world\<close>
  fga_site_role :: string
  fga_world_instance_type :: string
  fga_real :: fga_context
  fga_sim :: fga_context
  fga_check :: "fga_context \<Rightarrow> string \<Rightarrow> string \<Rightarrow> string \<Rightarrow> bool option"

definition openfga_world_kind_for_runtime :: "fga \<Rightarrow> string" where
  "openfga_world_kind_for_runtime f =
    (case fga_current_world f of
       Some ty \<Rightarrow> if ty = ''real'' then ''real'' else ''sim''
     | None \<Rightarrow>
        let site_role = py_lower (py_strip (fga_site_role f)) in
        if site_role = ''real'' then ''real'' else if site_role = ''simulation'' then ''sim''
        else if py_lower (py_strip (fga_world_instance_type f)) = ''real'' then ''real'' else ''sim'')"

definition openfga_context_for_world_kind :: "fga \<Rightarrow> string option \<Rightarrow> fga_context result" where
  "openfga_context_for_world_kind f world_kind =
    (let kind = py_lower (py_strip (case world_kind of None \<Rightarrow> openfga_world_kind_for_runtime f
           | Some k \<Rightarrow> if k = [] then openfga_world_kind_for_runtime f else k)) in
     if kind \<in> {''realworld'', ''real''} then Inr ((fga_real f)\<lparr>fc_world_kind := ''real''\<rparr>)
     else if kind \<in> {''simulation'', ''simulation0001'', ''sim''} then Inr ((fga_sim f)\<lparr>fc_world_kind := ''sim''\<rparr>)
     else Inl (ValueError ''Unsupported OpenFGA world kind''))"

text \<open>\<open>None\<close> stands for an unavailable answer.\<close>

fun first_allowed :: "bool option list \<Rightarrow> bool \<Rightarrow> bool option" where
  "first_allowed [] unavailable = (if unavailable then None else Some False)"
| "first_allowed (Some True # rs) unavailable = Some True"
| "first_allowed (Some False # rs) unavailable = first_allowed rs unavailable"
| "first_allowed (None # rs) unavailable = first_allowed rs True"

definition permission_checks :: "string \<Rightarrow> resource option \<Rightarrow> string list" where
  "permission_checks code resource = (case resource of
     None \<Rightarrow> [openfga_permission_object code]
   | Some r \<Rightarrow> [openfga_global_resource_permission_object code,
       openfga_resource_permission_object code (rs_resource_id r)])"

definition openfga_member_has_permission ::
    "fga \<Rightarrow> member \<Rightarrow> string \<Rightarrow> resource option \<Rightarrow> bool option result" where
  "openfga_member_has_permission f m code resource =
    and_then (openfga_context_for_world_kind f None) (\<lambda>ctx.
      if fc_store_id ctx = [] then Inr None
      else Inr (first_allowed
        (map (\<lambda>obj. fga_check f ctx (openfga_member_user m) ''holder'' obj) (permission_checks code resource)) False))"

definition member_has_permission ::
    "env \<Rightarrow> fga \<Rightarrow> member \<Rightarrow> string \<Rightarrow> resource option \<Rightarrow> time \<Rightarrow> 'a role_db_scheme \<Rightarrow> bool result" where
  "member_has_permission env f m code resource at db =
    (if fga_backend f = ''legacy'' then legacy_member_has_permission env m code resource at db
     else and_then (legacy_member_has_permission env m code resource at db) (\<lambda>current.
       if \<not> current then Inr False
       else and_then (openfga_member_has_permission f m code resource) (\<lambda>allowed.
         if fga_backend f = ''openfga'' then Inr (allowed = Some True) else Inr False)))"

definition ensure_authorization_available :: "fga \<Rightarrow> member \<Rightarrow> unit result" where
  "ensure_authorization_available f m =
    (if fga_backend f = ''legacy'' then Inr ()
     else if fga_backend f \<noteq> ''openfga'' then Inl (DomainError ''the authorization service is misconfigured'')
     else and_then (openfga_context_for_world_kind f None) (\<lambda>ctx.
       if fc_store_id ctx = [] \<or> fc_authorization_model_id ctx = [] then
         Inl (DomainError ''the authorization service is not configured'')
       else (case fga_check f ctx (openfga_member_user m) ''covenanter'' (fc_platform_object ctx) of
           None \<Rightarrow> Inl (DomainError ''the authorization service is unavailable'')
         | Some _ \<Rightarrow> Inr ())))"

definition member_has_platform_role ::
    "fga \<Rightarrow> member \<Rightarrow> string \<Rightarrow> time \<Rightarrow> 'a role_db_scheme \<Rightarrow> bool result" where
  "member_has_platform_role f m role_code at db =
    (case role_definition_for_code role_code of None \<Rightarrow> Inr False
     | Some d \<Rightarrow>
        if rd_display_name d \<notin> set (active_member_role_names at db m) then Inr False
        else if fga_backend f = ''legacy'' then Inr True
        else and_then (ensure_authorization_available f m) (\<lambda>_.
          and_then (openfga_context_for_world_kind f None) (\<lambda>ctx.
            case fga_check f ctx (openfga_member_user m) (rd_openfga_relation d) (fc_platform_object ctx) of
              None \<Rightarrow> Inl (DomainError ''the authorization service is unavailable'')
            | Some b \<Rightarrow> Inr b)))"

definition member_can_administer ::
    "env \<Rightarrow> fga \<Rightarrow> member \<Rightarrow> string \<Rightarrow> 'a role_db_scheme \<Rightarrow> bool result" where
  "member_can_administer env f m code db =
    (if \<not> prefix ''governance.'' code then Inr False
     else member_has_permission env f m code None (now env) db)"

datatype access_reason = NoReason | NotAuthorized | AuthorizationUnavailable

definition full_workspace_access_decision ::
    "env \<Rightarrow> fga \<Rightarrow> member \<Rightarrow> 'a role_db_scheme \<Rightarrow> (bool \<times> access_reason) result" where
  "full_workspace_access_decision env f m db =
    (let eligible = (m_status m \<in> {MemberActive, Admitted} \<and> member_has_role [ROLE_COVENANTER] (now env) db m) in
     if fga_backend f = ''legacy'' then Inr (eligible, if eligible then NoReason else NotAuthorized)
     else if fga_backend f \<noteq> ''openfga'' then Inr (False, AuthorizationUnavailable)
     else if \<not> eligible then Inr (False, NotAuthorized)
     else and_then (openfga_context_for_world_kind f None) (\<lambda>ctx.
       if fc_store_id ctx = [] then Inr (False, AuthorizationUnavailable)
       else (case fga_check f ctx (openfga_member_user m) ''covenanter'' (fc_platform_object ctx) of
           None \<Rightarrow> Inr (False, AuthorizationUnavailable)
         | Some allowed \<Rightarrow> Inr (allowed, if allowed then NoReason else NotAuthorized))))"

definition ADMINISTRATION_VIEW_ADMIN_PERMISSION :: string where [catalog_defs]:
  "ADMINISTRATION_VIEW_ADMIN_PERMISSION = ''governance.view_admin''"
definition FINANCE_REVIEW_PERMISSION :: string where [catalog_defs]: "FINANCE_REVIEW_PERMISSION = ''finance.review''"
definition FINANCE_PAY_PERMISSION :: string where [catalog_defs]: "FINANCE_PAY_PERMISSION = ''finance.pay''"

definition is_administrator :: "env \<Rightarrow> fga \<Rightarrow> member \<Rightarrow> 'a role_db_scheme \<Rightarrow> bool result" where
  "is_administrator env f m db = member_can_administer env f m ADMINISTRATION_VIEW_ADMIN_PERMISSION db"

definition is_finance_reviewer :: "env \<Rightarrow> fga \<Rightarrow> member \<Rightarrow> 'a role_db_scheme \<Rightarrow> bool result" where
  "is_finance_reviewer env f m db = member_has_permission env f m FINANCE_REVIEW_PERMISSION None (now env) db"

definition is_finance_payer :: "env \<Rightarrow> fga \<Rightarrow> member \<Rightarrow> 'a role_db_scheme \<Rightarrow> bool result" where
  "is_finance_payer env f m db = member_has_permission env f m FINANCE_PAY_PERMISSION None (now env) db"

subsection \<open>Tuples of role assignments\<close>

type_synonym fga_tuple = "string \<times> string \<times> string"

definition guarded_role :: "role \<Rightarrow> 'a role_db_scheme \<Rightarrow> bool" where
  "guarded_role r db \<longleftrightarrow>
    exists_row (\<lambda>rp. rp_role rp = rl_id r \<and> permission_requires_covenanter (rp_permission rp)) (role_permissions db)"

definition role_assignment_tuples :: "fga_context \<Rightarrow> role_assignment \<Rightarrow> role \<Rightarrow> member \<Rightarrow> 'a role_db_scheme \<Rightarrow> fga_tuple list" where
  "role_assignment_tuples ctx a r m db =
    (case catalog_role_definition_for_role r db of
       Some d \<Rightarrow>
         (if rd_display_name d = ROLE_COVENANTER then [(openfga_member_user m, ''covenanter'', fc_platform_object ctx)]
          else if rd_display_name d = ROLE_DELIBERATOR then [(openfga_member_user m, ''deliberator'', fc_platform_object ctx)]
          else if rd_display_name d = ROLE_ADMINISTRATOR then [(openfga_member_user m, ''administrator'', fc_platform_object ctx)]
          else []) @
         (if rd_display_name d = ROLE_ADMINISTRATOR
          then [(openfga_member_user m, ''assignee'', openfga_role_object (ra_role a))] else [])
     | None \<Rightarrow> if guarded_role r db then [(openfga_member_user m, ''assignee'', openfga_role_object (ra_role a))] else [])"

definition role_assignment_is_current :: "time \<Rightarrow> role_assignment \<Rightarrow> role \<Rightarrow> member \<Rightarrow> 'a role_db_scheme \<Rightarrow> bool" where
  "role_assignment_is_current at a r m db \<longleftrightarrow>
    ra_status a = AssignmentActive \<and> rl_status r = RoleActive \<and> in_window at a \<and> member_allows_role_facts m \<and>
    ((case catalog_role_definition_for_role r db of Some d \<Rightarrow> rd_requires_covenanter d | None \<Rightarrow> guarded_role r db)
      \<longrightarrow> member_has_role [ROLE_COVENANTER] at db m)"

definition assignment_keys :: "fga_context \<Rightarrow> member \<Rightarrow> 'a role_db_scheme \<Rightarrow> (role_assignment \<Rightarrow> role \<Rightarrow> bool) \<Rightarrow> fga_tuple list" where
  "assignment_keys ctx m db P = concat (map (\<lambda>a. case role_of a db of None \<Rightarrow> []
     | Some r \<Rightarrow> if P a r then role_assignment_tuples ctx a r m db else [])
     (filter (\<lambda>a. ra_member a = m_id m) (role_assignments db)))"

text \<open>What \<^verbatim>\<open>remove_non_current_role_assignment_projections\<close> asks OpenFGA to delete.\<close>

definition stale_tuples :: "time \<Rightarrow> fga_context \<Rightarrow> member \<Rightarrow> 'a role_db_scheme \<Rightarrow> fga_tuple list" where
  "stale_tuples at ctx m db =
    (let current = assignment_keys ctx m db (\<lambda>a r. role_assignment_is_current at a r m db);
         stale = assignment_keys ctx m db (\<lambda>a r. \<not> role_assignment_is_current at a r m db)
     in sort (filter (\<lambda>t. t \<notin> set current) (remdups stale)))"

subsection \<open>Checks rest on current facts\<close>

lemma first_allowed_True: "first_allowed rs u = Some True \<longleftrightarrow> Some True \<in> set rs"
  by (induction rs u rule: first_allowed.induct) auto

lemma first_allowed_unavailable: "set rs \<subseteq> {None} \<Longrightarrow> rs \<noteq> [] \<or> u \<Longrightarrow> first_allowed rs u = None"
  by (induction rs u rule: first_allowed.induct) auto

lemma legacy_True:
  assumes "legacy_member_has_permission env m code resource at db = Inr True"
  shows "member_allows_role_facts m" "permission_requires_covenanter code \<Longrightarrow> member_has_role [ROLE_COVENANTER] at db m"
    "\<exists>a \<in> set (role_assignments db). \<exists>rp \<in> set (role_permissions db). lends_role at db m a \<and>
       rp_role rp = ra_role a \<and> rp_permission rp = code \<and>
       role_permission_applies_to_resource env rp resource = Inr True"
  using assms
  by (fastforce simp: legacy_member_has_permission_def dest!: any_result_True split: if_splits)+

lemma legacy_no_resource:
  "legacy_member_has_permission env m code None at db = Inr (member_allows_role_facts m \<and>
     (permission_requires_covenanter code \<longrightarrow> member_has_role [ROLE_COVENANTER] at db m) \<and>
     exists_row (\<lambda>a. lends_role at db m a \<and>
       exists_row (\<lambda>rp. rp_role rp = ra_role a \<and> rp_permission rp = code) (role_permissions db)) (role_assignments db))"
proof -
  have "any_result (\<lambda>rp. role_permission_applies_to_resource env rp None) xs = Inr (xs \<noteq> [])" for xs
    by (cases xs) (auto simp: role_permission_applies_to_resource_def)
  moreover have "(filter (\<lambda>rp. rp_permission rp = code \<and>
        exists_row (\<lambda>a. lends_role at db m a \<and> ra_role a = rp_role rp) (role_assignments db)) (role_permissions db) \<noteq> []) =
      exists_row (\<lambda>a. lends_role at db m a \<and>
        exists_row (\<lambda>rp. rp_role rp = ra_role a \<and> rp_permission rp = code) (role_permissions db)) (role_assignments db)"
    by (simp add: filter_empty_conv) metis
  ultimately show ?thesis by (simp add: legacy_member_has_permission_def)
qed

lemma stored_member_role:
  assumes "distinct (map m_id (members db))" "m \<in> set (members db)" "role_definition_for_name n \<noteq> None"
  shows "member_has_role [n] at db m \<longleftrightarrow> member_role_filter [n] at db m"
proof -
  have n: "n \<in> rd_display_name ` set ROLE_DEFINITIONS"
    using assms(3) by (auto simp: role_definition_for_name_def dest!: find_row_Some_iff)
  have "exists_row (\<lambda>x. m_id x = m_id m \<and> member_role_filter [n] at db x) (members db) \<longleftrightarrow> member_role_filter [n] at db m"
    using assms(2) distinct_map_unique [OF assms(1) _ assms(2)] by (simp, blast)
  moreover have "member_role_filter [n] at db m \<Longrightarrow> member_allows_role_facts m"
    by (simp add: member_role_filter_def current_catalog_role_filter_def)
  ultimately show ?thesis
    using assms(3) n by (auto simp: member_has_role_def active_member_role_names_def list_ex_iff)
qed

text \<open>The object identifiers of OpenFGA determine the permission and the resource.\<close>

fun b64_value :: "char \<Rightarrow> nat" where
  "b64_value c = (let n = of_char c in
     if 65 \<le> n \<and> n \<le> 90 then n - 65 else if 97 \<le> n \<and> n \<le> 122 then n - 71
     else if 48 \<le> n \<and> n \<le> 57 then n + 4 else if c = CHR ''-'' then 62 else 63)"

fun b64url_decode :: "string \<Rightarrow> nat list" where
  "b64url_decode (p # q # r # s # cs) =
    [b64_value p * 4 + b64_value q div 16, b64_value q mod 16 * 16 + b64_value r div 4,
     b64_value r mod 4 * 64 + b64_value s] @ b64url_decode cs"
| "b64url_decode [p, q, r] =
    [b64_value p * 4 + b64_value q div 16, b64_value q mod 16 * 16 + b64_value r div 4]"
| "b64url_decode [p, q] = [b64_value p * 4 + b64_value q div 16]"
| "b64url_decode _ = []"

lemma b64_value_char: "n < 64 \<Longrightarrow> b64_value (b64_char n) = n"
proof -
  have "\<forall>n \<in> {0..<64}. b64_value (b64_char n) = n" by (simp add: atLeastLessThan_nat_numeral b64_char_def) 
  then show "n < 64 \<Longrightarrow> b64_value (b64_char n) = n" by simp
qed

lemma b64url_roundtrip: "list_all (\<lambda>b. b < 256) bs \<Longrightarrow> b64url_decode (b64url bs) = bs"
proof (induction bs rule: b64url.induct)
  case (4 a b c bs)
  have "a div 4 < 64" "a mod 4 * 16 + b div 16 < 64" "b mod 16 * 4 + c div 64 < 64" "c mod 64 < 64"
    using 4 by auto
  moreover have "(a mod 4 * 16 + b div 16) div 16 = a mod 4" "(a mod 4 * 16 + b div 16) mod 16 = b div 16"
    "(b mod 16 * 4 + c div 64) div 4 = b mod 16" "(b mod 16 * 4 + c div 64) mod 4 = c div 64"
    using 4 by auto
  ultimately show ?case using 4 by (simp add: b64_value_char del: b64_value.simps)
next
  case (3 a b)
  have "a div 4 < 64" "a mod 4 * 16 + b div 16 < 64" "b mod 16 * 4 < 64"
    "(a mod 4 * 16 + b div 16) div 16 = a mod 4" "(a mod 4 * 16 + b div 16) mod 16 = b div 16" using 3 by auto
  then show ?case by (simp add: b64_value_char del: b64_value.simps)
next
  case (2 a)
  have "a div 4 < 64" "a mod 4 * 16 < 64" using 2 by auto
  then show ?case by (simp add: b64_value_char del: b64_value.simps)
qed simp

lemma b64_char_plain: "b64_char n \<noteq> CHR ''.''" "b64_char n \<noteq> CHR '':''"
proof -
  have n: "(of_char (b64_char n) :: nat) = (if n < 26 then 65 + n else if n < 52 then 71 + n
      else if n < 62 then n - 4 else if n = 62 then 45 else 95)"
    by (simp add: b64_char_def)
  have "(of_char (b64_char n) :: nat) \<noteq> 46" "(of_char (b64_char n) :: nat) \<noteq> 58" unfolding n by (simp, arith)+
  then show "b64_char n \<noteq> CHR ''.''" "b64_char n \<noteq> CHR '':''" by auto
qed

lemma b64url_plain: "CHR ''.'' \<notin> set (b64url bs) \<and> CHR '':'' \<notin> set (b64url bs)"
  by (induction bs rule: b64url.induct) (simp_all add: b64_char_plain b64_char_plain [symmetric])

lemma id_part_inj: "openfga_object_id_part s = openfga_object_id_part t \<longleftrightarrow> s = t"
proof
  assume "openfga_object_id_part s = openfga_object_id_part t"
  moreover have "list_all (\<lambda>b. b < 256) (map of_char u :: nat list)" for u :: string
    by (simp add: list_all_iff nat_of_char_less_256 image_iff)
  ultimately have "(map of_char s :: nat list) = map of_char t"
    using b64url_roundtrip [of "map of_char s"] b64url_roundtrip [of "map of_char t"]
    by (metis openfga_object_id_part_def)
  then show "s = t" by (simp add: inj_map_eq_map [OF inj_of_char])
qed simp

text \<open>The text \<^verbatim>\<open>global\<close> is not the encoding of any identifier: its last character has low bits.\<close>

lemma id_part_not_global: "openfga_object_id_part s \<noteq> ''global''"
proof
  assume g: "openfga_object_id_part s = ''global''"
  define bs :: "nat list" where "bs = map of_char s"
  from g have "b64url bs = ''global''" by (simp add: openfga_object_id_part_def bs_def)
  then obtain d where "b64_char (d mod 4 * 16) = CHR ''l''"
    by (cases bs rule: b64url.cases; auto elim!: b64url.elims)
  moreover have "d mod 4 * 16 < 64" by simp
  ultimately have "b64_value CHR ''l'' = d mod 4 * 16" using b64_value_char by metis
  then show False by (simp add: mult.commute) presburger
qed

lemma split_at_mark:
  "x \<notin> set as \<Longrightarrow> x \<notin> set as' \<Longrightarrow> as @ x # bs = as' @ x # bs' \<longleftrightarrow> as = as' \<and> bs = bs'"
proof (induction as arbitrary: as')
  case Nil
  then show ?case by (cases as') auto
next
  case (Cons a as)
  then show ?case by (cases as') auto
qed

lemma resource_object_parts:
  "resource_permission_object_type c @ '':'' @ openfga_object_id_part c @ ''.'' @ u =
   resource_permission_object_type c' @ '':'' @ openfga_object_id_part c' @ ''.'' @ u' \<longleftrightarrow> c = c' \<and> u = u'"
proof -
  have ty: "CHR '':'' \<notin> set (resource_permission_object_type k)" for k by (simp add: resource_permission_object_type_def)
  have dot: "CHR ''.'' \<notin> set (openfga_object_id_part k)" for k by (simp add: openfga_object_id_part_def b64url_plain)
  show ?thesis
    using split_at_mark [OF ty ty] split_at_mark [OF dot dot] id_part_inj by auto
qed

subsection \<open>An example organization\<close>

definition example_role :: "int \<Rightarrow> string \<Rightarrow> role" where
  "example_role i n = \<lparr>rl_id = i, rl_organization = 1, rl_name = n, rl_description = [], rl_status = RoleActive,
     rl_appointment_electorate_role = None, rl_appointment_required_percent = 50, rl_appointment_deadline_days = 7,
     rl_created_at = 0, rl_updated_at = 0\<rparr>"

definition example_assignment :: "int \<Rightarrow> int \<Rightarrow> int \<Rightarrow> role_assignment" where
  "example_assignment i m r = \<lparr>ra_id = i, ra_member = m, ra_role = r, ra_status = AssignmentActive, ra_start_at = 0,
     ra_end_at = 100, ra_granted_by = None, ra_revoked_by = None, ra_source_type = SourceInitialization,
     ra_created_at = 0, ra_updated_at = 0\<rparr>"

text \<open>Members 1 and 2 are covenanters and managers, member 3 is a covenanter with the finance role.\<close>

definition example_org_with :: "'a \<Rightarrow> 'a role_db_scheme" where
  "example_org_with tables = \<lparr>system_events = [], credit_accounts = [], credit_transactions = [],
     members = [example_member 1 ''M1'', example_member 2 ''M2'', example_member 3 ''M3''],
     tasks = [], ledger_entries = [], stream_events = [], resources = [example_resource], resource_transactions = [],
     organizations = [\<lparr>og_id = 1, og_name = ROLE_CATALOG_ORGANIZATION_NAME,
       og_role_catalog_key = Some ROLE_CATALOG_ORGANIZATION_KEY, og_parent = None, og_status = OrgActive,
       og_created_at = 0, og_updated_at = 0\<rparr>],
     roles = [example_role 1 ROLE_COVENANTER, example_role 2 ROLE_ADMINISTRATOR, example_role 3 ''finance''],
     permissions = [],
     role_permissions =
       [\<lparr>rp_role = 2, rp_permission = ''governance.view_admin'', rp_scope = ''global'', rp_constraints_json = JObj []\<rparr>,
        \<lparr>rp_role = 3, rp_permission = ''finance.review'', rp_scope = ''global'', rp_constraints_json = JObj []\<rparr>],
     role_assignments =
       [example_assignment 1 1 1, example_assignment 2 1 2, example_assignment 3 2 1, example_assignment 4 2 2,
        example_assignment 5 3 1, example_assignment 6 3 3], \<dots> = tables\<rparr>"

definition example_org :: role_db where
  "example_org = example_org_with ()"

definition legacy_fga :: fga where
  "legacy_fga = \<lparr>fga_backend = ''legacy'', fga_current_world = None, fga_site_role = [], fga_world_instance_type = [],
     fga_real = \<lparr>fc_world_kind = [], fc_api_url = [], fc_store_name = [], fc_store_id = [],
       fc_authorization_model_id = [], fc_platform_object = []\<rparr>,
     fga_sim = \<lparr>fc_world_kind = [], fc_api_url = [], fc_store_name = [], fc_store_id = [],
       fc_authorization_model_id = [], fc_platform_object = []\<rparr>,
     fga_check = (\<lambda>ctx u r ob. None)\<rparr>"

lemmas example_org_defs = example_org_def example_org_with_def example_role_def example_assignment_def legacy_fga_def example_member_def
  plain_env_def

lemmas authority_defs = member_can_administer_def member_has_permission_def legacy_no_resource
  permission_requires_covenanter_def member_has_role_def active_member_role_names_def member_role_filter_def
  current_catalog_role_filter_def catalog_assignment_def member_allows_role_facts_def role_definition_for_name_def
  role_of_def organization_of_def in_window_def lends_role_def

lemma example_org_roles:
  "is_administrator plain_env legacy_fga (example_member 1 ''M1'') (example_org_with x) = Inr True"
  "is_administrator plain_env legacy_fga (example_member 2 ''M2'') (example_org_with x) = Inr True"
  "is_administrator plain_env legacy_fga (example_member 3 ''M3'') (example_org_with x) = Inr False"
  "is_finance_reviewer plain_env legacy_fga (example_member 1 ''M1'') (example_org_with x) = Inr False"
  "is_finance_reviewer plain_env legacy_fga (example_member 3 ''M3'') (example_org_with x) = Inr True"
  by (simp_all add: is_administrator_def is_finance_reviewer_def authority_defs example_org_defs catalog_defs)

subsection \<open>Properties of authorization\<close>

text \<open>C16. OpenFGA can only narrow what the stored facts allow: a permission is granted only to a member
  whose status and login allow it, who holds a current assignment to an active role that carries
  the permission for the resource and, for governance and finance permissions, is a covenanter at
  that instant; and only when the backend is the legacy one or OpenFGA itself answered yes.\<close>

theorem permission_needs_current_authority:
  assumes "member_has_permission env f m code resource at db = Inr True"
  shows "member_allows_role_facts m \<and>
    (permission_requires_covenanter code \<longrightarrow> member_has_role [ROLE_COVENANTER] at db m) \<and>
    (\<exists>a \<in> set (role_assignments db). \<exists>rp \<in> set (role_permissions db).
       lends_role at db m a \<and> rp_role rp = ra_role a \<and> rp_permission rp = code \<and>
       role_permission_applies_to_resource env rp resource = Inr True) \<and>
    (fga_backend f = ''legacy'' \<or> fga_backend f = ''openfga'' \<and>
      (\<exists>ctx. \<exists>obj \<in> set (permission_checks code resource).
         fga_check f ctx (openfga_member_user m) ''holder'' obj = Some True))"
proof -
  have l: "legacy_member_has_permission env m code resource at db = Inr True"
    using assms by (auto simp: member_has_permission_def split: if_splits)
  have "fga_backend f = ''openfga'' \<and> (\<exists>ctx. \<exists>obj \<in> set (permission_checks code resource).
         fga_check f ctx (openfga_member_user m) ''holder'' obj = Some True)" if "fga_backend f \<noteq> ''legacy''"
  proof -
    from assms that have "fga_backend f = ''openfga''"
      "openfga_member_has_permission f m code resource = Inr (Some True)"
      by (auto simp: member_has_permission_def split: if_splits)
    then show ?thesis
      by (auto simp: openfga_member_has_permission_def first_allowed_True image_iff split: if_splits dest!: sym [of "Some True"])
  qed
  then show ?thesis using legacy_True [OF l] by blast
qed

theorem permission_needs_current_authority_witness:
  "member_has_role [ROLE_COVENANTER] 0 example_org (example_member 1 ''M1'') \<and>
   (\<exists>a \<in> set (role_assignments example_org). lends_role 0 example_org (example_member 1 ''M1'') a)"
proof -
  have "member_has_permission plain_env legacy_fga (example_member 1 ''M1'') ''governance.view_admin'' None 0 example_org = Inr True"
    using example_org_roles(1) [of "()"]
    by (simp add: example_org_def is_administrator_def member_can_administer_def ADMINISTRATION_VIEW_ADMIN_PERMISSION_def plain_env_def)
  from permission_needs_current_authority [OF this] show ?thesis
    by (auto simp: permission_requires_covenanter_def)
qed




end
