(* ===== verification/Credentials.thy ===== *)
theory Credentials
  imports Authorization
begin

text \<open>
  Credential templates and grants: \<^verbatim>\<open>core/credential_services.py\<close>, the models of
  \<^verbatim>\<open>core/models/credentials.py\<close> and \<^verbatim>\<open>credential_grant_payload\<close>. A grant names its template by the
  template's unique business identifier.

  A failed insert inside an atomic block marks the block for rollback, and every later query in
  it raises \<^verbatim>\<open>TransactionManagementError\<close> (Django's documented behaviour). Both callers of
  \<^verbatim>\<open>_issue_credential_unlocked\<close> are atomic blocks, so its re-read after an \<^verbatim>\<open>IntegrityError\<close>
  raises.
\<close>

subsection \<open>Rows\<close>

datatype credential_type = CovenanterNumber | Badge | Certificate | NftPlaceholder

fun credential_type_value :: "credential_type \<Rightarrow> string" where
  "credential_type_value CovenanterNumber = ''covenanter_number''"
| "credential_type_value Badge = ''badge''"
| "credential_type_value Certificate = ''certificate''"
| "credential_type_value NftPlaceholder = ''nft_placeholder''"

datatype template_status = TemplateActive | TemplateArchived
datatype template_visibility = TemplatePublic | TemplateInternal

record credential_template =
  ct_template_id :: string
  ct_code :: string
  ct_name :: string
  ct_description :: string
  ct_credential_type :: credential_type
  ct_template_status :: template_status
  ct_visibility :: template_visibility
  ct_icon_url :: string
  ct_display_order :: int
  ct_template_metadata :: json
  ct_template_created_at :: time
  ct_template_updated_at :: time

datatype grant_status = GrantActive | GrantRevoked | GrantArchived

fun grant_status_value :: "grant_status \<Rightarrow> string" where
  "grant_status_value GrantActive = ''active''"
| "grant_status_value GrantRevoked = ''revoked''"
| "grant_status_value GrantArchived = ''archived''"

datatype grant_source = GrantSystem | GrantProposalExecution | GrantManual | GrantEarned

fun grant_source_value :: "grant_source \<Rightarrow> string" where
  "grant_source_value GrantSystem = ''system''"
| "grant_source_value GrantProposalExecution = ''proposal_execution''"
| "grant_source_value GrantManual = ''manual''"
| "grant_source_value GrantEarned = ''earned''"

record credential_grant =
  cg_grant_id :: string
  cg_template :: string
  cg_member :: int
  cg_serial_no :: "int option"
  cg_display_no :: string
  cg_title :: string
  cg_status :: grant_status
  cg_issued_at :: time
  cg_issued_by :: "int option"
  cg_source_type :: grant_source
  cg_metadata :: json
  cg_dedupe_key :: string
  cg_created_at :: time
  cg_updated_at :: time

record credential_db = role_db +
  credential_templates :: "credential_template list"
  credential_grants :: "credential_grant list"

subsection \<open>Built-in templates\<close>

record template_spec =
  ts_template_id :: string
  ts_code :: string
  ts_name :: string
  ts_credential_type :: credential_type
  ts_display_order :: int
  ts_description :: string
  ts_metadata :: "json option"

text \<open>One recruitment direction of the list: code, label, description, required count, sort order.\<close>

definition recruitment_spec ::
    "string \<Rightarrow> string \<Rightarrow> string \<Rightarrow> string \<Rightarrow> string \<Rightarrow> int \<Rightarrow> int \<Rightarrow> template_spec" where
  "recruitment_spec slug code label description public_description required sort_order =
    \<lparr>ts_template_id = ''credential-template-'' @ slug, ts_code = code, ts_name = label,
     ts_credential_type = Certificate, ts_display_order = 100, ts_description = description,
     ts_metadata = Some (JObj [(''recruitment'', JObj [(''show_on_application'', JBool True),
       (''required_count'', JInt required), (''public_label'', JStr label),
       (''public_description'', JStr public_description), (''sort_order'', JInt sort_order)])])\<rparr>"

definition builtin_credential_templates :: "template_spec list" where
  "builtin_credential_templates =
    [\<lparr>ts_template_id = ''credential-template-covenanter-number'', ts_code = ''covenanter_number'',
      ts_name = ''covenanter number'', ts_credential_type = CovenanterNumber, ts_display_order = 1,
      ts_description = [], ts_metadata = None\<rparr>,
     recruitment_spec ''company-legal-rep'' ''company_legal_representative'' ''company legal representative''
       ''members willing to bear legal responsibility and take part in company governance''
       ''people willing to bear legal responsibility and take part in company governance'' 2 10,
     recruitment_spec ''finance-responsible'' ''finance_responsible_person'' ''finance lead''
       ''community finance review, budget and public finance records''
       ''community finance review, budget and public records'' 1 20,
     recruitment_spec ''legal-advisor'' ''legal_advisor'' ''lawyer or legal advisor''
       ''legal compliance advice and review of responsibility documents''
       ''legal compliance advice and document review'' 1 30,
     recruitment_spec ''medical-support'' ''medical_support'' ''doctor or health support''
       ''basic health advice and first-aid support for members''
       ''basic health advice and first aid for members'' 1 40,
     recruitment_spec ''electrician-facility'' ''electrician_facility'' ''electrician or facility maintenance''
       ''electrical safety, daily maintenance and repair of facilities''
       ''electrical safety and daily maintenance of facilities'' 1 50,
     recruitment_spec ''ai-engineer'' ''ai_engineer'' ''AI engineer''
       ''development and maintenance of community AI and automation''
       ''development and maintenance of community AI and automation'' 2 60,
     recruitment_spec ''content-recorder'' ''content_recorder'' ''content recorder''
       ''event records, documents and announcements''
       ''event records, documents and notices'' 2 70,
     recruitment_spec ''life-service'' ''life_service'' ''life services''
       ''catering, cleaning and other daily operations''
       ''catering, cleaning and other daily operations'' 3 80,
     \<lparr>ts_template_id = ''credential-template-provider-delivery-completed'',
      ts_code = ''provider_delivery_completed'', ts_name = ''completed delivery'',
      ts_credential_type = Certificate, ts_display_order = 200,
      ts_description = ''an accepted offer was delivered, inspected and paid or donated'',
      ts_metadata = Some (JObj [(''category'', JStr ''procurement''),
        (''public_label'', JStr ''completed delivery''),
        (''public_description'', JStr ''completed one public supply or donation''),
        (''nft_ready'', JBool True)])\<rparr>]"

definition template_of_spec :: "env \<Rightarrow> template_spec \<Rightarrow> credential_template" where
  "template_of_spec env s =
    \<lparr>ct_template_id = ts_template_id s, ct_code = ts_code s, ct_name = ts_name s,
     ct_description = ts_description s, ct_credential_type = ts_credential_type s,
     ct_template_status = TemplateActive, ct_visibility = TemplatePublic, ct_icon_url = [],
     ct_display_order = ts_display_order s,
     ct_template_metadata = (case ts_metadata s of None \<Rightarrow> JObj [] | Some j \<Rightarrow> j),
     ct_template_created_at = now env, ct_template_updated_at = now env\<rparr>"

definition insert_template :: "credential_template \<Rightarrow> 'a credential_db_scheme \<Rightarrow> 'a credential_db_scheme result" where
  "insert_template t db =
    (if exists_row (\<lambda>x. ct_template_id x = ct_template_id t \<or> ct_code x = ct_code t) (credential_templates db)
     then Inl IntegrityError
     else Inr (db\<lparr>credential_templates := credential_templates db @ [t]\<rparr>))"

definition save_template :: "credential_template \<Rightarrow> 'a credential_db_scheme \<Rightarrow> 'a credential_db_scheme" where
  "save_template t db = db\<lparr>credential_templates :=
     update_rows (\<lambda>x. ct_template_id x = ct_template_id t) (\<lambda>_. t) (credential_templates db)\<rparr>"

text \<open>\<^verbatim>\<open>get_or_create(code=...)\<close> of one specification, then the recruitment data it lacks.\<close>

definition ensure_template :: "env \<Rightarrow> template_spec \<Rightarrow> 'a credential_db_scheme \<Rightarrow> (bool \<times> 'a credential_db_scheme) result" where
  "ensure_template env s db =
    (case find_row (\<lambda>t. ct_code t = ts_code s) (credential_templates db) of
       None \<Rightarrow> and_then (insert_template (template_of_spec env s) db) (\<lambda>db'. Inr (True, db'))
     | Some t \<Rightarrow>
        (case ts_metadata s of None \<Rightarrow> Inr (False, db)
         | Some meta \<Rightarrow>
            let current = or_empty_dict (ct_template_metadata t) in
            if \<not> is_obj current then Inl (TypeError ''dict'')
            else (case (json_get ''recruitment'' current, json_get ''recruitment'' meta) of
               (None, Some r) \<Rightarrow>
                 Inr (False, save_template (t\<lparr>ct_template_metadata := json_set ''recruitment'' r current\<rparr>) db)
             | _ \<Rightarrow> Inr (False, db))))"

fun ensure_templates :: "env \<Rightarrow> template_spec list \<Rightarrow> 'a credential_db_scheme \<Rightarrow> (nat \<times> 'a credential_db_scheme) result" where
  "ensure_templates env [] db = Inr (0, db)"
| "ensure_templates env (s # ss) db =
    and_then (ensure_template env s db) (\<lambda>(was_created, db1).
    and_then (ensure_templates env ss db1) (\<lambda>(n, db2).
      Inr ((if was_created then 1 else 0) + n, db2)))"

definition ensure_builtin_credential_templates ::
    "env \<Rightarrow> 'a credential_db_scheme \<Rightarrow> (nat \<times> 'a credential_db_scheme) result" where
  "ensure_builtin_credential_templates env db = ensure_templates env builtin_credential_templates db"

subsection \<open>Issuing credentials\<close>

definition next_display_no :: "int \<Rightarrow> string" where
  "next_display_no serial_no = ''#'' @ show_int serial_no"

definition credential_grant_payload :: "credential_grant \<Rightarrow> credential_template \<Rightarrow> member \<Rightarrow> json" where
  "credential_grant_payload g t m =
    (let recipient_label = public_member_label (m_display_name m) (m_member_no m);
         no_text = (if cg_display_no g \<noteq> [] then cg_display_no g
            else (case cg_serial_no g of None \<Rightarrow> [] | Some n \<Rightarrow> if n = 0 then [] else show_int n))
     in public_event_payload ''credential_grant'' (''credential:'' @ ct_code t @ '':'' @ no_text)
          (ct_name t @ '' '' @ cg_display_no g) ''granted'' (grant_status_value (cg_status g))
          (''member '' @ recipient_label @ '' gained credential '' @ ct_name t @ '' '' @ cg_display_no g)
          [(''template_code'', JStr (ct_code t)), (''template_name'', JStr (ct_name t)),
           (''credential_type'', JStr (credential_type_value (ct_credential_type t))),
           (''display_no'', JStr (cg_display_no g)),
           (''serial_no'', json_opt_int (cg_serial_no g)),
           (''recipient_public_label'', JStr recipient_label),
           (''source_type'', JStr (grant_source_value (cg_source_type g)))]
          [private_commitment ''member_id'' True ''internal id of the member'',
           private_commitment ''grant_id'' True ''internal id of the grant''])"

definition insert_grant :: "credential_grant \<Rightarrow> 'a credential_db_scheme \<Rightarrow> 'a credential_db_scheme result" where
  "insert_grant g db =
    (if exists_row (\<lambda>x. cg_grant_id x = cg_grant_id g \<or>
          cg_template x = cg_template g \<and> cg_member x = cg_member g \<and> cg_dedupe_key x = cg_dedupe_key g)
         (credential_grants db) \<or> (case cg_serial_no g of None \<Rightarrow> False | Some n \<Rightarrow> n < 0)
     then Inl IntegrityError
     else Inr (db\<lparr>credential_grants := credential_grants db @ [g]\<rparr>))"

definition new_grant ::
    "env \<Rightarrow> string \<Rightarrow> credential_template \<Rightarrow> member \<Rightarrow> string \<Rightarrow> grant_source \<Rightarrow> int option \<Rightarrow> int option \<Rightarrow>
     string \<Rightarrow> json \<Rightarrow> credential_grant" where
  "new_grant env uid t m dedupe_key source_type issued_by serial_no title metadata =
    \<lparr>cg_grant_id = ''credential-grant-'' @ uid, cg_template = ct_template_id t, cg_member = m_id m,
     cg_serial_no = serial_no,
     cg_display_no = (case serial_no of None \<Rightarrow> [] | Some n \<Rightarrow> next_display_no n),
     cg_title = (if title \<noteq> [] then title else ct_name t), cg_status = GrantActive,
     cg_issued_at = now env, cg_issued_by = issued_by, cg_source_type = source_type,
     cg_metadata = or_empty_dict metadata, cg_dedupe_key = dedupe_key, cg_created_at = now env,
     cg_updated_at = now env\<rparr>"

definition issue_credential ::
    "env \<Rightarrow> string \<Rightarrow> credential_template \<Rightarrow> member \<Rightarrow> string \<Rightarrow> grant_source \<Rightarrow> int option \<Rightarrow> int option \<Rightarrow>
     string \<Rightarrow> json \<Rightarrow> 'a credential_db_scheme \<Rightarrow> (credential_grant \<times> 'a credential_db_scheme) result" where
  "issue_credential env uid t m dedupe_key source_type issued_by serial_no title metadata db =
    (if dedupe_key = [] then Inl (DomainError ''dedupe_key is empty'')
     else let g = new_grant env uid t m dedupe_key source_type issued_by serial_no title metadata in
       (case insert_grant g db of
          Inl e \<Rightarrow> Inl TransactionManagementError
        | Inr db1 \<Rightarrow>
           and_then (append_event env ''credential_granted'' ''CredentialGrant'' (cg_grant_id g) issued_by None
             (credential_grant_payload g t m) (Some (cg_issued_at g)) db1) (\<lambda>(e, db2). Inr (g, db2))))"

text \<open>The default order of grants: by serial number, those without one last.\<close>

definition grants_by_serial :: "credential_grant list \<Rightarrow> credential_grant list" where
  "grants_by_serial gs =
    sort_key (\<lambda>g. (cg_serial_no g = None, case cg_serial_no g of None \<Rightarrow> 0 | Some n \<Rightarrow> n)) gs"

definition max_serial :: "string \<Rightarrow> 'a credential_db_scheme \<Rightarrow> int" where
  "max_serial tid db = foldr (\<lambda>g n. if cg_template g = tid then
      (case cg_serial_no g of None \<Rightarrow> n | Some k \<Rightarrow> max k n) else n) (credential_grants db) 0"

definition covenanter_key :: "member \<Rightarrow> string" where
  "covenanter_key m = ''covenanter_number:'' @ m_member_no m"

definition issue_covenanter_number ::
    "env \<Rightarrow> string \<Rightarrow> member \<Rightarrow> int option \<Rightarrow> 'a credential_db_scheme \<Rightarrow>
     (credential_grant \<times> 'a credential_db_scheme) result" where
  "issue_covenanter_number env uid m issued_by db =
    and_then (ensure_builtin_credential_templates env db) (\<lambda>(n, db1).
      case find_row (\<lambda>t. ct_code t = ''covenanter_number'') (credential_templates db1) of
        None \<Rightarrow> Inl (DoesNotExist ''CredentialTemplate'')
      | Some t \<Rightarrow>
         (case grants_by_serial (filter (\<lambda>g. cg_template g = ct_template_id t \<and> cg_member g = m_id m)
                 (credential_grants db1)) of
            existing # rest \<Rightarrow> Inr (existing, db1)
          | [] \<Rightarrow> issue_credential env uid t m (covenanter_key m) GrantSystem issued_by
               (Some (max_serial (ct_template_id t) db1 + 1)) [] JNull db1))"

subsection \<open>Recruitment directions\<close>

text \<open>\<^verbatim>\<open>d.get(k)\<close>, and \<^verbatim>\<open>v or default\<close>.\<close>

definition dict_get :: "string \<Rightarrow> json \<Rightarrow> json option result" where
  "dict_get k d = (if is_obj d then Inr (json_get k d) else Inl (AttributeError ''get''))"

definition json_or :: "json option \<Rightarrow> json \<Rightarrow> json" where
  "json_or v d = (case v of None \<Rightarrow> d | Some x \<Rightarrow> if json_truthy x then x else d)"

definition recruitment_meta :: "credential_template \<Rightarrow> json result" where
  "recruitment_meta t =
    (if json_truthy (ct_template_metadata t) then
       and_then (dict_get ''recruitment'' (ct_template_metadata t)) (\<lambda>v.
         Inr (case v of None \<Rightarrow> JObj [] | Some r \<Rightarrow> r))
     else Inr (JObj []))"

record recruitment_gap =
  rg_code :: string
  rg_public_label :: json
  rg_public_description :: json
  rg_required_count :: int
  rg_current_count :: int
  rg_missing_count :: int
  rg_sort_order :: int
  rg_display_order :: int
  rg_is_open :: bool

definition credential_recruitment_gap :: "credential_template \<Rightarrow> 'a credential_db_scheme \<Rightarrow> recruitment_gap result" where
  "credential_recruitment_gap t db =
    and_then (recruitment_meta t) (\<lambda>meta.
    and_then (dict_get ''required_count'' meta) (\<lambda>rc.
    and_then (py_int (json_or rc (JInt 0))) (\<lambda>required.
    let current = int (length (filter (\<lambda>g. cg_template g = ct_template_id t \<and> cg_status g = GrantActive)
          (credential_grants db)));
        missing = max (required - current) 0
    in and_then (dict_get ''sort_order'' meta) (\<lambda>so.
       and_then (py_int (json_or so (JInt (ct_display_order t)))) (\<lambda>sort_order.
         Inr \<lparr>rg_code = ct_code t,
           rg_public_label = json_or (json_get ''public_label'' meta) (JStr (ct_name t)),
           rg_public_description = json_or (json_get ''public_description'' meta) (JStr (ct_description t)),
           rg_required_count = required, rg_current_count = current, rg_missing_count = missing,
           rg_sort_order = sort_order, rg_display_order = ct_display_order t,
           rg_is_open = (required \<le> 0 \<or> missing > 0)\<rparr>)))))"

definition recruitment_templates :: "'a credential_db_scheme \<Rightarrow> credential_template list" where
  "recruitment_templates db = sort_key (\<lambda>t. (ct_display_order t, ct_code t))
     (filter (\<lambda>t. ct_template_status t = TemplateActive \<and> ct_code t \<noteq> ''covenanter_number'')
       (credential_templates db))"

definition gap_order :: "recruitment_gap \<Rightarrow> int \<times> int \<times> string" where
  "gap_order g = (rg_sort_order g, rg_display_order g, rg_code g)"

definition shown_on_application :: "credential_template \<Rightarrow> bool result" where
  "shown_on_application t =
    and_then (recruitment_meta t) (\<lambda>meta. and_then (dict_get ''show_on_application'' meta) (\<lambda>v.
      Inr (json_truthy (json_or v (JBool False)))))"

fun shown_gaps :: "credential_template list \<Rightarrow> 'a credential_db_scheme \<Rightarrow> recruitment_gap list result" where
  "shown_gaps [] db = Inr []"
| "shown_gaps (t # ts) db =
    and_then (shown_on_application t) (\<lambda>shown.
      if \<not> shown then shown_gaps ts db
      else and_then (credential_recruitment_gap t db) (\<lambda>g.
           and_then (shown_gaps ts db) (\<lambda>gs. Inr (g # gs))))"

definition recruitment_credential_options :: "'a credential_db_scheme \<Rightarrow> recruitment_gap list result" where
  "recruitment_credential_options db =
    and_then (shown_gaps (recruitment_templates db) db) (\<lambda>rows. Inr (sort_key gap_order rows))"

definition recruitment_option_for_code :: "string \<Rightarrow> 'a credential_db_scheme \<Rightarrow> recruitment_gap option result" where
  "recruitment_option_for_code code db =
    (if code = ''covenanter_number'' then Inr None
     else (case find_row (\<lambda>t. ct_code t = code \<and> ct_template_status t = TemplateActive) (credential_templates db) of
         None \<Rightarrow> Inr None
       | Some t \<Rightarrow> and_then (shown_on_application t) (\<lambda>shown.
           if \<not> shown then Inr None
           else and_then (credential_recruitment_gap t db) (\<lambda>g. Inr (Some g)))))"

record credential_view =
  cv_grant :: credential_grant
  cv_template_code :: string
  cv_template_name :: string
  cv_credential_type :: credential_type
  cv_display_order :: int

definition credentials_for_member :: "member \<Rightarrow> 'a credential_db_scheme \<Rightarrow> credential_view list" where
  "credentials_for_member m db =
    sort_key (\<lambda>v. (cv_display_order v, cg_serial_no (cv_grant v) = None,
        case cg_serial_no (cv_grant v) of None \<Rightarrow> 0 | Some n \<Rightarrow> n))
      (concat (map (\<lambda>g. case find_row (\<lambda>t. ct_template_id t = cg_template g) (credential_templates db) of
          None \<Rightarrow> []
        | Some t \<Rightarrow> if ct_visibility t = TemplatePublic then
             [\<lparr>cv_grant = g, cv_template_code = ct_code t, cv_template_name = ct_name t,
               cv_credential_type = ct_credential_type t, cv_display_order = ct_display_order t\<rparr>] else [])
        (filter (\<lambda>g. cg_member g = m_id m \<and> cg_status g = GrantActive) (credential_grants db))))"

subsection \<open>Recruitment codes\<close>

definition is_code_letter :: "char \<Rightarrow> bool" where
  "is_code_letter c = (let n = (of_char c :: nat) in 97 \<le> n \<and> n \<le> 122)"

definition is_code_char :: "char \<Rightarrow> bool" where
  "is_code_char c \<longleftrightarrow> is_code_letter c \<or> is_digit c \<or> c = CHR ''_''"

text \<open>\<^verbatim>\<open>re.sub(r"[...]+", "_", s)\<close>: every maximal run of the class becomes one underscore.\<close>

function collapse_runs :: "(char \<Rightarrow> bool) \<Rightarrow> string \<Rightarrow> string" where
  "collapse_runs P [] = []"
| "collapse_runs P (c # cs) =
    (if P c then CHR ''_'' # collapse_runs P (dropWhile P cs) else c # collapse_runs P cs)"
  by pat_completeness auto
termination
  by (relation "measure (\<lambda>(P, s). length s)") (auto simp: le_imp_less_Suc length_dropWhile_le)

definition strip_underscores :: "string \<Rightarrow> string" where
  "strip_underscores s = rev (dropWhile (\<lambda>c. c = CHR ''_'') (rev (dropWhile (\<lambda>c. c = CHR ''_'') s)))"

text \<open>\<^verbatim>\<open>^[a-z][a-z0-9_]{2,63}$\<close>\<close>

fun valid_recruitment_code :: "string \<Rightarrow> bool" where
  "valid_recruitment_code [] = False"
| "valid_recruitment_code (c # cs) \<longleftrightarrow>
    is_code_letter c \<and> list_all is_code_char cs \<and> 2 \<le> length cs \<and> length cs \<le> 63"

definition normalize_recruitment_template_code :: "string \<Rightarrow> string result" where
  "normalize_recruitment_template_code raw =
    (let s = py_lower (py_strip raw) in
     if s = [] then Inl (DomainError ''the code is empty'')
     else if \<not> list_all (\<lambda>c. is_code_char c \<or> c = CHR '' '' \<or> c = CHR ''-'') s then
       Inl (DomainError ''the code has a character that is not allowed'')
     else let s1 = collapse_runs (\<lambda>c. is_space c \<or> c = CHR ''-'') s;
              s2 = collapse_runs (\<lambda>c. c = CHR ''_'') s1;
              s3 = strip_underscores s2
          in if valid_recruitment_code s3 then Inr s3
             else Inl (DomainError ''the code must start with a letter and have 3 to 64 characters''))"

subsection \<open>Managing recruitment directions\<close>

text \<open>\<^verbatim>\<open>try: int(v) except (TypeError, ValueError): raise DomainError(...)\<close>\<close>

definition int_or_domain_error :: "json \<Rightarrow> string \<Rightarrow> int result" where
  "int_or_domain_error v message = (case py_int v of Inr n \<Rightarrow> Inr n | Inl e \<Rightarrow> Inl (DomainError message))"

definition recruitment_json :: "bool \<Rightarrow> string \<Rightarrow> string \<Rightarrow> int \<Rightarrow> int \<Rightarrow> json" where
  "recruitment_json shown label description required sort_order =
    JObj [(''show_on_application'', JBool shown), (''public_label'', JStr label),
      (''public_description'', JStr description), (''required_count'', JInt required),
      (''sort_order'', JInt sort_order)]"

definition create_recruitment_template ::
    "env \<Rightarrow> fga \<Rightarrow> string \<Rightarrow> member \<Rightarrow> string \<Rightarrow> string \<Rightarrow> string \<Rightarrow> json \<Rightarrow> json \<Rightarrow> 'a credential_db_scheme \<Rightarrow>
     (credential_template \<times> 'a credential_db_scheme) result" where
  "create_recruitment_template env f uid actor code public_label public_description required_count sort_order db =
    and_then (is_administrator env f actor db) (\<lambda>admin.
    if \<not> admin then Inl (DomainError ''only administrators may add a recruitment direction'')
    else and_then (normalize_recruitment_template_code code) (\<lambda>norm_code.
    if norm_code = ''covenanter_number'' then Inl (DomainError ''not a recruitment direction'')
    else if exists_row (\<lambda>t. ct_code t = norm_code) (credential_templates db) then
      Inl (DomainError ''the code exists'')
    else let label = py_strip public_label; description = py_strip public_description in
      if label = [] then Inl (DomainError ''the label is empty'')
      else if length label > 255 then Inl (DomainError ''the label is too long'')
      else if length description > 500 then Inl (DomainError ''the description is too long'')
      else and_then (int_or_domain_error required_count ''the required count must be an integer'') (\<lambda>required.
        if required < 0 then Inl (DomainError ''the required count must not be negative'')
        else and_then (int_or_domain_error sort_order ''the sort order must be an integer'') (\<lambda>order.
          let template_id = ''credential-template-'' @ norm_code;
              template_id' = (if exists_row (\<lambda>t. ct_template_id t = template_id) (credential_templates db)
                then template_id @ ''-'' @ uid else template_id);
              t = \<lparr>ct_template_id = template_id', ct_code = norm_code, ct_name = label,
                ct_description = description, ct_credential_type = Certificate,
                ct_template_status = TemplateActive, ct_visibility = TemplatePublic, ct_icon_url = [],
                ct_display_order = order,
                ct_template_metadata = JObj [(''recruitment'',
                  recruitment_json True label description required order)],
                ct_template_created_at = now env, ct_template_updated_at = now env\<rparr>
          in and_then (insert_template t db) (\<lambda>db'. Inr (t, db'))))))"

definition recruitment_templates_for_management ::
    "env \<Rightarrow> 'a credential_db_scheme \<Rightarrow> ((recruitment_gap \<times> credential_template \<times> bool) list \<times> 'a credential_db_scheme) result" where
  "recruitment_templates_for_management env db =
    and_then (ensure_builtin_credential_templates env db) (\<lambda>(n, db1).
    and_then (map_result (\<lambda>t. and_then (credential_recruitment_gap t db1) (\<lambda>g.
        and_then (shown_on_application t) (\<lambda>shown. Inr (g, t, shown)))) (recruitment_templates db1)) (\<lambda>rows.
      Inr (sort_key (\<lambda>(g, t, shown). gap_order g) rows, db1)))"

definition update_recruitment_template_config ::
    "env \<Rightarrow> fga \<Rightarrow> member \<Rightarrow> string \<Rightarrow> bool \<Rightarrow> string \<Rightarrow> string \<Rightarrow> json \<Rightarrow> json \<Rightarrow> 'a credential_db_scheme \<Rightarrow>
     (recruitment_gap \<times> 'a credential_db_scheme) result" where
  "update_recruitment_template_config env f actor template_code shown public_label public_description
      required_count sort_order db =
    and_then (is_administrator env f actor db) (\<lambda>admin.
    if \<not> admin then Inl (DomainError ''only administrators may configure a recruitment direction'')
    else if template_code = ''covenanter_number'' then Inl (DomainError ''not a recruitment direction'')
    else and_then (int_or_domain_error required_count ''the required count must be an integer'') (\<lambda>required.
      if required < 0 then Inl (DomainError ''the required count must not be negative'')
      else and_then (int_or_domain_error sort_order ''the sort order must be an integer'') (\<lambda>order.
        case find_row (\<lambda>t. ct_code t = template_code \<and> ct_template_status t = TemplateActive)
            (credential_templates db) of
          None \<Rightarrow> Inl (DomainError ''no such recruitment direction'')
        | Some t \<Rightarrow>
           let label = py_strip (if public_label \<noteq> [] then public_label else ct_name t);
               description = py_strip public_description;
               current = or_empty_dict (ct_template_metadata t)
           in if label = [] then Inl (DomainError ''the label is empty'')
              else if length label > 255 then Inl (DomainError ''the label is too long'')
              else if length description > 500 then Inl (DomainError ''the description is too long'')
              else if \<not> is_obj current then Inl (TypeError ''dict'')
              else let t' = t\<lparr>ct_name := label, ct_description := description,
                     ct_template_metadata := json_set ''recruitment''
                       (recruitment_json shown label description required order) current,
                     ct_template_updated_at := now env\<rparr>;
                   db' = save_template t' db
                in and_then (credential_recruitment_gap t' db') (\<lambda>g. Inr (g, db')))))"

subsection \<open>Built-in templates are created once\<close>

definition template_ids :: "'a credential_db_scheme \<Rightarrow> string list" where
  "template_ids db = map ct_template_id (credential_templates db)"

definition templates_wf :: "'a credential_db_scheme \<Rightarrow> bool" where
  "templates_wf db \<longleftrightarrow> distinct (template_ids db) \<and> distinct (map ct_code (credential_templates db)) \<and>
     (\<forall>g \<in> set (credential_grants db). cg_template g \<in> set (template_ids db))"

text \<open>Two states that differ at most in rows of templates, whose identifiers and codes stay.\<close>

definition templates_kept :: "'a credential_db_scheme \<Rightarrow> 'a credential_db_scheme \<Rightarrow> bool" where
  "templates_kept db db' \<longleftrightarrow> (\<exists>ts. db' = db\<lparr>credential_templates := ts\<rparr>) \<and>
     prefix (map (\<lambda>t. (ct_template_id t, ct_code t)) (credential_templates db))
       (map (\<lambda>t. (ct_template_id t, ct_code t)) (credential_templates db'))"

lemma templates_kept_refl [simp]: "templates_kept db db"
  unfolding templates_kept_def by (intro conjI exI [of _ "credential_templates db"]) simp_all

lemma templates_kept_trans:
  assumes "templates_kept a b" "templates_kept b c" shows "templates_kept a c"
proof -
  from assms obtain ts us where "b = a\<lparr>credential_templates := ts\<rparr>" "c = b\<lparr>credential_templates := us\<rparr>"
    unfolding templates_kept_def by blast
  then have "c = a\<lparr>credential_templates := us\<rparr>" by simp
  then show ?thesis using assms unfolding templates_kept_def by (blast intro: prefix_order.order_trans)
qed

lemma templates_kept_frame:
  assumes "templates_kept db db'"
  shows "credential_grants db' = credential_grants db" "system_events db' = system_events db" "members db' = members db"
    "set (template_ids db) \<subseteq> set (template_ids db')"
proof -
  from assms obtain ts where d: "db' = db\<lparr>credential_templates := ts\<rparr>" by (auto simp: templates_kept_def)
  show "credential_grants db' = credential_grants db" "system_events db' = system_events db" "members db' = members db"
    by (simp_all add: d)
  have "prefix (map (\<lambda>t. (ct_template_id t, ct_code t)) (credential_templates db))
       (map (\<lambda>t. (ct_template_id t, ct_code t)) (credential_templates db'))"
    using assms by (simp add: templates_kept_def)
  from map_mono_prefix [OF this, of fst] have "prefix (template_ids db) (template_ids db')"
    by (simp add: template_ids_def comp_def)
  then show "set (template_ids db) \<subseteq> set (template_ids db')" by (rule set_mono_prefix)
qed

lemma insert_template_ok:
  assumes "insert_template t db = Inr db'"
  shows "db' = db\<lparr>credential_templates := credential_templates db @ [t]\<rparr>"
    "\<forall>x \<in> set (credential_templates db). ct_template_id x \<noteq> ct_template_id t \<and> ct_code x \<noteq> ct_code t"
    "templates_kept db db'" "templates_wf db \<Longrightarrow> templates_wf db'"
proof -
  show *: "db' = db\<lparr>credential_templates := credential_templates db @ [t]\<rparr>"
    and fresh: "\<forall>x \<in> set (credential_templates db). ct_template_id x \<noteq> ct_template_id t \<and> ct_code x \<noteq> ct_code t"
    using assms by (auto simp: insert_template_def split: if_splits)
  show "templates_kept db db'" by (auto simp: * templates_kept_def)
  have "ct_template_id t \<notin> ct_template_id ` set (credential_templates db)" "ct_code t \<notin> ct_code ` set (credential_templates db)"
    using fresh by (metis imageE)+
  then show "templates_wf db \<Longrightarrow> templates_wf db'" by (auto simp: * templates_wf_def template_ids_def)
qed

lemma save_template_kept:
  assumes wf: "templates_wf db" and t: "t \<in> set (credential_templates db)"
    and same: "ct_template_id t' = ct_template_id t" "ct_code t' = ct_code t"
  shows "templates_kept db (save_template t' db)" "templates_wf (save_template t' db)"
    "set (credential_templates (save_template t' db)) = insert t' (set (credential_templates db) - {t})"
proof -
  have d: "distinct (map ct_template_id (credential_templates db))" using wf by (simp add: templates_wf_def template_ids_def)
  note up = update_unique_row [OF d t refl same(1)]
  have keys: "map ct_template_id (credential_templates (save_template t' db)) = map ct_template_id (credential_templates db)"
    "map ct_code (credential_templates (save_template t' db)) = map ct_code (credential_templates db)"
    using up(2) [of ct_template_id] up(2) [of ct_code] same by (simp_all add: save_template_def)
  have kept: "templates_kept db (save_template t' db)"
    using up(2) [of "\<lambda>x. (ct_template_id x, ct_code x)"] same
    by (auto simp: templates_kept_def save_template_def)
  show "templates_kept db (save_template t' db)" by (rule kept)
  show "templates_wf (save_template t' db)"
    using wf templates_kept_frame(1) [OF kept] by (simp add: templates_wf_def template_ids_def keys)
  show "set (credential_templates (save_template t' db)) = insert t' (set (credential_templates db) - {t})"
    using up(1) same by (simp add: save_template_def)
qed


lemma find_code:
  assumes "templates_wf db" "t \<in> set (credential_templates db)"
  shows "find_row (\<lambda>x. ct_code x = ct_code t) (credential_templates db) = Some t"
  using assms distinct_map_unique [of ct_code "credential_templates db" _ t]
  by (intro find_row_unique) (auto simp: templates_wf_def)

definition fills_spec :: "template_spec \<Rightarrow> credential_template \<Rightarrow> bool" where
  "fills_spec s t \<longleftrightarrow> ct_code t = ts_code s \<and>
     (case ts_metadata s of None \<Rightarrow> True | Some meta \<Rightarrow> is_obj (or_empty_dict (ct_template_metadata t)) \<and>
       (json_get ''recruitment'' meta \<noteq> None \<longrightarrow>
        json_get ''recruitment'' (or_empty_dict (ct_template_metadata t)) \<noteq> None))"

definition spec_done :: "template_spec \<Rightarrow> 'a credential_db_scheme \<Rightarrow> bool" where
  "spec_done s db \<longleftrightarrow> (\<exists>t \<in> set (credential_templates db). fills_spec s t)"

lemma or_empty_dict_obj: "is_obj j \<Longrightarrow> or_empty_dict j = j"
  by (cases j) (auto simp: or_empty_dict_def)

lemma ensure_done:
  assumes "templates_wf db" "spec_done s db" shows "ensure_template env s db = Inr (False, db)"
proof -
  from assms(2) obtain t where t: "t \<in> set (credential_templates db)" "fills_spec s t" by (auto simp: spec_done_def)
  have "find_row (\<lambda>x. ct_code x = ts_code s) (credential_templates db) = Some t"
    using find_code [OF assms(1) t(1)] t(2) by (simp add: fills_spec_def)
  then show ?thesis using t(2) by (auto simp: ensure_template_def fills_spec_def Let_def split: option.splits)
qed

lemma ensure_template_ok:
  assumes wf: "templates_wf db" and e: "ensure_template env s db = Inr (b, db')"
    and meta: "\<And>j. ts_metadata s = Some j \<Longrightarrow> is_obj j"
  shows "templates_wf db' \<and> templates_kept db db' \<and> spec_done s db' \<and> (\<forall>s0. spec_done s0 db \<longrightarrow> spec_done s0 db')"
proof (cases "find_row (\<lambda>t. ct_code t = ts_code s) (credential_templates db)")
  case None
  with e have i: "insert_template (template_of_spec env s) db = Inr db'" by (auto simp: ensure_template_def)
  have "fills_spec s (template_of_spec env s)"
    using meta by (auto simp: fills_spec_def template_of_spec_def or_empty_dict_obj split: option.splits)
  then show ?thesis using insert_template_ok [OF i] wf by (auto simp: spec_done_def)
next
  case (Some t)
  note t = find_row_Some_iff [OF Some]
  let ?cur = "or_empty_dict (ct_template_metadata t)"
  show ?thesis
  proof (cases "\<exists>j r. ts_metadata s = Some j \<and> json_get ''recruitment'' ?cur = None \<and> json_get ''recruitment'' j = Some r")
    case False
    then have "fills_spec s t \<and> db' = db" using e Some t
      by (auto simp: ensure_template_def fills_spec_def Let_def split: option.splits if_splits)
    then show ?thesis using t wf by (auto simp: spec_done_def)
  next
    case True
    then obtain j r where j: "ts_metadata s = Some j" "json_get ''recruitment'' ?cur = None" "json_get ''recruitment'' j = Some r"
      by blast
    with e Some have obj: "is_obj ?cur"
      and db': "db' = save_template (t\<lparr>ct_template_metadata := json_set ''recruitment'' r ?cur\<rparr>) db"
      by (auto simp: ensure_template_def Let_def split: if_splits)
    let ?t' = "t\<lparr>ct_template_metadata := json_set ''recruitment'' r ?cur\<rparr>"
    note sv = save_template_kept [OF wf conjunct1 [OF t], of ?t']
    have "fills_spec s ?t'" using j obj t by (simp add: fills_spec_def)
    moreover have "fills_spec s0 t \<Longrightarrow> fills_spec s0 ?t'" for s0
      using obj by (auto simp: fills_spec_def split: option.splits)
    ultimately show ?thesis using sv by (auto simp: db' spec_done_def)
  qed
qed

lemma ensure_templates_ok:
  assumes "templates_wf db" "ensure_templates env ss db = Inr (n, db')"
    "\<And>s j. s \<in> set ss \<Longrightarrow> ts_metadata s = Some j \<Longrightarrow> is_obj j"
  shows "templates_wf db' \<and> templates_kept db db' \<and> (\<forall>s \<in> set ss. spec_done s db') \<and>
    (\<forall>s0. spec_done s0 db \<longrightarrow> spec_done s0 db')"
  using assms
proof (induction ss arbitrary: db n)
  case (Cons s ss)
  then obtain b db1 n' where e: "ensure_template env s db = Inr (b, db1)" "ensure_templates env ss db1 = Inr (n', db')"
    by auto
  have one: "templates_wf db1 \<and> templates_kept db db1 \<and> spec_done s db1 \<and> (\<forall>s0. spec_done s0 db \<longrightarrow> spec_done s0 db1)"
    by (rule ensure_template_ok [OF Cons.prems(1) e(1)]) (rule Cons.prems(3), simp_all)
  then have w: "templates_wf db1" by simp
  have "templates_wf db' \<and> templates_kept db1 db' \<and> (\<forall>s \<in> set ss. spec_done s db') \<and>
      (\<forall>s0. spec_done s0 db1 \<longrightarrow> spec_done s0 db')"
    by (rule Cons.IH [OF w e(2)]) (rule Cons.prems(3), simp_all)
  with one show ?case using templates_kept_trans by auto
qed simp

lemma ensure_templates_done:
  "templates_wf db \<Longrightarrow> \<forall>s \<in> set ss. spec_done s db \<Longrightarrow> ensure_templates env ss db = Inr (0, db)"
  by (induction ss) (simp_all add: ensure_done)

lemma builtin_ok:
  assumes "templates_wf db" "ensure_builtin_credential_templates env db = Inr (n, db')"
  shows "templates_wf db'" "templates_kept db db'" "\<forall>s \<in> set builtin_credential_templates. spec_done s db'"
    "ensure_builtin_credential_templates env' db' = Inr (0, db')"
proof -
  have obj: "is_obj j" if "s \<in> set builtin_credential_templates" "ts_metadata s = Some j" for s j
    using that by (auto simp: builtin_credential_templates_def recruitment_spec_def)
  show "templates_wf db'" "templates_kept db db'" and specs: "\<forall>s \<in> set builtin_credential_templates. spec_done s db'"
    using ensure_templates_ok [OF assms(1) assms(2) [unfolded ensure_builtin_credential_templates_def]] obj by blast+
  then show "ensure_builtin_credential_templates env' db' = Inr (0, db')"
    unfolding ensure_builtin_credential_templates_def by (intro ensure_templates_done) auto
qed

subsection \<open>Covenanter numbers\<close>

definition grants_of :: "string \<Rightarrow> 'a credential_db_scheme \<Rightarrow> credential_grant list" where
  "grants_of tid db = filter (\<lambda>g. cg_template g = tid) (credential_grants db)"

text \<open>The numbers of the covenanter template are 1, 2, 3, ... in the order of issue, one per member.\<close>

definition numbers_inv :: "'a credential_db_scheme \<Rightarrow> bool" where
  "numbers_inv db \<longleftrightarrow> templates_wf db \<and>
    (\<forall>t \<in> set (credential_templates db). ct_code t = ''covenanter_number'' \<longrightarrow>
       map cg_serial_no (grants_of (ct_template_id t) db) = map (\<lambda>n. Some (int n)) [1..<Suc (length (grants_of (ct_template_id t) db))] \<and>
       distinct (map cg_member (grants_of (ct_template_id t) db)))"

definition max_of :: "int option list \<Rightarrow> int \<Rightarrow> int" where
  "max_of ss n = foldr (\<lambda>s n. case s of None \<Rightarrow> n | Some k \<Rightarrow> max k n) ss n"

lemma max_serial_filter: "max_serial tid db = max_of (map cg_serial_no (grants_of tid db)) 0"
proof -
  have "foldr (\<lambda>g n. if cg_template g = tid then (case cg_serial_no g of None \<Rightarrow> n | Some k \<Rightarrow> max k n) else n) gs 0 =
      max_of (map cg_serial_no (filter (\<lambda>g. cg_template g = tid) gs)) 0" for gs
    by (induction gs) (auto simp: max_of_def split: option.splits)
  then show ?thesis by (simp add: max_serial_def grants_of_def)
qed

lemma max_of_upto: "0 \<le> n \<Longrightarrow> max_of (map (\<lambda>n. Some (int n)) [1..<Suc k]) n = max (int k) n"
proof (induction k arbitrary: n)
  case (Suc k)
  have "[1..<Suc (Suc k)] = [1..<Suc k] @ [Suc k]" by simp
  then have "max_of (map (\<lambda>n. Some (int n)) [1..<Suc (Suc k)]) n =
      max_of (map (\<lambda>n. Some (int n)) [1..<Suc k]) (max (int (Suc k)) n)"
    by (simp only: max_of_def map_append foldr_append list.map foldr.simps comp_apply id_apply option.case)
  also have "\<dots> = max (int (Suc k)) n" using Suc.IH [of "max (int (Suc k)) n"] by simp
  finally show ?case .
qed (simp add: max_of_def)

lemma issue_credential_ok:
  assumes "issue_credential env uid t m key src by' sn title meta db = Inr (g, db')"
  obtains e where "g = new_grant env uid t m key src by' sn title meta" "key \<noteq> []"
    "db' = db\<lparr>credential_grants := credential_grants db @ [g], system_events := system_events db @ [e]\<rparr>"
    "\<forall>x \<in> set (credential_grants db). cg_grant_id x \<noteq> cg_grant_id g" "audited env db db'"
proof -
  from assms obtain e db1 where i: "key \<noteq> []" "g = new_grant env uid t m key src by' sn title meta"
    "insert_grant g db = Inr db1"
    and a: "append_event env ''credential_granted'' ''CredentialGrant'' (cg_grant_id g) by' None
        (credential_grant_payload g t m) (Some (cg_issued_at g)) db1 = Inr (e, db')"
    by (auto simp: issue_credential_def Let_def split: sum.splits if_splits)
  have db1: "db1 = db\<lparr>credential_grants := credential_grants db @ [g]\<rparr>" "\<forall>x \<in> set (credential_grants db). cg_grant_id x \<noteq> cg_grant_id g"
    using i(3) by (auto simp: insert_grant_def split: if_splits)
  have "audited env db db'" using audited_append [OF a] audited_cong_left [of db db1 env db'] db1 by simp
  with i db1 append_event_db [OF a] show thesis by (intro that [of e]) auto
qed

lemma issue_other_numbers:
  assumes inv: "numbers_inv db" and t: "t \<in> set (credential_templates db)" "ct_code t \<noteq> ''covenanter_number''"
    and i: "issue_credential env uid t m key src by' sn title meta db = Inr (g, db')"
  shows "numbers_inv db'"
  using i
proof (cases rule: issue_credential_ok)
  case (1 e)
  have g: "cg_template g = ct_template_id t" using 1(1) by (simp add: new_grant_def)
  have "grants_of (ct_template_id x) db' = grants_of (ct_template_id x) db"
    if "x \<in> set (credential_templates db)" "ct_code x = ''covenanter_number''" for x
  proof -
    have "ct_template_id x \<noteq> ct_template_id t"
      using inv that t distinct_map_unique [of ct_template_id "credential_templates db" x t]
      by (auto simp: numbers_inv_def templates_wf_def template_ids_def)
    then show ?thesis using 1(3) g by (simp add: grants_of_def)
  qed
  moreover have "templates_wf db'"
    using inv t g by (auto simp: 1(3) numbers_inv_def templates_wf_def template_ids_def)
  ultimately show ?thesis using inv by (auto simp: numbers_inv_def 1(3))
qed

lemma kept_numbers:
  assumes inv: "numbers_inv db" and k: "templates_kept db db'" and wf: "templates_wf db'"
  shows "numbers_inv db'"
proof -
  note fr = templates_kept_frame [OF k]
  have "grants_of (ct_template_id t) db' = [] \<or> (\<exists>t0 \<in> set (credential_templates db). ct_template_id t0 = ct_template_id t \<and>
      ct_code t0 = ct_code t)" if t: "t \<in> set (credential_templates db')" for t
  proof (cases "ct_template_id t \<in> set (template_ids db)")
    case True
    then obtain t0 where t0: "t0 \<in> set (credential_templates db)" "ct_template_id t0 = ct_template_id t"
      by (auto simp: template_ids_def)
    have "(\<lambda>t. (ct_template_id t, ct_code t)) ` set (credential_templates db) \<subseteq>
        (\<lambda>t. (ct_template_id t, ct_code t)) ` set (credential_templates db')"
      using set_mono_prefix [OF k [unfolded templates_kept_def, THEN conjunct2]] by simp
    then have "(ct_template_id t0, ct_code t0) \<in> (\<lambda>t. (ct_template_id t, ct_code t)) ` set (credential_templates db')"
      using t0(1) by blast
    then obtain t1 where "t1 \<in> set (credential_templates db')" "ct_template_id t1 = ct_template_id t0" "ct_code t1 = ct_code t0"
      by auto
    then have "ct_code t0 = ct_code t"
      using wf t t0(2) distinct_map_unique [of ct_template_id "credential_templates db'" t1 t]
      by (auto simp: templates_wf_def template_ids_def)
    with t0 show ?thesis by blast
  next
    case False
    have "\<forall>g \<in> set (credential_grants db). cg_template g \<in> set (template_ids db)"
      using inv unfolding numbers_inv_def templates_wf_def by blast
    with False have "grants_of (ct_template_id t) db' = []" by (auto simp: grants_of_def fr(1) filter_empty_conv)
    then show ?thesis by blast
  qed
  note old = this
  have "map cg_serial_no (grants_of (ct_template_id t) db') =
      map (\<lambda>n. Some (int n)) [1..<Suc (length (grants_of (ct_template_id t) db'))] \<and>
      distinct (map cg_member (grants_of (ct_template_id t) db'))"
    if t: "t \<in> set (credential_templates db')" "ct_code t = ''covenanter_number''" for t
    using old [OF t(1)]
  proof
    assume "\<exists>t0 \<in> set (credential_templates db). ct_template_id t0 = ct_template_id t \<and> ct_code t0 = ct_code t"
    then obtain t0 where t0: "t0 \<in> set (credential_templates db)" "ct_template_id t0 = ct_template_id t"
      "ct_code t0 = ''covenanter_number''" using t(2) by auto
    have "grants_of (ct_template_id t) db' = grants_of (ct_template_id t0) db" by (simp add: grants_of_def fr(1) t0(2))
    then show ?thesis using inv t0(1,3) by (simp only: numbers_inv_def)
  qed simp
  then show ?thesis using wf unfolding numbers_inv_def by blast
qed

lemma set_grants_by_serial: "set (grants_by_serial gs) = set gs"
  by (simp add: grants_by_serial_def)

lemma covenanter_cases [consumes 2, case_names Existing Fresh]:
  assumes wf: "templates_wf db" and i: "issue_covenanter_number env uid m by' db = Inr (g, db')"
  obtains n t where "ensure_builtin_credential_templates env db = Inr (n, db')"
      "t \<in> set (credential_templates db')" "ct_code t = ''covenanter_number''"
      "g \<in> set (grants_of (ct_template_id t) db')" "cg_member g = m_id m"
    | n db1 t where "ensure_builtin_credential_templates env db = Inr (n, db1)"
      "t \<in> set (credential_templates db1)" "ct_code t = ''covenanter_number''"
      "\<forall>x \<in> set (grants_of (ct_template_id t) db1). cg_member x \<noteq> m_id m"
      "issue_credential env uid t m (covenanter_key m) GrantSystem by' (Some (max_serial (ct_template_id t) db1 + 1)) []
         JNull db1 = Inr (g, db')"
proof -
  from i obtain n db1 t where t: "ensure_builtin_credential_templates env db = Inr (n, db1)"
    "find_row (\<lambda>t. ct_code t = ''covenanter_number'') (credential_templates db1) = Some t"
    by (auto simp: issue_covenanter_number_def split: option.splits)
  note tt = find_row_Some_iff [OF t(2)]
  let ?mine = "filter (\<lambda>g. cg_template g = ct_template_id t \<and> cg_member g = m_id m) (credential_grants db1)"
  show thesis
  proof (cases "grants_by_serial ?mine")
    case Nil
    have "set ?mine = set (grants_by_serial ?mine)" by (simp only: set_grants_by_serial)
    then have "set ?mine = {}" unfolding Nil by simp
    then have "?mine = []" by simp
    then have "\<forall>x \<in> set (grants_of (ct_template_id t) db1). cg_member x \<noteq> m_id m"
      by (auto simp: grants_of_def filter_empty_conv)
    then show thesis using that(2) [OF t(1), of t] tt i t Nil by (simp add: issue_covenanter_number_def)
  next
    case (Cons x xs)
    have "x \<in> set (grants_by_serial ?mine)" unfolding Cons by simp
    then have "x \<in> set ?mine" by (simp only: set_grants_by_serial)
    then show thesis using that(1) [of n t] tt i t Cons by (simp add: issue_covenanter_number_def grants_of_def)
  qed
qed

lemma covenanter_numbers:
  assumes inv: "numbers_inv db" and i: "issue_covenanter_number env uid m by' db = Inr (g, db')"
  shows "numbers_inv db' \<and> audited env db db'"
proof -
  have wf: "templates_wf db" using inv unfolding numbers_inv_def by blast
  show ?thesis
    using wf i
  proof (cases rule: covenanter_cases)
    case (Existing n t)
    note b = builtin_ok [OF wf Existing(1)]
    show ?thesis using kept_numbers [OF inv b(2,1)] templates_kept_frame(2) [OF b(2)] by (auto intro: audited_same)
  next
    case (Fresh n db1 t)
    note b = builtin_ok [OF wf Fresh(1)]
    have inv1: "numbers_inv db1" by (rule kept_numbers [OF inv b(2,1)])
    have a1: "audited env db db1" using templates_kept_frame(2) [OF b(2)] by (auto intro: audited_same)
    let ?gs = "grants_of (ct_template_id t) db1"
    have old: "map cg_serial_no ?gs = map (\<lambda>n. Some (int n)) [1..<Suc (length ?gs)]" "distinct (map cg_member ?gs)"
      using inv1 Fresh(2,3) unfolding numbers_inv_def by blast+
    have mx: "max_serial (ct_template_id t) db1 = int (length ?gs)"
      unfolding max_serial_filter old(1) using max_of_upto [of 0] by simp
    from Fresh(5) show ?thesis
    proof (cases rule: issue_credential_ok)
      case (1 e)
      have g: "cg_template g = ct_template_id t" "cg_member g = m_id m" "cg_serial_no g = Some (int (Suc (length ?gs)))"
        using mx by (simp_all add: 1(1) new_grant_def)
      have here: "grants_of (ct_template_id t) db' = ?gs @ [g]" using g by (simp add: grants_of_def 1(3))
      have "map cg_serial_no (?gs @ [g]) = map (\<lambda>n. Some (int n)) [1..<Suc (length (?gs @ [g]))]"
        using old(1) g(3) by (simp only: map_append length_append list.map list.size upt_Suc_append) simp
      moreover have "distinct (map cg_member (?gs @ [g]))" using old(2) Fresh(4) g(2) by auto
      moreover have "x = t" if "x \<in> set (credential_templates db')" "ct_code x = ''covenanter_number''" for x
        using that b(1) Fresh(2,3) distinct_map_unique [of ct_code "credential_templates db1" x t]
        by (auto simp: 1(3) templates_wf_def)
      moreover have "templates_wf db'"
        using b(1) Fresh(2) g(1) by (auto simp: 1(3) templates_wf_def template_ids_def)
      ultimately have "numbers_inv db'" unfolding numbers_inv_def using here by metis
      then show ?thesis using audited_trans [OF a1 1(5)] by blast
    qed
  qed
qed

text \<open>Asking again returns the number already issued.\<close>

lemma covenanter_again:
  assumes inv: "numbers_inv db" and i: "issue_covenanter_number env uid m by' db = Inr (g, db')"
  shows "issue_covenanter_number env' uid' m by'' db' = Inr (g, db')"
proof -
  have wf: "templates_wf db" using inv unfolding numbers_inv_def by blast
  have inv': "numbers_inv db'" using covenanter_numbers [OF inv i] by blast
  obtain t where b: "ensure_builtin_credential_templates env' db' = Inr (0, db')"
    and t: "t \<in> set (credential_templates db')" "ct_code t = ''covenanter_number''"
    and g: "g \<in> set (grants_of (ct_template_id t) db')" "cg_member g = m_id m"
    using wf i
  proof (cases rule: covenanter_cases)
    case (Existing n t)
    then show thesis using that builtin_ok(4) [OF wf Existing(1)] by blast
  next
    case (Fresh n db1 t)
    note bo = builtin_ok [OF wf Fresh(1)]
    from Fresh(5) show thesis
    proof (cases rule: issue_credential_ok)
      case (1 e)
      have "ensure_builtin_credential_templates env' db' = Inr (0, db')"
        unfolding ensure_builtin_credential_templates_def
        by (rule ensure_templates_done) (use bo(1,3) Fresh(2) in \<open>auto simp: 1 new_grant_def spec_done_def templates_wf_def template_ids_def\<close>)
      then show thesis using that Fresh(2,3) by (simp add: 1 new_grant_def grants_of_def)
    qed
  qed
  have uniq: "filter (\<lambda>x. cg_member x = m_id m) (grants_of (ct_template_id t) db') = [g]"
  proof -
    have d: "distinct (map cg_member (grants_of (ct_template_id t) db'))"
      using inv' t unfolding numbers_inv_def by blast
    have "filter (\<lambda>x. k x = k g) xs = [g]" if "distinct (map k xs)" "g \<in> set xs" for k :: "credential_grant \<Rightarrow> int" and xs
      using that by (induction xs) (auto simp: filter_empty_conv image_iff)
    from this [OF d g(1)] show ?thesis using g(2) by simp
  qed
  have "templates_wf db'" using inv' unfolding numbers_inv_def by blast
  from find_code [OF this t(1)] t(2)
  have "find_row (\<lambda>t. ct_code t = ''covenanter_number'') (credential_templates db') = Some t" by simp
  moreover have "filter (\<lambda>x. cg_template x = ct_template_id t \<and> cg_member x = m_id m) (credential_grants db') = [g]"
    using uniq by (simp add: grants_of_def conj_commute)
  ultimately show ?thesis using b by (simp add: issue_covenanter_number_def grants_by_serial_def)
qed

subsection \<open>Histories\<close>

datatype credential_op =
    EnsureTemplates
  | IssueNumber string member "int option"
  | IssueByCode string string member string grant_source "int option" json
  | CreateRecruitment string member string string string json json
  | UpdateRecruitment member string bool string string json json

fun credential_service :: "env \<Rightarrow> fga \<Rightarrow> credential_op \<Rightarrow> 'a credential_db_scheme \<Rightarrow> (unit \<times> 'a credential_db_scheme) result" where
  "credential_service env f EnsureTemplates db =
     and_then (ensure_builtin_credential_templates env db) (\<lambda>(r, db'). Inr ((), db'))"
| "credential_service env f (IssueNumber uid m by') db =
     and_then (issue_covenanter_number env uid m by' db) (\<lambda>(r, db'). Inr ((), db'))"
| "credential_service env f (IssueByCode uid code m key src by' meta) db =
     (case find_row (\<lambda>t. ct_code t = code) (credential_templates db) of
        None \<Rightarrow> Inl (DoesNotExist ''CredentialTemplate'')
      | Some t \<Rightarrow> and_then (issue_credential env uid t m key src by' None [] meta db) (\<lambda>(r, db'). Inr ((), db')))"
| "credential_service env f (CreateRecruitment uid actor code label desc rc so) db =
     and_then (create_recruitment_template env f uid actor code label desc rc so db) (\<lambda>(r, db'). Inr ((), db'))"
| "credential_service env f (UpdateRecruitment actor code shown label desc rc so) db =
     and_then (update_recruitment_template_config env f actor code shown label desc rc so db) (\<lambda>(r, db'). Inr ((), db'))"

text \<open>Numbers are only issued through their own service; its template is never granted by code.\<close>

fun credential_step :: "env \<Rightarrow> fga \<Rightarrow> time \<times> credential_op \<Rightarrow> 'a credential_db_scheme \<Rightarrow> (unit \<times> 'a credential_db_scheme) result" where
  "credential_step env f (at, IssueByCode uid code m key src by' meta) db =
     (if code = ''covenanter_number'' then Inr ((), db)
      else credential_service (env\<lparr>now := at\<rparr>) f (IssueByCode uid code m key src by' meta) db)"
| "credential_step env f (at, call) db = credential_service (env\<lparr>now := at\<rparr>) f call db"

definition credential_safe :: "env \<Rightarrow> 'a credential_db_scheme \<Rightarrow> 'a credential_db_scheme \<Rightarrow> bool" where
  "credential_safe env db db' \<longleftrightarrow> audited env db db' \<and> prefix (credential_grants db) (credential_grants db')"

lemma credential_safe_now [simp]: "credential_safe (env\<lparr>now := t\<rparr>) db db' = credential_safe env db db'"
  by (simp add: credential_safe_def)

lemma kept_safe:
  assumes "templates_kept db db'" shows "credential_safe env db db'"
  using templates_kept_frame [OF assms] by (auto simp: credential_safe_def intro: audited_same)

lemma issue_safe:
  "issue_credential env uid t m key src by' sn title meta db = Inr (g, db') \<Longrightarrow> credential_safe env db db'"
  by (erule issue_credential_ok) (simp add: credential_safe_def)

lemma covenanter_safe:
  assumes wf: "templates_wf db" and i: "issue_covenanter_number env uid m by' db = Inr (g, db')"
  shows "credential_safe env db db'"
  using assms
proof (cases rule: covenanter_cases)
  case (Existing n t)
  then show ?thesis using builtin_ok(2) [OF wf] kept_safe by blast
next
  case (Fresh n db1 t)
  have "credential_safe env db db1" using builtin_ok(2) [OF wf Fresh(1)] kept_safe by blast
  then show ?thesis using issue_safe [OF Fresh(5)] audited_trans
    by (auto simp: credential_safe_def intro: prefix_order.order_trans)
qed

lemma create_recruitment_ok:
  assumes "create_recruitment_template env f uid actor code label desc rc so db = Inr (t, db')"
  shows "insert_template t db = Inr db'"
  using assms by (auto simp: create_recruitment_template_def Let_def split: if_splits)

lemma update_recruitment_ok:
  assumes wf: "templates_wf db"
    and u: "update_recruitment_template_config env f actor code shown label desc rc so db = Inr (g, db')"
  shows "templates_kept db db'" "templates_wf db'"
proof -
  from u obtain t t' where t: "t \<in> set (credential_templates db)" "db' = save_template t' db"
    "ct_template_id t' = ct_template_id t" "ct_code t' = ct_code t"
    by (auto simp: update_recruitment_template_config_def Let_def split: if_splits option.splits dest!: find_row_Some_iff)
  show "templates_kept db db'" "templates_wf db'"
    unfolding t(2) using save_template_kept [OF wf t(1,3,4)] by blast+
qed

lemma credential_service_numbers:
  assumes inv: "numbers_inv db" and s: "credential_step env f x db = Inr (r, db')"
  shows "numbers_inv db' \<and> credential_safe env db db'"
proof -
  have wf: "templates_wf db" using inv unfolding numbers_inv_def by blast
  have refl: "credential_safe env db db" by (simp add: credential_safe_def)
  have kept: "numbers_inv d \<and> credential_safe env db d" if "templates_kept db d" "templates_wf d" for d
    using kept_numbers [OF inv that] kept_safe [OF that(1)] by blast
  obtain at call where x: "x = (at, call)" by (cases x)
  show ?thesis
  proof (cases call)
    case EnsureTemplates
    then show ?thesis using s kept builtin_ok(1,2) [OF wf] by (auto simp: x)
  next
    case (IssueNumber uid m by')
    with s obtain g where g: "issue_covenanter_number (env\<lparr>now := at\<rparr>) uid m by' db = Inr (g, db')" by (auto simp: x)
    show ?thesis using covenanter_numbers [OF inv g] covenanter_safe [OF wf g] by simp
  next
    case (IssueByCode uid code m key src by' meta)
    show ?thesis
    proof (cases "code = ''covenanter_number''")
      case False
      with s IssueByCode obtain t g where t: "find_row (\<lambda>t. ct_code t = code) (credential_templates db) = Some t"
        and g: "issue_credential (env\<lparr>now := at\<rparr>) uid t m key src by' None [] meta db = Inr (g, db')"
        by (auto simp: x split: option.splits)
      show ?thesis using issue_other_numbers [OF inv _ _ g] issue_safe [OF g] find_row_Some_iff [OF t] False by simp
    qed (use s IssueByCode refl inv in \<open>simp add: x\<close>)
  next
    case (CreateRecruitment uid actor code label desc rc so)
    then show ?thesis using s kept insert_template_ok(3,4) create_recruitment_ok wf by (auto simp: x) blast+
  next
    case (UpdateRecruitment actor code shown label desc rc so)
    then show ?thesis using s kept update_recruitment_ok [OF wf] by (auto simp: x)
  qed
qed

interpretation numbers: guarded_service "credential_step env f" numbers_inv "credential_safe env" for env f
proof
  fix db db' db'' :: "'a credential_db_scheme" and x r
  show "numbers_inv db'" "credential_safe env db db'" if "numbers_inv db" "credential_step env f x db = Inr (r, db')"
    using credential_service_numbers [OF that] by auto
  show "credential_safe env db db''" if "credential_safe env db db'" "credential_safe env db' db''"
    using that audited_trans by (auto simp: credential_safe_def intro: prefix_order.order_trans)
qed (simp add: credential_safe_def)

subsection \<open>Normal recruitment codes\<close>

lemma code_char_range:
  assumes "is_code_char c"
  shows "\<not> is_space c" "c \<noteq> CHR ''-''" "lower_char c = c"
proof -
  define n where "n = (of_char c :: nat)"
  have c: "c = char_of n" by (simp add: n_def)
  have "97 \<le> n \<and> n \<le> 122 \<or> 48 \<le> n \<and> n \<le> 57 \<or> n = 95"
    using assms by (auto simp: is_code_char_def is_code_letter_def is_digit_def n_def Let_def)
  then show "\<not> is_space c" "lower_char c = c" by (auto simp: is_space_def lower_char_def n_def [symmetric] Let_def)
  show "c \<noteq> CHR ''-''" using assms by (auto simp: is_code_char_def is_code_letter_def is_digit_def)
qed

lemma collapse_runs_id: "list_all (\<lambda>c. \<not> P c) s \<Longrightarrow> collapse_runs P s = s"
  by (induction s) auto

abbreviation no_double_mark :: "string \<Rightarrow> bool" where
  "no_double_mark \<equiv> successively (\<lambda>c d. \<not> (c = CHR ''_'' \<and> d = CHR ''_''))"

lemma collapse_no_double: "no_double_mark (collapse_runs (\<lambda>c. c = CHR ''_'') s)"
proof (induction "\<lambda>c::char. c = CHR ''_''" s rule: collapse_runs.induct)
  case (2 c cs)
  show ?case
  proof (cases "c = CHR ''_''")
    case True
    obtain ds where ds: "dropWhile (\<lambda>c. c = CHR ''_'') cs = ds" "ds = [] \<or> hd ds \<noteq> CHR ''_''"
      using hd_dropWhile [of "\<lambda>c. c = CHR ''_''" cs] by blast
    then have "collapse_runs (\<lambda>c. c = CHR ''_'') ds = [] \<or> hd (collapse_runs (\<lambda>c. c = CHR ''_'') ds) \<noteq> CHR ''_''"
      by (cases ds) auto
    then show ?thesis using 2(1) [OF True] True ds(1) by (auto simp: successively_Cons)
  next
    case False
    then show ?thesis using 2(2) by (simp add: successively_Cons)
  qed
qed simp

lemma collapse_fix: "no_double_mark s \<Longrightarrow> collapse_runs (\<lambda>c. c = CHR ''_'') s = s"
proof (induction s)
  case (Cons c cs)
  then have "dropWhile (\<lambda>c. c = CHR ''_'') cs = cs" if "c = CHR ''_''"
    using that by (cases cs) auto
  with Cons show ?case by (auto simp: successively_Cons)
qed simp

lemma no_double_rev: "no_double_mark (rev s) = no_double_mark s"
proof -
  have "(\<lambda>c d. \<not> (d = CHR ''_'' \<and> c = CHR ''_'')) = (\<lambda>c d. \<not> (c = CHR ''_'' \<and> d = CHR ''_''))"
    by (auto intro!: ext)
  then show ?thesis by (simp only: successively_rev)
qed

lemma no_double_drop: "no_double_mark s \<Longrightarrow> no_double_mark (dropWhile P s)"
  by (metis successively_append_iff takeWhile_dropWhile_id)

lemma no_double_strip: "no_double_mark s \<Longrightarrow> no_double_mark (strip_underscores s)"
  unfolding strip_underscores_def no_double_rev by (intro no_double_drop) (simp only: no_double_rev no_double_drop)

lemma strip_last: "strip_underscores s \<noteq> [] \<Longrightarrow> last (strip_underscores s) \<noteq> CHR ''_''"
  using hd_dropWhile [of "\<lambda>c. c = CHR ''_''" "rev (dropWhile (\<lambda>c. c = CHR ''_'') s)"]
  by (simp add: strip_underscores_def last_rev)

lemma strip_fix:
  assumes "s \<noteq> []" "hd s \<noteq> CHR ''_''" "last s \<noteq> CHR ''_''" shows "strip_underscores s = s"
proof -
  have keep: "t \<noteq> [] \<Longrightarrow> hd t \<noteq> CHR ''_'' \<Longrightarrow> dropWhile (\<lambda>c. c = CHR ''_'') t = t" for t by (cases t) auto
  show ?thesis unfolding strip_underscores_def keep [OF assms(1,2)]
    using keep [of "rev s"] assms(1,3) by (simp add: hd_rev)
qed

lemma valid_code_chars:
  assumes "valid_recruitment_code s"
  shows "list_all is_code_char s" "s \<noteq> []" "is_code_letter (hd s)"
  using assms by (cases s; simp add: is_code_char_def)+

lemma normal_code_fixed:
  assumes v: "valid_recruitment_code s" and m: "no_double_mark s" "last s \<noteq> CHR ''_''"
  shows "normalize_recruitment_template_code s = Inr s"
proof -
  note vc = valid_code_chars [OF v]
  have all: "\<forall>c \<in> set s. is_code_char c" using vc(1) by (simp add: list_all_iff)
  have sp: "dropWhile is_space t = t" if "set t \<subseteq> set s" for t
    using that all code_char_range(1) by (cases t) auto
  have "py_strip s = s" by (simp add: py_strip_def sp)
  moreover have "py_lower s = s" using all code_char_range(3) by (auto simp: py_lower_def map_idI)
  moreover have "list_all (\<lambda>c. is_code_char c \<or> c = CHR '' '' \<or> c = CHR ''-'') s" using all by (simp add: list_all_iff)
  moreover have "collapse_runs (\<lambda>c. is_space c \<or> c = CHR ''-'') s = s"
    using all code_char_range by (intro collapse_runs_id) (auto simp: list_all_iff)
  moreover have "hd s \<noteq> CHR ''_''" using vc(3) by (auto simp: is_code_letter_def)
  ultimately show ?thesis
    using v vc(2) m by (simp add: normalize_recruitment_template_code_def collapse_fix strip_fix)
qed

lemma grant_status_nonblank [simp]: "nonblank (grant_status_value s)"
  by (cases s) (simp_all add: is_space_def)

lemma json_opt_int_flat [simp]: "flat_value (json_opt_int x)"
  by (cases x) simp_all

lemma credential_payload_valid:
  "nonblank (ct_name t) \<Longrightarrow> validate_public_ledger_payload (credential_grant_payload g t m) = Inr ()"
  unfolding credential_grant_payload_def Let_def
  by (rule public_event_payload_valid) (simp_all add: is_space_def PUBLIC_LEDGER_DENYLIST_KEYS_def)

lemma issue_credential_live:
  assumes "chain_ok env db" "\<not> sha_collision env" "nonblank (ct_name t)" "key \<noteq> []"
    and "insert_grant (new_grant env uid t m key src issuer sn title meta) db = Inr db1"
  shows "\<exists>db'. issue_credential env uid t m key src issuer sn title meta db =
    Inr (new_grant env uid t m key src issuer sn title meta, db')"
proof -
  let ?g = "new_grant env uid t m key src issuer sn title meta"
  have "system_events db1 = system_events db" using assms(5) by (auto simp: insert_grant_def split: if_splits)
  then have "chain_ok env db1" using assms(1) by (simp add: chain_ok_def verify_event_chain_def)
  from append_succeeds [OF this assms(2) credential_payload_valid [OF assms(3)] credential_grant_payload_def [unfolded Let_def]]
  show ?thesis using assms(4,5) by (simp add: issue_credential_def Let_def)
qed

definition example_credentials :: credential_db where
  "example_credentials = example_org_with (credential_db.fields [] [])"

lemma example_credentials_ok:
  "numbers_inv example_credentials" "chain_ok env example_credentials" "templates_wf example_credentials"
  "credential_templates example_credentials = []" "credential_grants example_credentials = []"
  "system_events example_credentials = []"
  by (simp_all add: example_credentials_def example_org_with_def credential_db.defs numbers_inv_def templates_wf_def
      template_ids_def)

lemma first_builtin:
  assumes "credential_templates db = []"
  shows "\<exists>db'. ensure_builtin_credential_templates env db = Inr (10, db')"
  by (simp add: ensure_builtin_credential_templates_def builtin_credential_templates_def recruitment_spec_def
      ensure_template_def insert_template_def template_of_spec_def assms)

text \<open>The first covenanter number of an empty register.\<close>

lemma first_number:
  assumes empty: "credential_templates db = []" "credential_grants db = []" "system_events db = []" and h: "\<not> sha_collision env"
  shows "\<exists>g db'. issue_covenanter_number env uid m issuer db = Inr (g, db')"
proof -
  have wf: "templates_wf db" using empty by (simp add: templates_wf_def template_ids_def)
  obtain db1 where b: "ensure_builtin_credential_templates env db = Inr (10, db1)"
    using first_builtin [OF empty(1)] by blast
  note ok = builtin_ok [OF wf b]
  note fr = templates_kept_frame [OF ok(2)]
  have "spec_done (hd builtin_credential_templates) db1" using ok(3) by (simp add: builtin_credential_templates_def)
  then obtain t where t: "t \<in> set (credential_templates db1)" "ct_code t = ''covenanter_number''"
    by (auto simp: spec_done_def fills_spec_def builtin_credential_templates_def)
  have name: "nonblank (ct_name t)"
    using t b by (auto simp: ensure_builtin_credential_templates_def builtin_credential_templates_def recruitment_spec_def
        ensure_template_def insert_template_def template_of_spec_def empty is_space_def)
  have f: "find_row (\<lambda>t. ct_code t = ''covenanter_number'') (credential_templates db1) = Some t"
    using find_code [OF ok(1) t(1)] t(2) by simp
  have none: "credential_grants db1 = []" "system_events db1 = []" using fr empty by simp_all
  let ?g = "new_grant env uid t m (covenanter_key m) GrantSystem issuer (Some (max_serial (ct_template_id t) db1 + 1)) [] JNull"
  have "\<exists>db'. issue_credential env uid t m (covenanter_key m) GrantSystem issuer
      (Some (max_serial (ct_template_id t) db1 + 1)) [] JNull db1 = Inr (?g, db')"
    by (rule issue_credential_live [where ?db1.0 = "db1\<lparr>credential_grants := [?g]\<rparr>"])
      (simp_all add: none name h covenanter_key_def insert_grant_def new_grant_def max_serial_def)
  then show ?thesis using b f none by (auto simp: issue_covenanter_number_def grants_by_serial_def)
qed

subsection \<open>Properties of credentials\<close>

text \<open>C18. In every history of credential services the covenanter numbers are 1, 2, 3 and so on, in the
  order of issue, with one number per member; grants are only ever appended and the event ledger
  keeps verifying.\<close>

theorem covenanter_numbers_sequential:
  assumes "numbers_inv db" "chain_ok env db"
    and "t \<in> set (credential_templates (run_ops (credential_step env f) reqs db))" "ct_code t = ''covenanter_number''"
  shows "let db' = run_ops (credential_step env f) reqs db; gs = grants_of (ct_template_id t) db' in
    map cg_serial_no gs = map (\<lambda>n. Some (int n)) [1..<Suc (length gs)] \<and> distinct (map cg_member gs) \<and>
    chain_ok env db' \<and> prefix (credential_grants db) (credential_grants db')"
proof -
  let ?db = "run_ops (credential_step env f) reqs db"
  have "numbers_inv ?db" by (rule numbers.run_inv [OF assms(1)])
  moreover have "credential_safe env db ?db" by (rule numbers.run_rel [OF assms(1)])
  ultimately show ?thesis
    using assms(2-4) unfolding numbers_inv_def credential_safe_def audited_def Let_def by blast
qed

lemma example_number:
  "\<exists>g db'. issue_covenanter_number plain_env ''a'' (example_member 1 ''M1'') None example_credentials = Inr (g, db')"
  by (rule first_number) (simp_all add: example_credentials_ok plain_env_no_collision)

theorem covenanter_numbers_sequential_witness:
  "\<exists>t. let db' = run_ops (credential_step plain_env legacy_fga) [(0, IssueNumber ''a'' (example_member 1 ''M1'') None)]
      example_credentials in
    t \<in> set (credential_templates db') \<and> ct_code t = ''covenanter_number'' \<and>
    map cg_serial_no (grants_of (ct_template_id t) db') = [Some 1]"
proof -
  obtain g db' where g: "issue_covenanter_number plain_env ''a'' (example_member 1 ''M1'') None example_credentials = Inr (g, db')"
    using example_number by blast
  have env: "plain_env\<lparr>now := 0\<rparr> = plain_env" by (simp add: plain_env_def)
  have run: "run_ops (credential_step plain_env legacy_fga) [(0, IssueNumber ''a'' (example_member 1 ''M1'') None)]
      example_credentials = db'" using g by (simp add: env)
  obtain t where t: "t \<in> set (credential_templates db')" "ct_code t = ''covenanter_number''"
    "length (grants_of (ct_template_id t) db') = 1"
    using example_credentials_ok(3) g
  proof (cases rule: covenanter_cases)
    case (Existing n t)
    then show thesis
      using templates_kept_frame(1) [OF builtin_ok(2) [OF example_credentials_ok(3) Existing(1)]] example_credentials_ok
      by (simp add: grants_of_def)
  next
    case (Fresh n db1 t)
    have none: "credential_grants db1 = []"
      using templates_kept_frame(1) [OF builtin_ok(2) [OF example_credentials_ok(3) Fresh(1)]] example_credentials_ok by simp
    from Fresh(5) show thesis
    proof (cases rule: issue_credential_ok)
      case (1 e)
      then show thesis using that [of t] Fresh none by (simp add: grants_of_def new_grant_def)
    qed
  qed
  have "map cg_serial_no (grants_of (ct_template_id t) db') = [Some 1]"
    using covenanter_numbers_sequential [OF example_credentials_ok(1,2), of t plain_env legacy_fga
        "[(0, IssueNumber ''a'' (example_member 1 ''M1'') None)]"] t
    unfolding run Let_def by simp
  then show ?thesis using t run by (auto simp: Let_def)
qed

text \<open>A covenanter number is issued once: asking again, at any time and by anybody, returns the same
  grant and changes nothing.\<close>

theorem covenanter_number_idempotent:
  assumes "numbers_inv db" "issue_covenanter_number env uid m issuer db = Inr (g, db')"
  shows "issue_covenanter_number env' uid' m issuer' db' = Inr (g, db')"
  by (rule covenanter_again [OF assms])

theorem covenanter_number_idempotent_witness:
  "\<exists>g db'. issue_covenanter_number plain_env ''a'' (example_member 1 ''M1'') None example_credentials = Inr (g, db') \<and>
     issue_covenanter_number plain_env ''b'' (example_member 1 ''M1'') (Some 2) db' = Inr (g, db')"
  using example_number covenanter_number_idempotent [OF example_credentials_ok(1)] by blast

text \<open>C19. An accepted recruitment code matches the code pattern, has no doubled or trailing underscore and
  is its own normal form.\<close>

theorem recruitment_code_normal:
  assumes "normalize_recruitment_template_code raw = Inr code"
  shows "valid_recruitment_code code \<and> no_double_mark code \<and> last code \<noteq> CHR ''_'' \<and>
    normalize_recruitment_template_code code = Inr code"
proof -
  from assms obtain s where v: "valid_recruitment_code code"
    and c: "code = strip_underscores (collapse_runs (\<lambda>c. c = CHR ''_'') s)"
    by (auto simp: normalize_recruitment_template_code_def Let_def split: if_splits)
  have "no_double_mark code" "last code \<noteq> CHR ''_''"
    using no_double_strip [OF collapse_no_double] strip_last valid_code_chars(2) [OF v] by (auto simp: c)
  with v show ?thesis using normal_code_fixed by blast
qed

theorem recruitment_code_normal_witness:
  "normalize_recruitment_template_code ''  Life - Service_ '' = Inr ''life_service'' \<and>
   normalize_recruitment_template_code ''life_service'' = Inr ''life_service''"
proof -
  have "normalize_recruitment_template_code ''  Life - Service_ '' = Inr ''life_service''"
    by (simp add: normalize_recruitment_template_code_def py_lower_def lower_char_def py_strip_def is_space_def
        is_code_char_def is_code_letter_def is_digit_def strip_underscores_def char_of_eq_iff)
  with recruitment_code_normal [OF this] show ?thesis by blast
qed

text \<open>A second grant under the same key is not returned but fails: the insert breaks the enclosing
  transaction, and the lookup of the existing grant then raises.\<close>

theorem reissue_breaks_transaction:
  assumes "x \<in> set (credential_grants db)" "cg_template x = ct_template_id t" "cg_member x = m_id m"
    "cg_dedupe_key x = key" "key \<noteq> []"
  shows "issue_credential env uid t m key src issuer sn title meta db = Inl TransactionManagementError"
proof -
  have "insert_grant (new_grant env uid t m key src issuer sn title meta) db = Inl IntegrityError"
    using assms by (auto simp: insert_grant_def new_grant_def)
  then show ?thesis using assms(5) by (simp add: issue_credential_def Let_def)
qed

theorem reissue_breaks_transaction_witness:
  "issue_credential plain_env ''b'' (template_of_spec plain_env (hd builtin_credential_templates)) (example_member 1 ''M1'')
     ''k'' GrantManual None None [] JNull
     (example_credentials\<lparr>credential_grants := [new_grant plain_env ''a''
        (template_of_spec plain_env (hd builtin_credential_templates)) (example_member 1 ''M1'') ''k'' GrantManual None None [] JNull]\<rparr>) =
   Inl TransactionManagementError"
  by (rule reissue_breaks_transaction [of "new_grant plain_env ''a''
        (template_of_spec plain_env (hd builtin_credential_templates)) (example_member 1 ''M1'') ''k'' GrantManual None None [] JNull"])
    (simp_all add: new_grant_def)

end
