(* ===== verification/Role_Assignments.thy ===== *)
theory Role_Assignments
  imports Credentials
begin

text \<open>
  The lifecycle of role assignments: the built-in catalog roles
  (\<^verbatim>\<open>core/role_catalog.py\<close>, \<^verbatim>\<open>core/member_roles.py\<close>), the administrator and finance roles with
  their permissions (\<^verbatim>\<open>core/governance_setup.py\<close>, \<^verbatim>\<open>core/finance_setup.py\<close>), granting and
  revoking (\<^verbatim>\<open>core/role_assignment_services.py\<close>, \<^verbatim>\<open>RoleAssignment.clean\<close>), the closed appointment
  of finance reviewers (\<^verbatim>\<open>core/finance_role_services.py\<close>) and the OpenFGA tuples that follow a
  commit (\<^verbatim>\<open>core/openfga_projection_services.py\<close>).
\<close>

subsection \<open>The catalog roles\<close>

text \<open>\<^verbatim>\<open>get_or_create\<close> of a role, which is unique by organization and name, with the
  fields of a new row.\<close>

definition new_role :: "env \<Rightarrow> int \<Rightarrow> string \<Rightarrow> string \<Rightarrow> 'a role_db_scheme \<Rightarrow> role" where
  "new_role env org name description db =
    \<lparr>rl_id = next_pk rl_id (roles db), rl_organization = org, rl_name = name, rl_description = description,
     rl_status = RoleActive, rl_appointment_electorate_role = None, rl_appointment_required_percent = 50,
     rl_appointment_deadline_days = 7, rl_created_at = now env, rl_updated_at = now env\<rparr>"

definition get_or_create_role :: "env \<Rightarrow> int \<Rightarrow> string \<Rightarrow> string \<Rightarrow> 'a role_db_scheme \<Rightarrow> (role \<times> bool) \<times> 'a role_db_scheme" where
  "get_or_create_role env org name description db =
    (case find_row (\<lambda>r. rl_organization r = org \<and> rl_name r = name) (roles db) of
       Some r \<Rightarrow> ((r, False), db)
     | None \<Rightarrow> let r = new_role env org name description db in ((r, True), db\<lparr>roles := roles db @ [r]\<rparr>))"

definition save_role :: "role \<Rightarrow> 'a role_db_scheme \<Rightarrow> 'a role_db_scheme" where
  "save_role r db = db\<lparr>roles := update_rows (\<lambda>x. rl_id x = rl_id r) (\<lambda>_. r) (roles db)\<rparr>"

definition new_organization :: "env \<Rightarrow> string \<Rightarrow> string option \<Rightarrow> 'a role_db_scheme \<Rightarrow> organization" where
  "new_organization env name key db =
    \<lparr>og_id = next_pk og_id (organizations db), og_name = name, og_role_catalog_key = key, og_parent = None,
     og_status = OrgActive, og_created_at = now env, og_updated_at = now env\<rparr>"

definition save_organization :: "organization \<Rightarrow> 'a role_db_scheme \<Rightarrow> 'a role_db_scheme" where
  "save_organization og db = db\<lparr>organizations := update_rows (\<lambda>x. og_id x = og_id og) (\<lambda>_. og) (organizations db)\<rparr>"

definition ensure_catalog_organization :: "env \<Rightarrow> 'a role_db_scheme \<Rightarrow> organization \<times> 'a role_db_scheme" where
  "ensure_catalog_organization env db =
    (case find_row (\<lambda>og. og_role_catalog_key og = Some ROLE_CATALOG_ORGANIZATION_KEY) (organizations db) of
       None \<Rightarrow> let og = new_organization env ROLE_CATALOG_ORGANIZATION_NAME (Some ROLE_CATALOG_ORGANIZATION_KEY) db
         in (og, db\<lparr>organizations := organizations db @ [og]\<rparr>)
     | Some og \<Rightarrow>
         if og_name og = ROLE_CATALOG_ORGANIZATION_NAME \<and> og_status og = OrgActive then (og, db)
         else let og' = og\<lparr>og_name := ROLE_CATALOG_ORGANIZATION_NAME, og_status := OrgActive, og_updated_at := now env\<rparr>
           in (og', save_organization og' db))"

definition ensure_definition_role :: "env \<Rightarrow> int \<Rightarrow> role_definition \<Rightarrow> 'a role_db_scheme \<Rightarrow> role \<times> 'a role_db_scheme" where
  "ensure_definition_role env org d db =
    (let ((r, created), db1) = get_or_create_role env org (rd_display_name d) (rd_description d) db
     in if rl_status r \<noteq> RoleActive \<or> rl_description r \<noteq> rd_description d then
          let r' = r\<lparr>rl_status := RoleActive, rl_description := rd_description d, rl_updated_at := now env\<rparr>
          in (r', save_role r' db1)
        else (r, db1))"

fun ensure_definition_roles ::
    "env \<Rightarrow> int \<Rightarrow> role_definition list \<Rightarrow> 'a role_db_scheme \<Rightarrow> (string \<times> role) list \<times> 'a role_db_scheme" where
  "ensure_definition_roles env org [] db = ([], db)"
| "ensure_definition_roles env org (d # ds) db =
    (let (r, db1) = ensure_definition_role env org d db;
         (rs, db2) = ensure_definition_roles env org ds db1
     in ((rd_code d, r) # rs, db2))"

definition ensure_catalog_roles :: "env \<Rightarrow> 'a role_db_scheme \<Rightarrow> (string \<times> role) list \<times> 'a role_db_scheme" where
  "ensure_catalog_roles env db =
    (let (og, db1) = ensure_catalog_organization env db in ensure_definition_roles env (og_id og) ROLE_DEFINITIONS db1)"

definition ensure_catalog_role :: "env \<Rightarrow> string \<Rightarrow> 'a role_db_scheme \<Rightarrow> (role \<times> 'a role_db_scheme) result" where
  "ensure_catalog_role env role_name db =
    (case role_definition_for_name role_name of
       None \<Rightarrow> Inl (ValueError ''not a role of the catalog'')
     | Some d \<Rightarrow> let (rs, db1) = ensure_catalog_roles env db in
         (case map_of rs (rd_code d) of None \<Rightarrow> Inl (KeyError (rd_code d)) | Some r \<Rightarrow> Inr (r, db1)))"

subsection \<open>Permissions of the administrator\<close>

definition permission_row :: "string \<Rightarrow> string \<Rightarrow> string \<Rightarrow> string \<Rightarrow> permission" where
  "permission_row code name category description =
    \<lparr>pm_code = code, pm_name = name, pm_category = category, pm_description = description\<rparr>"

definition BASE_ADMINISTRATION_PERMISSIONS :: "permission list" where
  "BASE_ADMINISTRATION_PERMISSIONS =
    [permission_row ADMINISTRATION_VIEW_ADMIN_PERMISSION ''view the administration'' ''governance'' ''access to the maintenance pages'',
     permission_row ''governance.manage_people'' ''maintain members'' ''governance'' ''maintain members and subjects'',
     permission_row ''governance.manage_organizations'' ''maintain organizations'' ''governance'' ''maintain organizations'',
     permission_row ''governance.manage_roles'' ''maintain roles'' ''governance'' ''maintain roles and assignments'',
     permission_row ''governance.manage_permissions'' ''maintain permissions'' ''governance'' ''maintain permissions and their roles'',
     permission_row ''governance.manage_professional_qualifications'' ''maintain qualifications'' ''governance''
       ''record or revoke professional qualifications'',
     permission_row ''governance.manage_deliberator_exam'' ''maintain the examination'' ''governance''
       ''maintain questions and policy of the examination'',
     permission_row ''governance.manage_proposal_policies'' ''maintain proposal policies'' ''governance''
       ''publish versioned policies of proposals'',
     permission_row ''governance.resolve_proposals'' ''resolve proposals'' ''governance''
       ''resolve proposals by their frozen rules'',
     permission_row ''governance.view_event_ledger'' ''view the event ledger'' ''governance'' ''view the append-only event ledger'']"

fun ensure_permissions :: "permission list \<Rightarrow> 'a role_db_scheme \<Rightarrow> nat \<times> 'a role_db_scheme" where
  "ensure_permissions [] db = (0, db)"
| "ensure_permissions (p # ps) db =
    (let known = exists_row (\<lambda>x. pm_code x = pm_code p) (permissions db);
         (n, db') = ensure_permissions ps (if known then db else db\<lparr>permissions := permissions db @ [p]\<rparr>)
     in ((if known then n else Suc n), db'))"

fun ensure_bindings :: "int \<Rightarrow> string list \<Rightarrow> 'a role_db_scheme \<Rightarrow> nat \<times> 'a role_db_scheme" where
  "ensure_bindings r [] db = (0, db)"
| "ensure_bindings r (c # cs) db =
    (let known = exists_row (\<lambda>x. rp_role x = r \<and> rp_permission x = c \<and> rp_scope x = ''global'') (role_permissions db);
         (n, db') = ensure_bindings r cs (if known then db else db\<lparr>role_permissions := role_permissions db @
           [\<lparr>rp_role = r, rp_permission = c, rp_scope = ''global'', rp_constraints_json = JObj []\<rparr>]\<rparr>)
     in ((if known then n else Suc n), db'))"

record administrator_setup =
  as_permissions_created :: nat
  as_role :: role
  as_role_created :: bool
  as_role_permissions_created :: nat

text \<open>The bindings are made in the order of the query, by category and code.\<close>

definition ensure_administrator_role :: "env \<Rightarrow> 'a role_db_scheme \<Rightarrow> (administrator_setup \<times> 'a role_db_scheme) result" where
  "ensure_administrator_role env db =
    (let (np, db1) = ensure_permissions BASE_ADMINISTRATION_PERMISSIONS db;
         role_exists = exists_row (\<lambda>r. rl_name r = ROLE_ADMINISTRATOR \<and>
            (case organization_of r db1 of None \<Rightarrow> False
             | Some og \<Rightarrow> og_role_catalog_key og = Some ROLE_CATALOG_ORGANIZATION_KEY)) (roles db1)
     in and_then (ensure_catalog_role env ROLE_ADMINISTRATOR db1) (\<lambda>(r, db2).
          let codes = filter (\<lambda>c. c \<in> set ADMINISTRATOR_PERMISSION_CODES)
                (map pm_code (sort_key (\<lambda>p. (pm_category p, pm_code p)) (permissions db2)));
              (nb, db3) = ensure_bindings (rl_id r) codes db2
          in Inr (\<lparr>as_permissions_created = np, as_role = r, as_role_created = \<not> role_exists,
                   as_role_permissions_created = nb\<rparr>, db3)))"

subsection \<open>Finance roles\<close>

definition FINANCE_VIEW_PRIVATE_PERMISSION :: string where [catalog_defs]:
  "FINANCE_VIEW_PRIVATE_PERMISSION = ''finance.view_private''"
definition FINANCE_PUBLISH_PUBLIC_ATTACHMENTS_PERMISSION :: string where [catalog_defs]:
  "FINANCE_PUBLISH_PUBLIC_ATTACHMENTS_PERMISSION = ''finance.publish_public_attachments''"
definition FINANCE_ORGANIZATION_NAME :: string where [catalog_defs]: "FINANCE_ORGANIZATION_NAME = ''Bigapple finance group''"
definition FINANCE_REVIEW_ROLE_NAME :: string where [catalog_defs]: "FINANCE_REVIEW_ROLE_NAME = ''finance reviewer''"
definition FINANCE_PAY_ROLE_NAME :: string where [catalog_defs]: "FINANCE_PAY_ROLE_NAME = ''finance payer''"
definition FINANCE_PUBLIC_ATTACHMENT_PUBLISH_ROLE_NAME :: string where [catalog_defs]:
  "FINANCE_PUBLIC_ATTACHMENT_PUBLISH_ROLE_NAME = ''finance publisher''"

definition BASE_FINANCE_PERMISSIONS :: "permission list" where
  "BASE_FINANCE_PERMISSIONS =
    [permission_row FINANCE_REVIEW_PERMISSION ''review finance requests'' ''finance'' ''review reimbursement requests'',
     permission_row FINANCE_PAY_PERMISSION ''record finance payments'' ''finance'' ''mark approved requests as paid'',
     permission_row FINANCE_VIEW_PRIVATE_PERMISSION ''view private finance files'' ''finance'' ''view private vouchers'',
     permission_row FINANCE_PUBLISH_PUBLIC_ATTACHMENTS_PERMISSION ''publish finance files'' ''finance''
       ''publish redacted copies of private originals'']"

record finance_setup =
  fs_permissions_created :: nat
  fs_organization :: organization
  fs_organization_created :: bool
  fs_review_role :: role
  fs_review_role_created :: bool
  fs_pay_role :: role
  fs_pay_role_created :: bool
  fs_publish_role :: role
  fs_publish_role_created :: bool
  fs_role_permissions_created :: nat

definition activate_role :: "env \<Rightarrow> role \<Rightarrow> 'a role_db_scheme \<Rightarrow> role \<times> 'a role_db_scheme" where
  "activate_role env r db =
    (if rl_status r \<noteq> RoleActive then
       let r' = r\<lparr>rl_status := RoleActive, rl_updated_at := now env\<rparr> in (r', save_role r' db)
     else (r, db))"

definition ensure_finance_organization :: "env \<Rightarrow> 'a role_db_scheme \<Rightarrow> ((organization \<times> bool) \<times> 'a role_db_scheme) result" where
  "ensure_finance_organization env db =
    and_then (get_unique (\<lambda>og. og_name og = FINANCE_ORGANIZATION_NAME) (organizations db)) (\<lambda>found.
      case found of
        None \<Rightarrow> let og = new_organization env FINANCE_ORGANIZATION_NAME None db
          in Inr ((og, True), db\<lparr>organizations := organizations db @ [og]\<rparr>)
      | Some og \<Rightarrow>
          if og_status og \<noteq> OrgActive then
            let og' = og\<lparr>og_status := OrgActive, og_updated_at := now env\<rparr> in Inr ((og', False), save_organization og' db)
          else Inr ((og, False), db))"

text \<open>The roles are made first and activated afterwards.\<close>

fun get_or_create_roles ::
    "env \<Rightarrow> int \<Rightarrow> (string \<times> string) list \<Rightarrow> 'a role_db_scheme \<Rightarrow> (role \<times> bool) list \<times> 'a role_db_scheme" where
  "get_or_create_roles env org [] db = ([], db)"
| "get_or_create_roles env org ((name, description) # specs) db =
    (let (r, db1) = get_or_create_role env org name description db;
         (rs, db2) = get_or_create_roles env org specs db1
     in (r # rs, db2))"

fun activate_roles :: "env \<Rightarrow> role list \<Rightarrow> 'a role_db_scheme \<Rightarrow> role list \<times> 'a role_db_scheme" where
  "activate_roles env [] db = ([], db)"
| "activate_roles env (r # rs) db =
    (let (r', db1) = activate_role env r db; (rs', db2) = activate_roles env rs db1 in (r' # rs', db2))"

fun ensure_role_bindings :: "(int \<times> string list) list \<Rightarrow> 'a role_db_scheme \<Rightarrow> nat \<times> 'a role_db_scheme" where
  "ensure_role_bindings [] db = (0, db)"
| "ensure_role_bindings ((r, codes) # bs) db =
    (let (n, db1) = ensure_bindings r codes db; (k, db2) = ensure_role_bindings bs db1 in (n + k, db2))"

definition finance_role_rows ::
    "env \<Rightarrow> int \<Rightarrow> 'a role_db_scheme \<Rightarrow> ((role \<times> bool) list \<times> role list) \<times> 'a role_db_scheme" where
  "finance_role_rows env org db =
    (let (made, db1) = get_or_create_roles env org
           [(FINANCE_REVIEW_ROLE_NAME, ''reviews reimbursements''), (FINANCE_PAY_ROLE_NAME, ''records payments''),
            (FINANCE_PUBLIC_ATTACHMENT_PUBLISH_ROLE_NAME, ''publishes redacted files'')] db;
         (rs, db2) = activate_roles env (map fst made) db1
     in ((made, rs), db2))"

definition finance_bindings :: "role \<Rightarrow> role \<Rightarrow> role \<Rightarrow> (int \<times> string list) list" where
  "finance_bindings review pay publish =
    [(rl_id review, [FINANCE_REVIEW_PERMISSION, FINANCE_VIEW_PRIVATE_PERMISSION]),
     (rl_id pay, [FINANCE_PAY_PERMISSION, FINANCE_VIEW_PRIVATE_PERMISSION]),
     (rl_id publish, [FINANCE_VIEW_PRIVATE_PERMISSION, FINANCE_PUBLISH_PUBLIC_ATTACHMENTS_PERMISSION])]"

definition ensure_finance_roles :: "env \<Rightarrow> 'a role_db_scheme \<Rightarrow> (finance_setup \<times> 'a role_db_scheme) result" where
  "ensure_finance_roles env db =
    (let (np, db1) = ensure_permissions BASE_FINANCE_PERMISSIONS db
     in and_then (ensure_finance_organization env db1) (\<lambda>((og, og_created), db2).
       let ((made, rs), db3) = finance_role_rows env (og_id og) db2;
           (nb, db4) = ensure_role_bindings (finance_bindings (rs ! 0) (rs ! 1) (rs ! 2)) db3
       in Inr (\<lparr>fs_permissions_created = np, fs_organization = og, fs_organization_created = og_created,
                fs_review_role = rs ! 0, fs_review_role_created = snd (made ! 0), fs_pay_role = rs ! 1,
                fs_pay_role_created = snd (made ! 1), fs_publish_role = rs ! 2,
                fs_publish_role_created = snd (made ! 2), fs_role_permissions_created = nb\<rparr>, db4)))"

definition MANAGE_ROLES_PERMISSION :: string where [catalog_defs]: "MANAGE_ROLES_PERMISSION = ''governance.manage_roles''"

definition member_can_manage_finance_roles :: "env \<Rightarrow> fga \<Rightarrow> member \<Rightarrow> 'a role_db_scheme \<Rightarrow> bool result" where
  "member_can_manage_finance_roles env f m db = member_has_permission env f m MANAGE_ROLES_PERMISSION None (now env) db"

definition finance_review_role :: "env \<Rightarrow> 'a role_db_scheme \<Rightarrow> (role \<times> 'a role_db_scheme) result" where
  "finance_review_role env db =
    and_then (ensure_finance_roles env db) (\<lambda>(s, db'). Inr (fs_review_role s, db'))"

subsection \<open>Granting and revoking\<close>

definition DEFAULT_ROLE_ASSIGNMENT_DAYS :: int where "DEFAULT_ROLE_ASSIGNMENT_DAYS = 36500"

definition default_role_assignment_end_at :: "time \<Rightarrow> time" where
  "default_role_assignment_end_at start_at = start_at + DEFAULT_ROLE_ASSIGNMENT_DAYS * 86400"

definition role_requires_covenanter :: "role \<Rightarrow> 'a role_db_scheme \<Rightarrow> bool" where
  "role_requires_covenanter r db =
    (case catalog_role_definition_for_role r db of Some d \<Rightarrow> rd_requires_covenanter d | None \<Rightarrow> guarded_role r db)"

definition validate_role_assignment_prerequisites :: "env \<Rightarrow> member \<Rightarrow> role \<Rightarrow> 'a role_db_scheme \<Rightarrow> unit result" where
  "validate_role_assignment_prerequisites env m r db =
    (if m_status m \<in> {Suspended, Exited} then Inl (DomainError ''the member is not in service'')
     else if m_user_active m = Some False then Inl (DomainError ''the login is disabled'')
     else case catalog_role_definition_for_role r db of
       Some d \<Rightarrow>
         if rd_requires_covenanter d \<and> \<not> member_has_role [ROLE_COVENANTER] (now env) db m
         then Inl (DomainError ''the role needs a current covenanter'') else Inr ()
     | None \<Rightarrow>
         if role_definition_for_name (rl_name r) \<noteq> None
         then Inl (DomainError ''built-in roles are granted from the catalog only'')
         else if role_requires_covenanter r db \<and> \<not> member_has_role [ROLE_COVENANTER] (now env) db m
         then Inl (DomainError ''the role needs a current covenanter'')
         else Inr ())"

text \<open>\<^verbatim>\<open>RoleAssignment.save\<close> runs \<^verbatim>\<open>clean\<close> first.\<close>

definition role_assignment_clean :: "role_assignment \<Rightarrow> 'a role_db_scheme \<Rightarrow> unit result" where
  "role_assignment_clean a db =
    (if ra_end_at a \<le> ra_start_at a then Inl (ValidationError ''the end must be after the start'')
     else if ra_status a = AssignmentActive \<and> exists_row (\<lambda>x. ra_member x = ra_member a \<and> ra_role x = ra_role a \<and>
          ra_status x = AssignmentActive \<and> ra_start_at a < ra_end_at x \<and> ra_id x \<noteq> ra_id a) (role_assignments db)
     then Inl (ValidationError ''the member already has this active role'')
     else Inr ())"

definition held :: "int \<Rightarrow> int \<Rightarrow> 'a role_db_scheme \<Rightarrow> role_assignment list" where
  "held m r db = filter (\<lambda>a. ra_member a = m \<and> ra_role a = r \<and> ra_status a = AssignmentActive) (role_assignments db)"

definition expire_assignments :: "int \<Rightarrow> int \<Rightarrow> time \<Rightarrow> 'a role_db_scheme \<Rightarrow> 'a role_db_scheme" where
  "expire_assignments m r at db = db\<lparr>role_assignments :=
    update_rows (\<lambda>a. ra_id a \<in> set (map ra_id (filter (\<lambda>x. ra_end_at x \<le> at) (held m r db))))
      (\<lambda>a. a\<lparr>ra_status := AssignmentExpired\<rparr>) (role_assignments db)\<rparr>"

text \<open>\<^verbatim>\<open>order_by("-start_at", "-pk").first()\<close>.\<close>

definition latest_assignment :: "role_assignment list \<Rightarrow> role_assignment option" where
  "latest_assignment as = (case rev (sort_key (\<lambda>a. (ra_start_at a, ra_id a)) as) of [] \<Rightarrow> None | a # _ \<Rightarrow> Some a)"

definition new_assignment ::
    "env \<Rightarrow> member \<Rightarrow> role \<Rightarrow> int option \<Rightarrow> time \<Rightarrow> time \<Rightarrow> assignment_source \<Rightarrow> 'a role_db_scheme \<Rightarrow> role_assignment" where
  "new_assignment env m r granted_by starts_at ends_at source db =
    \<lparr>ra_id = next_pk ra_id (role_assignments db), ra_member = m_id m, ra_role = rl_id r, ra_status = AssignmentActive,
     ra_start_at = starts_at, ra_end_at = ends_at, ra_granted_by = granted_by, ra_revoked_by = None,
     ra_source_type = source, ra_created_at = now env, ra_updated_at = now env\<rparr>"

definition insert_assignment :: "role_assignment \<Rightarrow> 'a role_db_scheme \<Rightarrow> 'a role_db_scheme result" where
  "insert_assignment a db =
    and_then (role_assignment_clean a db) (\<lambda>_. Inr (db\<lparr>role_assignments := role_assignments db @ [a]\<rparr>))"

definition place_assignment ::
    "env \<Rightarrow> member \<Rightarrow> role \<Rightarrow> int option \<Rightarrow> time \<Rightarrow> time \<Rightarrow> assignment_source \<Rightarrow> 'a role_db_scheme \<Rightarrow>
     ((role_assignment \<times> bool) \<times> 'a role_db_scheme) result" where
  "place_assignment env m r granted_by starts_at ends_at source db =
    (let db1 = expire_assignments (m_id m) (rl_id r) starts_at db in
     case latest_assignment (filter (\<lambda>a. starts_at < ra_end_at a) (held (m_id m) (rl_id r) db1)) of
       Some a \<Rightarrow> Inr ((a, False), db1)
     | None \<Rightarrow> let a = new_assignment env m r granted_by starts_at ends_at source db1 in
         and_then (insert_assignment a db1) (\<lambda>db2. Inr ((a, True), db2)))"

definition create_role_assignment ::
    "env \<Rightarrow> string \<Rightarrow> int \<Rightarrow> role \<Rightarrow> int option \<Rightarrow> time option \<Rightarrow> time option \<Rightarrow> assignment_source \<Rightarrow> bool \<Rightarrow>
     'a credential_db_scheme \<Rightarrow> (role_assignment \<times> 'a credential_db_scheme) result" where
  "create_role_assignment env uid mid r granted_by start_at end_at source skip_validation db =
    (case find_row (\<lambda>m. m_id m = mid) (members db) of
       None \<Rightarrow> Inl (DoesNotExist ''Member'')
     | Some m \<Rightarrow>
        if role_definition_for_name (rl_name r) \<noteq> None \<and> catalog_role_definition_for_role r db = None
        then Inl (DomainError ''built-in roles are granted from the catalog only'')
        else and_then (if skip_validation then Inr () else validate_role_assignment_prerequisites env m r db) (\<lambda>_.
          let starts_at = (case start_at of None \<Rightarrow> now env | Some t \<Rightarrow> t);
              ends_at = (case end_at of None \<Rightarrow> default_role_assignment_end_at starts_at | Some t \<Rightarrow> t)
          in and_then (place_assignment env m r granted_by starts_at ends_at source db) (\<lambda>((a, created), db1).
             if (case catalog_role_definition_for_role r db1 of None \<Rightarrow> False
                 | Some d \<Rightarrow> rd_display_name d = ROLE_COVENANTER)
             then and_then (issue_covenanter_number env uid m granted_by db1) (\<lambda>(g, db2). Inr (a, db2))
             else Inr (a, db1))))"

definition revoke_role_assignment ::
    "env \<Rightarrow> int \<Rightarrow> int option \<Rightarrow> time option \<Rightarrow> 'a role_db_scheme \<Rightarrow> (role_assignment \<times> 'a role_db_scheme) result" where
  "revoke_role_assignment env aid revoked_by end_at db =
    (case find_row (\<lambda>a. ra_id a = aid) (role_assignments db) of
       None \<Rightarrow> Inl (DoesNotExist ''RoleAssignment'')
     | Some a \<Rightarrow>
        let a' = a\<lparr>ra_status := AssignmentRevoked, ra_revoked_by := revoked_by,
              ra_end_at := (case end_at of None \<Rightarrow> now env | Some t \<Rightarrow> t), ra_updated_at := now env\<rparr>
        in and_then (role_assignment_clean a' db) (\<lambda>_.
             Inr (a', db\<lparr>role_assignments := update_rows (\<lambda>x. ra_id x = aid) (\<lambda>_. a') (role_assignments db)\<rparr>)))"

definition bootstrap_initial_administrator ::
    "env \<Rightarrow> string \<Rightarrow> int \<Rightarrow> int option \<Rightarrow> 'a credential_db_scheme \<Rightarrow>
     ((role_assignment \<times> role_assignment) \<times> 'a credential_db_scheme) result" where
  "bootstrap_initial_administrator env uid mid granted_by db =
    and_then (ensure_catalog_role env ROLE_COVENANTER db) (\<lambda>(cov, db1).
    and_then (create_role_assignment env uid mid cov granted_by None None SourceInitialization False db1) (\<lambda>(a1, db2).
    and_then (ensure_administrator_role env db2) (\<lambda>(s, db3).
    and_then (create_role_assignment env uid mid (as_role s) granted_by None None SourceInitialization False db3)
      (\<lambda>(a2, db4). Inr ((a1, a2), db4)))))"

subsection \<open>Tuples after the commit\<close>

text \<open>What \<^verbatim>\<open>project_role_assignment\<close> asks OpenFGA to write or, when the fact is not current, to
  delete. The requests are sent only with the backend \<^verbatim>\<open>openfga\<close> and a configured store.\<close>

datatype projection = WriteTuples "fga_tuple list" | DeleteTuples "fga_tuple list"

definition assignment_facts :: "int \<Rightarrow> 'a role_db_scheme \<Rightarrow> (role_assignment \<times> role \<times> member) result" where
  "assignment_facts aid db =
    (case find_row (\<lambda>a. ra_id a = aid) (role_assignments db) of
       None \<Rightarrow> Inl (DoesNotExist ''RoleAssignment'')
     | Some a \<Rightarrow>
        (case (role_of a db, find_row (\<lambda>m. m_id m = ra_member a) (members db)) of
           (Some r, Some m) \<Rightarrow> Inr (a, r, m) | _ \<Rightarrow> Inl (DoesNotExist ''RoleAssignment'')))"

definition remove_role_assignment_projection :: "fga \<Rightarrow> int \<Rightarrow> 'a role_db_scheme \<Rightarrow> projection result" where
  "remove_role_assignment_projection f aid db =
    and_then (assignment_facts aid db) (\<lambda>(a, r, m). and_then (openfga_context_for_world_kind f None) (\<lambda>ctx.
      Inr (DeleteTuples (role_assignment_tuples ctx a r m db))))"

definition project_role_assignment :: "env \<Rightarrow> fga \<Rightarrow> int \<Rightarrow> 'a role_db_scheme \<Rightarrow> projection result" where
  "project_role_assignment env f aid db =
    and_then (assignment_facts aid db) (\<lambda>(a, r, m).
      if \<not> role_assignment_is_current (now env) a r m db then remove_role_assignment_projection f aid db
      else and_then (openfga_context_for_world_kind f None) (\<lambda>ctx.
        Inr (WriteTuples (role_assignment_tuples ctx a r m db))))"

subsection \<open>One active assignment per member and role\<close>

definition assignments_inv :: "'a role_db_scheme \<Rightarrow> bool" where
  "assignments_inv db \<longleftrightarrow> distinct (map ra_id (role_assignments db)) \<and> (\<forall>m r. length (held m r db) \<le> 1) \<and>
     (\<forall>a \<in> set (role_assignments db). ra_start_at a < ra_end_at a)"

text \<open>A later version of the same assignment: an ended one never becomes active again.\<close>

definition evolves :: "role_assignment \<Rightarrow> role_assignment \<Rightarrow> bool" where
  "evolves a b \<longleftrightarrow> ra_id b = ra_id a \<and> ra_member b = ra_member a \<and> ra_role b = ra_role a \<and>
     ra_start_at b = ra_start_at a \<and> ra_granted_by b = ra_granted_by a \<and> ra_source_type b = ra_source_type a \<and>
     (ra_status a \<noteq> AssignmentActive \<longrightarrow> ra_status b \<noteq> AssignmentActive)"

definition rows_evolve :: "role_assignment list \<Rightarrow> role_assignment list \<Rightarrow> bool" where
  "rows_evolve = rows_follow evolves"

lemma evolves_refl [simp]: "evolves a a"
  by (simp add: evolves_def)

lemma rows_evolve_refl [simp]: "rows_evolve as as"
  unfolding rows_evolve_def by (rule rows_follow_refl) simp

lemma rows_evolve_trans:
  assumes "rows_evolve as bs" "rows_evolve bs cs" shows "rows_evolve as cs"
  using assms unfolding rows_evolve_def by (rule rows_follow_trans [rotated]) (auto simp: evolves_def)

lemma rows_evolve_update: "(\<And>a. P a \<Longrightarrow> a \<in> set as \<Longrightarrow> evolves a (u a)) \<Longrightarrow> rows_evolve as (update_rows P u as @ bs)"
  unfolding rows_evolve_def by (rule rows_follow_update) simp_all

lemma held_cong: "role_assignments db' = role_assignments db \<Longrightarrow> held m r db' = held m r db"
  by (simp add: held_def)

lemma assignments_inv_cong: "role_assignments db' = role_assignments db \<Longrightarrow> assignments_inv db' = assignments_inv db"
  by (simp add: assignments_inv_def held_def)

text \<open>Expiring touches exactly the active assignments of the member to the role that have ended.\<close>

lemma expire_rows:
  assumes "distinct (map ra_id (role_assignments db))"
  shows "role_assignments (expire_assignments m r at db) =
    update_rows (\<lambda>a. ra_member a = m \<and> ra_role a = r \<and> ra_status a = AssignmentActive \<and> ra_end_at a \<le> at)
      (\<lambda>a. a\<lparr>ra_status := AssignmentExpired\<rparr>) (role_assignments db)"
proof -
  have "(ra_id a \<in> set (map ra_id (filter (\<lambda>x. ra_end_at x \<le> at) (held m r db)))) =
      (ra_member a = m \<and> ra_role a = r \<and> ra_status a = AssignmentActive \<and> ra_end_at a \<le> at)"
    if "a \<in> set (role_assignments db)" for a
    using that distinct_map_unique [OF assms that] by (auto simp: held_def)
  then show ?thesis by (simp add: expire_assignments_def update_rows_def cong: map_cong)
qed

lemma held_expired:
  assumes "distinct (map ra_id (role_assignments db))"
  shows "held m' r' (expire_assignments m r at db) =
    filter (\<lambda>a. \<not> (m' = m \<and> r' = r \<and> ra_end_at a \<le> at)) (held m' r' db)"
proof -
  have "filter (\<lambda>a. ra_member a = m' \<and> ra_role a = r' \<and> ra_status a = AssignmentActive)
      (update_rows (\<lambda>a. ra_member a = m \<and> ra_role a = r \<and> ra_status a = AssignmentActive \<and> ra_end_at a \<le> at)
        (\<lambda>a. a\<lparr>ra_status := AssignmentExpired\<rparr>) as) =
    filter (\<lambda>a. \<not> (m' = m \<and> r' = r \<and> ra_end_at a \<le> at))
      (filter (\<lambda>a. ra_member a = m' \<and> ra_role a = r' \<and> ra_status a = AssignmentActive) as)" for as
    by (induction as) auto
  then show ?thesis unfolding held_def expire_rows [OF assms] .
qed

lemma next_pk_update: "(\<And>r. key (u r) = key r) \<Longrightarrow> next_pk key (update_rows P u rows) = next_pk key rows"
  unfolding next_pk_def by (induction rows) auto

text \<open>The assignment that a request finds or makes.\<close>

lemma latest_None: "latest_assignment as = None \<longleftrightarrow> as = []"
proof -
  have "(sort_key (\<lambda>a. (ra_start_at a, ra_id a)) as = []) = (as = [])"
    by (metis length_0_conv length_sort)
  then show ?thesis by (auto simp: latest_assignment_def split: list.splits)
qed

lemma latest_Some: "latest_assignment as = Some a \<Longrightarrow> a \<in> set as"
proof -
  assume "latest_assignment as = Some a"
  then have "a \<in> set (rev (sort_key (\<lambda>a. (ra_start_at a, ra_id a)) as))"
    unfolding latest_assignment_def by (cases "rev (sort_key (\<lambda>a. (ra_start_at a, ra_id a)) as)") auto
  then show "a \<in> set as" by simp
qed

lemma place_cases [consumes 2, case_names Reuse New]:
  assumes d: "distinct (map ra_id (role_assignments db))"
    and p: "place_assignment env m r by' s e src db = Inr ((a, c), db')"
  obtains "a \<in> set (held (m_id m) (rl_id r) db)" "s < ra_end_at a" "\<not> c"
      "db' = expire_assignments (m_id m) (rl_id r) s db"
    | "\<forall>x \<in> set (held (m_id m) (rl_id r) db). ra_end_at x \<le> s" "s < e" "c"
      "a = new_assignment env m r by' s e src db"
      "db' = (expire_assignments (m_id m) (rl_id r) s db)\<lparr>role_assignments :=
         role_assignments (expire_assignments (m_id m) (rl_id r) s db) @ [a]\<rparr>"
proof -
  let ?x = "expire_assignments (m_id m) (rl_id r) s db"
  let ?h = "filter (\<lambda>a. s < ra_end_at a) (held (m_id m) (rl_id r) ?x)"
  have h: "?h = filter (\<lambda>a. s < ra_end_at a) (held (m_id m) (rl_id r) db)"
    by (simp add: held_expired [OF d] not_le)
  have pk: "next_pk ra_id (role_assignments ?x) = next_pk ra_id (role_assignments db)"
    by (simp add: expire_assignments_def next_pk_update)
  show thesis
  proof (cases "latest_assignment ?h")
    case None
    then have "?h = []" by (simp add: latest_None)
    then have "\<forall>x \<in> set (held (m_id m) (rl_id r) db). ra_end_at x \<le> s" unfolding h by (auto simp: filter_empty_conv not_less)
    then show thesis
      using that(2) p None pk
      by (auto simp: place_assignment_def Let_def insert_assignment_def role_assignment_clean_def new_assignment_def
          split: if_splits)
  next
    case (Some b)
    from latest_Some [OF this] have b: "b \<in> set (held (m_id m) (rl_id r) db)" "s < ra_end_at b" unfolding h by auto
    from p Some have "b = a" "\<not> c" "db' = ?x" by (auto simp: place_assignment_def Let_def)
    with b show thesis using that(1) by blast
  qed
qed

text \<open>Placing keeps one active assignment per member and role; afterwards the member's only one is
  the assignment returned.\<close>

lemma place_held:
  assumes inv: "assignments_inv db" and p: "place_assignment env m r by' s e src db = Inr ((a, c), db')"
  shows "held (m_id m) (rl_id r) db' = [a]"
    "(m', r') \<noteq> (m_id m, rl_id r) \<Longrightarrow> held m' r' db' = held m' r' db"
proof -
  have d: "distinct (map ra_id (role_assignments db))" and one: "length (held m' r' db) \<le> 1" for m' r'
    using inv by (auto simp: assignments_inv_def)
  let ?x = "expire_assignments (m_id m) (rl_id r) s db"
  from d p have "held (m_id m) (rl_id r) db' = [a] \<and> ((m', r') \<noteq> (m_id m, rl_id r) \<longrightarrow> held m' r' db' = held m' r' db)"
  proof (cases rule: place_cases)
    case Reuse
    from one [of "m_id m" "rl_id r"] Reuse(1) have "held (m_id m) (rl_id r) db = [a]"
      by (cases "held (m_id m) (rl_id r) db") auto
    then show ?thesis using Reuse(2) by (auto simp: Reuse(4) held_expired [OF d])
  next
    case New
    have h: "held m' r' db' = held m' r' ?x @ (if m' = m_id m \<and> r' = rl_id r then [a] else [])" for m' r'
      by (auto simp: New(4,5) held_def new_assignment_def)
    show ?thesis using New(1) by (auto simp: h held_expired [OF d] filter_empty_conv)
  qed
  then show "held (m_id m) (rl_id r) db' = [a]"
    "(m', r') \<noteq> (m_id m, rl_id r) \<Longrightarrow> held m' r' db' = held m' r' db" by blast+
qed

lemma place_ok:
  assumes inv: "assignments_inv db" and p: "place_assignment env m r by' s e src db = Inr ((a, c), db')"
  shows "assignments_inv db'" "rows_evolve (role_assignments db) (role_assignments db')" "s < ra_end_at a"
    "\<exists>as. db' = db\<lparr>role_assignments := as\<rparr>"
proof -
  have d: "distinct (map ra_id (role_assignments db))" and one: "length (held m' r' db) \<le> 1"
    and w: "a \<in> set (role_assignments db) \<Longrightarrow> ra_start_at a < ra_end_at a" for m' r' a
    using inv by (auto simp: assignments_inv_def)
  let ?x = "expire_assignments (m_id m) (rl_id r) s db"
  have ids: "map ra_id (role_assignments ?x) = map ra_id (role_assignments db)"
    by (simp add: expire_rows [OF d] map_update_rows)
  have wx: "\<forall>x \<in> set (role_assignments ?x). ra_start_at x < ra_end_at x"
    using w by (auto simp: expire_rows [OF d] update_rows_def)
  have ev: "rows_evolve (role_assignments db) (role_assignments ?x @ bs)" for bs
    unfolding expire_rows [OF d] by (rule rows_evolve_update) (simp add: evolves_def)
  have one': "length (held m' r' db') \<le> 1" for m' r'
    using place_held(1) [OF inv p] place_held(2) [OF inv p, of m' r'] one [of m' r'] by (cases "(m', r') = (m_id m, rl_id r)") auto
  from d p have "distinct (map ra_id (role_assignments db')) \<and> (\<forall>x \<in> set (role_assignments db'). ra_start_at x < ra_end_at x) \<and>
      rows_evolve (role_assignments db) (role_assignments db') \<and> s < ra_end_at a \<and> (\<exists>as. db' = db\<lparr>role_assignments := as\<rparr>)"
  proof (cases rule: place_cases)
    case Reuse
    have "\<exists>as. db' = db\<lparr>role_assignments := as\<rparr>" unfolding Reuse(4) expire_assignments_def by blast
    then show ?thesis using ids d wx Reuse(2) ev [of "[]"] by (simp add: Reuse(4))
  next
    case New
    have "ra_id a \<notin> set (map ra_id (role_assignments db))"
      using next_pk_fresh [of _ "role_assignments db" ra_id] by (fastforce simp: New(4) new_assignment_def)
    then have "distinct (map ra_id (role_assignments db'))" using ids d by (simp add: New(5))
    moreover have "s < ra_end_at a" "\<forall>x \<in> set (role_assignments db'). ra_start_at x < ra_end_at x"
      using wx New(2) by (auto simp: New(4,5) new_assignment_def)
    moreover have "\<exists>as. db' = db\<lparr>role_assignments := as\<rparr>" unfolding New(5) expire_assignments_def by auto
    moreover have "rows_evolve (role_assignments db) (role_assignments db')" using ev by (simp add: New(5))
    ultimately show ?thesis by blast
  qed
  then show "assignments_inv db'" "rows_evolve (role_assignments db) (role_assignments db')" "s < ra_end_at a"
    "\<exists>as. db' = db\<lparr>role_assignments := as\<rparr>" using one' unfolding assignments_inv_def by blast+
qed

text \<open>Issuing a number writes templates, grants and events only.\<close>

lemma issue_number_frame:
  assumes "templates_wf db" "issue_covenanter_number env uid m by' db = Inr (g, db')"
  obtains ts gs es where "db' = db\<lparr>credential_templates := ts, credential_grants := gs, system_events := es\<rparr>"
  using assms
proof (cases rule: covenanter_cases)
  case (Existing n t)
  from builtin_ok(2) [OF assms(1) this(1)] obtain ts where "db' = db\<lparr>credential_templates := ts\<rparr>"
    unfolding templates_kept_def by blast
  then show thesis using that [of "system_events db" "credential_grants db" ts] by simp
next
  case (Fresh n db1 t)
  from builtin_ok(2) [OF assms(1) Fresh(1)] obtain ts where "db1 = db\<lparr>credential_templates := ts\<rparr>"
    unfolding templates_kept_def by blast
  moreover from Fresh(5) obtain e where
    "db' = db1\<lparr>credential_grants := credential_grants db1 @ [g], system_events := system_events db1 @ [e]\<rparr>"
    by (rule issue_credential_ok)
  ultimately show thesis using that by simp
qed

lemma issue_number_keeps:
  assumes "templates_wf db" "issue_covenanter_number env uid m by' db = Inr (g, db')"
  shows "role_assignments db' = role_assignments db" "organizations db' = organizations db" "roles db' = roles db"
    "permissions db' = permissions db" "role_permissions db' = role_permissions db" "members db' = members db"
proof -
  from assms obtain ts gs es where "db' = db\<lparr>credential_templates := ts, credential_grants := gs, system_events := es\<rparr>"
    by (rule issue_number_frame)
  then show "role_assignments db' = role_assignments db" "organizations db' = organizations db" "roles db' = roles db"
    "permissions db' = permissions db" "role_permissions db' = role_permissions db" "members db' = members db" by simp_all
qed

definition role_inv :: "'a credential_db_scheme \<Rightarrow> bool" where
  "role_inv db \<longleftrightarrow> assignments_inv db \<and> numbers_inv db"

definition role_safe :: "env \<Rightarrow> 'a credential_db_scheme \<Rightarrow> 'a credential_db_scheme \<Rightarrow> bool" where
  "role_safe env db db' \<longleftrightarrow> rows_evolve (role_assignments db) (role_assignments db') \<and> credential_safe env db db'"

lemma role_safe_trans: "role_safe env a b \<Longrightarrow> role_safe env b c \<Longrightarrow> role_safe env a c"
  using rows_evolve_trans audited_trans by (auto simp: role_safe_def credential_safe_def intro: prefix_order.order_trans)

lemma role_safe_refl [simp]: "role_safe env db db"
  by (simp add: role_safe_def credential_safe_def)

text \<open>Writes outside the tables of the invariant.\<close>

lemma role_frame:
  assumes "db' = db\<lparr>organizations := os, roles := rs, permissions := ps, role_permissions := rps, role_assignments := as\<rparr>"
  shows "numbers_inv db' = numbers_inv db" "credential_safe env db db'"
    "credential_templates db' = credential_templates db" "members db' = members db" "system_events db' = system_events db"
  by (auto simp: assms numbers_inv_def templates_wf_def template_ids_def grants_of_def credential_safe_def intro: audited_same)

lemma create_assignment_cases:
  assumes c: "create_role_assignment env uid mid r by' s e src skip db = Inr (a, db')"
  obtains m db1 created where "find_row (\<lambda>m. m_id m = mid) (members db) = Some m"
    "skip \<or> validate_role_assignment_prerequisites env m r db = Inr ()"
    "place_assignment env m r by' (case s of None \<Rightarrow> now env | Some t \<Rightarrow> t)
       (case e of None \<Rightarrow> default_role_assignment_end_at (case s of None \<Rightarrow> now env | Some t \<Rightarrow> t) | Some t \<Rightarrow> t) src db
       = Inr ((a, created), db1)"
    "db' = db1 \<or> (\<exists>g. issue_covenanter_number env uid m by' db1 = Inr (g, db'))"
  using c by (auto simp: create_role_assignment_def Let_def split: option.splits if_splits)

lemma create_assignment_ok:
  assumes inv: "role_inv db" and c: "create_role_assignment env uid mid r by' s e src skip db = Inr (a, db')"
  shows "role_inv db'" "role_safe env db db'" "held mid (rl_id r) db' = [a]"
    "(case s of None \<Rightarrow> now env | Some t \<Rightarrow> t) < ra_end_at a"
proof -
  have inv1: "assignments_inv db" "numbers_inv db" using inv unfolding role_inv_def by blast+
  from c obtain m db1 created where m: "find_row (\<lambda>m. m_id m = mid) (members db) = Some m"
    and p: "place_assignment env m r by' (case s of None \<Rightarrow> now env | Some t \<Rightarrow> t)
       (case e of None \<Rightarrow> default_role_assignment_end_at (case s of None \<Rightarrow> now env | Some t \<Rightarrow> t) | Some t \<Rightarrow> t) src db
       = Inr ((a, created), db1)"
    and d: "db' = db1 \<or> (\<exists>g. issue_covenanter_number env uid m by' db1 = Inr (g, db'))"
    by (rule create_assignment_cases)
  have mid: "m_id m = mid" using find_row_Some_iff [OF m] by simp
  note ok = place_ok [OF inv1(1) p] place_held(1) [OF inv1(1) p]
  obtain as where as: "db1 = db\<lparr>organizations := organizations db, roles := roles db, permissions := permissions db,
      role_permissions := role_permissions db, role_assignments := as\<rparr>" using ok(4) by auto
  have n1: "numbers_inv db1" "credential_safe env db db1" using role_frame [OF as] inv1(2) by blast+
  then have wf: "templates_wf db1" unfolding numbers_inv_def by blast
  have "numbers_inv db' \<and> credential_safe env db1 db' \<and> role_assignments db' = role_assignments db1"
  proof (cases "db' = db1")
    case True
    then show ?thesis using n1 by (simp add: credential_safe_def)
  next
    case False
    with d obtain g where g: "issue_covenanter_number env uid m by' db1 = Inr (g, db')" by blast
    from wf g obtain ts gs es where "db' = db1\<lparr>credential_templates := ts, credential_grants := gs, system_events := es\<rparr>"
      by (rule issue_number_frame)
    then have "role_assignments db' = role_assignments db1" by simp
    then show ?thesis using covenanter_numbers [OF n1(1) g] covenanter_safe [OF wf g] by blast
  qed
  note fin = this
  show "role_inv db'" using fin ok(1) assignments_inv_cong [of db' db1] unfolding role_inv_def by blast
  have "role_safe env db db1" using ok(2) n1(2) by (simp add: role_safe_def)
  moreover have "role_safe env db1 db'" using fin by (simp add: role_safe_def)
  ultimately show "role_safe env db db'" by (rule role_safe_trans)
  show "held mid (rl_id r) db' = [a]" using fin ok(5) held_cong [of db' db1] by (simp add: mid)
  show "(case s of None \<Rightarrow> now env | Some t \<Rightarrow> t) < ra_end_at a" by (rule ok(3))
qed

lemma revoke_ok:
  assumes inv: "assignments_inv db" and r: "revoke_role_assignment env aid by' e db = Inr (a', db')"
  shows "assignments_inv db'" "rows_evolve (role_assignments db) (role_assignments db')"
    "\<exists>as. db' = db\<lparr>role_assignments := as\<rparr>"
proof -
  from r obtain a where a: "a \<in> set (role_assignments db)" "ra_id a = aid" "evolves a a'" "ra_status a' = AssignmentRevoked"
    "ra_start_at a' < ra_end_at a'"
    "db' = db\<lparr>role_assignments := update_rows (\<lambda>x. ra_id x = aid) (\<lambda>_. a') (role_assignments db)\<rparr>"
    by (auto simp: revoke_role_assignment_def role_assignment_clean_def Let_def evolves_def split: option.splits if_splits
        dest!: find_row_Some_iff)
  have d: "distinct (map ra_id (role_assignments db))" and one: "length (held m r db) \<le> 1"
    and w: "\<forall>x \<in> set (role_assignments db). ra_start_at x < ra_end_at x" for m r
    using inv by (auto simp: assignments_inv_def)
  have same: "x = a" if "x \<in> set (role_assignments db)" "ra_id x = aid" for x
    using distinct_map_unique [OF d that(1) a(1)] a(2) that(2) by simp
  have "length (filter P (update_rows Q (\<lambda>_. a') as)) \<le> length (filter P as)" if "\<not> P a'" for P Q and as
    using that by (induction as) auto
  from this [of "\<lambda>x. ra_member x = m \<and> ra_role x = r \<and> ra_status x = AssignmentActive" for m r]
  have "length (held m r db') \<le> length (held m r db)" for m r using a(4) by (simp add: held_def a(6))
  then have "length (held m r db') \<le> 1" for m r using one [of m r] by (meson le_trans)
  moreover have "map ra_id (role_assignments db') = map ra_id (role_assignments db)"
    using a(3) by (auto simp: a(6) update_rows_def evolves_def a(2))
  then have "distinct (map ra_id (role_assignments db'))" using d by (simp only:)
  moreover have "\<forall>x \<in> set (role_assignments db'). ra_start_at x < ra_end_at x"
    using w a(5) by (auto simp: a(6) update_rows_def)
  ultimately show "assignments_inv db'" unfolding assignments_inv_def by blast
  show "rows_evolve (role_assignments db) (role_assignments db')"
  proof -
    have "evolves x a'" if "ra_id x = aid" "x \<in> set (role_assignments db)" for x using same [OF that(2,1)] a(3) by simp
    from rows_evolve_update [of "\<lambda>x. ra_id x = aid" "role_assignments db" "\<lambda>_. a'" "[]", OF this]
    show ?thesis by (simp add: a(6))
  qed
  show "\<exists>as. db' = db\<lparr>role_assignments := as\<rparr>" unfolding a(6) by blast
qed

subsection \<open>What the setup writes\<close>

text \<open>Setting up roles writes organizations, roles, permissions and their bindings only.\<close>

definition setup_only :: "'a role_db_scheme \<Rightarrow> 'a role_db_scheme \<Rightarrow> bool" where
  "setup_only db db' \<longleftrightarrow> (\<exists>os rs ps rps. db' =
     db\<lparr>organizations := os, roles := rs, permissions := ps, role_permissions := rps\<rparr>)"

lemma setup_only_simps [simp]:
  "setup_only db db" "setup_only db (db\<lparr>organizations := os\<rparr>)" "setup_only db (db\<lparr>roles := rs\<rparr>)"
  "setup_only db (db\<lparr>permissions := ps\<rparr>)" "setup_only db (db\<lparr>role_permissions := rps\<rparr>)"
proof -
  show "setup_only db (db\<lparr>organizations := os\<rparr>)" unfolding setup_only_def
    by (intro exI [of _ os] exI [of _ "roles db"] exI [of _ "permissions db"] exI [of _ "role_permissions db"]) simp
  show "setup_only db (db\<lparr>roles := rs\<rparr>)" unfolding setup_only_def
    by (intro exI [of _ "organizations db"] exI [of _ rs] exI [of _ "permissions db"] exI [of _ "role_permissions db"]) simp
  show "setup_only db (db\<lparr>permissions := ps\<rparr>)" unfolding setup_only_def
    by (intro exI [of _ "organizations db"] exI [of _ "roles db"] exI [of _ ps] exI [of _ "role_permissions db"]) simp
  show "setup_only db (db\<lparr>role_permissions := rps\<rparr>)" unfolding setup_only_def
    by (intro exI [of _ "organizations db"] exI [of _ "roles db"] exI [of _ "permissions db"] exI [of _ rps]) simp
  show "setup_only db db" unfolding setup_only_def
    by (intro exI [of _ "organizations db"] exI [of _ "roles db"] exI [of _ "permissions db"] exI [of _ "role_permissions db"]) simp
qed

lemma setup_only_trans: "setup_only a b \<Longrightarrow> setup_only b c \<Longrightarrow> setup_only a c"
  unfolding setup_only_def by fastforce

lemma setup_only_frame:
  assumes "setup_only db db'"
  shows "role_assignments db' = role_assignments db" "members db' = members db"
    "system_events db' = system_events db"
  using assms unfolding setup_only_def by auto

lemma setup_only_roles:
  "setup_only db (snd (get_or_create_role env og n d db))" "setup_only db (save_role r db)"
  "setup_only db (snd (activate_role env r db))"
  by (simp_all add: get_or_create_role_def save_role_def activate_role_def Let_def split: option.splits)

lemma setup_only_definition_role: "setup_only db (snd (ensure_definition_role env org d db))"
  by (simp add: ensure_definition_role_def Let_def case_prod_unfold setup_only_roles
      setup_only_trans [OF setup_only_roles(1) setup_only_roles(2)])

lemma setup_only_definition_roles: "setup_only db (snd (ensure_definition_roles env org ds db))"
proof (induction ds arbitrary: db)
  case (Cons d ds)
  show ?case
    using setup_only_trans [OF setup_only_definition_role Cons.IH] by (simp add: Let_def case_prod_unfold)
qed simp

lemma setup_only_catalog: "setup_only db (snd (ensure_catalog_roles env db))"
proof -
  have "setup_only db (snd (ensure_catalog_organization env db))"
    by (simp add: ensure_catalog_organization_def save_organization_def Let_def split: option.splits)
  from setup_only_trans [OF this setup_only_definition_roles] show ?thesis
    by (simp add: ensure_catalog_roles_def Let_def case_prod_unfold)
qed

lemma setup_only_permissions: "setup_only db (snd (ensure_permissions ps db))"
proof (induction ps arbitrary: db)
  case (Cons p ps)
  show ?case
    using setup_only_trans [OF setup_only_simps(4) Cons.IH] Cons.IH by (simp add: Let_def case_prod_unfold)
qed simp

lemma setup_only_bindings: "setup_only db (snd (ensure_bindings r cs db))"
proof (induction cs arbitrary: db)
  case (Cons c cs)
  show ?case
    using setup_only_trans [OF setup_only_simps(5) Cons.IH] Cons.IH by (simp add: Let_def case_prod_unfold)
qed simp

lemma setup_only_catalog_role:
  "ensure_catalog_role env n db = Inr (r, db') \<Longrightarrow> setup_only db db'"
  using setup_only_catalog [of db env]
  by (auto simp: ensure_catalog_role_def Let_def split: option.splits prod.splits)

lemma administrator_cases:
  assumes "ensure_administrator_role env db = Inr (s, db')"
  obtains np db1 db2 nb where "ensure_permissions BASE_ADMINISTRATION_PERMISSIONS db = (np, db1)"
    "ensure_catalog_role env ROLE_ADMINISTRATOR db1 = Inr (as_role s, db2)"
    "ensure_bindings (rl_id (as_role s)) (filter (\<lambda>c. c \<in> set ADMINISTRATOR_PERMISSION_CODES)
       (map pm_code (sort_key (\<lambda>p. (pm_category p, pm_code p)) (permissions db2)))) db2 = (nb, db')"
proof -
  obtain np db1 where p: "ensure_permissions BASE_ADMINISTRATION_PERMISSIONS db = (np, db1)"
    by (cases "ensure_permissions BASE_ADMINISTRATION_PERMISSIONS db")
  from assms obtain r db2 where r: "ensure_catalog_role env ROLE_ADMINISTRATOR db1 = Inr (r, db2)"
    by (auto simp: ensure_administrator_role_def p Let_def)
  then show thesis
    using that [OF p] assms by (auto simp: ensure_administrator_role_def p Let_def case_prod_unfold prod_eq_iff)
qed

lemma setup_only_administrator:
  assumes "ensure_administrator_role env db = Inr (s, db')" shows "setup_only db db'"
  using assms
proof (rule administrator_cases)
  fix np db1 db2 nb
  assume "ensure_permissions BASE_ADMINISTRATION_PERMISSIONS db = (np, db1)"
    "ensure_catalog_role env ROLE_ADMINISTRATOR db1 = Inr (as_role s, db2)"
    "ensure_bindings (rl_id (as_role s)) (filter (\<lambda>c. c \<in> set ADMINISTRATOR_PERMISSION_CODES)
       (map pm_code (sort_key (\<lambda>p. (pm_category p, pm_code p)) (permissions db2)))) db2 = (nb, db')"
  then have "setup_only db db1" "setup_only db1 db2" "setup_only db2 db'"
    using setup_only_permissions [of db BASE_ADMINISTRATION_PERMISSIONS] setup_only_catalog_role
      setup_only_bindings [of db2 "rl_id (as_role s)" "filter (\<lambda>c. c \<in> set ADMINISTRATOR_PERMISSION_CODES)
       (map pm_code (sort_key (\<lambda>p. (pm_category p, pm_code p)) (permissions db2)))"]
    by auto
  then show ?thesis by (blast intro: setup_only_trans)
qed

lemma setup_only_finance_parts:
  "setup_only db (snd (get_or_create_roles env org specs db))" "setup_only db (snd (activate_roles env rs db))"
  "setup_only db (snd (ensure_role_bindings bs db))"
proof -
  show "setup_only db (snd (get_or_create_roles env org specs db))"
  proof (induction specs arbitrary: db)
    case (Cons x specs)
    obtain n d where "x = (n, d)" by (cases x)
    then show ?case using setup_only_trans [OF setup_only_roles(1) Cons.IH] by (simp add: Let_def case_prod_unfold)
  qed simp
  show "setup_only db (snd (activate_roles env rs db))"
  proof (induction rs arbitrary: db)
    case (Cons r rs)
    then show ?case using setup_only_trans [OF setup_only_roles(3) Cons.IH] by (simp add: Let_def case_prod_unfold)
  qed simp
  show "setup_only db (snd (ensure_role_bindings bs db))"
  proof (induction bs arbitrary: db)
    case (Cons x bs)
    obtain r cs where "x = (r, cs)" by (cases x)
    then show ?case using setup_only_trans [OF setup_only_bindings Cons.IH] by (simp add: Let_def case_prod_unfold)
  qed simp
qed

lemma setup_only_finance_rows: "setup_only db (snd (finance_role_rows env org db))"
  unfolding finance_role_rows_def Let_def case_prod_unfold snd_conv
  by (rule setup_only_trans [OF setup_only_finance_parts(1) setup_only_finance_parts(2)])

text \<open>Three names give three roles.\<close>

lemma finance_roles_three:
  "length (fst (fst (finance_role_rows env org db))) = 3" "length (snd (fst (finance_role_rows env org db))) = 3"
proof -
  have made: "length (fst (get_or_create_roles env org specs d)) = length specs" for specs and d :: "'a role_db_scheme"
    by (induction specs arbitrary: d) (auto simp: Let_def split: prod.splits, metis fst_conv)
  have "length (fst (activate_roles env rs d)) = length rs" for rs and d :: "'a role_db_scheme"
    by (induction rs arbitrary: d) (auto simp: Let_def split: prod.splits, metis fst_conv)
  with made show "length (fst (fst (finance_role_rows env org db))) = 3" "length (snd (fst (finance_role_rows env org db))) = 3"
    unfolding finance_role_rows_def Let_def case_prod_unfold fst_conv snd_conv
    by (simp_all only: length_map list.size)
qed

lemma setup_only_finance_organization:
  assumes "ensure_finance_organization env db = Inr (x, db')" shows "setup_only db db'"
proof -
  from assms obtain found where f: "get_unique (\<lambda>og. og_name og = FINANCE_ORGANIZATION_NAME) (organizations db) = Inr found"
    by (auto simp: ensure_finance_organization_def)
  with assms show ?thesis
    by (cases found) (auto simp: ensure_finance_organization_def save_organization_def Let_def split: if_splits)
qed

lemma setup_only_finance:
  assumes "ensure_finance_roles env db = Inr (s, db')" shows "setup_only db db'"
proof -
  obtain np db1 where p: "ensure_permissions BASE_FINANCE_PERMISSIONS db = (np, db1)" by (rule prod.exhaust)
  from assms obtain og c db2 where o: "ensure_finance_organization env db1 = Inr ((og, c), db2)"
    unfolding ensure_finance_roles_def p Let_def prod.case by (auto simp only: and_then_Inr_conv prod.case)
  obtain x db3 where rows: "finance_role_rows env (og_id og) db2 = (x, db3)" by (rule prod.exhaust)
  obtain bs where "db' = snd (ensure_role_bindings bs db3)"
    using assms unfolding ensure_finance_roles_def p o Let_def prod.case and_then.simps rows case_prod_unfold fst_conv snd_conv
    by blast
  then have "setup_only db3 db'" by (simp add: setup_only_finance_parts)
  moreover have "setup_only db2 db3" using setup_only_finance_rows [of db2 env "og_id og"] by (simp add: rows)
  moreover have "setup_only db db1" using setup_only_permissions [of db BASE_FINANCE_PERMISSIONS] by (simp add: p)
  ultimately show ?thesis using setup_only_finance_organization [OF o] by (blast intro: setup_only_trans)
qed

subsection \<open>The catalog is ready after its setup\<close>

definition setup_wf :: "'a role_db_scheme \<Rightarrow> bool" where
  "setup_wf db \<longleftrightarrow> distinct (map rl_id (roles db)) \<and> distinct (map og_id (organizations db))"

definition organization_ready :: "organization \<Rightarrow> 'a role_db_scheme \<Rightarrow> bool" where
  "organization_ready og db \<longleftrightarrow>
     find_row (\<lambda>og. og_role_catalog_key og = Some ROLE_CATALOG_ORGANIZATION_KEY) (organizations db) = Some og \<and>
     og_name og = ROLE_CATALOG_ORGANIZATION_NAME \<and> og_status og = OrgActive"

definition role_ready :: "int \<Rightarrow> role_definition \<Rightarrow> 'a role_db_scheme \<Rightarrow> role \<Rightarrow> bool" where
  "role_ready org d db r \<longleftrightarrow>
     find_row (\<lambda>r. rl_organization r = org \<and> rl_name r = rd_display_name d) (roles db) = Some r \<and>
     rl_status r = RoleActive \<and> rl_description r = rd_description d"

lemma find_row_replace:
  assumes "distinct (map k rows)" "r \<in> set rows" "k r' = k r" "P r' = P r"
  shows "find_row P (update_rows (\<lambda>x. k x = k r) (\<lambda>_. r') rows) = map_option (\<lambda>x. if x = r then r' else x) (find_row P rows)"
proof -
  have "update_rows (\<lambda>x. k x = k r) (\<lambda>_. r') rows = update_rows (\<lambda>x. x = r) (\<lambda>_. r') rows"
    using distinct_map_unique [OF assms(1) _ assms(2)] by (auto simp: update_rows_def)
  moreover have "find_row P (update_rows (\<lambda>x. x = r) (\<lambda>_. r') rows) = map_option (\<lambda>x. if x = r then r' else x) (find_row P rows)"
    using assms(4) by (induction rows) auto
  ultimately show ?thesis by simp
qed

lemma fresh_pk: "distinct (map key rows) \<Longrightarrow> key r = next_pk key rows \<Longrightarrow> distinct (map key (rows @ [r]))"
  using next_pk_fresh [of _ rows key] by fastforce

lemma organization_made:
  assumes "distinct (map og_id (organizations db))" "ensure_catalog_organization env db = (og, db')"
  shows "organization_ready og db'" "distinct (map og_id (organizations db'))" "roles db' = roles db"
proof -
  let ?P = "\<lambda>og. og_role_catalog_key og = Some ROLE_CATALOG_ORGANIZATION_KEY"
  have "organization_ready og db' \<and> distinct (map og_id (organizations db')) \<and> roles db' = roles db"
  proof (cases "find_row ?P (organizations db)")
    case None
    then show ?thesis using assms fresh_pk [OF assms(1), of "new_organization env ROLE_CATALOG_ORGANIZATION_NAME (Some ROLE_CATALOG_ORGANIZATION_KEY) db"]
      by (auto simp: ensure_catalog_organization_def organization_ready_def new_organization_def find_row_append Let_def)
  next
    case (Some x)
    let ?x = "x\<lparr>og_name := ROLE_CATALOG_ORGANIZATION_NAME, og_status := OrgActive, og_updated_at := now env\<rparr>"
    have "find_row ?P (update_rows (\<lambda>y. og_id y = og_id x) (\<lambda>_. ?x) (organizations db)) = Some ?x"
      using find_row_replace [OF assms(1), of x ?x ?P] find_row_Some_iff [OF Some] Some by simp
    moreover have "map og_id (update_rows (\<lambda>y. og_id y = og_id x) (\<lambda>_. ?x) (organizations db)) = map og_id (organizations db)"
      by (rule map_update_rows) simp
    ultimately show ?thesis using assms Some
      by (auto simp: ensure_catalog_organization_def organization_ready_def save_organization_def Let_def split: if_splits)
  qed
  then show "organization_ready og db'" "distinct (map og_id (organizations db'))" "roles db' = roles db" by blast+
qed

lemma role_made:
  assumes d: "distinct (map rl_id (roles db))" and e: "ensure_definition_role env org d db = (r, db')"
  shows "role_ready org d db' r" "distinct (map rl_id (roles db'))" "organizations db' = organizations db"
    "role_ready org d' db r' \<Longrightarrow> rd_display_name d' \<noteq> rd_display_name d \<Longrightarrow> role_ready org d' db' r'"
proof -
  let ?P = "\<lambda>d r. rl_organization r = org \<and> rl_name r = rd_display_name d"
  have "role_ready org d db' r \<and> distinct (map rl_id (roles db')) \<and> organizations db' = organizations db \<and>
    (role_ready org d' db r' \<longrightarrow> rd_display_name d' \<noteq> rd_display_name d \<longrightarrow> role_ready org d' db' r')"
  proof (cases "find_row (?P d) (roles db)")
    case None
    then show ?thesis using e fresh_pk [OF d, of "new_role env org (rd_display_name d) (rd_description d) db"]
      by (auto simp: ensure_definition_role_def get_or_create_role_def role_ready_def new_role_def find_row_append Let_def)
  next
    case (Some x)
    let ?x = "x\<lparr>rl_status := RoleActive, rl_description := rd_description d, rl_updated_at := now env\<rparr>"
    note x = find_row_Some_iff [OF Some]
    have f: "find_row (?P d') (update_rows (\<lambda>y. rl_id y = rl_id x) (\<lambda>_. ?x) (roles db)) =
        map_option (\<lambda>y. if y = x then ?x else y) (find_row (?P d') (roles db))" for d'
      using find_row_replace [OF d, of x ?x "?P d'"] x by simp
    have other: "r' \<noteq> x" if "find_row (?P d') (roles db) = Some r'" "rd_display_name d' \<noteq> rd_display_name d"
      using find_row_Some_iff [OF that(1)] x that(2) by auto
    have "map rl_id (update_rows (\<lambda>y. rl_id y = rl_id x) (\<lambda>_. ?x) (roles db)) = map rl_id (roles db)"
      by (rule map_update_rows) simp
    then show ?thesis using e d Some f [of d] f [of d'] other
      by (auto simp: ensure_definition_role_def get_or_create_role_def role_ready_def save_role_def Let_def split: if_splits)
  qed
  then show "role_ready org d db' r" "distinct (map rl_id (roles db'))" "organizations db' = organizations db"
    "role_ready org d' db r' \<Longrightarrow> rd_display_name d' \<noteq> rd_display_name d \<Longrightarrow> role_ready org d' db' r'" by blast+
qed

lemma roles_made:
  assumes "distinct (map rl_id (roles db))" "distinct (map rd_display_name ds)" "ensure_definition_roles env org ds db = (rs, db')"
  shows "map fst rs = map rd_code ds" "list_all2 (\<lambda>d x. role_ready org d db' (snd x)) ds rs"
    "distinct (map rl_id (roles db'))" "organizations db' = organizations db"
    "role_ready org d' db r' \<Longrightarrow> rd_display_name d' \<notin> set (map rd_display_name ds) \<Longrightarrow> role_ready org d' db' r'"
proof -
  have "map fst rs = map rd_code ds \<and> list_all2 (\<lambda>d x. role_ready org d db' (snd x)) ds rs \<and>
    distinct (map rl_id (roles db')) \<and> organizations db' = organizations db \<and>
    (\<forall>d' r'. role_ready org d' db r' \<longrightarrow> rd_display_name d' \<notin> set (map rd_display_name ds) \<longrightarrow> role_ready org d' db' r')"
    using assms
  proof (induction ds arbitrary: db rs)
    case (Cons d ds)
    obtain r db1 where r: "ensure_definition_role env org d db = (r, db1)" by (rule prod.exhaust)
    obtain rs' where rs: "ensure_definition_roles env org ds db1 = (rs', db')" "rs = (rd_code d, r) # rs'"
      using Cons.prems(3) r by (auto simp: Let_def split: prod.splits)
    note m = role_made [OF Cons.prems(1) r]
    have "distinct (map rd_display_name ds)" using Cons.prems(2) by simp
    note ih = Cons.IH [OF m(2) this rs(1)]
    have "role_ready org d db' r" using ih m(1) Cons.prems(2) by simp
    then show ?case using ih m rs(2) by auto
  qed auto
  then show "map fst rs = map rd_code ds" "list_all2 (\<lambda>d x. role_ready org d db' (snd x)) ds rs"
    "distinct (map rl_id (roles db'))" "organizations db' = organizations db"
    "role_ready org d' db r' \<Longrightarrow> rd_display_name d' \<notin> set (map rd_display_name ds) \<Longrightarrow> role_ready org d' db' r'" by blast+
qed

definition catalog_ready :: "(string \<times> role) list \<Rightarrow> 'a role_db_scheme \<Rightarrow> bool" where
  "catalog_ready rs db \<longleftrightarrow> setup_wf db \<and> (\<exists>og. organization_ready og db \<and> map fst rs = map rd_code ROLE_DEFINITIONS \<and>
     list_all2 (\<lambda>d x. role_ready (og_id og) d db (snd x)) ROLE_DEFINITIONS rs)"

lemma catalog_names_distinct: "distinct (map rd_display_name ROLE_DEFINITIONS)"
  by (simp add: catalog_defs)

lemma catalog_made:
  assumes "setup_wf db" "ensure_catalog_roles env db = (rs, db')" shows "catalog_ready rs db'"
proof -
  obtain og db1 where og: "ensure_catalog_organization env db = (og, db1)" by (rule prod.exhaust)
  with assms(2) have rs: "ensure_definition_roles env (og_id og) ROLE_DEFINITIONS db1 = (rs, db')"
    by (simp add: ensure_catalog_roles_def)
  have wf: "distinct (map og_id (organizations db))" "distinct (map rl_id (roles db))" using assms(1) by (auto simp: setup_wf_def)
  note o = organization_made [OF wf(1) og]
  have "distinct (map rl_id (roles db1))" using o(3) wf(2) by simp
  note r = roles_made [OF this catalog_names_distinct rs]
  have "organization_ready og db'" using o(1) r(4) by (simp add: organization_ready_def)
  then show ?thesis using r(1-4) o(2) by (auto simp: catalog_ready_def setup_wf_def)
qed

lemma catalog_again:
  assumes "catalog_ready rs db" shows "ensure_catalog_roles env db = (rs, db)"
proof -
  from assms obtain og where og: "organization_ready og db" and c: "map fst rs = map rd_code ROLE_DEFINITIONS"
    and r: "list_all2 (\<lambda>d x. role_ready (og_id og) d db (snd x)) ROLE_DEFINITIONS rs" by (auto simp: catalog_ready_def)
  have "ensure_definition_roles env org ds db = (rs, db)"
    if "list_all2 (\<lambda>d x. role_ready org d db (snd x)) ds rs" "map fst rs = map rd_code ds" for org ds rs
    using that
  proof (induction ds rs rule: list_all2_induct)
    case (Cons d ds x rs)
    then show ?case
      by (cases x) (auto simp: ensure_definition_role_def get_or_create_role_def role_ready_def Let_def)
  qed simp
  from this [OF r c] og show ?thesis
    by (simp add: ensure_catalog_roles_def ensure_catalog_organization_def organization_ready_def)
qed

lemma catalog_ready_cong:
  "organizations db' = organizations db \<Longrightarrow> roles db' = roles db \<Longrightarrow> catalog_ready rs db' = catalog_ready rs db"
  by (simp add: catalog_ready_def organization_ready_def role_ready_def setup_wf_def)

lemma catalog_role_ready:
  assumes "catalog_ready rs db" "d \<in> set ROLE_DEFINITIONS"
  obtains r og where "map_of rs (rd_code d) = Some r" "organization_ready og db" "role_ready (og_id og) d db r"
proof -
  from assms(1) obtain og where og: "organization_ready og db" "map fst rs = map rd_code ROLE_DEFINITIONS"
    "list_all2 (\<lambda>d x. role_ready (og_id og) d db (snd x)) ROLE_DEFINITIONS rs" by (auto simp: catalog_ready_def)
  obtain i where i: "i < length ROLE_DEFINITIONS" "ROLE_DEFINITIONS ! i = d" using assms(2) by (auto simp: in_set_conv_nth)
  have l: "length rs = length ROLE_DEFINITIONS" using og(3) by (simp add: list_all2_lengthD)
  have "distinct (map rd_code ROLE_DEFINITIONS)" by (simp add: catalog_defs)
  then have dist: "distinct (map fst rs)" by (simp only: og(2))
  have "fst (rs ! i) = rd_code d" using og(2) i l by (metis nth_map)
  then have "map_of rs (rd_code d) = Some (snd (rs ! i))"
    using dist i l by (intro map_of_is_SomeI) (metis nth_mem prod.collapse)+
  moreover have "role_ready (og_id og) d db (snd (rs ! i))" using og(3) i by (auto simp: list_all2_conv_all_nth)
  ultimately show thesis using that og(1) by blast
qed

subsection \<open>Histories\<close>

datatype role_op =
    GrantRole string int role "int option" "time option" "time option" assignment_source bool
  | RevokeRole int "int option" "time option"
  | SetupAdministrator
  | SetupFinance
  | Bootstrap string int "int option"

fun role_service :: "env \<Rightarrow> role_op \<Rightarrow> 'a credential_db_scheme \<Rightarrow> (unit \<times> 'a credential_db_scheme) result" where
  "role_service env (GrantRole uid mid r by' s e src skip) db =
     and_then (create_role_assignment env uid mid r by' s e src skip db) (\<lambda>(a, db'). Inr ((), db'))"
| "role_service env (RevokeRole aid by' e) db =
     and_then (revoke_role_assignment env aid by' e db) (\<lambda>(a, db'). Inr ((), db'))"
| "role_service env SetupAdministrator db = and_then (ensure_administrator_role env db) (\<lambda>(a, db'). Inr ((), db'))"
| "role_service env SetupFinance db = and_then (ensure_finance_roles env db) (\<lambda>(a, db'). Inr ((), db'))"
| "role_service env (Bootstrap uid mid by') db =
     and_then (bootstrap_initial_administrator env uid mid by' db) (\<lambda>(a, db'). Inr ((), db'))"

definition role_step :: "env \<Rightarrow> time \<times> role_op \<Rightarrow> 'a credential_db_scheme \<Rightarrow> (unit \<times> 'a credential_db_scheme) result" where
  "role_step env x db = role_service (env\<lparr>now := fst x\<rparr>) (snd x) db"

lemma role_safe_now [simp]: "role_safe (env\<lparr>now := t\<rparr>) db db' = role_safe env db db'"
  by (simp add: role_safe_def)

lemma setup_only_kept:
  assumes "setup_only db db'" "role_inv db" shows "role_inv db'" "role_safe env db db'"
proof -
  from assms(1) obtain os rs ps rps where d: "db' = db\<lparr>organizations := os, roles := rs, permissions := ps,
      role_permissions := rps, role_assignments := role_assignments db\<rparr>" unfolding setup_only_def by auto
  note f = role_frame [OF d] setup_only_frame(1) [OF assms(1)]
  have "assignments_inv db \<and> numbers_inv db" using assms(2) unfolding role_inv_def .
  then show "role_inv db'" using f(1) assignments_inv_cong [OF f(6)] unfolding role_inv_def by blast
  show "role_safe env db db'" using f(2,6) by (simp add: role_safe_def)
qed

lemma bootstrap_cases:
  assumes "bootstrap_initial_administrator env uid mid by' db = Inr ((a1, a2), db')"
  obtains cov db1 db2 s db3 where "ensure_catalog_role env ROLE_COVENANTER db = Inr (cov, db1)"
    "create_role_assignment env uid mid cov by' None None SourceInitialization False db1 = Inr (a1, db2)"
    "ensure_administrator_role env db2 = Inr (s, db3)"
    "create_role_assignment env uid mid (as_role s) by' None None SourceInitialization False db3 = Inr (a2, db')"
  using assms by (auto simp: bootstrap_initial_administrator_def)

lemma role_service_ok:
  assumes inv: "role_inv db" and s: "role_service env call db = Inr (u, db')"
  shows "role_inv db' \<and> role_safe env db db'"
proof (cases call)
  case (GrantRole uid mid r by' s e src skip)
  then show ?thesis using s create_assignment_ok(1,2) [OF inv] by auto
next
  case (RevokeRole aid by' e)
  with s obtain a where r: "revoke_role_assignment env aid by' e db = Inr (a, db')" by auto
  have i: "assignments_inv db" "numbers_inv db" using inv unfolding role_inv_def by blast+
  note ok = revoke_ok [OF i(1) r]
  from ok(3) obtain as where d: "db' = db\<lparr>organizations := organizations db, roles := roles db, permissions := permissions db,
      role_permissions := role_permissions db, role_assignments := as\<rparr>" by auto
  show ?thesis using ok role_frame(1,2) [OF d] i unfolding role_inv_def role_safe_def by blast
next
  case SetupAdministrator
  then show ?thesis using s setup_only_kept [OF setup_only_administrator inv] by auto
next
  case SetupFinance
  then show ?thesis using s setup_only_kept [OF setup_only_finance inv] by auto
next
  case (Bootstrap uid mid by')
  with s obtain a1 a2 where "bootstrap_initial_administrator env uid mid by' db = Inr ((a1, a2), db')" by auto
  then show ?thesis
  proof (rule bootstrap_cases)
    fix cov db1 db2 t db3
    assume c: "ensure_catalog_role env ROLE_COVENANTER db = Inr (cov, db1)"
      and a: "create_role_assignment env uid mid cov by' None None SourceInitialization False db1 = Inr (a1, db2)"
      and t: "ensure_administrator_role env db2 = Inr (t, db3)"
      and b: "create_role_assignment env uid mid (as_role t) by' None None SourceInitialization False db3 = Inr (a2, db')"
    note s1 = setup_only_kept [OF setup_only_catalog_role [OF c] inv]
    note s2 = create_assignment_ok(1,2) [OF s1(1) a]
    note s3 = setup_only_kept [OF setup_only_administrator [OF t] s2(1)]
    note s4 = create_assignment_ok(1,2) [OF s3(1) b]
    show ?thesis using s1(2) s2(2) s3(2) s4 by (blast intro: role_safe_trans)
  qed
qed

interpretation role_history: guarded_service "role_step env" role_inv "role_safe env" for env
proof
  fix db db' db'' :: "'a credential_db_scheme" and x r
  show "role_inv db'" "role_safe env db db'" if "role_inv db" "role_step env x db = Inr (r, db')"
    using role_service_ok [OF that(1) that(2) [unfolded role_step_def]] by auto
  show "role_safe env db db''" if "role_safe env db db'" "role_safe env db' db''" by (rule role_safe_trans [OF that])
qed simp

lemma expire_nothing:
  assumes "\<forall>a \<in> set (held m r db). s < ra_end_at a" shows "expire_assignments m r s db = db"
proof -
  have "filter (\<lambda>x. ra_end_at x \<le> s) (held m r db) = []" using assms by (auto simp: filter_empty_conv)
  then show ?thesis by (simp add: expire_assignments_def update_rows_def)
qed

lemma place_again:
  assumes "held (m_id m) (rl_id r) db = [a]" "s < ra_end_at a"
  shows "place_assignment env m r by' s e src db = Inr ((a, False), db)"
  using assms expire_nothing [of "m_id m" "rl_id r" db s] by (simp add: place_assignment_def latest_assignment_def)

lemma catalog_definition_cong:
  "organizations db' = organizations db \<Longrightarrow>
   catalog_role_definition_for_role r db' = catalog_role_definition_for_role r db"
  unfolding catalog_role_definition_for_role_def by (rule arg_cong) simp

lemma create_assignment_again:
  assumes inv: "role_inv db" and c: "create_role_assignment env uid mid r by' s e src skip db = Inr (a, db')"
    and m: "find_row (\<lambda>m. m_id m = mid) (members db') = Some m"
    and v: "skip' \<or> validate_role_assignment_prerequisites env' m r db' = Inr ()"
  shows "create_role_assignment env' uid' mid r by'' (Some (case s of None \<Rightarrow> now env | Some t \<Rightarrow> t)) e' src' skip' db' = Inr (a, db')"
proof -
  let ?s = "case s of None \<Rightarrow> now env | Some t \<Rightarrow> t"
  have mid: "m_id m = mid" using find_row_Some_iff [OF m] by simp
  note ok = create_assignment_ok [OF inv c]
  have p: "place_assignment env' m r by'' ?s e'' src' db' = Inr ((a, False), db')" for e''
    using place_again [of m r db' a] ok(3,4) mid by simp
  from c obtain m0 db1 created where m0: "find_row (\<lambda>m. m_id m = mid) (members db) = Some m0"
    and p0: "place_assignment env m0 r by' ?s (case e of None \<Rightarrow> default_role_assignment_end_at ?s | Some t \<Rightarrow> t) src db
       = Inr ((a, created), db1)"
    by (rule create_assignment_cases)
  have i: "assignments_inv db" "numbers_inv db" using inv unfolding role_inv_def by blast+
  from place_ok(4) [OF i(1) p0] obtain as where d1: "db1 = db\<lparr>organizations := organizations db, roles := roles db,
      permissions := permissions db, role_permissions := role_permissions db, role_assignments := as\<rparr>" by auto
  have n1: "numbers_inv db1" using role_frame(1) [OF d1] i(2) by blast
  then have wf: "templates_wf db1" unfolding numbers_inv_def by blast
  have cat: "catalog_role_definition_for_role r db1 = catalog_role_definition_for_role r db"
    by (rule catalog_definition_cong) (simp add: d1)
  have fin: "(case catalog_role_definition_for_role r db of None \<Rightarrow> False | Some d \<Rightarrow> rd_display_name d = ROLE_COVENANTER) \<and>
      (\<exists>g. issue_covenanter_number env uid m0 by' db1 = Inr (g, db')) \<or>
    \<not> (case catalog_role_definition_for_role r db of None \<Rightarrow> False | Some d \<Rightarrow> rd_display_name d = ROLE_COVENANTER) \<and> db' = db1"
    using c m0 p0 by (auto simp: create_role_assignment_def Let_def cat split: if_splits)
  then have "members db' = members db \<and> organizations db' = organizations db"
  proof
    assume "(case catalog_role_definition_for_role r db of None \<Rightarrow> False | Some d \<Rightarrow> rd_display_name d = ROLE_COVENANTER) \<and>
      (\<exists>g. issue_covenanter_number env uid m0 by' db1 = Inr (g, db'))"
    then obtain g where "issue_covenanter_number env uid m0 by' db1 = Inr (g, db')" by blast
    with wf obtain ts gs es where "db' = db1\<lparr>credential_templates := ts, credential_grants := gs, system_events := es\<rparr>"
      by (rule issue_number_frame)
    then show ?thesis by (simp add: d1)
  qed (simp add: d1)
  then have same: "m0 = m" "catalog_role_definition_for_role r db' = catalog_role_definition_for_role r db"
    using m m0 catalog_definition_cong [of db' db] by simp_all
  have name: "\<not> (role_definition_for_name (rl_name r) \<noteq> None \<and> catalog_role_definition_for_role r db = None)"
    using c m0 by (auto simp: create_role_assignment_def split: if_splits)
  have "issue_covenanter_number env' uid' m by'' db' = Inr (g, db')" if "issue_covenanter_number env uid m0 by' db1 = Inr (g, db')" for g
    using covenanter_again [OF n1 that] by (simp add: same)
  then show ?thesis using v name fin unfolding create_role_assignment_def m same(2)
    by (auto simp: p same(2) Let_def split: option.splits)
qed

subsection \<open>A bootstrapped administrator may administer\<close>

text \<open>A grant changes assignments, credentials and events only.\<close>

lemma create_assignment_frame:
  assumes inv: "role_inv db" and c: "create_role_assignment env uid mid r by' s e src skip db = Inr (a, db')"
  shows "organizations db' = organizations db" "roles db' = roles db" "permissions db' = permissions db"
    "role_permissions db' = role_permissions db" "members db' = members db"
proof -
  from c obtain m db1 created where
    p: "place_assignment env m r by' (case s of None \<Rightarrow> now env | Some t \<Rightarrow> t)
       (case e of None \<Rightarrow> default_role_assignment_end_at (case s of None \<Rightarrow> now env | Some t \<Rightarrow> t) | Some t \<Rightarrow> t) src db
       = Inr ((a, created), db1)"
    and d: "db' = db1 \<or> (\<exists>g. issue_covenanter_number env uid m by' db1 = Inr (g, db'))"
    by (rule create_assignment_cases)
  have i: "assignments_inv db" "numbers_inv db" using inv unfolding role_inv_def by blast+
  from place_ok(4) [OF i(1) p] obtain as where d1: "db1 = db\<lparr>organizations := organizations db, roles := roles db,
      permissions := permissions db, role_permissions := role_permissions db, role_assignments := as\<rparr>" by auto
  have "numbers_inv db1" using role_frame(1) [OF d1] i(2) by blast
  then have wf: "templates_wf db1" unfolding numbers_inv_def by blast
  from d have "organizations db' = organizations db1 \<and> roles db' = roles db1 \<and> permissions db' = permissions db1 \<and>
    role_permissions db' = role_permissions db1 \<and> members db' = members db1"
  proof (elim disjE exE)
    fix g assume "issue_covenanter_number env uid m by' db1 = Inr (g, db')"
    from issue_number_keeps [OF wf this] show ?thesis by blast
  qed simp
  then show "organizations db' = organizations db" "roles db' = roles db" "permissions db' = permissions db"
    "role_permissions db' = role_permissions db" "members db' = members db" by (simp_all add: d1)
qed

definition started :: "time \<Rightarrow> 'a role_db_scheme \<Rightarrow> bool" where
  "started t db \<longleftrightarrow> (\<forall>a \<in> set (role_assignments db). ra_start_at a \<le> t)"

lemma create_assignment_effect:
  assumes inv: "role_inv db" and c: "create_role_assignment env uid mid r by' None e src skip db = Inr (a, db')"
    and st: "started (now env) db"
  shows "started (now env) db'" "ra_start_at a \<le> now env" "(m', r') \<noteq> (mid, rl_id r) \<Longrightarrow> held m' r' db' = held m' r' db"
proof -
  obtain m db1 created where m: "find_row (\<lambda>m. m_id m = mid) (members db) = Some m"
    and "skip \<or> validate_role_assignment_prerequisites env m r db = Inr ()"
    and p: "place_assignment env m r by' (now env) (case e of None \<Rightarrow> default_role_assignment_end_at (now env) | Some t \<Rightarrow> t) src db
       = Inr ((a, created), db1)"
    and d: "db' = db1 \<or> (\<exists>g. issue_covenanter_number env uid m by' db1 = Inr (g, db'))"
    by (rule create_assignment_cases [OF c, unfolded option.case])
  have i: "assignments_inv db" "numbers_inv db" using inv unfolding role_inv_def by blast+
  from place_ok(4) [OF i(1) p] obtain as where d1: "db1 = db\<lparr>organizations := organizations db, roles := roles db,
      permissions := permissions db, role_permissions := role_permissions db, role_assignments := as\<rparr>" by auto
  have "numbers_inv db1" using role_frame(1) [OF d1] i(2) by blast
  then have wf: "templates_wf db1" unfolding numbers_inv_def by blast
  have same: "role_assignments db' = role_assignments db1" using d issue_number_keeps(1) [OF wf] by auto
  have di: "distinct (map ra_id (role_assignments db))" using i(1) by (simp add: assignments_inv_def)
  from di p have "started (now env) db1 \<and> ra_start_at a \<le> now env"
  proof (cases rule: place_cases)
    case Reuse
    then show ?thesis using st by (auto simp: started_def expire_rows [OF di] update_rows_def held_def)
  next
    case New
    then show ?thesis using st by (auto simp: started_def expire_rows [OF di] update_rows_def new_assignment_def)
  qed
  then show "started (now env) db'" "ra_start_at a \<le> now env" using same by (simp_all add: started_def)
  have "m_id m = mid" using find_row_Some_iff [OF m] by simp
  then show "held m' r' db' = held m' r' db" if "(m', r') \<noteq> (mid, rl_id r)"
    using place_held(2) [OF i(1) p, of m' r'] that held_cong [OF same] by simp
qed

lemma permissions_made:
  "ensure_permissions ps db = (n, db') \<Longrightarrow> pm_code ` set ps \<union> pm_code ` set (permissions db) \<subseteq> pm_code ` set (permissions db')"
proof (induction ps arbitrary: db n)
  case (Cons p ps)
  let ?db = "if exists_row (\<lambda>x. pm_code x = pm_code p) (permissions db) then db else db\<lparr>permissions := permissions db @ [p]\<rparr>"
  obtain k where "ensure_permissions ps ?db = (k, db')" using Cons.prems by (auto simp: Let_def split: prod.splits)
  note ih = Cons.IH [OF this]
  have "pm_code p \<in> pm_code ` set (permissions ?db)" by (auto simp: image_iff) metis
  moreover have "pm_code ` set (permissions db) \<subseteq> pm_code ` set (permissions ?db)" by auto
  ultimately show ?case using ih by auto
qed simp

lemma bindings_made:
  "ensure_bindings r cs db = (n, db') \<Longrightarrow> set (role_permissions db) \<subseteq> set (role_permissions db') \<and>
    (\<forall>c \<in> set cs. \<exists>rp \<in> set (role_permissions db'). rp_role rp = r \<and> rp_permission rp = c)"
proof (induction cs arbitrary: db n)
  case (Cons c cs)
  let ?known = "exists_row (\<lambda>x. rp_role x = r \<and> rp_permission x = c \<and> rp_scope x = ''global'') (role_permissions db)"
  let ?db = "if ?known then db else db\<lparr>role_permissions := role_permissions db @
      [\<lparr>rp_role = r, rp_permission = c, rp_scope = ''global'', rp_constraints_json = JObj []\<rparr>]\<rparr>"
  obtain k where k: "ensure_bindings r cs ?db = (k, db')" using Cons.prems by (auto simp: Let_def split: prod.splits)
  have "\<exists>rp \<in> set (role_permissions ?db). rp_role rp = r \<and> rp_permission rp = c" "set (role_permissions db) \<subseteq> set (role_permissions ?db)"
    by auto
  with Cons.IH [OF k] show ?case by (metis (no_types, lifting) set_ConsD subset_iff)
qed simp

lemma permissions_tables: "ensure_permissions ps db = (n, db') \<Longrightarrow> organizations db' = organizations db \<and> roles db' = roles db"
  by (induction ps arbitrary: db n) (auto simp: Let_def split: prod.splits if_splits)

lemma bindings_tables:
  "ensure_bindings r cs db = (n, db') \<Longrightarrow> organizations db' = organizations db \<and> roles db' = roles db"
  by (induction cs arbitrary: db n) (auto simp: Let_def split: prod.splits if_splits)

text \<open>What a ready catalog makes of an active assignment to one of its roles.\<close>

lemma ready_role_facts:
  assumes "setup_wf db" "organization_ready og db" "role_ready (og_id og) d db r" "d \<in> set ROLE_DEFINITIONS" "ra_role a = rl_id r"
  shows "role_of a db = Some r" "organization_of r db = Some og" "rl_name r = rd_display_name d" "rl_status r = RoleActive"
    "og_role_catalog_key og = Some ROLE_CATALOG_ORGANIZATION_KEY" "catalog_role_definition_for_role r db = Some d"
proof -
  from assms(3) have r: "r \<in> set (roles db)" "rl_organization r = og_id og" and n: "rl_name r = rd_display_name d" "rl_status r = RoleActive"
    by (auto simp: role_ready_def dest!: find_row_Some_iff)
  from assms(2) have o: "og \<in> set (organizations db)" and k: "og_role_catalog_key og = Some ROLE_CATALOG_ORGANIZATION_KEY"
    and on: "og_name og = ROLE_CATALOG_ORGANIZATION_NAME" "og_status og = OrgActive"
    by (auto simp: organization_ready_def dest!: find_row_Some_iff)
  show "rl_name r = rd_display_name d" "rl_status r = RoleActive"
    "og_role_catalog_key og = Some ROLE_CATALOG_ORGANIZATION_KEY" by fact+
  show "role_of a db = Some r" unfolding role_of_def
    by (rule find_row_unique) (use assms(1,5) r distinct_map_unique [of rl_id "roles db"] in \<open>auto simp: setup_wf_def\<close>)
  show "organization_of r db = Some og" unfolding organization_of_def
    by (rule find_row_unique) (use assms(1) r o distinct_map_unique [of og_id "organizations db"] in \<open>auto simp: setup_wf_def\<close>)
  have "role_definition_for_name (rl_name r) = Some d" unfolding role_definition_for_name_def
    by (rule find_row_unique) (use assms(4) n distinct_map_unique [OF catalog_names_distinct] in auto)
  then show "catalog_role_definition_for_role r db = Some d"
    using o k on r(2) by (auto simp: catalog_role_definition_for_role_def)
qed

lemma catalog_role_cases:
  assumes wf: "setup_wf db" and c: "ensure_catalog_role env (rd_display_name d) db = Inr (r, db')" and d: "d \<in> set ROLE_DEFINITIONS"
  obtains rs og where "catalog_ready rs db'" "map_of rs (rd_code d) = Some r" "organization_ready og db'" "role_ready (og_id og) d db' r"
    "ensure_catalog_roles env db = (rs, db')"
proof -
  have n: "role_definition_for_name (rd_display_name d) = Some d" unfolding role_definition_for_name_def
    by (rule find_row_unique) (use d distinct_map_unique [OF catalog_names_distinct] in auto)
  obtain rs where e: "ensure_catalog_roles env db = (rs, db')" and m: "map_of rs (rd_code d) = Some r"
    using c by (auto simp: ensure_catalog_role_def n split: prod.splits option.splits)
  note ready = catalog_made [OF wf e]
  from ready d obtain r' og where "map_of rs (rd_code d) = Some r'" "organization_ready og db'" "role_ready (og_id og) d db' r'"
    by (rule catalog_role_ready)
  then show thesis using that ready m e by auto
qed

definition cov_definition :: role_definition where "cov_definition = ROLE_DEFINITIONS ! 0"
definition adm_definition :: role_definition where "adm_definition = ROLE_DEFINITIONS ! 2"

lemma catalog_entries:
  "cov_definition \<in> set ROLE_DEFINITIONS" "rd_display_name cov_definition = ROLE_COVENANTER"
  "adm_definition \<in> set ROLE_DEFINITIONS" "rd_display_name adm_definition = ROLE_ADMINISTRATOR"
  "rd_requires_covenanter adm_definition" "ROLE_COVENANTER \<noteq> ROLE_ADMINISTRATOR"
  by (simp_all add: cov_definition_def adm_definition_def catalog_defs)

text \<open>A current assignment to the ready covenanter role makes a covenanter.\<close>

lemma covenanter_by_assignment:
  assumes "setup_wf db" "organization_ready og db" "role_ready (og_id og) cov_definition db r"
    and "a \<in> set (held (m_id m) (rl_id r) db)" "in_window at a" "member_allows_role_facts m"
    and "distinct (map m_id (members db))" "m \<in> set (members db)"
  shows "member_has_role [ROLE_COVENANTER] at db m"
proof -
  have a: "a \<in> set (role_assignments db)" "ra_member a = m_id m" "ra_role a = rl_id r" "ra_status a = AssignmentActive"
    using assms(4) by (auto simp: held_def)
  note f = ready_role_facts [OF assms(1-3) catalog_entries(1) a(3)]
  have "catalog_assignment [ROLE_COVENANTER] at db a"
    using f a assms(5) catalog_entries(2) by (simp add: catalog_assignment_def)
  then have "current_catalog_role_filter [ROLE_COVENANTER] at db m"
    using a assms(6) by (auto simp: current_catalog_role_filter_def)
  moreover have "role_definition_for_name ROLE_COVENANTER \<noteq> None"
    by (simp add: role_definition_for_name_def ROLE_DEFINITIONS_def)
  ultimately show ?thesis
    using stored_member_role [OF assms(7,8)] by (auto simp: member_role_filter_def)
qed

text \<open>The state in which the administrator role is granted.\<close>

definition prepared :: "env \<Rightarrow> int \<Rightarrow> role \<Rightarrow> role \<Rightarrow> role_assignment \<Rightarrow> organization \<Rightarrow> 'a credential_db_scheme \<Rightarrow> bool" where
  "prepared env mid cov adm a og db \<longleftrightarrow> role_inv db \<and> started (now env) db \<and> setup_wf db \<and> organization_ready og db \<and>
     role_ready (og_id og) cov_definition db cov \<and> role_ready (og_id og) adm_definition db adm \<and>
     held mid (rl_id cov) db = [a] \<and> in_window (now env) a \<and>
     (\<forall>c \<in> set ADMINISTRATOR_PERMISSION_CODES. \<exists>rp \<in> set (role_permissions db). rp_role rp = rl_id adm \<and> rp_permission rp = c)"

lemma administrator_prepared:
  assumes t: "ensure_administrator_role env db = Inr (s, db')" and rs: "catalog_ready rs db" "organization_ready og db"
    "role_ready (og_id og) cov_definition db cov"
  shows "setup_wf db'" "organization_ready og db'" "role_ready (og_id og) cov_definition db' cov"
    "role_ready (og_id og) adm_definition db' (as_role s)"
    "\<forall>c \<in> set ADMINISTRATOR_PERMISSION_CODES. \<exists>rp \<in> set (role_permissions db'). rp_role rp = rl_id (as_role s) \<and> rp_permission rp = c"
proof -
  let ?adm = "as_role s"
  from t obtain np dp d2 nb where p: "ensure_permissions BASE_ADMINISTRATION_PERMISSIONS db = (np, dp)"
    and c2: "ensure_catalog_role env ROLE_ADMINISTRATOR dp = Inr (?adm, d2)"
    and bd: "ensure_bindings (rl_id ?adm) (filter (\<lambda>c. c \<in> set ADMINISTRATOR_PERMISSION_CODES)
       (map pm_code (sort_key (\<lambda>p. (pm_category p, pm_code p)) (permissions d2)))) d2 = (nb, db')"
    by (rule administrator_cases)
  note tables = permissions_tables [OF p] bindings_tables [OF bd]
  have rsp: "catalog_ready rs dp" using rs(1) catalog_ready_cong [of dp db] tables by simp
  then have wfp: "setup_wf dp" by (simp add: catalog_ready_def)
  from wfp c2 [folded catalog_entries(4)] catalog_entries(3) obtain rs' og' where r2: "organization_ready og' d2"
    "role_ready (og_id og') adm_definition d2 ?adm" "ensure_catalog_roles env dp = (rs', d2)"
    by (rule catalog_role_cases)
  have d2: "d2 = dp" using r2(3) catalog_again [OF rsp] by simp
  have og: "og' = og" using r2(1) rs(2) tables by (simp add: organization_ready_def d2)
  show "setup_wf db'" "organization_ready og db'" "role_ready (og_id og) cov_definition db' cov"
    "role_ready (og_id og) adm_definition db' ?adm"
    using rs r2(2) og tables d2 by (simp_all add: catalog_ready_def setup_wf_def organization_ready_def role_ready_def)
  have "c \<in> set (filter (\<lambda>c. c \<in> set ADMINISTRATOR_PERMISSION_CODES)
       (map pm_code (sort_key (\<lambda>p. (pm_category p, pm_code p)) (permissions d2))))"
    if c: "c \<in> set ADMINISTRATOR_PERMISSION_CODES" for c
  proof -
    have "c \<in> pm_code ` set BASE_ADMINISTRATION_PERMISSIONS"
      using c by (auto simp: BASE_ADMINISTRATION_PERMISSIONS_def permission_row_def catalog_defs)
    then have "c \<in> pm_code ` set (permissions d2)" using permissions_made [OF p] d2 by auto
    then show ?thesis using c by simp
  qed
  then show "\<forall>c \<in> set ADMINISTRATOR_PERMISSION_CODES. \<exists>rp \<in> set (role_permissions db'). rp_role rp = rl_id ?adm \<and> rp_permission rp = c"
    using bindings_made [OF bd] by blast
qed

lemma bootstrap_prepared:
  assumes inv: "role_inv db" and wf: "setup_wf db" and st: "started (now env) db"
    and c1: "ensure_catalog_role env ROLE_COVENANTER db = Inr (cov, db1)"
    and g1: "create_role_assignment env uid mid cov by' None None SourceInitialization False db1 = Inr (a1, db2)"
    and t: "ensure_administrator_role env db2 = Inr (s, db3)"
  obtains og where "prepared env mid cov (as_role s) a1 og db3" "members db3 = members db"
proof -
  from wf c1 [folded catalog_entries(2)] catalog_entries(1) obtain rs og where rs: "catalog_ready rs db1"
    "map_of rs (rd_code cov_definition) = Some cov" "organization_ready og db1" "role_ready (og_id og) cov_definition db1 cov"
    by (rule catalog_role_cases)
  note so1 = setup_only_catalog_role [OF c1] and so3 = setup_only_administrator [OF t]
  have i1: "role_inv db1" by (rule setup_only_kept(1) [OF so1 inv])
  note e1 = create_assignment_ok [OF i1 g1] and fr1 = create_assignment_frame [OF i1 g1]
  have "started (now env) db1" using st setup_only_frame(1) [OF so1] by (simp add: started_def)
  note s1 = create_assignment_effect [OF i1 g1 this]
  have "catalog_ready rs db2" "organization_ready og db2" "role_ready (og_id og) cov_definition db2 cov"
    using rs fr1 catalog_ready_cong [of db2 db1] by (simp_all add: organization_ready_def role_ready_def)
  note ap = administrator_prepared [OF t this]
  have as3: "role_assignments db3 = role_assignments db2" by (rule setup_only_frame(1) [OF so3])
  have "held mid (rl_id cov) db3 = [a1]" using held_cong [OF as3] e1(3) by simp
  moreover have "started (now env) db3" using s1(1) as3 by (simp add: started_def)
  moreover have "in_window (now env) a1" using s1(2) e1(4) by (simp add: in_window_def)
  moreover have "role_inv db3" by (rule setup_only_kept(1) [OF so3 e1(1)])
  ultimately have "prepared env mid cov (as_role s) a1 og db3" using ap unfolding prepared_def by blast
  moreover have "members db3 = members db"
    using setup_only_frame(2) [OF so3] fr1(5) setup_only_frame(2) [OF so1] by simp
  ultimately show thesis by (rule that)
qed

lemma prepared_distinct:
  assumes "prepared env mid cov adm a og db" shows "rl_id cov \<noteq> rl_id adm"
proof
  assume "rl_id cov = rl_id adm"
  moreover have "cov \<in> set (roles db)" "adm \<in> set (roles db)" "rl_name cov = ROLE_COVENANTER" "rl_name adm = ROLE_ADMINISTRATOR"
    using assms catalog_entries(2,4) by (auto simp: prepared_def role_ready_def dest!: find_row_Some_iff)
  ultimately show False
    using distinct_map_unique [of rl_id "roles db" cov adm] assms catalog_entries(6) by (simp add: prepared_def setup_wf_def)
qed

lemma prepared_covenanter:
  assumes p: "prepared env mid cov adm a og db" and m: "find_row (\<lambda>m. m_id m = mid) (members db) = Some m"
    and "distinct (map m_id (members db))" "member_allows_role_facts m"
  shows "member_has_role [ROLE_COVENANTER] (now env) db m" "catalog_role_definition_for_role adm db = Some adm_definition"
proof -
  have mm: "m_id m = mid" "m \<in> set (members db)" using find_row_Some_iff [OF m] by auto
  have r: "setup_wf db" "organization_ready og db" "role_ready (og_id og) cov_definition db cov"
    "role_ready (og_id og) adm_definition db adm" "a \<in> set (held mid (rl_id cov) db)" "in_window (now env) a"
    using p by (simp_all add: prepared_def)
  show "member_has_role [ROLE_COVENANTER] (now env) db m"
    by (rule covenanter_by_assignment [OF r(1-3)]) (use r assms mm in auto)
  show "catalog_role_definition_for_role adm db = Some adm_definition"
    using ready_role_facts(6) [OF r(1,2,4) catalog_entries(3), of "a\<lparr>ra_role := rl_id adm\<rparr>"] by simp
qed

lemma prepared_granted:
  assumes p: "prepared env mid cov adm a og db" and m: "find_row (\<lambda>m. m_id m = mid) (members db) = Some m"
    and dm: "distinct (map m_id (members db))" and allow: "member_allows_role_facts m"
    and g: "create_role_assignment env uid mid adm by' None None src skip db = Inr (a2, db')"
    and code: "code \<in> set ADMINISTRATOR_PERMISSION_CODES"
  shows "legacy_member_has_permission env m code None (now env) db' = Inr True"
proof -
  have i: "role_inv db" "started (now env) db" using p unfolding prepared_def by blast+
  note fr = create_assignment_frame [OF i(1) g] and e = create_assignment_effect [OF i(1) g i(2)]
    and ok = create_assignment_ok [OF i(1) g]
  have mm: "m_id m = mid" "m \<in> set (members db')" using find_row_Some_iff [OF m] fr(5) by auto
  have r: "setup_wf db'" "organization_ready og db'" "role_ready (og_id og) cov_definition db' cov"
    "role_ready (og_id og) adm_definition db' adm" "held mid (rl_id cov) db = [a]" "in_window (now env) a"
    using p fr by (simp_all add: prepared_def setup_wf_def organization_ready_def role_ready_def)
  have "held mid (rl_id cov) db' = [a]" using e(3) [of mid "rl_id cov"] prepared_distinct [OF p] r(5) by simp
  then have cov: "member_has_role [ROLE_COVENANTER] (now env) db' m"
    by (intro covenanter_by_assignment [OF r(1-3), of a]) (use r allow dm mm fr in auto)
  have a2: "a2 \<in> set (role_assignments db')" "ra_member a2 = mid" "ra_role a2 = rl_id adm" "ra_status a2 = AssignmentActive"
    using ok(3) by (auto simp: held_def filter_eq_Cons_iff)
  have "in_window (now env) a2" using e(2) ok(4) by (simp add: in_window_def)
  then have "lends_role (now env) db' m a2"
    using ready_role_facts(1,4) [OF r(1,2,4) catalog_entries(3), of a2] a2 mm(1) by (simp add: lends_role_def)
  moreover obtain rp where "rp \<in> set (role_permissions db')" "rp_role rp = rl_id adm" "rp_permission rp = code"
    using p code fr(4) unfolding prepared_def by auto
  ultimately show ?thesis
    using allow cov a2 by (auto simp: legacy_no_resource intro!: bexI [of _ a2] bexI [of _ rp])
qed

text \<open>Nothing stands in the way of the setup and of a grant over its default term.\<close>

lemma catalog_role_live:
  assumes "setup_wf db" "d \<in> set ROLE_DEFINITIONS"
  shows "\<exists>r db'. ensure_catalog_role env (rd_display_name d) db = Inr (r, db')"
proof -
  have n: "role_definition_for_name (rd_display_name d) = Some d" unfolding role_definition_for_name_def
    by (rule find_row_unique) (use assms(2) distinct_map_unique [OF catalog_names_distinct] in auto)
  obtain rs db' where e: "ensure_catalog_roles env db = (rs, db')" by (rule prod.exhaust)
  from catalog_made [OF assms(1) e] assms(2) obtain r og where "map_of rs (rd_code d) = Some r" by (rule catalog_role_ready)
  then show ?thesis by (simp add: ensure_catalog_role_def n e)
qed

lemma administrator_live:
  assumes "setup_wf db" shows "\<exists>s db'. ensure_administrator_role env db = Inr (s, db')"
proof -
  obtain np dp where p: "ensure_permissions BASE_ADMINISTRATION_PERMISSIONS db = (np, dp)" by (rule prod.exhaust)
  have "setup_wf dp" using assms permissions_tables [OF p] by (simp add: setup_wf_def)
  from catalog_role_live [OF this catalog_entries(3), of env] obtain r d2 where
    "ensure_catalog_role env ROLE_ADMINISTRATOR dp = Inr (r, d2)" unfolding catalog_entries(4) by blast
  then show ?thesis by (simp add: ensure_administrator_role_def p Let_def case_prod_unfold)
qed

lemma place_live:
  assumes "distinct (map ra_id (role_assignments db))" "s < e"
  shows "\<exists>a c db'. place_assignment env m r by' s e src db = Inr ((a, c), db')"
proof -
  let ?db = "expire_assignments (m_id m) (rl_id r) s db"
  let ?h = "filter (\<lambda>a. s < ra_end_at a) (held (m_id m) (rl_id r) ?db)"
  show ?thesis
  proof (cases "latest_assignment ?h")
    case None
    then have "?h = []" by (simp add: latest_None)
    then have "\<not> (\<exists>x \<in> set (role_assignments ?db). ra_member x = m_id m \<and> ra_role x = rl_id r \<and>
        ra_status x = AssignmentActive \<and> s < ra_end_at x)" by (auto simp: filter_empty_conv held_def)
    then show ?thesis using None assms(2)
      by (auto simp: place_assignment_def insert_assignment_def role_assignment_clean_def new_assignment_def Let_def)
  qed (auto simp: place_assignment_def)
qed

subsection \<open>Properties of role assignments\<close>

text \<open>C20. In every history of granting, revoking and setting up roles a member has at most one active
  assignment to a role, every assignment ends after it starts, an assignment keeps its member, role
  and origin and never becomes active again once it ended, and the event ledger keeps verifying.\<close>

theorem roles_held_once:
  assumes "role_inv db" "chain_ok env db"
  shows "let db' = run_ops (role_step env) reqs db in
    (\<forall>m r. length (held m r db') \<le> 1) \<and> (\<forall>a \<in> set (role_assignments db'). ra_start_at a < ra_end_at a) \<and>
    rows_evolve (role_assignments db) (role_assignments db') \<and> chain_ok env db'"
proof -
  have "role_inv (run_ops (role_step env) reqs db)" by (rule role_history.run_inv [OF assms(1)])
  moreover have "role_safe env db (run_ops (role_step env) reqs db)" by (rule role_history.run_rel [OF assms(1)])
  ultimately show ?thesis
    using assms(2) unfolding role_inv_def role_safe_def assignments_inv_def credential_safe_def audited_def Let_def by blast
qed

lemma example_role_inv: "role_inv example_credentials"
proof -
  have "assignments_inv example_credentials"
    by (simp add: assignments_inv_def held_def example_credentials_def example_org_with_def example_assignment_def)
  then show ?thesis using example_credentials_ok(1) unfolding role_inv_def by blast
qed

theorem roles_held_once_witness:
  "let db' = run_ops (role_step plain_env) [(5, RevokeRole 2 (Some 3) None), (6, SetupAdministrator)] example_credentials in
     (\<forall>m r. length (held m r db') \<le> 1) \<and> rows_evolve (role_assignments example_credentials) (role_assignments db') \<and>
     held 1 2 (run_ops (role_step plain_env) [(5, RevokeRole 2 (Some 3) None)] example_credentials) = []"
  using roles_held_once [OF example_role_inv example_credentials_ok(2),
      of plain_env "[(5, RevokeRole 2 (Some 3) None), (6, SetupAdministrator)]"]
  by (auto simp: Let_def role_step_def revoke_role_assignment_def role_assignment_clean_def held_def
      example_credentials_def example_org_with_def example_assignment_def credential_db.defs)

text \<open>Granting a role leaves the returned assignment as the member's only active one, running past
  the requested start, and granting it again from the same start, by anybody and with any other
  options, returns the same assignment and changes nothing.\<close>

theorem grant_role_idempotent:
  assumes "role_inv db" "create_role_assignment env uid mid r granter s e src skip db = Inr (a, db')"
    and "find_row (\<lambda>m. m_id m = mid) (members db') = Some m"
    and "skip' \<or> validate_role_assignment_prerequisites env' m r db' = Inr ()"
  shows "held mid (rl_id r) db' = [a] \<and> (case s of None \<Rightarrow> now env | Some t \<Rightarrow> t) < ra_end_at a \<and>
    create_role_assignment env' uid' mid r granter' (Some (case s of None \<Rightarrow> now env | Some t \<Rightarrow> t)) e' src' skip' db' = Inr (a, db')"
  using create_assignment_ok(3,4) [OF assms(1,2)] create_assignment_again [OF assms] by blast

theorem grant_role_idempotent_witness:
  "\<exists>a db'. create_role_assignment plain_env ''a'' 3 (example_role 2 ROLE_ADMINISTRATOR) (Some 1) None None SourceDirect False
       example_credentials = Inr (a, db') \<and> held 3 2 db' = [a] \<and>
     create_role_assignment plain_env ''b'' 3 (example_role 2 ROLE_ADMINISTRATOR) None (Some 0) (Some 7) SourceSystem True db' = Inr (a, db')"
proof -
  have "\<exists>a db'. create_role_assignment plain_env ''a'' 3 (example_role 2 ROLE_ADMINISTRATOR) (Some 1) None None SourceDirect False
       example_credentials = Inr (a, db') \<and> members db' = members example_credentials"
    by (simp add: create_role_assignment_def validate_role_assignment_prerequisites_def catalog_role_definition_for_role_def
        place_assignment_def expire_assignments_def held_def latest_assignment_def insert_assignment_def
        role_assignment_clean_def new_assignment_def default_role_assignment_end_at_def DEFAULT_ROLE_ASSIGNMENT_DAYS_def
        example_credentials_def authority_defs example_org_defs catalog_defs credential_db.defs Let_def)
  then obtain a db' where c: "create_role_assignment plain_env ''a'' 3 (example_role 2 ROLE_ADMINISTRATOR) (Some 1) None None
      SourceDirect False example_credentials = Inr (a, db')" and m: "members db' = members example_credentials" by blast
  have "find_row (\<lambda>m. m_id m = 3) (members db') = Some (example_member 3 ''M3'')"
    by (simp add: m example_credentials_def example_org_with_def example_member_def)
  from grant_role_idempotent [OF example_role_inv c this, of True plain_env "''b''" None "Some 7" SourceSystem]
  show ?thesis using c by (auto simp: plain_env_def example_role_def)
qed

text \<open>An assignment that has not begun cannot be revoked at the present: the revoked row would end
  before it starts, and its validation refuses it.\<close>

theorem future_assignment_not_revocable:
  assumes "find_row (\<lambda>a. ra_id a = aid) (role_assignments db) = Some a" "now env \<le> ra_start_at a"
  shows "revoke_role_assignment env aid revoker None db = Inl (ValidationError ''the end must be after the start'')"
  using assms by (simp add: revoke_role_assignment_def role_assignment_clean_def Let_def)

theorem future_assignment_not_revocable_witness:
  "revoke_role_assignment plain_env 1 None None example_credentials = Inl (ValidationError ''the end must be after the start'')"
  by (rule future_assignment_not_revocable [of _ _ "example_assignment 1 1 1"])
    (simp_all add: example_credentials_def example_org_with_def example_assignment_def plain_env_def)

lemma covenanter_grant_live:
  assumes inv: "role_inv db" and m: "find_row (\<lambda>m. m_id m = mid) (members db) = Some m" and a: "member_allows_role_facts m"
    and c: "catalog_role_definition_for_role r db = Some cov_definition"
    and e: "credential_templates db = []" "credential_grants db = []" "system_events db = []" "\<not> sha_collision env"
    and w: "(case s of None \<Rightarrow> now env | Some t \<Rightarrow> t) <
      (case en of None \<Rightarrow> default_role_assignment_end_at (case s of None \<Rightarrow> now env | Some t \<Rightarrow> t) | Some t \<Rightarrow> t)"
  shows "\<exists>a db'. create_role_assignment env uid mid r by' s en src False db = Inr (a, db')"
proof -
  have i: "assignments_inv db" "distinct (map ra_id (role_assignments db))"
    using inv unfolding role_inv_def assignments_inv_def by blast+
  have v: "validate_role_assignment_prerequisites env m r db = Inr ()"
    using a c by (auto simp: validate_role_assignment_prerequisites_def member_allows_role_facts_def cov_definition_def ROLE_DEFINITIONS_def)
  from place_live [OF i(2) w] obtain a cr db1 where
    p: "place_assignment env m r by' (case s of None \<Rightarrow> now env | Some t \<Rightarrow> t) (case en of None \<Rightarrow>
      default_role_assignment_end_at (case s of None \<Rightarrow> now env | Some t \<Rightarrow> t) | Some t \<Rightarrow> t) src db = Inr ((a, cr), db1)" by blast
  from place_ok(4) [OF i(1) p] obtain as where d1: "db1 = db\<lparr>role_assignments := as\<rparr>" by blast
  have c1: "catalog_role_definition_for_role r db1 = Some cov_definition"
    using c catalog_definition_cong [of db1 db r] by (simp add: d1)
  have "\<exists>g db'. issue_covenanter_number env uid m by' db1 = Inr (g, db')"
    by (rule first_number) (use e in \<open>simp_all add: d1\<close>)
  then show ?thesis using m v p c c1 catalog_entries(2) by (auto simp: create_role_assignment_def)
qed

lemma administrator_grant_live:
  assumes p: "prepared env mid cov adm a og db" and m: "find_row (\<lambda>m. m_id m = mid) (members db) = Some m"
    and dm: "distinct (map m_id (members db))" and al: "member_allows_role_facts m"
  shows "\<exists>a db'. create_role_assignment env uid mid adm by' None None src False db = Inr (a, db')"
proof -
  have i: "assignments_inv db" "distinct (map ra_id (role_assignments db))"
    using p unfolding prepared_def role_inv_def assignments_inv_def by blast+
  note c = prepared_covenanter [OF p m dm al]
  have v: "validate_role_assignment_prerequisites env m adm db = Inr ()"
    using al c by (auto simp: validate_role_assignment_prerequisites_def member_allows_role_facts_def)
  have "now env < default_role_assignment_end_at (now env)"
    by (simp add: default_role_assignment_end_at_def DEFAULT_ROLE_ASSIGNMENT_DAYS_def)
  from place_live [OF i(2) this] obtain a cr db1 where
    pl: "place_assignment env m adm by' (now env) (default_role_assignment_end_at (now env)) src db = Inr ((a, cr), db1)" by blast
  from place_ok(4) [OF i(1) pl] obtain as where d1: "db1 = db\<lparr>role_assignments := as\<rparr>" by blast
  have c1: "catalog_role_definition_for_role adm db1 = Some adm_definition"
    using c(2) catalog_definition_cong [of db1 db adm] by (simp add: d1)
  show ?thesis using m v pl c(2) c1 catalog_entries(4,6) by (auto simp: create_role_assignment_def)
qed



end
