(* ===== verification/Proposals.thy ===== *)
theory Proposals
  imports Role_Assignments
begin

text \<open>
  What every proposal of the community shares: the rows of proposals, approvals, votes and of what
  they decide on (\<^verbatim>\<open>core/models/approval_workflow.py\<close>, \<^verbatim>\<open>applications.py\<close>, \<^verbatim>\<open>qualifications.py\<close>,
  \<^verbatim>\<open>operations.py: SupplierQuote\<close>), the selectors of electorates and the eligibility of a member
  (\<^verbatim>\<open>core/electorate_rule_services.py\<close>), the tally (\<^verbatim>\<open>core/unified_proposal_services.py\<close>), the
  approval slots (\<^verbatim>\<open>core/proposal_services.py\<close>) and the published payload of a proposal.

  Quantities are in 1/1000 of the unit, prices in cents, both within their columns. A selector is
  the JSON value the rule stores. Only member admission is registered as a proposal adapter.
\<close>

subsection \<open>Rows\<close>

datatype proposal_type =
  ProcurementAcceptance | ProcurementPayment | MemberApplicationProposal | InventoryAdjustment | DisputeResolution

fun proposal_type_value :: "proposal_type \<Rightarrow> string" where
  "proposal_type_value ProcurementAcceptance = ''procurement_acceptance''"
| "proposal_type_value ProcurementPayment = ''procurement_payment''"
| "proposal_type_value MemberApplicationProposal = ''member_application''"
| "proposal_type_value InventoryAdjustment = ''inventory_adjustment''"
| "proposal_type_value DisputeResolution = ''dispute_resolution''"

definition parse_proposal_type :: "string \<Rightarrow> proposal_type option" where
  "parse_proposal_type s = find_row (\<lambda>t. proposal_type_value t = s)
    [ProcurementAcceptance, ProcurementPayment, MemberApplicationProposal, InventoryAdjustment, DisputeResolution]"

datatype proposal_status =
    ProposalDraft | AwaitingPolicy | ProposalSubmitted | Voting | ProposalApproved | ProposalRejected
  | ProposalExpired | ProposalCancelled | ProposalExecuted | ExecutionFailed

fun proposal_status_value :: "proposal_status \<Rightarrow> string" where
  "proposal_status_value ProposalDraft = ''draft''"
| "proposal_status_value AwaitingPolicy = ''awaiting_policy''"
| "proposal_status_value ProposalSubmitted = ''submitted''"
| "proposal_status_value Voting = ''voting''"
| "proposal_status_value ProposalApproved = ''approved''"
| "proposal_status_value ProposalRejected = ''rejected''"
| "proposal_status_value ProposalExpired = ''expired''"
| "proposal_status_value ProposalCancelled = ''cancelled''"
| "proposal_status_value ProposalExecuted = ''executed''"
| "proposal_status_value ExecutionFailed = ''execution_failed''"

datatype strategy_type = ApprovalSlots | ElectorateVote

fun strategy_type_value :: "strategy_type \<Rightarrow> string" where
  "strategy_type_value ApprovalSlots = ''approval_slots''"
| "strategy_type_value ElectorateVote = ''electorate''"

datatype proposal_tier = TierSingle | TierStandard | TierMajor

fun proposal_tier_value :: "proposal_tier \<Rightarrow> string" where
  "proposal_tier_value TierSingle = ''single''"
| "proposal_tier_value TierStandard = ''standard''"
| "proposal_tier_value TierMajor = ''major''"

definition parse_proposal_tier :: "string \<Rightarrow> proposal_tier option" where
  "parse_proposal_tier s = find_row (\<lambda>t. proposal_tier_value t = s) [TierSingle, TierStandard, TierMajor]"

record approval_proposal =
  ap_proposal_id :: string
  ap_proposal_type :: proposal_type
  ap_title :: string
  ap_summary :: string
  ap_public_reason :: string
  ap_status :: proposal_status
  ap_strategy_type :: strategy_type
  ap_approval_tier :: proposal_tier
  ap_target_type :: string
  ap_target_id :: string
  ap_dedupe_key :: string
  ap_submitted_by :: int
  ap_submitted_at :: time
  ap_voting_started_at :: "time option"
  ap_voting_deadline :: "time option"
  ap_frozen_approve_threshold :: "int option"
  ap_frozen_reject_threshold :: "int option"
  ap_frozen_minimum_participation :: "int option"
  ap_frozen_unresolved_outcome :: string
  ap_resolved_at :: "time option"
  ap_executed_at :: "time option"
  ap_metadata :: json
  ap_created_at :: time
  ap_updated_at :: "time option"
  ap_electorate_rule_version :: "string option"

datatype decision_kind = DecisionApproved | DecisionRejected

record approval_decision =
  ad_approval_id :: string
  ad_proposal :: string
  ad_approver :: int
  ad_role :: string
  ad_decision :: decision_kind
  ad_reason :: string
  ad_created_at :: time

record electorate_rule_template =
  et_rule_code :: string
  et_proposal_type :: string
  et_name :: string
  et_description :: string
  et_is_active :: bool
  et_created_by :: int
  et_created_at :: time
  et_updated_at :: time

record electorate_rule_version =
  rv_rule_version_id :: string
  rv_template :: string
  rv_version :: int
  rv_selector_config :: json
  rv_approve_threshold :: int
  rv_reject_threshold :: int
  rv_minimum_participation :: int
  rv_voting_duration_hours :: int
  rv_unresolved_outcome :: string
  rv_published_by :: int
  rv_published_at :: time

record elector_snapshot =
  es_proposal :: string
  es_member :: int
  es_rule_version :: string
  es_qualification_evidence :: json
  es_snapshotted_at :: time

datatype ballot_choice = ChoiceApprove | ChoiceReject | ChoiceAbstain

fun ballot_choice_value :: "ballot_choice \<Rightarrow> string" where
  "ballot_choice_value ChoiceApprove = ''approve''"
| "ballot_choice_value ChoiceReject = ''reject''"
| "ballot_choice_value ChoiceAbstain = ''abstain''"

definition parse_ballot_choice :: "string \<Rightarrow> ballot_choice option" where
  "parse_ballot_choice s = find_row (\<lambda>c. ballot_choice_value c = s) [ChoiceApprove, ChoiceReject, ChoiceAbstain]"

record proposal_ballot =
  pb_ballot_id :: string
  pb_proposal :: string
  pb_voter :: int
  pb_revision :: int
  pb_choice :: ballot_choice
  pb_reason :: string
  pb_submitted_at :: time

datatype resolution_outcome = OutcomeApproved | OutcomeRejected | OutcomeExpired

fun resolution_outcome_value :: "resolution_outcome \<Rightarrow> string" where
  "resolution_outcome_value OutcomeApproved = ''approved''"
| "resolution_outcome_value OutcomeRejected = ''rejected''"
| "resolution_outcome_value OutcomeExpired = ''expired''"

record proposal_resolution =
  pr_proposal :: string
  pr_outcome :: resolution_outcome
  pr_reason_code :: string
  pr_evidence :: json
  pr_decided_by :: "int option"
  pr_decided_at :: time

datatype execution_status = ExecutionRunning | ExecutionSucceeded | ExecutionDeclined

record execution_record =
  pe_execution_id :: string
  pe_proposal :: string
  pe_idempotency_key :: string
  pe_executed_by :: int
  pe_status :: execution_status
  pe_public_error_code :: string
  pe_result_data :: json
  pe_started_at :: time
  pe_completed_at :: "time option"

datatype domain_status = DomainActive | DomainArchived

record professional_domain =
  pd_code :: string
  pd_name :: string
  pd_description :: string
  pd_status :: domain_status

datatype qualification_status = QualificationActive | QualificationRevoked | QualificationExpired

record member_qualification =
  mq_id :: int
  mq_member :: int
  mq_domain :: string
  mq_status :: qualification_status
  mq_external_confirmation_source :: string
  mq_confirmed_by :: int
  mq_confirmed_at :: time
  mq_valid_from :: time
  mq_valid_until :: "time option"
  mq_revoked_at :: "time option"
  mq_revoked_by :: "int option"
  mq_notes :: string

datatype application_status = ApplicationSubmitted | ApplicationAdmitted | ApplicationDeclined | ApplicationWithdrew

record member_application =
  ma_application_id :: string
  ma_applicant_name :: string
  ma_contact :: string
  ma_motivation :: string
  ma_availability_hours_per_week :: int
  ma_role_gap :: string
  ma_availability_slots :: json
  ma_capability_scores :: json
  ma_can_issue_responsibility_documents :: bool
  ma_document_authority_domains :: json
  ma_status :: application_status
  ma_requested_member_no :: string
  ma_account_user :: "int option"
  ma_linked_member :: "int option"
  ma_dynamic_answers :: json
  ma_frozen_at :: "time option"
  ma_decided_by :: "int option"
  ma_admission_proposal :: "string option"
  ma_submitted_at :: time
  ma_decided_at :: "time option"
  ma_metadata :: json

datatype offer_type = OfferQuote | OfferDonation

fun offer_type_value :: "offer_type \<Rightarrow> string" where
  "offer_type_value OfferQuote = ''quote''"
| "offer_type_value OfferDonation = ''donation''"

definition parse_offer_type :: "string \<Rightarrow> offer_type option" where
  "parse_offer_type s = find_row (\<lambda>t. offer_type_value t = s) [OfferQuote, OfferDonation]"

datatype quote_decision =
  QuoteSubmitted | QuoteUnderReview | QuoteAccepted | QuoteRejected | QuoteWithdrawn | QuoteFulfilled | QuoteCancelled

fun quote_decision_value :: "quote_decision \<Rightarrow> string" where
  "quote_decision_value QuoteSubmitted = ''submitted''"
| "quote_decision_value QuoteUnderReview = ''under_review''"
| "quote_decision_value QuoteAccepted = ''accepted''"
| "quote_decision_value QuoteRejected = ''rejected''"
| "quote_decision_value QuoteWithdrawn = ''withdrawn''"
| "quote_decision_value QuoteFulfilled = ''fulfilled''"
| "quote_decision_value QuoteCancelled = ''cancelled''"

datatype quote_status = QuoteDraft | QuoteActive | QuoteExpired | QuoteStatusRejected

datatype quality_grade = GradeUnknown | GradeLowRisk | GradeStandard | GradeHighQuality | GradeRisky

datatype receipt_status = ReceiptPending | ReceiptAccepted | ReceiptRejected | ReceiptPartial

fun receipt_status_value :: "receipt_status \<Rightarrow> string" where
  "receipt_status_value ReceiptPending = ''pending''"
| "receipt_status_value ReceiptAccepted = ''accepted''"
| "receipt_status_value ReceiptRejected = ''rejected''"
| "receipt_status_value ReceiptPartial = ''partial''"

definition parse_receipt_status :: "string \<Rightarrow> receipt_status option" where
  "parse_receipt_status s = find_row (\<lambda>t. receipt_status_value t = s)
    [ReceiptPending, ReceiptAccepted, ReceiptRejected, ReceiptPartial]"

datatype payment_status = PaymentNotRequired | PaymentPending | PaymentPaid | PaymentDisputed

fun payment_status_value :: "payment_status \<Rightarrow> string" where
  "payment_status_value PaymentNotRequired = ''not_required''"
| "payment_status_value PaymentPending = ''pending''"
| "payment_status_value PaymentPaid = ''paid''"
| "payment_status_value PaymentDisputed = ''disputed''"

datatype quote_tier = QuoteSmall | QuoteStandard | QuoteMajor

fun quote_tier_value :: "quote_tier \<Rightarrow> string" where
  "quote_tier_value QuoteSmall = ''small''"
| "quote_tier_value QuoteStandard = ''standard''"
| "quote_tier_value QuoteMajor = ''major''"

record supplier_quote =
  sq_quote_id :: string
  sq_partner_application :: "string option"
  sq_resource :: string
  sq_unit_price :: int
  sq_currency :: string
  sq_available_quantity :: int
  sq_minimum_order_quantity :: int
  sq_lead_time_days :: int
  sq_quality_grade :: quality_grade
  sq_quality_summary :: string
  sq_valid_from :: "time option"
  sq_valid_until :: "time option"
  sq_status :: quote_status
  sq_notes :: string
  sq_created_at :: time
  sq_updated_at :: "time option"
  sq_metadata :: json
  sq_offer_type :: offer_type
  sq_decision_status :: quote_decision
  sq_submitted_by :: "int option"
  sq_accepted_by :: "int option"
  sq_accepted_at :: "time option"
  sq_rejected_by :: "int option"
  sq_rejected_at :: "time option"
  sq_decision_reason :: string
  sq_delivered_at :: "time option"
  sq_received_by :: "int option"
  sq_receipt_status :: receipt_status
  sq_receipt_notes :: string
  sq_paid_at :: "time option"
  sq_payment_status :: payment_status
  sq_performance_credential :: "string option"
  sq_estimated_total_amount :: int
  sq_approval_tier :: quote_tier
  sq_public_visibility :: string
  sq_public_display_name :: string

record proposal_db = credential_db +
  approval_proposals :: "approval_proposal list"
  approval_decisions :: "approval_decision list"
  rule_templates :: "electorate_rule_template list"
  rule_versions :: "electorate_rule_version list"
  elector_snapshots :: "elector_snapshot list"
  proposal_ballots :: "proposal_ballot list"
  proposal_resolutions :: "proposal_resolution list"
  execution_records :: "execution_record list"
  professional_domains :: "professional_domain list"
  member_qualifications :: "member_qualification list"
  member_applications :: "member_application list"
  supplier_quotes :: "supplier_quote list"

definition member_row :: "int \<Rightarrow> 'a people_db_scheme \<Rightarrow> member result" where
  "member_row i db = (case find_row (\<lambda>m. m_id m = i) (members db) of
     None \<Rightarrow> Inl (DoesNotExist ''Member'') | Some m \<Rightarrow> Inr m)"

definition proposal_row :: "string \<Rightarrow> 'a proposal_db_scheme \<Rightarrow> approval_proposal result" where
  "proposal_row i db = (case find_row (\<lambda>p. ap_proposal_id p = i) (approval_proposals db) of
     None \<Rightarrow> Inl (DoesNotExist ''ApprovalProposal'') | Some p \<Rightarrow> Inr p)"

definition save_proposal :: "approval_proposal \<Rightarrow> 'a proposal_db_scheme \<Rightarrow> 'a proposal_db_scheme" where
  "save_proposal p db = db\<lparr>approval_proposals :=
     update_rows (\<lambda>x. ap_proposal_id x = ap_proposal_id p) (\<lambda>_. p) (approval_proposals db)\<rparr>"

definition insert_proposal :: "approval_proposal \<Rightarrow> 'a proposal_db_scheme \<Rightarrow> 'a proposal_db_scheme result" where
  "insert_proposal p db =
    (if exists_row (\<lambda>x. ap_proposal_id x = ap_proposal_id p \<or>
          ap_proposal_type x = ap_proposal_type p \<and> ap_dedupe_key x = ap_dedupe_key p) (approval_proposals db)
     then Inl IntegrityError else Inr (db\<lparr>approval_proposals := approval_proposals db @ [p]\<rparr>))"

subsection \<open>Electorate selectors\<close>

definition MAX_SELECTOR_DEPTH :: nat where "MAX_SELECTOR_DEPTH = 8"

definition SUPPORTED_PARTICIPATION_STATUSES :: "string list" where
  "SUPPORTED_PARTICIPATION_STATUSES = [''contributor'']"

definition active_domain :: "'a proposal_db_scheme \<Rightarrow> string \<Rightarrow> bool" where
  "active_domain db code = exists_row (\<lambda>d. pd_code d = code \<and> pd_status d = DomainActive) (professional_domains db)"

text \<open>The conditions that are not composed of others.\<close>

definition validate_condition :: "(string \<Rightarrow> bool) \<Rightarrow> string \<Rightarrow> json \<Rightarrow> unit result" where
  "validate_condition domain_ok key value =
    (if key = ''role_code'' then
       (case value of JStr s \<Rightarrow> if role_definition_for_code s = None
            then Inl (DomainError ''unknown role code'') else Inr ()
        | _ \<Rightarrow> Inl (DomainError ''unknown role code''))
     else if key = ''participation_status'' then
       (case value of JStr s \<Rightarrow> if s \<notin> set SUPPORTED_PARTICIPATION_STATUSES
            then Inl (DomainError ''unknown participation status'') else Inr ()
        | JList _ \<Rightarrow> Inl (TypeError ''unhashable'') | JObj _ \<Rightarrow> Inl (TypeError ''unhashable'')
        | _ \<Rightarrow> Inl (DomainError ''unknown participation status''))
     else if key = ''professional_domain'' then
       (case value of JStr s \<Rightarrow> if \<not> domain_ok s
            then Inl (DomainError ''unknown professional domain'') else Inr ()
        | _ \<Rightarrow> Inl (DomainError ''unknown professional domain''))
     else Inl (DomainError ''unsupported condition''))"

fun validate_selector_node :: "(string \<Rightarrow> bool) \<Rightarrow> nat \<Rightarrow> json \<Rightarrow> unit result"
  and validate_selector_nodes :: "(string \<Rightarrow> bool) \<Rightarrow> nat \<Rightarrow> json list \<Rightarrow> unit result" where
  "validate_selector_node ok depth (JObj [(key, value)]) =
    (if MAX_SELECTOR_DEPTH < depth then Inl (DomainError ''the selector is nested too deeply'')
     else if key \<in> {''all'', ''any''} then
       (case value of JList xs \<Rightarrow> if xs = [] then Inl (DomainError ''the condition needs a child'')
            else validate_selector_nodes ok (Suc depth) xs
        | _ \<Rightarrow> Inl (DomainError ''the condition needs a child''))
     else if key = ''not'' then validate_selector_node ok (Suc depth) value
     else validate_condition ok key value)"
| "validate_selector_node ok depth node =
    (if MAX_SELECTOR_DEPTH < depth then Inl (DomainError ''the selector is nested too deeply'')
     else Inl (DomainError ''a selector is an object with one condition''))"
| "validate_selector_nodes ok depth [] = Inr ()"
| "validate_selector_nodes ok depth (x # xs) =
    and_then (validate_selector_node ok depth x) (\<lambda>_. validate_selector_nodes ok depth xs)"

definition validate_selector_config :: "json \<Rightarrow> 'a proposal_db_scheme \<Rightarrow> json result" where
  "validate_selector_config config db =
    and_then (validate_selector_node (active_domain db) 0 config) (\<lambda>_. Inr config)"

definition active_professional_domain_codes :: "member \<Rightarrow> time \<Rightarrow> 'a proposal_db_scheme \<Rightarrow> string list" where
  "active_professional_domain_codes m checked_at db =
    map mq_domain (filter (\<lambda>q. mq_member q = m_id m \<and> mq_status q = QualificationActive \<and> mq_valid_from q \<le> checked_at \<and>
      (case mq_valid_until q of None \<Rightarrow> True | Some t \<Rightarrow> checked_at < t)) (member_qualifications db))"

text \<open>One condition of a member, and the line of evidence it leaves.\<close>

definition condition_matches :: "fga \<Rightarrow> member \<Rightarrow> time \<Rightarrow> 'a proposal_db_scheme \<Rightarrow> string \<Rightarrow> json \<Rightarrow> bool result" where
  "condition_matches f m checked_at db key value =
    (if key = ''role_code'' then
       (case value of JStr s \<Rightarrow>
            if role_definition_for_code s = None then Inr False else member_has_platform_role f m s checked_at db
        | _ \<Rightarrow> Inr False)
     else if key = ''participation_status'' then
       Inr (case participation_status checked_at db m of None \<Rightarrow> value = JNull | Some s \<Rightarrow> value = JStr s)
     else if key = ''professional_domain'' then
       (case value of JStr s \<Rightarrow> Inr (s \<in> set (active_professional_domain_codes m checked_at db))
        | _ \<Rightarrow> Inr False)
     else Inl (DomainError ''the condition cannot be evaluated''))"

definition evidence_line :: "string \<Rightarrow> json \<Rightarrow> bool \<Rightarrow> json" where
  "evidence_line key value matched = JObj [(''condition'', JStr key), (''value'', value), (''matched'', JBool matched)]"

text \<open>Evaluation stops at the first child that decides, as \<^verbatim>\<open>all\<close> and \<^verbatim>\<open>any\<close> do, and collects the
  evidence of the conditions it has looked at. It runs on validated selectors only.\<close>

fun evaluate_selector_node :: "(string \<Rightarrow> json \<Rightarrow> bool result) \<Rightarrow> json \<Rightarrow> (bool \<times> json list) result"
  and evaluate_all :: "(string \<Rightarrow> json \<Rightarrow> bool result) \<Rightarrow> json list \<Rightarrow> (bool \<times> json list) result"
  and evaluate_any :: "(string \<Rightarrow> json \<Rightarrow> bool result) \<Rightarrow> json list \<Rightarrow> (bool \<times> json list) result" where
  "evaluate_selector_node match (JObj ((key, value) # rest)) =
    (if key = ''all'' then (case value of JList xs \<Rightarrow> evaluate_all match xs | _ \<Rightarrow> Inl (TypeError ''object is not iterable''))
     else if key = ''any'' then (case value of JList xs \<Rightarrow> evaluate_any match xs | _ \<Rightarrow> Inl (TypeError ''object is not iterable''))
     else if key = ''not'' then and_then (evaluate_selector_node match value) (\<lambda>(b, ev). Inr (\<not> b, ev))
     else and_then (match key value) (\<lambda>b. Inr (b, [evidence_line key value b])))"
| "evaluate_selector_node match node = Inl (AttributeError ''items'')"
| "evaluate_all match [] = Inr (True, [])"
| "evaluate_all match (x # xs) =
    and_then (evaluate_selector_node match x) (\<lambda>(b, ev).
      if b then and_then (evaluate_all match xs) (\<lambda>(c, ev'). Inr (c, ev @ ev')) else Inr (False, ev))"
| "evaluate_any match [] = Inr (False, [])"
| "evaluate_any match (x # xs) =
    and_then (evaluate_selector_node match x) (\<lambda>(b, ev).
      if b then Inr (True, ev) else and_then (evaluate_any match xs) (\<lambda>(c, ev'). Inr (c, ev @ ev')))"

subsection \<open>Eligibility\<close>

record eligibility =
  el_allowed :: bool
  el_reason_code :: string
  el_message :: string
  el_evidence :: json

definition evaluate_rule_for_member ::
    "fga \<Rightarrow> electorate_rule_version \<Rightarrow> member \<Rightarrow> time \<Rightarrow> int option \<Rightarrow> 'a proposal_db_scheme \<Rightarrow> eligibility result" where
  "evaluate_rule_for_member f rule m moment excluded db =
    and_then (ensure_authorization_available f m) (\<lambda>_.
      if excluded = Some (m_id m) then
        Inr \<lparr>el_allowed = False, el_reason_code = ''excluded_source_actor'',
             el_message = ''applicants do not decide on their own admission'', el_evidence = JObj []\<rparr>
      else if \<not> member_allows_role_facts m then
        Inr \<lparr>el_allowed = False, el_reason_code = ''member_inactive'',
             el_message = ''the member or the login is not active'', el_evidence = JObj []\<rparr>
      else and_then (validate_selector_config (rv_selector_config rule) db) (\<lambda>_.
        and_then (evaluate_selector_node (condition_matches f m moment db) (rv_selector_config rule)) (\<lambda>(allowed, ev).
          Inr (if \<not> allowed then
                 \<lparr>el_allowed = False, el_reason_code = ''rule_not_satisfied'',
                  el_message = ''the member does not satisfy the rule'', el_evidence = JObj [(''conditions'', JList ev)]\<rparr>
               else
                 \<lparr>el_allowed = True, el_reason_code = ''eligible'', el_message = ''the member is an elector'',
                  el_evidence = JObj [(''conditions'', JList ev)]\<rparr>))))"

definition rule_version_row :: "string \<Rightarrow> 'a proposal_db_scheme \<Rightarrow> electorate_rule_version result" where
  "rule_version_row i db = (case find_row (\<lambda>v. rv_rule_version_id v = i) (rule_versions db) of
     None \<Rightarrow> Inl (DoesNotExist ''ElectorateRuleVersion'') | Some v \<Rightarrow> Inr v)"

definition electorate_eligibility_for_proposal ::
    "env \<Rightarrow> fga \<Rightarrow> approval_proposal \<Rightarrow> member \<Rightarrow> int option \<Rightarrow> 'a proposal_db_scheme \<Rightarrow> eligibility result" where
  "electorate_eligibility_for_proposal env f p m excluded db =
    (case ap_electorate_rule_version p of
       None \<Rightarrow> Inr \<lparr>el_allowed = False, el_reason_code = ''policy_missing'',
                 el_message = ''the proposal has no electorate policy'', el_evidence = JObj []\<rparr>
     | Some i \<Rightarrow>
        if \<not> exists_row (\<lambda>x. es_proposal x = ap_proposal_id p \<and> es_member x = m_id m) (elector_snapshots db)
        then Inr \<lparr>el_allowed = False, el_reason_code = ''not_in_snapshot'',
                 el_message = ''the member is not in the frozen electorate'', el_evidence = JObj []\<rparr>
        else and_then (rule_version_row i db) (\<lambda>rule. evaluate_rule_for_member f rule m (now env) excluded db))"

subsection \<open>The adapter of member admission\<close>

definition application_for :: "approval_proposal \<Rightarrow> 'a proposal_db_scheme \<Rightarrow> member_application result" where
  "application_for p db =
    (if ap_target_type p \<noteq> ''member_application'' \<or> ap_target_id p = [] then
       Inl (DomainError ''the admission proposal has no application'')
     else case find_row (\<lambda>a. ma_application_id a = ap_target_id p) (member_applications db) of
       None \<Rightarrow> Inl (DomainError ''the application of the proposal does not exist'')
     | Some a \<Rightarrow> Inr a)"

definition proposal_adapter_for :: "proposal_type \<Rightarrow> unit result" where
  "proposal_adapter_for ty =
    (if ty = MemberApplicationProposal then Inr ()
     else Inl (DomainError ''the proposal type has not been migrated''))"

definition excluded_member_id :: "approval_proposal \<Rightarrow> 'a proposal_db_scheme \<Rightarrow> int option result" where
  "excluded_member_id p db =
    and_then (proposal_adapter_for (ap_proposal_type p)) (\<lambda>_.
      and_then (application_for p db) (\<lambda>a. Inr (ma_linked_member a)))"

subsection \<open>The tally\<close>

record tally =
  ty_eligible_count :: int
  ty_participation_count :: int
  ty_approve_count :: int
  ty_reject_count :: int
  ty_abstain_count :: int

definition latest_revision :: "string \<Rightarrow> int \<Rightarrow> 'a proposal_db_scheme \<Rightarrow> int" where
  "latest_revision pid voter db =
    foldr (\<lambda>b n. if pb_proposal b = pid \<and> pb_voter b = voter then max (pb_revision b) n else n) (proposal_ballots db) 0"

definition candidate_ballots :: "string \<Rightarrow> 'a proposal_db_scheme \<Rightarrow> proposal_ballot list" where
  "candidate_ballots pid db =
    filter (\<lambda>b. pb_proposal b = pid \<and> pb_revision b = latest_revision pid (pb_voter b) db) (proposal_ballots db)"

definition ballot_counts ::
    "env \<Rightarrow> fga \<Rightarrow> approval_proposal \<Rightarrow> int option \<Rightarrow> 'a proposal_db_scheme \<Rightarrow> proposal_ballot \<Rightarrow> bool result" where
  "ballot_counts env f p excluded db b =
    and_then (member_row (pb_voter b) db) (\<lambda>m.
      and_then (electorate_eligibility_for_proposal env f p m excluded db) (\<lambda>e. Inr (el_allowed e)))"

fun filter_result :: "('b \<Rightarrow> bool result) \<Rightarrow> 'b list \<Rightarrow> 'b list result" where
  "filter_result P [] = Inr []"
| "filter_result P (x # xs) = and_then (P x) (\<lambda>b. and_then (filter_result P xs) (\<lambda>ys. Inr (if b then x # ys else ys)))"

definition count_choice :: "ballot_choice \<Rightarrow> proposal_ballot list \<Rightarrow> int" where
  "count_choice c bs = int (length (filter (\<lambda>b. pb_choice b = c) bs))"

definition proposal_tally :: "env \<Rightarrow> fga \<Rightarrow> approval_proposal \<Rightarrow> 'a proposal_db_scheme \<Rightarrow> tally result" where
  "proposal_tally env f p db =
    and_then (excluded_member_id p db) (\<lambda>excluded.
      and_then (filter_result (ballot_counts env f p excluded db) (candidate_ballots (ap_proposal_id p) db)) (\<lambda>latest.
        Inr \<lparr>ty_eligible_count = int (length (filter (\<lambda>s. es_proposal s = ap_proposal_id p) (elector_snapshots db))),
             ty_participation_count = int (length latest),
             ty_approve_count = count_choice ChoiceApprove latest,
             ty_reject_count = count_choice ChoiceReject latest,
             ty_abstain_count = count_choice ChoiceAbstain latest\<rparr>))"

subsection \<open>Approval slots\<close>

text \<open>Each group is one required slot, in the order of its roles.\<close>

definition proposal_required_role_groups :: "approval_proposal \<Rightarrow> string list list" where
  "proposal_required_role_groups p =
    (if ap_proposal_type p = ProcurementAcceptance then
       (case ap_approval_tier p of
          TierSingle \<Rightarrow> [[''finance'', ''governance'']]
        | TierStandard \<Rightarrow> [[''governance''], [''finance'']]
        | TierMajor \<Rightarrow> [[''governance''], [''finance''], [''second_governance'']])
     else if ap_proposal_type p = ProcurementPayment then [[''finance'']]
     else [[''governance'']])"

definition valid_approval_roles :: "approval_proposal \<Rightarrow> string list" where
  "valid_approval_roles p = concat (proposal_required_role_groups p)"

definition proposal_required_roles :: "approval_proposal \<Rightarrow> string list" where
  "proposal_required_roles p = sort (valid_approval_roles p)"

definition approvals_of :: "approval_proposal \<Rightarrow> 'a proposal_db_scheme \<Rightarrow> approval_decision list" where
  "approvals_of p db = filter (\<lambda>d. ad_proposal d = ap_proposal_id p \<and> ad_decision d = DecisionApproved) (approval_decisions db)"

definition proposal_approved_roles :: "approval_proposal \<Rightarrow> 'a proposal_db_scheme \<Rightarrow> string list" where
  "proposal_approved_roles p db = map ad_role (approvals_of p db)"

definition slot_filled :: "string list \<Rightarrow> string list \<Rightarrow> bool" where
  "slot_filled g approved = list_ex (\<lambda>r. r \<in> set approved) g"

fun join_slash :: "string list \<Rightarrow> string" where
  "join_slash [] = []"
| "join_slash [s] = s"
| "join_slash (s # t # ss) = s @ ''/'' @ join_slash (t # ss)"

definition proposal_missing_roles :: "approval_proposal \<Rightarrow> 'a proposal_db_scheme \<Rightarrow> string list" where
  "proposal_missing_roles p db =
    map join_slash (filter (\<lambda>g. \<not> slot_filled g (proposal_approved_roles p db)) (proposal_required_role_groups p))"

definition proposal_is_approved :: "approval_proposal \<Rightarrow> 'a proposal_db_scheme \<Rightarrow> bool" where
  "proposal_is_approved p db =
    list_all (\<lambda>g. slot_filled g (proposal_approved_roles p db)) (proposal_required_role_groups p)"

subsection \<open>The published payload of a proposal\<close>

definition json_strings :: "string list \<Rightarrow> json" where
  "json_strings ss = JList (map JStr ss)"

definition application_facts :: "approval_proposal \<Rightarrow> 'a proposal_db_scheme \<Rightarrow> (string \<times> json) list" where
  "application_facts p db =
    (if ap_proposal_type p \<noteq> MemberApplicationProposal then []
     else case find_row (\<lambda>a. ma_application_id a = ap_target_id p) (member_applications db) of
       None \<Rightarrow> []
     | Some a \<Rightarrow>
        let no = (case ma_linked_member a of None \<Rightarrow> []
              | Some i \<Rightarrow> (case find_row (\<lambda>m. m_id m = i) (members db) of None \<Rightarrow> [] | Some m \<Rightarrow> m_member_no m))
        in [(''application_id'', JStr (ma_application_id a)),
            (''public_applicant_label'', JStr (public_member_label (ma_applicant_name a) no)),
            (''role_gap'', JStr (ma_role_gap a))])"

definition strategy_facts :: "env \<Rightarrow> fga \<Rightarrow> approval_proposal \<Rightarrow> 'a proposal_db_scheme \<Rightarrow> (string \<times> json) list result" where
  "strategy_facts env f p db =
    (case ap_strategy_type p of
       ElectorateVote \<Rightarrow>
         and_then (proposal_tally env f p db) (\<lambda>t.
         and_then (case ap_electorate_rule_version p of None \<Rightarrow> Inr None
             | Some i \<Rightarrow> and_then (rule_version_row i db) (\<lambda>v. Inr (Some v))) (\<lambda>rule.
           Inr [(''ap_rule_code'', JStr (case rule of None \<Rightarrow> [] | Some v \<Rightarrow> rv_template v)),
                (''ap_rule_version'', json_opt_int (map_option rv_version rule)),
                (''ap_voting_deadline'', (case ap_voting_deadline p of None \<Rightarrow> JNull | Some t \<Rightarrow> JStr (isoformat t))),
                (''ap_eligible_count'', JInt (ty_eligible_count t)),
                (''ap_participation_count'', JInt (ty_participation_count t)),
                (''ap_approve_count'', JInt (ty_approve_count t)),
                (''ap_reject_count'', JInt (ty_reject_count t)),
                (''ap_abstain_count'', JInt (ty_abstain_count t))]))
     | ApprovalSlots \<Rightarrow>
         Inr [(''ap_approval_tier'', JStr (proposal_tier_value (ap_approval_tier p))),
              (''ap_required_roles'', json_strings (proposal_required_roles p)),
              (''ap_approved_roles'', json_strings (proposal_approved_roles p db)),
              (''ap_missing_roles'', json_strings (proposal_missing_roles p db))])"

definition approval_proposal_payload ::
    "env \<Rightarrow> fga \<Rightarrow> approval_proposal \<Rightarrow> string \<Rightarrow> member \<Rightarrow> 'a proposal_db_scheme \<Rightarrow> json result" where
  "approval_proposal_payload env f p action actor db =
    and_then (member_row (ap_submitted_by p) db) (\<lambda>submitter.
      let admission = (ap_proposal_type p = MemberApplicationProposal);
          title = (if admission then ''admission proposal'' else ap_title p);
          summary = (if admission then ''the community decides on an application'' else ap_summary p)
      in and_then (strategy_facts env f p db) (\<lambda>facts.
        Inr (public_event_payload ''approval_proposal'' (public_ref [''approval-proposal'', ap_proposal_id p]) title
          action (proposal_status_value (ap_status p))
          (''proposal '' @ ap_proposal_id p @ '' ('' @ title @ '') '' @ action @ ''.'')
          ([(''approval_proposal_id'', JStr (ap_proposal_id p)),
            (''ap_type'', JStr (proposal_type_value (ap_proposal_type p))),
            (''ap_title'', JStr title), (''ap_summary'', JStr summary),
            (''ap_status'', JStr (proposal_status_value (ap_status p))),
            (''ap_strategy_type'', JStr (strategy_type_value (ap_strategy_type p))),
            (''ap_target_type'', JStr (ap_target_type p)),
            (''ap_submitted_by_display'', JStr (public_member_label (m_display_name submitter) (m_member_no submitter))),
            (''ap_actor_display'', JStr (public_member_label (m_display_name actor) (m_member_no actor)))] @
           application_facts p db @ facts)
          [private_commitment ''metadata'' (json_truthy (ap_metadata p)) ''metadata''])))"

text \<open>Every event of a proposal is appended with this payload.\<close>

definition proposal_event ::
    "env \<Rightarrow> fga \<Rightarrow> string \<Rightarrow> approval_proposal \<Rightarrow> string \<Rightarrow> member \<Rightarrow> time \<Rightarrow> 'a proposal_db_scheme \<Rightarrow>
     'a proposal_db_scheme result" where
  "proposal_event env f event_type p action actor at db =
    and_then (approval_proposal_payload env f p action actor db) (\<lambda>payload.
      and_then (append_event env event_type ''ApprovalProposal'' (ap_proposal_id p) (Some (m_id actor)) None payload
        (Some at) db) (\<lambda>(e, db'). Inr db'))"

subsection \<open>What a selector means\<close>

text \<open>The boolean reading of a selector, without order of evaluation, errors and evidence.\<close>

fun selector_holds :: "(string \<Rightarrow> json \<Rightarrow> bool) \<Rightarrow> json \<Rightarrow> bool" where
  "selector_holds M (JObj [(key, value)]) =
    (if key = ''all'' then (case value of JList xs \<Rightarrow> list_all (selector_holds M) xs | _ \<Rightarrow> False)
     else if key = ''any'' then (case value of JList xs \<Rightarrow> list_ex (selector_holds M) xs | _ \<Rightarrow> False)
     else if key = ''not'' then \<not> selector_holds M value
     else M key value)"
| "selector_holds M node = False"

fun selector_height :: "json \<Rightarrow> nat" where
  "selector_height (JObj [(key, value)]) =
    (if key \<in> {''all'', ''any''} then (case value of JList xs \<Rightarrow> Suc (fold max (map selector_height xs) 0) | _ \<Rightarrow> 0)
     else if key = ''not'' then Suc (selector_height value) else 0)"
| "selector_height node = 0"

lemma validated_shape:
  assumes "validate_selector_node ok d node = Inr ()"
  obtains k v where "node = JObj [(k, v)]" "d \<le> MAX_SELECTOR_DEPTH"
  using assms by (cases "(ok, d, node)" rule: validate_selector_node.cases) (auto split: if_splits)

lemma evaluate_valid:
  "\<forall>k v. validate_condition ok k v = Inr () \<longrightarrow> match k v = Inr (M k v) \<Longrightarrow> validate_selector_node ok d node = Inr () \<Longrightarrow>
     \<exists>ev. evaluate_selector_node match node = Inr (selector_holds M node, ev)"
  "\<forall>k v. validate_condition ok k v = Inr () \<longrightarrow> match k v = Inr (M k v) \<Longrightarrow> validate_selector_nodes ok d nodes = Inr () \<Longrightarrow>
     (\<exists>ev. evaluate_all match nodes = Inr (list_all (selector_holds M) nodes, ev)) \<and>
     (\<exists>ev. evaluate_any match nodes = Inr (list_ex (selector_holds M) nodes, ev))"
proof (induction ok d node and ok d nodes rule: validate_selector_node_validate_selector_nodes.induct)
  case (1 ok d key val)
  show ?case
  proof (cases "key \<in> {''all'', ''any''}")
    case True
    with 1 obtain xs where v: "val = JList xs" "validate_selector_nodes ok (Suc d) xs = Inr ()"
      by (auto split: json.splits if_splits)
    show ?thesis using True 1 v by (auto split: if_splits)
  next
    case False
    then show ?thesis using 1 by (cases "key = ''not''") (auto split: if_splits)
  qed
next
  case (4 ok d x xs)
  then obtain ev where "evaluate_selector_node match x = Inr (selector_holds M x, ev)" by auto
  with 4 show ?case by (cases "selector_holds M x") auto
qed auto

lemma fold_max_le: "fold max xs (a :: nat) \<le> n \<longleftrightarrow> a \<le> n \<and> (\<forall>x \<in> set xs. x \<le> n)"
  by (induction xs arbitrary: a) auto

lemma height_valid:
  "validate_selector_node ok d node = Inr () \<Longrightarrow> d + selector_height node \<le> MAX_SELECTOR_DEPTH"
  "validate_selector_nodes ok d nodes = Inr () \<Longrightarrow> \<forall>x \<in> set nodes. d + selector_height x \<le> MAX_SELECTOR_DEPTH"
proof (induction ok d node and ok d nodes rule: validate_selector_node_validate_selector_nodes.induct)
  case (1 ok d key val)
  show ?case
  proof (cases "key \<in> {''all'', ''any''}")
    case True
    with 1 obtain xs where v: "val = JList xs" "xs \<noteq> []" "\<forall>x \<in> set xs. Suc d + selector_height x \<le> MAX_SELECTOR_DEPTH"
      "d \<le> MAX_SELECTOR_DEPTH"
      by (auto split: json.splits if_splits)
    from v(2,3) obtain x where "Suc d + selector_height x \<le> MAX_SELECTOR_DEPTH" by (cases xs) auto
    then have d: "Suc d \<le> MAX_SELECTOR_DEPTH" by simp
    have "fold max (map selector_height xs) 0 \<le> MAX_SELECTOR_DEPTH - Suc d"
      unfolding fold_max_le using v(3) by auto
    with d show ?thesis using True v(1) by auto
  next
    case False
    then show ?thesis using 1 by (cases "key = ''not''") (auto split: if_splits)
  qed
qed auto

text \<open>The facts of a member that a selector reads, with the backend that needs no remote answer.\<close>

definition member_satisfies :: "member \<Rightarrow> time \<Rightarrow> 'a proposal_db_scheme \<Rightarrow> string \<Rightarrow> json \<Rightarrow> bool" where
  "member_satisfies m at db key value =
    (if key = ''role_code'' then
       (\<exists>s d. value = JStr s \<and> role_definition_for_code s = Some d \<and> rd_display_name d \<in> set (active_member_role_names at db m))
     else if key = ''participation_status'' then
       (\<exists>s. value = JStr s \<and> participation_status at db m = Some s)
     else if key = ''professional_domain'' then
       (\<exists>s. value = JStr s \<and> s \<in> set (active_professional_domain_codes m at db))
     else False)"

lemma condition_sound:
  assumes "fga_backend f = ''legacy''" "validate_condition ok key v = Inr ()"
  shows "condition_matches f m at db key v = Inr (member_satisfies m at db key v)"
proof -
  from assms(2) obtain s where v: "v = JStr s" by (cases v) (auto simp: validate_condition_def split: if_splits)
  show ?thesis using assms
    by (cases "participation_status at db m")
      (auto simp: condition_matches_def member_satisfies_def validate_condition_def v member_has_platform_role_def
        split: if_splits option.splits)
qed

subsection \<open>Properties of electorates\<close>


definition example_proposals :: proposal_db where
  "example_proposals = credential_db.extend example_credentials (proposal_db.fields [] [] [] [] [] [] [] [] [] [] [] [])"

text \<open>Covenanters who are not administrators.\<close>

definition example_rule :: electorate_rule_version where
  "example_rule = \<lparr>rv_rule_version_id = ''v1'', rv_template = ''admission'', rv_version = 1,
     rv_selector_config = JObj [(''all'', JList [JObj [(''role_code'', JStr ''covenanter'')],
       JObj [(''not'', JObj [(''role_code'', JStr ''administrator'')])]])],
     rv_approve_threshold = 1, rv_reject_threshold = 1, rv_minimum_participation = 0, rv_voting_duration_hours = 24,
     rv_unresolved_outcome = ''rejected'', rv_published_by = 1, rv_published_at = 0\<rparr>"


end
