(* ===== verification/Procurement.thy ===== *)
theory Procurement
  imports Proposals
begin

text \<open>
  Approval proposals with fixed slots and the procurement they decide: \<^verbatim>\<open>core/proposal_services.py\<close>
  and \<^verbatim>\<open>core/procurement_services.py\<close>, with the payload of an offer (\<^verbatim>\<open>core/event_payloads.py\<close>).

  \<open>exact_total\<close> is the product of quantity and price in units of 1/100000, as the code computes
  it; the column keeps it in cents, rounded half to even by the database adapter. Rows are taken by their identifier
  where the code reloads and locks them. The argument \<open>uid\<close> of a service is what it draws for
  identifiers.
\<close>

subsection \<open>Tiers\<close>

definition SMALL_PURCHASE_LIMIT :: int where "SMALL_PURCHASE_LIMIT = 500 * 100000"
definition STANDARD_PURCHASE_LIMIT :: int where "STANDARD_PURCHASE_LIMIT = 5000 * 100000"

definition compute_procurement_approval_tier :: "offer_type \<Rightarrow> int \<Rightarrow> quote_tier" where
  "compute_procurement_approval_tier ty amount =
    (if ty = OfferDonation \<or> amount = 0 then QuoteSmall
     else if amount \<le> SMALL_PURCHASE_LIMIT then QuoteSmall
     else if amount \<le> STANDARD_PURCHASE_LIMIT then QuoteStandard else QuoteMajor)"

fun supplier_quote_tier_to_proposal_tier :: "quote_tier \<Rightarrow> proposal_tier" where
  "supplier_quote_tier_to_proposal_tier QuoteSmall = TierSingle"
| "supplier_quote_tier_to_proposal_tier QuoteStandard = TierStandard"
| "supplier_quote_tier_to_proposal_tier QuoteMajor = TierMajor"

definition exact_total :: "int \<Rightarrow> int \<Rightarrow> int" where
  "exact_total quantity price = quantity * price"

definition round_half_even :: "int \<Rightarrow> int \<Rightarrow> int" where
  "round_half_even n d = (let q = n div d; r = n mod d in
     if 2 * r < d then q else if d < 2 * r then q + 1 else if even q then q else q + 1)"

definition show_fraction :: "nat \<Rightarrow> int \<Rightarrow> string" where
  "show_fraction places n =
    (let u = nat \<bar>n\<bar>; b = 10 ^ places; digits = show_nat (u mod b) in
     (if n < 0 then ''-'' else []) @ show_nat (u div b) @ ''.'' @ replicate (places - length digits) (CHR ''0'') @ digits)"

subsection \<open>Who may fill a slot\<close>

definition member_role_for_proposal :: "env \<Rightarrow> fga \<Rightarrow> member \<Rightarrow> 'a proposal_db_scheme \<Rightarrow> string list result" where
  "member_role_for_proposal env f m db =
    and_then (is_administrator env f m db) (\<lambda>adm.
      and_then (is_finance_reviewer env f m db) (\<lambda>fin.
        Inr ((if adm then [''governance'', ''second_governance''] else []) @ (if fin then [''finance''] else []))))"

definition member_can_approve :: "env \<Rightarrow> fga \<Rightarrow> member \<Rightarrow> string \<Rightarrow> 'a proposal_db_scheme \<Rightarrow> bool result" where
  "member_can_approve env f m role db = and_then (member_role_for_proposal env f m db) (\<lambda>rs. Inr (role \<in> set rs))"

definition member_available_approval_roles ::
    "env \<Rightarrow> fga \<Rightarrow> member \<Rightarrow> approval_proposal \<Rightarrow> 'a proposal_db_scheme \<Rightarrow> string list result" where
  "member_available_approval_roles env f m p db =
    and_then (member_role_for_proposal env f m db) (\<lambda>mine.
      let approved = proposal_approved_roles p db;
          already = map ad_role (filter (\<lambda>d. ad_proposal d = ap_proposal_id p \<and> ad_approver d = m_id m) (approval_decisions db))
      in Inr (concat (map (\<lambda>g. if slot_filled g approved then []
           else sort (filter (\<lambda>r. r \<in> set mine \<and> r \<notin> set already) g)) (proposal_required_role_groups p))))"

definition proposal_is_actionable_by :: "env \<Rightarrow> fga \<Rightarrow> member \<Rightarrow> approval_proposal \<Rightarrow> 'a proposal_db_scheme \<Rightarrow> bool result" where
  "proposal_is_actionable_by env f m p db =
    and_then (member_available_approval_roles env f m p db) (\<lambda>rs. Inr (rs \<noteq> []))"

definition may_execute :: "env \<Rightarrow> fga \<Rightarrow> member \<Rightarrow> 'a proposal_db_scheme \<Rightarrow> bool result" where
  "may_execute env f m db =
    and_then (is_administrator env f m db) (\<lambda>adm. if adm then Inr True else is_finance_reviewer env f m db)"

definition proposal_is_executable_by :: "env \<Rightarrow> fga \<Rightarrow> member \<Rightarrow> approval_proposal \<Rightarrow> 'a proposal_db_scheme \<Rightarrow> bool result" where
  "proposal_is_executable_by env f m p db =
    (if ap_status p \<noteq> ProposalApproved then Inr False else may_execute env f m db)"

definition proposal_target_url :: "approval_proposal \<Rightarrow> string" where
  "proposal_target_url p =
    (if ap_target_type p = ''supplier_quote'' then ''/workspace/procurement/?status=submitted'' else [])"

subsection \<open>Creating and deciding proposals\<close>

text \<open>\<^verbatim>\<open>raise_proposal_flow_unavailable\<close>.\<close>

definition flow_unavailable :: error where
  "flow_unavailable = DomainError ''the proposal flow is being migrated''"

definition new_slot_proposal ::
    "env \<Rightarrow> string \<Rightarrow> proposal_type \<Rightarrow> string \<Rightarrow> member \<Rightarrow> string \<Rightarrow> string \<Rightarrow> string \<Rightarrow> string \<Rightarrow> string \<Rightarrow>
     proposal_tier \<Rightarrow> json \<Rightarrow> approval_proposal" where
  "new_slot_proposal env uid ty title m key target_type target_id summary reason tier metadata =
    \<lparr>ap_proposal_id = new_id ''proposal'' uid, ap_proposal_type = ty, ap_title = title, ap_summary = summary,
     ap_public_reason = reason, ap_status = ProposalSubmitted, ap_strategy_type = ApprovalSlots, ap_approval_tier = tier,
     ap_target_type = target_type, ap_target_id = target_id, ap_dedupe_key = key, ap_submitted_by = m_id m,
     ap_submitted_at = now env, ap_voting_started_at = None, ap_voting_deadline = None,
     ap_frozen_approve_threshold = None, ap_frozen_reject_threshold = None, ap_frozen_minimum_participation = None,
     ap_frozen_unresolved_outcome = [], ap_resolved_at = None, ap_executed_at = None, ap_metadata = or_empty_dict metadata,
     ap_created_at = now env, ap_updated_at = Some (now env), ap_electorate_rule_version = None\<rparr>"

definition create_approval_proposal ::
    "env \<Rightarrow> fga \<Rightarrow> string \<Rightarrow> string \<Rightarrow> string \<Rightarrow> member \<Rightarrow> string \<Rightarrow> string \<Rightarrow> string \<Rightarrow> string \<Rightarrow> string \<Rightarrow> string \<Rightarrow> json \<Rightarrow>
     'a proposal_db_scheme \<Rightarrow> (approval_proposal \<times> 'a proposal_db_scheme) result" where
  "create_approval_proposal env f uid ty title m dedupe_key target_type target_id summary reason tier metadata db =
    (if dedupe_key = [] then Inl (DomainError ''dedupe_key is empty'')
     else case parse_proposal_type ty of
       None \<Rightarrow> Inl (DomainError ''the proposal type is invalid'')
     | Some pty \<Rightarrow>
        if pty = MemberApplicationProposal then Inl flow_unavailable
        else case parse_proposal_tier (if tier = [] then ''single'' else tier) of
          None \<Rightarrow> Inl (DomainError ''the approval tier is invalid'')
        | Some ptier \<Rightarrow>
          (case find_row (\<lambda>p. ap_proposal_type p = pty \<and> ap_dedupe_key p = dedupe_key) (approval_proposals db) of
             Some p \<Rightarrow> Inr (p, db)
           | None \<Rightarrow>
              let p = new_slot_proposal env uid pty title m dedupe_key target_type target_id summary reason ptier metadata
              in and_then (insert_proposal p db) (\<lambda>db1.
                 and_then (proposal_event env f ''approval_proposal_submitted'' p ''submitted'' m (ap_submitted_at p) db1)
                   (\<lambda>db2. Inr (p, db2)))))"

definition insert_decision :: "approval_decision \<Rightarrow> 'a proposal_db_scheme \<Rightarrow> 'a proposal_db_scheme result" where
  "insert_decision d db =
    (if exists_row (\<lambda>x. ad_approval_id x = ad_approval_id d \<or>
          ad_proposal x = ad_proposal d \<and> ad_approver x = ad_approver d \<and> ad_role x = ad_role d) (approval_decisions db)
     then Inl IntegrityError else Inr (db\<lparr>approval_decisions := approval_decisions db @ [d]\<rparr>))"

definition new_decision :: "env \<Rightarrow> string \<Rightarrow> approval_proposal \<Rightarrow> member \<Rightarrow> string \<Rightarrow> decision_kind \<Rightarrow> string \<Rightarrow> approval_decision" where
  "new_decision env uid p m role kind reason =
    \<lparr>ad_approval_id = new_id ''approval'' uid, ad_proposal = ap_proposal_id p, ad_approver = m_id m, ad_role = role,
     ad_decision = kind, ad_reason = reason, ad_created_at = now env\<rparr>"

text \<open>What both deciding services check first.\<close>

definition open_for_role :: "env \<Rightarrow> fga \<Rightarrow> member \<Rightarrow> string \<Rightarrow> approval_proposal \<Rightarrow> 'a proposal_db_scheme \<Rightarrow> unit result" where
  "open_for_role env f m role p db =
    (if ap_proposal_type p = MemberApplicationProposal then Inl flow_unavailable
     else if ap_status p \<noteq> ProposalSubmitted then Inl (DomainError ''only submitted proposals can be decided'')
     else if role \<notin> set (valid_approval_roles p) then Inl (DomainError ''the proposal does not need this role'')
     else and_then (member_can_approve env f m role db) (\<lambda>b.
       if b then Inr () else Inl (DomainError ''the member does not hold the approval role'')))"

definition slot_order_ok :: "member \<Rightarrow> string \<Rightarrow> approval_decision list \<Rightarrow> unit result" where
  "slot_order_ok m role approvals =
    (if exists_row (\<lambda>d. ad_approver d = m_id m) approvals then
       Inl (DomainError ''one member cannot fill several slots'')
     else if role = ''second_governance'' \<and> exists_row (\<lambda>d. ad_role d = ''governance'' \<and> ad_approver d = m_id m) approvals then
       Inl (DomainError ''the second confirmation needs another member'')
     else if role = ''second_governance'' \<and> \<not> exists_row (\<lambda>d. ad_role d = ''finance'') approvals then
       Inl (DomainError ''finance has to confirm first'')
     else if role = ''finance'' \<and> \<not> exists_row (\<lambda>d. ad_role d = ''governance'') approvals then
       Inl (DomainError ''governance has to accept first'')
     else Inr ())"

definition approve_proposal ::
    "env \<Rightarrow> fga \<Rightarrow> string \<Rightarrow> string \<Rightarrow> member \<Rightarrow> string \<Rightarrow> string \<Rightarrow> 'a proposal_db_scheme \<Rightarrow>
     (approval_proposal \<times> 'a proposal_db_scheme) result" where
  "approve_proposal env f uid pid m role reason db =
    and_then (proposal_row pid db) (\<lambda>p.
    and_then (open_for_role env f m role p db) (\<lambda>_.
    and_then (slot_order_ok m role (approvals_of p db)) (\<lambda>_.
    and_then (insert_decision (new_decision env uid p m role DecisionApproved reason) db) (\<lambda>db1.
      let done' = proposal_is_approved p db1;
          p' = (if done' then p\<lparr>ap_status := ProposalApproved, ap_resolved_at := Some (now env), ap_updated_at := Some (now env)\<rparr>
                else p\<lparr>ap_updated_at := Some (now env)\<rparr>);
          db2 = save_proposal p' db1
      in and_then (proposal_event env f (if done' then ''approval_proposal_approved'' else ''approval_proposal_submitted'')
           p' (''approved_'' @ role) m (now env) db2) (\<lambda>db3. Inr (p', db3))))))"

subsection \<open>Offers\<close>

definition quote_row :: "string \<Rightarrow> 'a proposal_db_scheme \<Rightarrow> supplier_quote result" where
  "quote_row i db = (case find_row (\<lambda>q. sq_quote_id q = i) (supplier_quotes db) of
     None \<Rightarrow> Inl (DoesNotExist ''SupplierQuote'') | Some q \<Rightarrow> Inr q)"

definition save_quote :: "supplier_quote \<Rightarrow> 'a proposal_db_scheme \<Rightarrow> 'a proposal_db_scheme" where
  "save_quote q db = db\<lparr>supplier_quotes := update_rows (\<lambda>x. sq_quote_id x = sq_quote_id q) (\<lambda>_. q) (supplier_quotes db)\<rparr>"

definition supplier_offer_payload ::
    "supplier_quote \<Rightarrow> string \<Rightarrow> string \<Rightarrow> member \<Rightarrow> 'a proposal_db_scheme \<Rightarrow> json result" where
  "supplier_offer_payload q total_text action actor db =
    and_then (resource_row (sq_resource q) db) (\<lambda>r.
    and_then (case sq_submitted_by q of None \<Rightarrow> Inr []
        | Some i \<Rightarrow> and_then (member_row i db) (\<lambda>m. Inr (public_member_label (m_display_name m) (m_member_no m)))) (\<lambda>submitter.
      let name = (if rs_name r \<noteq> [] then rs_name r else rs_resource_id r) in
      Inr (public_event_payload ''supplier_quote'' (public_ref [''supplier-quote'', sq_quote_id q])
        (''offer '' @ sq_quote_id q) action (quote_decision_value (sq_decision_status q))
        (''offer '' @ sq_quote_id q @ '' ('' @ name @ '') '' @ action @ ''.'')
        [(''quote_id'', JStr (sq_quote_id q)), (''resource_id'', JStr (rs_resource_id r)), (''resource_name'', JStr name),
         (''submitted_by_display'', JStr submitter),
         (''actor_display'', JStr (public_member_label (m_display_name actor) (m_member_no actor))),
         (''offer_type'', JStr (offer_type_value (sq_offer_type q))),
         (''available_quantity'', JStr (show_milli (sq_available_quantity q))),
         (''unit_price'', JStr (show_fraction 2 (sq_unit_price q))), (''currency'', JStr (sq_currency q)),
         (''decision_status'', JStr (quote_decision_value (sq_decision_status q))),
         (''receipt_status'', JStr (receipt_status_value (sq_receipt_status q))),
         (''payment_status'', JStr (payment_status_value (sq_payment_status q))),
         (''approval_tier'', JStr (quote_tier_value (sq_approval_tier q))),
         (''estimated_total_amount'', JStr total_text),
         (''credential_id'', JStr (case sq_performance_credential q of None \<Rightarrow> [] | Some c \<Rightarrow> c))]
        [private_commitment ''metadata'' (json_truthy (sq_metadata q)) ''metadata'',
         private_commitment ''notes'' (sq_notes q \<noteq> []) ''internal notes'',
         private_commitment ''decision_reason'' (sq_decision_reason q \<noteq> []) ''reason of the decision'',
         private_commitment ''receipt_notes'' (sq_receipt_notes q \<noteq> []) ''notes of the receipt''])))"

text \<open>Rows that were read back show the total in cents.\<close>

definition stored_total :: "supplier_quote \<Rightarrow> string" where
  "stored_total q = show_fraction 2 (sq_estimated_total_amount q)"

definition offer_event ::
    "env \<Rightarrow> string \<Rightarrow> supplier_quote \<Rightarrow> string \<Rightarrow> string \<Rightarrow> member \<Rightarrow> time \<Rightarrow> 'a proposal_db_scheme \<Rightarrow> 'a proposal_db_scheme result" where
  "offer_event env event_type q total_text action actor at db =
    and_then (supplier_offer_payload q total_text action actor db) (\<lambda>payload.
      and_then (append_event env event_type ''SupplierQuote'' (sq_quote_id q) (Some (m_id actor)) None payload
        (Some at) db) (\<lambda>(e, db'). Inr db'))"

definition DAILY_OFFER_LIMIT_PER_RESOURCE :: nat where "DAILY_OFFER_LIMIT_PER_RESOURCE = 5"

text \<open>The calendar day at the place of the deployment, eight hours ahead of universal time.\<close>

definition local_date :: "time \<Rightarrow> int" where
  "local_date t = (t + 28800) div 86400"

definition offers_today :: "env \<Rightarrow> member \<Rightarrow> resource \<Rightarrow> 'a proposal_db_scheme \<Rightarrow> nat" where
  "offers_today env m r db = length (filter (\<lambda>q. sq_submitted_by q = Some (m_id m) \<and> sq_resource q = rs_resource_id r \<and>
     local_date (sq_created_at q) = local_date (now env)) (supplier_quotes db))"

definition new_quote ::
    "env \<Rightarrow> string \<Rightarrow> resource \<Rightarrow> member \<Rightarrow> offer_type \<Rightarrow> int \<Rightarrow> int \<Rightarrow> string \<Rightarrow> int \<Rightarrow> int \<Rightarrow> string \<Rightarrow> string \<Rightarrow>
     string \<Rightarrow> string \<Rightarrow> supplier_quote" where
  "new_quote env uid r m ty quantity price currency minimum lead_days quality notes visibility display_name =
    \<lparr>sq_quote_id = new_id ''quote'' uid, sq_partner_application = None, sq_resource = rs_resource_id r,
     sq_unit_price = price, sq_currency = currency, sq_available_quantity = quantity,
     sq_minimum_order_quantity = minimum, sq_lead_time_days = lead_days, sq_quality_grade = GradeUnknown,
     sq_quality_summary = quality, sq_valid_from = None, sq_valid_until = None, sq_status = QuoteActive,
     sq_notes = notes, sq_created_at = now env, sq_updated_at = Some (now env), sq_metadata = JObj [],
     sq_offer_type = ty, sq_decision_status = QuoteSubmitted, sq_submitted_by = Some (m_id m), sq_accepted_by = None,
     sq_accepted_at = None, sq_rejected_by = None, sq_rejected_at = None, sq_decision_reason = [],
     sq_delivered_at = None, sq_received_by = None, sq_receipt_status = ReceiptPending, sq_receipt_notes = [],
     sq_paid_at = None,
     sq_payment_status = (if ty = OfferDonation then PaymentNotRequired else PaymentPending),
     sq_performance_credential = None,
     sq_estimated_total_amount = round_half_even (exact_total quantity price) 1000,
     sq_approval_tier = compute_procurement_approval_tier ty (exact_total quantity price),
     sq_public_visibility = (if visibility = [] then ''public'' else visibility),
     sq_public_display_name = take 128 (py_strip display_name)\<rparr>"

definition insert_quote :: "supplier_quote \<Rightarrow> 'a proposal_db_scheme \<Rightarrow> 'a proposal_db_scheme result" where
  "insert_quote q db =
    (if exists_row (\<lambda>x. sq_quote_id x = sq_quote_id q) (supplier_quotes db) then Inl IntegrityError
     else Inr (db\<lparr>supplier_quotes := supplier_quotes db @ [q]\<rparr>))"

definition acceptance_key :: "supplier_quote \<Rightarrow> string" where
  "acceptance_key q = ''supplier_quote:'' @ sq_quote_id q @ '':acceptance''"

definition submit_resource_offer ::
    "env \<Rightarrow> fga \<Rightarrow> string \<Rightarrow> string \<Rightarrow> resource \<Rightarrow> member \<Rightarrow> string \<Rightarrow> int \<Rightarrow> int \<Rightarrow> string \<Rightarrow> int \<Rightarrow> int \<Rightarrow> string \<Rightarrow>
     string \<Rightarrow> string \<Rightarrow> string \<Rightarrow> 'a proposal_db_scheme \<Rightarrow> (supplier_quote \<times> 'a proposal_db_scheme) result" where
  "submit_resource_offer env f uid1 uid2 r m offer_type quantity price currency minimum lead_days quality notes
      visibility display_name db =
    (if \<not> rs_accepts_offers r then Inl (DomainError ''the resource takes no offers'')
     else if DAILY_OFFER_LIMIT_PER_RESOURCE \<le> offers_today env m r db then Inl (DomainError ''too many offers today'')
     else if quantity \<le> 0 then Inl (DomainError ''the quantity must be positive'')
     else case parse_offer_type offer_type of
       None \<Rightarrow> Inl (DomainError ''the offer type is invalid'')
     | Some ty \<Rightarrow>
        if price < 0 then Inl (DomainError ''the price cannot be negative'')
        else if ty = OfferDonation \<and> price \<noteq> 0 then Inl (DomainError ''a donation has no price'')
        else if ty = OfferQuote \<and> visibility \<noteq> ''public'' then Inl (DomainError ''quotes are public'')
        else
          let q = new_quote env uid1 r m ty quantity price currency minimum lead_days quality notes visibility display_name;
              total = show_fraction 5 (exact_total quantity price);
              name = (if rs_name r \<noteq> [] then rs_name r else rs_resource_id r)
          in and_then (insert_quote q db) (\<lambda>db1.
             and_then (offer_event env ''supplier_offer_submitted'' q total ''submitted'' m (sq_created_at q) db1) (\<lambda>db2.
             and_then (create_approval_proposal env f uid2 ''procurement_acceptance''
               ((if ty = OfferDonation then ''accept the donation: '' else ''accept the quote: '') @ name) m (acceptance_key q)
               ''supplier_quote'' (sq_quote_id q)
               (''quantity '' @ show_milli quantity @ '' '' @ resource_unit_value (rs_unit r) @ '', amount '' @ total @ '' '' @ currency)
               quality (proposal_tier_value (supplier_quote_tier_to_proposal_tier (sq_approval_tier q))) JNull db2) (\<lambda>(p, db3).
             Inr (q, db3)))))"

definition accept_resource_offer ::
    "env \<Rightarrow> string \<Rightarrow> member \<Rightarrow> string \<Rightarrow> 'a proposal_db_scheme \<Rightarrow> (supplier_quote \<times> 'a proposal_db_scheme) result" where
  "accept_resource_offer env qid m reason db =
    and_then (quote_row qid db) (\<lambda>q.
      if sq_decision_status q \<noteq> QuoteSubmitted then Inl (DomainError ''only submitted offers can be accepted'')
      else
        let q' = q\<lparr>sq_decision_status := QuoteAccepted, sq_accepted_by := Some (m_id m), sq_accepted_at := Some (now env),
              sq_decision_reason := reason, sq_updated_at := Some (now env)\<rparr>
        in and_then (offer_event env ''supplier_offer_accepted'' q' (stored_total q') ''accepted'' m (now env) (save_quote q' db))
             (\<lambda>db'. Inr (q', db')))"

definition reject_resource_offer ::
    "env \<Rightarrow> string \<Rightarrow> member \<Rightarrow> string \<Rightarrow> 'a proposal_db_scheme \<Rightarrow> (supplier_quote \<times> 'a proposal_db_scheme) result" where
  "reject_resource_offer env qid m reason db =
    and_then (quote_row qid db) (\<lambda>q.
      if sq_decision_status q \<noteq> QuoteSubmitted then Inl (DomainError ''only submitted offers can be rejected'')
      else
        let q' = q\<lparr>sq_decision_status := QuoteRejected, sq_rejected_by := Some (m_id m), sq_rejected_at := Some (now env),
              sq_decision_reason := reason, sq_updated_at := Some (now env)\<rparr>
        in and_then (offer_event env ''supplier_offer_rejected'' q' (stored_total q') ''rejected'' m (now env) (save_quote q' db))
             (\<lambda>db'. Inr (q', db')))"

text \<open>Rejecting a proposal also rejects the offer it is about; an offer that is gone is ignored.\<close>

definition sync_rejection ::
    "env \<Rightarrow> approval_proposal \<Rightarrow> member \<Rightarrow> string \<Rightarrow> 'a proposal_db_scheme \<Rightarrow> 'a proposal_db_scheme result" where
  "sync_rejection env p m reason db =
    (if ap_proposal_type p = ProcurementAcceptance \<and> ap_target_type p = ''supplier_quote'' then
       (case quote_row (ap_target_id p) db of Inl _ \<Rightarrow> Inr db
        | Inr q \<Rightarrow> and_then (reject_resource_offer env (sq_quote_id q) m reason db) (\<lambda>(q', db'). Inr db'))
     else Inr db)"

definition reject_proposal ::
    "env \<Rightarrow> fga \<Rightarrow> string \<Rightarrow> string \<Rightarrow> member \<Rightarrow> string \<Rightarrow> string \<Rightarrow> 'a proposal_db_scheme \<Rightarrow>
     (approval_proposal \<times> 'a proposal_db_scheme) result" where
  "reject_proposal env f uid pid m role reason db =
    and_then (proposal_row pid db) (\<lambda>p.
    and_then (open_for_role env f m role p db) (\<lambda>_.
    and_then (insert_decision (new_decision env uid p m role DecisionRejected reason) db) (\<lambda>db1.
      let p' = p\<lparr>ap_status := ProposalRejected, ap_resolved_at := Some (now env), ap_updated_at := Some (now env)\<rparr>
      in and_then (sync_rejection env p' m reason (save_proposal p' db1)) (\<lambda>db2.
         and_then (proposal_event env f ''approval_proposal_rejected'' p' ''rejected'' m (now env) db2)
           (\<lambda>db3. Inr (p', db3))))))"

definition execute_procurement_acceptance ::
    "env \<Rightarrow> approval_proposal \<Rightarrow> member \<Rightarrow> 'a proposal_db_scheme \<Rightarrow> 'a proposal_db_scheme result" where
  "execute_procurement_acceptance env p m db =
    and_then (quote_row (ap_target_id p) db) (\<lambda>q.
      if sq_decision_status q = QuoteAccepted then Inr db
      else and_then (accept_resource_offer env (sq_quote_id q) m (ap_public_reason p) db) (\<lambda>(q', db'). Inr db'))"

definition execute_proposal ::
    "env \<Rightarrow> fga \<Rightarrow> string \<Rightarrow> member \<Rightarrow> 'a proposal_db_scheme \<Rightarrow> (approval_proposal \<times> 'a proposal_db_scheme) result" where
  "execute_proposal env f pid m db =
    and_then (proposal_row pid db) (\<lambda>p.
      if ap_proposal_type p = MemberApplicationProposal then Inl flow_unavailable
      else if ap_status p = ProposalExecuted then
        and_then (may_execute env f m db) (\<lambda>b.
          if b then Inr (p, db) else Inl (DomainError ''the member may not execute the proposal''))
      else if ap_status p \<noteq> ProposalApproved then Inl (DomainError ''only approved proposals can be executed'')
      else and_then (proposal_is_executable_by env f m p db) (\<lambda>b.
        if \<not> b then Inl (DomainError ''the member may not execute the proposal'')
        else and_then (if ap_proposal_type p = ProcurementAcceptance then execute_procurement_acceptance env p m db
            else Inr db) (\<lambda>db1.
          let p' = p\<lparr>ap_status := ProposalExecuted, ap_executed_at := Some (now env), ap_updated_at := Some (now env)\<rparr>
          in and_then (proposal_event env f ''approval_proposal_executed'' p' ''executed'' m (now env) (save_proposal p' db1))
               (\<lambda>db2. Inr (p', db2)))))"

subsection \<open>Receipt and payment\<close>

definition acceptance_proposals :: "supplier_quote \<Rightarrow> 'a proposal_db_scheme \<Rightarrow> approval_proposal list" where
  "acceptance_proposals q db = filter (\<lambda>p. ap_target_type p = ''supplier_quote'' \<and> ap_target_id p = sq_quote_id q \<and>
     ap_proposal_type p = ProcurementAcceptance) (approval_proposals db)"

definition quote_is_ready_for_receipt :: "supplier_quote \<Rightarrow> 'a proposal_db_scheme \<Rightarrow> bool" where
  "quote_is_ready_for_receipt q db =
    (if sq_decision_status q \<noteq> QuoteAccepted then False
     else case rev (sort_key ap_submitted_at (acceptance_proposals q db)) of
       [] \<Rightarrow> True | p # _ \<Rightarrow> ap_status p = ProposalExecuted)"

definition receipt_operator :: "member \<Rightarrow> json" where
  "receipt_operator m = JObj [(''actor_id'', JStr (m_member_no m)),
     (''display_name'', JStr (if m_display_name m \<noteq> [] then m_display_name m else m_member_no m)),
     (''role'', JStr ''governance_principal'')]"

definition receipt_allowed :: "supplier_quote \<Rightarrow> string \<Rightarrow> 'a proposal_db_scheme \<Rightarrow> receipt_status result" where
  "receipt_allowed q status db =
    (if sq_decision_status q \<noteq> QuoteAccepted then Inl (DomainError ''only accepted offers are received'')
     else if \<not> quote_is_ready_for_receipt q db then Inl (DomainError ''the approval is not complete'')
     else if sq_receipt_status q \<noteq> ReceiptPending then Inl (DomainError ''the offer was already received'')
     else if sq_delivered_at q \<noteq> None then Inl (DomainError ''the offer was already delivered'')
     else case parse_receipt_status status of
       None \<Rightarrow> Inl (DomainError ''the receipt status is invalid'')
     | Some ReceiptPending \<Rightarrow> Inl (DomainError ''pending is no result'')
     | Some ReceiptPartial \<Rightarrow> Inl (DomainError ''partial receipt is not supported'')
     | Some s \<Rightarrow> Inr s)"

text \<open>Links the movement to the offer.\<close>

definition link_movement :: "resource_transaction \<Rightarrow> string \<Rightarrow> 'a resource_db_scheme \<Rightarrow> 'a resource_db_scheme" where
  "link_movement t qid db = db\<lparr>resource_transactions := update_rows (\<lambda>x. rt_transaction_id x = rt_transaction_id t)
     (\<lambda>x. x\<lparr>rt_related_supplier_quote := Some qid\<rparr>) (resource_transactions db)\<rparr>"

definition take_delivery ::
    "env \<Rightarrow> (nat \<Rightarrow> string) \<Rightarrow> (nat \<Rightarrow> string) \<Rightarrow> supplier_quote \<Rightarrow> member \<Rightarrow> string \<Rightarrow> int \<Rightarrow> 'a proposal_db_scheme \<Rightarrow>
     (resource_transaction \<times> 'a proposal_db_scheme) result" where
  "take_delivery env draw_tx draw_ev q m receipt_notes day db =
    and_then (record_resource_adjustment env draw_tx draw_ev (sq_resource q) (sq_available_quantity q) (receipt_operator m)
      (''receipt of offer '' @ sq_quote_id q @ (if receipt_notes \<noteq> [] then '': '' @ receipt_notes else []))
      ''purchase'' day db) (\<lambda>((r, ev, t), db1).
        Inr (t\<lparr>rt_related_supplier_quote := Some (sq_quote_id q)\<rparr>, link_movement t (sq_quote_id q) db1))"

definition record_offer_receipt ::
    "env \<Rightarrow> (nat \<Rightarrow> string) \<Rightarrow> (nat \<Rightarrow> string) \<Rightarrow> string \<Rightarrow> member \<Rightarrow> string \<Rightarrow> string \<Rightarrow> int \<Rightarrow> 'a proposal_db_scheme \<Rightarrow>
     ((supplier_quote \<times> resource_transaction option) \<times> 'a proposal_db_scheme) result" where
  "record_offer_receipt env draw_tx draw_ev qid m status receipt_notes day db =
    and_then (quote_row qid db) (\<lambda>q.
    and_then (receipt_allowed q status db) (\<lambda>s.
    and_then (if s = ReceiptAccepted
        then and_then (take_delivery env draw_tx draw_ev q m receipt_notes day db) (\<lambda>(t, db1). Inr (Some t, db1))
        else Inr (None, db)) (\<lambda>(t, db1).
      let q' = q\<lparr>sq_receipt_status := s, sq_received_by := Some (m_id m), sq_delivered_at := Some (now env),
            sq_receipt_notes := receipt_notes, sq_updated_at := Some (now env)\<rparr>
      in and_then (offer_event env (if s = ReceiptAccepted then ''supplier_offer_receipt_accepted'' else ''supplier_offer_receipt_rejected'')
           q' (stored_total q') (receipt_status_value s) m (now env) (save_quote q' db1)) (\<lambda>db2. Inr ((q', t), db2)))))"

definition paid_quote :: "env \<Rightarrow> supplier_quote \<Rightarrow> supplier_quote" where
  "paid_quote env q = q\<lparr>sq_payment_status := (if sq_offer_type q = OfferQuote then PaymentPaid else PaymentNotRequired),
     sq_paid_at := Some (now env), sq_updated_at := Some (now env)\<rparr>"

definition delivery_metadata :: "supplier_quote \<Rightarrow> json" where
  "delivery_metadata q = JObj [(''quote_id'', JStr (sq_quote_id q)), (''resource_id'', JStr (sq_resource q)),
     (''quantity'', JStr (show_milli (sq_available_quantity q))), (''unit_price'', JStr (show_fraction 2 (sq_unit_price q))),
     (''offer_type'', JStr (offer_type_value (sq_offer_type q))),
     (''receipt_status'', JStr (receipt_status_value (sq_receipt_status q))),
     (''payment_status'', JStr (payment_status_value (sq_payment_status q)))]"

definition delivery_credential ::
    "env \<Rightarrow> string \<Rightarrow> supplier_quote \<Rightarrow> member \<Rightarrow> 'a proposal_db_scheme \<Rightarrow> (string option \<times> 'a proposal_db_scheme) result" where
  "delivery_credential env uid q actor db =
    (case sq_performance_credential q of
       Some c \<Rightarrow> Inr (Some c, db)
     | None \<Rightarrow>
        (case sq_submitted_by q of
           None \<Rightarrow> Inl (DomainError ''the offer has no submitter'')
         | Some i \<Rightarrow>
            and_then (ensure_builtin_credential_templates env db) (\<lambda>(n, db1).
              case find_row (\<lambda>t. ct_code t = ''provider_delivery_completed'') (credential_templates db1) of
                None \<Rightarrow> Inl (DoesNotExist ''CredentialTemplate'')
              | Some t \<Rightarrow> and_then (member_row i db1) (\<lambda>m.
                 and_then (issue_credential env uid t m (''supplier_quote:'' @ sq_quote_id q) GrantEarned (Some (m_id actor))
                   None [] (delivery_metadata q) db1) (\<lambda>(g, db2). Inr (Some (cg_grant_id g), db2))))))"

definition mark_offer_paid_or_donated ::
    "env \<Rightarrow> string \<Rightarrow> string \<Rightarrow> member \<Rightarrow> 'a proposal_db_scheme \<Rightarrow> (supplier_quote \<times> 'a proposal_db_scheme) result" where
  "mark_offer_paid_or_donated env uid qid actor db =
    and_then (quote_row qid db) (\<lambda>q.
      if sq_decision_status q \<noteq> QuoteAccepted then Inl (DomainError ''only accepted offers are completed'')
      else if sq_receipt_status q \<noteq> ReceiptAccepted then Inl (DomainError ''the offer has not been received'')
      else if sq_offer_type q = OfferQuote \<and> sq_payment_status q = PaymentPaid then
        Inl (DomainError ''the offer was already paid'')
      else and_then (delivery_credential env uid (paid_quote env q) actor db) (\<lambda>(c, db1).
        let q' = (paid_quote env q)\<lparr>sq_performance_credential := c, sq_decision_status := QuoteFulfilled\<rparr>
        in and_then (offer_event env ''supplier_offer_completed'' q' (stored_total q') ''completed'' actor (now env)
             (save_quote q' db1)) (\<lambda>db2. Inr (q', db2))))"

end
