(* ===== verification/Procurement_History.thy ===== *)
theory Procurement_History
  imports Procurement
begin

text \<open>
  Histories of proposals and offers: what every service of \<^verbatim>\<open>Procurement\<close> changes, the slots of an
  approved proposal, the life of an offer and of the goods it brings, and that a payment proposal
  can never be approved.
\<close>

subsection \<open>What a service writes\<close>

definition events_only :: "env \<Rightarrow> 'a event_db_scheme \<Rightarrow> 'a event_db_scheme \<Rightarrow> bool" where
  "events_only env db db' \<longleftrightarrow> (\<exists>es. db' = db\<lparr>system_events := es\<rparr>) \<and> audited env db db'"

lemma proposal_event_only:
  assumes "proposal_event env f ty p action actor at db = Inr db'" shows "events_only env db db'"
proof -
  from assms obtain payload e where a: "append_event env ty ''ApprovalProposal'' (ap_proposal_id p) (Some (m_id actor)) None
      payload (Some at) db = Inr (e, db')"
    by (auto simp: proposal_event_def)
  show ?thesis using append_event_db [OF a] audited_append [OF a] unfolding events_only_def by blast
qed

lemma offer_event_only:
  assumes "offer_event env ty q txt action actor at db = Inr db'" shows "events_only env db db'"
proof -
  from assms obtain payload e where a: "append_event env ty ''SupplierQuote'' (sq_quote_id q) (Some (m_id actor)) None
      payload (Some at) db = Inr (e, db')"
    by (auto simp: offer_event_def)
  show ?thesis using append_event_db [OF a] audited_append [OF a] unfolding events_only_def by blast
qed

text \<open>The tables that decide about proposals, offers and stock.\<close>

definition same_offers :: "'a proposal_db_scheme \<Rightarrow> 'a proposal_db_scheme \<Rightarrow> bool" where
  "same_offers db db' \<longleftrightarrow> supplier_quotes db' = supplier_quotes db \<and> resources db' = resources db \<and>
     resource_transactions db' = resource_transactions db"

definition same_proposals :: "'a proposal_db_scheme \<Rightarrow> 'a proposal_db_scheme \<Rightarrow> bool" where
  "same_proposals db db' \<longleftrightarrow> approval_proposals db' = approval_proposals db \<and>
     approval_decisions db' = approval_decisions db"

lemma events_only_proposals:
  assumes "events_only env db db'" shows "same_offers db db'" "same_proposals db db'" "audited env db db'"
    "credential_templates db' = credential_templates db" "credential_grants db' = credential_grants db"
  using assms by (auto simp: events_only_def same_offers_def same_proposals_def)

lemma save_proposal_frame [simp]:
  "approval_decisions (save_proposal p db) = approval_decisions db" "supplier_quotes (save_proposal p db) = supplier_quotes db"
  "resources (save_proposal p db) = resources db" "resource_transactions (save_proposal p db) = resource_transactions db"
  "system_events (save_proposal p db) = system_events db" "credential_templates (save_proposal p db) = credential_templates db"
  "credential_grants (save_proposal p db) = credential_grants db"
  "approval_proposals (save_proposal p db) =
     update_rows (\<lambda>x. ap_proposal_id x = ap_proposal_id p) (\<lambda>_. p) (approval_proposals db)"
  by (simp_all add: save_proposal_def)

lemma save_quote_frame [simp]:
  "approval_decisions (save_quote q db) = approval_decisions db" "approval_proposals (save_quote q db) = approval_proposals db"
  "resources (save_quote q db) = resources db" "resource_transactions (save_quote q db) = resource_transactions db"
  "system_events (save_quote q db) = system_events db" "credential_templates (save_quote q db) = credential_templates db"
  "credential_grants (save_quote q db) = credential_grants db"
  "supplier_quotes (save_quote q db) = update_rows (\<lambda>x. sq_quote_id x = sq_quote_id q) (\<lambda>_. q) (supplier_quotes db)"
  by (simp_all add: save_quote_def)

lemma proposal_row_ok: "proposal_row i db = Inr p \<Longrightarrow> p \<in> set (approval_proposals db) \<and> ap_proposal_id p = i"
  by (auto simp: proposal_row_def split: option.splits dest!: find_row_Some_iff)

lemma quote_row_ok: "quote_row i db = Inr q \<Longrightarrow> q \<in> set (supplier_quotes db) \<and> sq_quote_id q = i"
  by (auto simp: quote_row_def split: option.splits dest!: find_row_Some_iff)

subsection \<open>Creating a proposal\<close>

lemma create_proposal_cases:
  assumes "create_approval_proposal env f uid ty title m key tt ti summary reason tier meta db = Inr (p, db')"
  obtains (Existing) pty where "parse_proposal_type ty = Some pty" "pty \<noteq> MemberApplicationProposal" "db' = db"
      "p \<in> set (approval_proposals db)" "ap_proposal_type p = pty" "ap_dedupe_key p = key"
  | (New) pty ptier es where "parse_proposal_type ty = Some pty" "pty \<noteq> MemberApplicationProposal"
      "parse_proposal_tier (if tier = [] then ''single'' else tier) = Some ptier"
      "p = new_slot_proposal env uid pty title m key tt ti summary reason ptier meta"
      "\<forall>x \<in> set (approval_proposals db). ap_proposal_id x \<noteq> ap_proposal_id p \<and>
         \<not> (ap_proposal_type x = pty \<and> ap_dedupe_key x = key)"
      "db' = db\<lparr>approval_proposals := approval_proposals db @ [p], system_events := es\<rparr>" "audited env db db'"
proof -
  from assms obtain pty ptier where ty: "parse_proposal_type ty = Some pty" "pty \<noteq> MemberApplicationProposal"
      "parse_proposal_tier (if tier = [] then ''single'' else tier) = Some ptier"
    by (auto simp: create_approval_proposal_def split: option.splits if_splits)
  show thesis
  proof (cases "find_row (\<lambda>p. ap_proposal_type p = pty \<and> ap_dedupe_key p = key) (approval_proposals db)")
    case (Some x)
    then have "p = x" "db' = db" using assms ty by (auto simp: create_approval_proposal_def split: if_splits)
    then show ?thesis using find_row_Some_iff [OF Some] Existing ty by auto
  next
    case None
    let ?p = "new_slot_proposal env uid pty title m key tt ti summary reason ptier meta"
    have "and_then (insert_proposal ?p db) (\<lambda>db1.
        and_then (proposal_event env f ''approval_proposal_submitted'' ?p ''submitted'' m (ap_submitted_at ?p) db1)
          (\<lambda>db2. Inr (?p, db2))) = Inr (p, db')"
      using assms unfolding create_approval_proposal_def Let_def by (simp add: ty None)
    then obtain db1 where i: "insert_proposal ?p db = Inr db1" and p: "p = ?p"
      and e: "proposal_event env f ''approval_proposal_submitted'' ?p ''submitted'' m (ap_submitted_at ?p) db1 = Inr db'"
      by auto
    from i have d: "db1 = db\<lparr>approval_proposals := approval_proposals db @ [p]\<rparr>"
      "\<forall>x \<in> set (approval_proposals db). ap_proposal_id x \<noteq> ap_proposal_id p \<and> \<not> (ap_proposal_type x = pty \<and> ap_dedupe_key x = key)"
      unfolding p by (auto simp: insert_proposal_def new_slot_proposal_def split: if_splits)
    from proposal_event_only [OF e] obtain es where es: "db' = db1\<lparr>system_events := es\<rparr>" and au: "audited env db1 db'"
      by (auto simp: events_only_def)
    have "audited env db db'" using au audited_cong_left [of db db1 env db'] d by simp
    then show ?thesis using New [OF ty p] d es by simp
  qed
qed

subsection \<open>Deciding and executing\<close>

lemma approve_cases:
  assumes "approve_proposal env f uid pid m role reason db = Inr (p', db')"
  obtains p es where "proposal_row pid db = Inr p" "open_for_role env f m role p db = Inr ()"
    "slot_order_ok m role (approvals_of p db) = Inr ()"
    "insert_decision (new_decision env uid p m role DecisionApproved reason) db =
       Inr (db\<lparr>approval_decisions := approval_decisions db @ [new_decision env uid p m role DecisionApproved reason]\<rparr>)"
    "p' = (if proposal_is_approved p (db\<lparr>approval_decisions := approval_decisions db @ [new_decision env uid p m role DecisionApproved reason]\<rparr>)
        then p\<lparr>ap_status := ProposalApproved, ap_resolved_at := Some (now env), ap_updated_at := Some (now env)\<rparr>
        else p\<lparr>ap_updated_at := Some (now env)\<rparr>)"
    "db' = db\<lparr>approval_decisions := approval_decisions db @ [new_decision env uid p m role DecisionApproved reason],
       approval_proposals := update_rows (\<lambda>x. ap_proposal_id x = pid) (\<lambda>_. p') (approval_proposals db), system_events := es\<rparr>"
    "audited env db db'"
proof -
  from assms obtain p db1 where p: "proposal_row pid db = Inr p" "open_for_role env f m role p db = Inr ()"
      "slot_order_ok m role (approvals_of p db) = Inr ()"
    and i: "insert_decision (new_decision env uid p m role DecisionApproved reason) db = Inr db1"
    and p': "p' = (if proposal_is_approved p db1
        then p\<lparr>ap_status := ProposalApproved, ap_resolved_at := Some (now env), ap_updated_at := Some (now env)\<rparr>
        else p\<lparr>ap_updated_at := Some (now env)\<rparr>)"
    and e: "proposal_event env f (if proposal_is_approved p db1 then ''approval_proposal_approved'' else ''approval_proposal_submitted'')
           p' (''approved_'' @ role) m (now env) (save_proposal p' db1) = Inr db'"
    by (auto simp: approve_proposal_def Let_def)
  from i have d: "db1 = db\<lparr>approval_decisions := approval_decisions db @ [new_decision env uid p m role DecisionApproved reason]\<rparr>"
    by (auto simp: insert_decision_def split: if_splits)
  have id: "ap_proposal_id p' = pid" using proposal_row_ok [OF p(1)] p' by simp
  from proposal_event_only [OF e] obtain es where es: "db' = (save_proposal p' db1)\<lparr>system_events := es\<rparr>"
    and au: "audited env (save_proposal p' db1) db'"
    by (auto simp: events_only_def)
  have "audited env db db'" using au audited_cong_left [of db "save_proposal p' db1" env db'] d by simp
  then show thesis using that [OF p i [unfolded d] p' [unfolded d]] es by (simp add: save_proposal_def d id)
qed

text \<open>An offer is decided, with its event.\<close>

lemma decide_offer_cases:
  assumes "accept_resource_offer env qid m reason db = Inr (q', db') \<or> reject_resource_offer env qid m reason db = Inr (q', db')"
  obtains q es where "quote_row qid db = Inr q" "sq_decision_status q = QuoteSubmitted"
    "q' = q\<lparr>sq_decision_status := QuoteAccepted, sq_accepted_by := Some (m_id m), sq_accepted_at := Some (now env),
        sq_decision_reason := reason, sq_updated_at := Some (now env)\<rparr> \<or>
     q' = q\<lparr>sq_decision_status := QuoteRejected, sq_rejected_by := Some (m_id m), sq_rejected_at := Some (now env),
        sq_decision_reason := reason, sq_updated_at := Some (now env)\<rparr>"
    "db' = db\<lparr>supplier_quotes := update_rows (\<lambda>x. sq_quote_id x = qid) (\<lambda>_. q') (supplier_quotes db), system_events := es\<rparr>"
    "audited env db db'"
proof -
  let ?a = "\<lambda>q. q\<lparr>sq_decision_status := QuoteAccepted, sq_accepted_by := Some (m_id m), sq_accepted_at := Some (now env),
        sq_decision_reason := reason, sq_updated_at := Some (now env)\<rparr>"
  let ?r = "\<lambda>q. q\<lparr>sq_decision_status := QuoteRejected, sq_rejected_by := Some (m_id m), sq_rejected_at := Some (now env),
        sq_decision_reason := reason, sq_updated_at := Some (now env)\<rparr>"
  from assms obtain q ty action where q: "quote_row qid db = Inr q" "sq_decision_status q = QuoteSubmitted"
    and q': "q' = ?a q \<or> q' = ?r q"
    and e: "offer_event env ty q' (stored_total q') action m (now env) (save_quote q' db) = Inr db'"
    by (auto simp: accept_resource_offer_def reject_resource_offer_def Let_def)
  have id: "sq_quote_id q' = qid" using quote_row_ok [OF q(1)] q' by auto
  from offer_event_only [OF e] obtain es where es: "db' = (save_quote q' db)\<lparr>system_events := es\<rparr>"
    and au: "audited env (save_quote q' db) db'"
    by (auto simp: events_only_def)
  have "audited env db db'" using au audited_cong_left [of db "save_quote q' db" env db'] by simp
  then show thesis using that [OF q q'] es by (simp add: save_quote_def id)
qed

lemma reject_cases:
  assumes "reject_proposal env f uid pid m role reason db = Inr (p', db')"
  obtains p db1 db2 where "proposal_row pid db = Inr p" "open_for_role env f m role p db = Inr ()"
    "db1 = db\<lparr>approval_decisions := approval_decisions db @ [new_decision env uid p m role DecisionRejected reason],
       approval_proposals := update_rows (\<lambda>x. ap_proposal_id x = pid) (\<lambda>_. p') (approval_proposals db)\<rparr>"
    "p' = p\<lparr>ap_status := ProposalRejected, ap_resolved_at := Some (now env), ap_updated_at := Some (now env)\<rparr>"
    "db2 = db1 \<or> (\<exists>q'. reject_resource_offer env (ap_target_id p) m reason db1 = Inr (q', db2))"
    "events_only env db2 db'"
proof -
  from assms obtain p db1 db2 where p: "proposal_row pid db = Inr p" "open_for_role env f m role p db = Inr ()"
    and i: "insert_decision (new_decision env uid p m role DecisionRejected reason) db = Inr db1"
    and p': "p' = p\<lparr>ap_status := ProposalRejected, ap_resolved_at := Some (now env), ap_updated_at := Some (now env)\<rparr>"
    and s: "sync_rejection env p' m reason (save_proposal p' db1) = Inr db2"
    and e: "proposal_event env f ''approval_proposal_rejected'' p' ''rejected'' m (now env) db2 = Inr db'"
    by (auto simp: reject_proposal_def Let_def)
  have id: "ap_proposal_id p = pid" using proposal_row_ok [OF p(1)] by simp
  from i have d: "save_proposal p' db1 =
      db\<lparr>approval_decisions := approval_decisions db @ [new_decision env uid p m role DecisionRejected reason],
       approval_proposals := update_rows (\<lambda>x. ap_proposal_id x = pid) (\<lambda>_. p') (approval_proposals db)\<rparr>"
    by (auto simp: insert_decision_def save_proposal_def id p' split: if_splits)
  have "db2 = save_proposal p' db1 \<or>
      (\<exists>q'. reject_resource_offer env (ap_target_id p) m reason (save_proposal p' db1) = Inr (q', db2))"
    using s by (auto simp: sync_rejection_def p' split: if_splits sum.splits dest: quote_row_ok)
  then show thesis using that [OF p d p'] proposal_event_only [OF e] by blast
qed

lemma execute_cases:
  assumes "execute_proposal env f pid m db = Inr (p', db')"
  obtains (Again) "db' = db"
  | (Run) p db1 where "proposal_row pid db = Inr p" "ap_status p = ProposalApproved" "ap_proposal_type p \<noteq> MemberApplicationProposal"
      "p' = p\<lparr>ap_status := ProposalExecuted, ap_executed_at := Some (now env), ap_updated_at := Some (now env)\<rparr>"
      "db1 = db \<or> (\<exists>q'. accept_resource_offer env (ap_target_id p) m (ap_public_reason p) db = Inr (q', db1))"
      "events_only env (db1\<lparr>approval_proposals := update_rows (\<lambda>x. ap_proposal_id x = pid) (\<lambda>_. p') (approval_proposals db1)\<rparr>) db'"
proof -
  from assms obtain p where p: "proposal_row pid db = Inr p" "ap_proposal_type p \<noteq> MemberApplicationProposal"
    by (auto simp: execute_proposal_def split: if_splits)
  show thesis
  proof (cases "ap_status p = ProposalExecuted")
    case True
    then show ?thesis using assms p by (intro Again) (auto simp: execute_proposal_def split: if_splits)
  next
    case False
    let ?p' = "p\<lparr>ap_status := ProposalExecuted, ap_executed_at := Some (now env), ap_updated_at := Some (now env)\<rparr>"
    from False assms p obtain db1 where a: "ap_status p = ProposalApproved" and p': "p' = ?p'"
      and d: "(if ap_proposal_type p = ProcurementAcceptance then execute_procurement_acceptance env p m db else Inr db) = Inr db1"
      and e: "proposal_event env f ''approval_proposal_executed'' ?p' ''executed'' m (now env) (save_proposal ?p' db1) = Inr db'"
      by (simp add: execute_proposal_def Let_def) blast
    have id: "ap_proposal_id p = pid" using proposal_row_ok [OF p(1)] by simp
    have "db1 = db \<or> (\<exists>q'. accept_resource_offer env (ap_target_id p) m (ap_public_reason p) db = Inr (q', db1))"
      using d by (auto simp: execute_procurement_acceptance_def split: if_splits dest: quote_row_ok)
    then show ?thesis using Run [OF p(1) a p(2) p'] proposal_event_only [OF e]
      by (simp add: save_proposal_def id p')
  qed
qed

lemma submit_offer_cases:
  assumes "submit_resource_offer env f uid1 uid2 r m ty quantity price cur mn lead quality nts vis nm db = Inr (q, db')"
  obtains oty db1 p db2 where "q = new_quote env uid1 r m oty quantity price cur mn lead quality nts vis nm" "0 < quantity" "0 \<le> price"
    "parse_offer_type ty = Some oty" "oty = OfferDonation \<Longrightarrow> price = 0"
    "\<forall>x \<in> set (supplier_quotes db). sq_quote_id x \<noteq> sq_quote_id q"
    "db1 = db\<lparr>supplier_quotes := supplier_quotes db @ [q]\<rparr>" "events_only env db1 db2"
    "create_approval_proposal env f uid2 ''procurement_acceptance''
       ((if oty = OfferDonation then ''accept the donation: '' else ''accept the quote: '') @
          (if rs_name r \<noteq> [] then rs_name r else rs_resource_id r)) m (acceptance_key q)
       ''supplier_quote'' (sq_quote_id q)
       (''quantity '' @ show_milli quantity @ '' '' @ resource_unit_value (rs_unit r) @ '', amount '' @
          show_fraction 5 (exact_total quantity price) @ '' '' @ cur)
       quality (proposal_tier_value (supplier_quote_tier_to_proposal_tier (sq_approval_tier q))) JNull db2 = Inr (p, db')"
proof -
  from assms obtain oty where o: "parse_offer_type ty = Some oty" "0 < quantity" "0 \<le> price" "oty = OfferDonation \<longrightarrow> price = 0"
    by (auto simp: submit_resource_offer_def split: option.splits if_splits)
  let ?q = "new_quote env uid1 r m oty quantity price cur mn lead quality nts vis nm"
  from assms obtain db1 db2 p where q: "q = ?q" and i: "insert_quote ?q db = Inr db1"
    and e: "offer_event env ''supplier_offer_submitted'' ?q (show_fraction 5 (exact_total quantity price)) ''submitted'' m
      (sq_created_at ?q) db1 = Inr db2"
    and c: "create_approval_proposal env f uid2 ''procurement_acceptance''
       ((if oty = OfferDonation then ''accept the donation: '' else ''accept the quote: '') @
          (if rs_name r \<noteq> [] then rs_name r else rs_resource_id r)) m (acceptance_key ?q)
       ''supplier_quote'' (sq_quote_id ?q)
       (''quantity '' @ show_milli quantity @ '' '' @ resource_unit_value (rs_unit r) @ '', amount '' @
          show_fraction 5 (exact_total quantity price) @ '' '' @ cur)
       quality (proposal_tier_value (supplier_quote_tier_to_proposal_tier (sq_approval_tier ?q))) JNull db2 = Inr (p, db')"
    unfolding submit_resource_offer_def o option.case Let_def
    by (simp only: if_Inl_eq_Inr and_then_Inr_conv split_paired_Ex prod.case) (elim conjE exE, simp)
  from i have "db1 = db\<lparr>supplier_quotes := supplier_quotes db @ [q]\<rparr>" "\<forall>x \<in> set (supplier_quotes db). sq_quote_id x \<noteq> sq_quote_id q"
    unfolding q by (auto simp: insert_quote_def split: if_splits)
  with that [OF q o(2,3,1)] o(4) offer_event_only [OF e] c q show thesis by blast
qed

lemma receipt_cases:
  assumes "record_offer_receipt env dt de qid m status nts day db = Inr ((q', t), db')"
  obtains q s db1 where "quote_row qid db = Inr q" "receipt_allowed q status db = Inr s"
    "q' = q\<lparr>sq_receipt_status := s, sq_received_by := Some (m_id m), sq_delivered_at := Some (now env),
            sq_receipt_notes := nts, sq_updated_at := Some (now env)\<rparr>"
    "s \<noteq> ReceiptAccepted \<and> t = None \<and> db1 = db \<or>
     s = ReceiptAccepted \<and> (\<exists>tx. t = Some tx \<and> take_delivery env dt de q m nts day db = Inr (tx, db1))"
    "events_only env (db1\<lparr>supplier_quotes := update_rows (\<lambda>x. sq_quote_id x = qid) (\<lambda>_. q') (supplier_quotes db1)\<rparr>) db'"
proof -
  let ?q' = "\<lambda>q s. q\<lparr>sq_receipt_status := s, sq_received_by := Some (m_id m), sq_delivered_at := Some (now env),
            sq_receipt_notes := nts, sq_updated_at := Some (now env)\<rparr>"
  from assms obtain q s db1 where q: "quote_row qid db = Inr q" "receipt_allowed q status db = Inr s"
    and d: "(if s = ReceiptAccepted
        then and_then (take_delivery env dt de q m nts day db) (\<lambda>(t, db1). Inr (Some t, db1)) else Inr (None, db)) = Inr (t, db1)"
    and q': "q' = ?q' q s"
    and e: "offer_event env (if s = ReceiptAccepted then ''supplier_offer_receipt_accepted'' else ''supplier_offer_receipt_rejected'')
           q' (stored_total q') (receipt_status_value s) m (now env) (save_quote q' db1) = Inr db'"
    unfolding record_offer_receipt_def Let_def
    by (simp only: and_then_Inr_conv split_paired_Ex prod.case) (elim conjE exE, simp)
  have id: "sq_quote_id q' = qid" using quote_row_ok [OF q(1)] q' by simp
  have "s \<noteq> ReceiptAccepted \<and> t = None \<and> db1 = db \<or>
     s = ReceiptAccepted \<and> (\<exists>tx. t = Some tx \<and> take_delivery env dt de q m nts day db = Inr (tx, db1))"
    using d by (auto split: if_splits)
  then show thesis using that [OF q q'] offer_event_only [OF e] by (simp add: save_quote_def id)
qed

subsection \<open>Completing an offer\<close>

definition credentials_only :: "env \<Rightarrow> 'a credential_db_scheme \<Rightarrow> 'a credential_db_scheme \<Rightarrow> bool" where
  "credentials_only env db db' \<longleftrightarrow>
    (\<exists>ts gs es. db' = db\<lparr>credential_templates := ts, credential_grants := gs, system_events := es\<rparr>) \<and> audited env db db'"

lemma credentials_only_refl [simp]: "credentials_only env db db"
  unfolding credentials_only_def by (rule conjI) (rule exI [of _ "credential_templates db"], rule exI [of _ "credential_grants db"],
    rule exI [of _ "system_events db"], simp_all)

lemma ensure_template_frame:
  assumes "ensure_template env s db = Inr (b, db')" shows "\<exists>ts. db' = db\<lparr>credential_templates := ts\<rparr>"
proof -
  have "db' = db\<lparr>credential_templates := credential_templates db\<rparr> \<or> (\<exists>ts. db' = db\<lparr>credential_templates := ts\<rparr>)"
    using assms by (auto simp: ensure_template_def insert_template_def save_template_def Let_def split: option.splits if_splits)
  then show ?thesis by blast
qed

lemma ensure_templates_frame:
  "ensure_templates env ss db = Inr (n, db') \<Longrightarrow> \<exists>ts. db' = db\<lparr>credential_templates := ts\<rparr>"
proof (induction ss arbitrary: db n)
  case Nil
  then have "db' = db\<lparr>credential_templates := credential_templates db\<rparr>" by simp
  then show ?case by blast
next
  case (Cons s ss)
  then obtain b db1 n' where "ensure_template env s db = Inr (b, db1)" and r: "ensure_templates env ss db1 = Inr (n', db')"
    by auto
  then obtain ts where "db1 = db\<lparr>credential_templates := ts\<rparr>" using ensure_template_frame by blast
  with Cons.IH [OF r] show ?case by auto
qed

lemma delivery_credential_only:
  assumes "delivery_credential env uid q actor db = Inr (c, db')" shows "credentials_only env db db'"
proof (cases "sq_performance_credential q")
  case (Some c')
  with assms show ?thesis by (simp add: delivery_credential_def)
next
  case None
  with assms obtain n db1 t m g where e: "ensure_builtin_credential_templates env db = Inr (n, db1)"
    and i: "issue_credential env uid t m (''supplier_quote:'' @ sq_quote_id q) GrantEarned (Some (m_id actor)) None []
      (delivery_metadata q) db1 = Inr (g, db')"
    by (auto simp: delivery_credential_def split: option.splits)
  from e obtain ts where ts: "db1 = db\<lparr>credential_templates := ts\<rparr>"
    using ensure_templates_frame unfolding ensure_builtin_credential_templates_def by blast
  from i obtain ev where d: "db' = db1\<lparr>credential_grants := credential_grants db1 @ [g], system_events := system_events db1 @ [ev]\<rparr>"
    and au: "audited env db1 db'" by (rule issue_credential_ok)
  have "audited env db db'" using au audited_cong_left [of db db1 env db'] by (simp add: ts)
  moreover have "db' = db\<lparr>credential_templates := ts, credential_grants := credential_grants db @ [g],
      system_events := system_events db @ [ev]\<rparr>" by (simp add: d ts)
  ultimately show ?thesis unfolding credentials_only_def by blast
qed

lemma complete_cases:
  assumes "mark_offer_paid_or_donated env uid qid actor db = Inr (q', db')"
  obtains q c db1 where "quote_row qid db = Inr q" "sq_decision_status q = QuoteAccepted" "sq_receipt_status q = ReceiptAccepted"
    "q' = (paid_quote env q)\<lparr>sq_performance_credential := c, sq_decision_status := QuoteFulfilled\<rparr>"
    "credentials_only env db db1"
    "events_only env (db1\<lparr>supplier_quotes := update_rows (\<lambda>x. sq_quote_id x = qid) (\<lambda>_. q') (supplier_quotes db1)\<rparr>) db'"
proof -
  from assms obtain q c db1 where q: "quote_row qid db = Inr q" "sq_decision_status q = QuoteAccepted"
      "sq_receipt_status q = ReceiptAccepted"
    and c: "delivery_credential env uid (paid_quote env q) actor db = Inr (c, db1)"
    and q': "q' = (paid_quote env q)\<lparr>sq_performance_credential := c, sq_decision_status := QuoteFulfilled\<rparr>"
    and e: "offer_event env ''supplier_offer_completed'' q' (stored_total q') ''completed'' actor (now env) (save_quote q' db1) = Inr db'"
    unfolding mark_offer_paid_or_donated_def Let_def
    by (simp only: if_Inl_eq_Inr and_then_Inr_conv split_paired_Ex prod.case) (elim conjE exE, simp)
  have id: "sq_quote_id q' = qid" using quote_row_ok [OF q(1)] q' by (simp add: paid_quote_def)
  show thesis using that [OF q q' delivery_credential_only [OF c]] offer_event_only [OF e] by (simp add: save_quote_def id)
qed

text \<open>The movement of a delivery carries its offer.\<close>

lemma delivery_cases:
  assumes "take_delivery env dt de q m nts day db = Inr (t, db')"
  obtains r' ev txn db1 where
    "record_resource_adjustment env dt de (sq_resource q) (sq_available_quantity q) (receipt_operator m)
      (''receipt of offer '' @ sq_quote_id q @ (if nts \<noteq> [] then '': '' @ nts else [])) ''purchase'' day db = Inr ((r', ev, txn), db1)"
    "t = txn\<lparr>rt_related_supplier_quote := Some (sq_quote_id q)\<rparr>" "db' = link_movement txn (sq_quote_id q) db1"
proof -
  from assms show thesis
    unfolding take_delivery_def by (simp only: and_then_Inr_conv split_paired_Ex prod.case) (elim conjE exE, rule that, auto)
qed

subsection \<open>The slots of a proposal\<close>

text \<open>Finance confirms after governance has accepted, the second confirmation after finance.\<close>

fun in_order :: "string list \<Rightarrow> string list \<Rightarrow> bool" where
  "in_order seen [] = True"
| "in_order seen (r # rs) = ((r = ''finance'' \<longrightarrow> ''governance'' \<in> set seen) \<and>
     (r = ''second_governance'' \<longrightarrow> ''finance'' \<in> set seen) \<and> in_order (r # seen) rs)"

lemma in_order_snoc:
  "in_order seen (rs @ [r]) \<longleftrightarrow> in_order seen rs \<and> (r = ''finance'' \<longrightarrow> ''governance'' \<in> set seen \<union> set rs) \<and>
     (r = ''second_governance'' \<longrightarrow> ''finance'' \<in> set seen \<union> set rs)"
  by (induction rs arbitrary: seen) auto

definition fills_slots :: "approval_proposal \<Rightarrow> approval_decision list \<Rightarrow> bool" where
  "fills_slots p ds \<longleftrightarrow> distinct (map ad_approver ds) \<and> in_order [] (map ad_role ds) \<and>
     set (map ad_role ds) \<subseteq> set (valid_approval_roles p)"

definition settled :: "proposal_status \<Rightarrow> bool" where
  "settled s \<longleftrightarrow> s \<in> {ProposalApproved, ProposalExecuted}"

definition slot_ok :: "approval_proposal \<Rightarrow> 'a proposal_db_scheme \<Rightarrow> bool" where
  "slot_ok p db \<longleftrightarrow> ap_proposal_type p = MemberApplicationProposal \<or>
     fills_slots p (approvals_of p db) \<and> (settled (ap_status p) \<longrightarrow> proposal_is_approved p db)"

definition slots_inv :: "'a proposal_db_scheme \<Rightarrow> bool" where
  "slots_inv db \<longleftrightarrow> distinct (map ap_proposal_id (approval_proposals db)) \<and>
     ad_proposal ` set (approval_decisions db) \<subseteq> ap_proposal_id ` set (approval_proposals db) \<and>
     (\<forall>p \<in> set (approval_proposals db). slot_ok p db)"

lemma approvals_cong:
  "approval_decisions db' = approval_decisions db \<Longrightarrow> ap_proposal_id p' = ap_proposal_id p \<Longrightarrow> approvals_of p' db' = approvals_of p db"
  by (simp add: approvals_of_def)

lemma groups_cong:
  "ap_proposal_type p' = ap_proposal_type p \<Longrightarrow> ap_approval_tier p' = ap_approval_tier p \<Longrightarrow>
   proposal_required_role_groups p' = proposal_required_role_groups p"
  by (simp add: proposal_required_role_groups_def)

lemma slot_ok_cong:
  assumes "approvals_of p' db' = approvals_of p db" "ap_proposal_type p' = ap_proposal_type p"
    "ap_approval_tier p' = ap_approval_tier p" "settled (ap_status p') \<Longrightarrow> settled (ap_status p)" "slot_ok p db"
  shows "slot_ok p' db'"
  using assms groups_cong [OF assms(2,3)]
  by (auto simp: slot_ok_def fills_slots_def valid_approval_roles_def proposal_is_approved_def proposal_approved_roles_def)

lemma slots_inv_cong: "same_proposals db db' \<Longrightarrow> slots_inv db' = slots_inv db"
  by (simp add: slots_inv_def same_proposals_def slot_ok_def approvals_of_def proposal_is_approved_def proposal_approved_roles_def)

text \<open>Replacing the row of a decided proposal, possibly with one more decision about it.\<close>

lemma slots_inv_update:
  assumes inv: "slots_inv db" and p: "p \<in> set (approval_proposals db)" "ap_proposal_id p = pid" "ap_proposal_id p' = pid"
    and ds: "approval_decisions db' = approval_decisions db @ ds" "\<forall>d \<in> set ds. ad_proposal d = pid"
    and ps: "approval_proposals db' = update_rows (\<lambda>x. ap_proposal_id x = pid) (\<lambda>_. p') (approval_proposals db)"
    and ok: "slot_ok p' db'"
  shows "slots_inv db'"
proof -
  have d: "distinct (map ap_proposal_id (approval_proposals db))" using inv by (simp add: slots_inv_def)
  have ids: "map ap_proposal_id (approval_proposals db') = map ap_proposal_id (approval_proposals db)"
    unfolding ps by (rule update_unique_row(2) [OF d p(1,2,3)]) (simp add: p)
  have set': "set (approval_proposals db') = insert p' (set (approval_proposals db) - {p})"
    unfolding ps by (rule update_unique_row(1) [OF d p(1,2,3)])
  have "slot_ok x db'" if x: "x \<in> set (approval_proposals db')" for x
  proof (cases "x = p'")
    case False
    with x set' have o: "x \<in> set (approval_proposals db)" "x \<noteq> p" by auto
    then have "ap_proposal_id x \<noteq> pid" using distinct_map_unique [OF d o(1) p(1)] p(2) by auto
    then have "approvals_of x db' = approvals_of x db" using ds by (auto simp: approvals_of_def filter_empty_conv)
    moreover have "slot_ok x db" using inv o(1) by (simp add: slots_inv_def)
    ultimately show ?thesis by (intro slot_ok_cong [of x db' x db]) simp_all
  qed (simp add: ok)
  moreover have "ap_proposal_id ` set (approval_proposals db') = ap_proposal_id ` set (approval_proposals db)"
    using arg_cong [OF ids, of set] by simp
  moreover have "pid \<in> ap_proposal_id ` set (approval_proposals db)" using p by blast
  ultimately show ?thesis using inv ds ids by (auto simp: slots_inv_def)
qed

lemma slots_inv_create:
  assumes inv: "slots_inv db"
    and c: "create_approval_proposal env f uid ty title m key tt ti summary reason tier meta db = Inr (p, db')"
  shows "slots_inv db'"
  using c
proof (cases rule: create_proposal_cases)
  case (New pty ptier es)
  have fresh: "ap_proposal_id p \<notin> ap_proposal_id ` set (approval_proposals db)" using New(5) by auto
  have "approvals_of p db' = []"
  proof -
    have fk: "ad_proposal ` set (approval_decisions db) \<subseteq> ap_proposal_id ` set (approval_proposals db)"
      using inv unfolding slots_inv_def by blast
    have "ad_proposal d \<noteq> ap_proposal_id p" if "d \<in> set (approval_decisions db)" for d
      using subsetD [OF fk imageI [OF that]] fresh by metis
    then show ?thesis by (simp add: approvals_of_def New(6) filter_empty_conv)
  qed
  then have "slot_ok p db'" by (simp add: slot_ok_def fills_slots_def New(4) new_slot_proposal_def settled_def)
  moreover have "slot_ok x db'" if "x \<in> set (approval_proposals db)" for x
    using inv that by (intro slot_ok_cong [of x db' x db]) (simp_all add: slots_inv_def New(6) approvals_of_def)
  ultimately show ?thesis using inv fresh by (auto simp: slots_inv_def New(6))
qed (use inv in simp)

lemma slot_order_okD:
  assumes "slot_order_ok m role ds = Inr ()"
  shows "m_id m \<notin> ad_approver ` set ds" "role = ''finance'' \<longrightarrow> ''governance'' \<in> ad_role ` set ds"
    "role = ''second_governance'' \<longrightarrow> ''finance'' \<in> ad_role ` set ds"
proof -
  have c: "\<not> exists_row (\<lambda>d. ad_approver d = m_id m) ds"
    "\<not> (role = ''second_governance'' \<and> \<not> exists_row (\<lambda>d. ad_role d = ''finance'') ds)"
    "\<not> (role = ''finance'' \<and> \<not> exists_row (\<lambda>d. ad_role d = ''governance'') ds)"
    using assms by (simp_all only: slot_order_ok_def if_Inl_eq_Inr not_False_eq_True)
  show "m_id m \<notin> ad_approver ` set ds" using c(1) unfolding exists_row_iff image_iff by metis
  show "role = ''finance'' \<longrightarrow> ''governance'' \<in> ad_role ` set ds" using c(3) unfolding exists_row_iff image_iff by metis
  show "role = ''second_governance'' \<longrightarrow> ''finance'' \<in> ad_role ` set ds" using c(2) unfolding exists_row_iff image_iff by metis
qed

lemma slots_inv_approve:
  assumes inv: "slots_inv db" and a: "approve_proposal env f uid pid m role reason db = Inr (p', db')"
  shows "slots_inv db'"
  using a
proof (cases rule: approve_cases)
  case (1 p es)
  let ?d = "new_decision env uid p m role DecisionApproved reason"
  note p = proposal_row_ok [OF 1(1)]
  have d: "ad_proposal ?d = ap_proposal_id p" "ad_decision ?d = DecisionApproved" "ad_approver ?d = m_id m" "ad_role ?d = role"
    by (simp_all add: new_decision_def)
  have eq: "ap_proposal_id p' = pid" "ap_proposal_type p' = ap_proposal_type p" "ap_approval_tier p' = ap_approval_tier p"
    using p by (simp_all add: 1(5))
  have ap: "approvals_of p' db' = approvals_of p db @ [?d]" using p d eq by (simp add: approvals_of_def 1(6))
  have "slot_ok p db" using inv p by (simp add: slots_inv_def)
  then have f: "fills_slots p (approvals_of p db)" using 1(2) by (auto simp: slot_ok_def open_for_role_def split: if_splits)
  have r: "role \<in> set (valid_approval_roles p)" using 1(2) by (auto simp: open_for_role_def split: if_splits)
  have s: "m_id m \<notin> ad_approver ` set (approvals_of p db)"
    "role = ''finance'' \<longrightarrow> ''governance'' \<in> set (map ad_role (approvals_of p db))"
    "role = ''second_governance'' \<longrightarrow> ''finance'' \<in> set (map ad_role (approvals_of p db))"
    using slot_order_okD [OF 1(3)] by simp_all
  have "fills_slots p (approvals_of p db @ [?d])"
    using f r s by (auto simp: fills_slots_def in_order_snoc d)
  then have "fills_slots p' (approvals_of p' db')"
    using groups_cong [OF eq(2,3)] by (simp add: fills_slots_def valid_approval_roles_def ap)
  moreover have "settled (ap_status p') \<longrightarrow> proposal_is_approved p' db'"
  proof
    assume st: "settled (ap_status p')"
    let ?db1 = "db\<lparr>approval_decisions := approval_decisions db @ [?d]\<rparr>"
    have "ap_status p = ProposalSubmitted" using 1(2) by (auto simp: open_for_role_def split: if_splits)
    with st have "proposal_is_approved p ?db1" by (auto simp: 1(5) settled_def split: if_splits)
    moreover have "approvals_of p ?db1 = approvals_of p' db'" using p eq by (simp add: approvals_of_def 1(6))
    ultimately show "proposal_is_approved p' db'"
      using groups_cong [OF eq(2,3)] by (simp add: proposal_is_approved_def proposal_approved_roles_def)
  qed
  ultimately have ok: "slot_ok p' db'" by (simp add: slot_ok_def)
  show ?thesis
    by (rule slots_inv_update [OF inv conjunct1 [OF p] conjunct2 [OF p] eq(1), of db' "[?d]"]) (rule ok | simp add: 1(6) d p)+
qed

text \<open>Deciding an offer touches no proposal.\<close>

lemma decide_offer_frame:
  assumes "accept_resource_offer env qid m reason db = Inr (q', db') \<or> reject_resource_offer env qid m reason db = Inr (q', db')"
  shows "same_proposals db db'" "resources db' = resources db" "resource_transactions db' = resource_transactions db"
    "audited env db db'"
proof -
  from assms obtain q es where "db' = db\<lparr>supplier_quotes := update_rows (\<lambda>x. sq_quote_id x = qid) (\<lambda>_. q') (supplier_quotes db),
      system_events := es\<rparr>" and "audited env db db'"
    by (rule decide_offer_cases)
  then show "same_proposals db db'" "resources db' = resources db" "resource_transactions db' = resource_transactions db"
    "audited env db db'"
    by (simp_all add: same_proposals_def)
qed

lemmas accept_frame = decide_offer_frame [OF disjI1] and reject_frame = decide_offer_frame [OF disjI2]

lemma same_proposals_refl [simp]: "same_proposals db db"
  by (simp add: same_proposals_def)

lemma slots_inv_reject:
  assumes inv: "slots_inv db" and r: "reject_proposal env f uid pid m role reason db = Inr (p', db')"
  shows "slots_inv db'"
  using r
proof (cases rule: reject_cases)
  case (1 p db1 db2)
  let ?d = "new_decision env uid p m role DecisionRejected reason"
  note p = proposal_row_ok [OF 1(1)]
  have d: "ad_proposal ?d = ap_proposal_id p" "ad_decision ?d = DecisionRejected"
    by (simp_all add: new_decision_def)
  have "approvals_of p' db1 = approvals_of p db" using d by (simp add: approvals_of_def 1(3,4))
  then have ok: "slot_ok p' db1"
    using inv p by (intro slot_ok_cong [of p' db1 p db]) (simp_all add: 1(4) settled_def slots_inv_def)
  have id: "ap_proposal_id p' = pid" using p by (simp add: 1(4))
  have "slots_inv db1"
    by (rule slots_inv_update [OF inv conjunct1 [OF p] conjunct2 [OF p] id, of db1 "[?d]"]) (rule ok | simp add: 1(3) d p)+
  moreover have "same_proposals db1 db2" using 1(5) reject_frame(1) by auto
  ultimately show ?thesis using slots_inv_cong events_only_proposals(2) [OF 1(6)] by blast
qed

lemma slots_inv_execute:
  assumes inv: "slots_inv db" and r: "execute_proposal env f pid m db = Inr (p', db')"
  shows "slots_inv db'"
  using r
proof (cases rule: execute_cases)
  case (Run p db1)
  note p = proposal_row_ok [OF Run(1)]
  have s: "same_proposals db db1" using Run(5) accept_frame(1) by auto
  let ?db2 = "db1\<lparr>approval_proposals := update_rows (\<lambda>x. ap_proposal_id x = pid) (\<lambda>_. p') (approval_proposals db1)\<rparr>"
  have "approvals_of p' ?db2 = approvals_of p db" using s by (simp add: approvals_of_def Run(4) same_proposals_def)
  then have ok: "slot_ok p' ?db2"
    using inv p Run(2) by (intro slot_ok_cong [of p' ?db2 p db]) (simp_all add: Run(4) settled_def slots_inv_def)
  have id: "ap_proposal_id p' = pid" using p by (simp add: Run(4))
  have "slots_inv ?db2"
    by (rule slots_inv_update [OF inv conjunct1 [OF p] conjunct2 [OF p] id, of ?db2 "[]"])
      (rule ok | use s in \<open>simp add: same_proposals_def\<close>)+
  then show ?thesis using slots_inv_cong events_only_proposals(2) [OF Run(6)] by blast
qed (use inv in simp)

subsection \<open>The life of proposals and offers\<close>

inductive proposal_step :: "proposal_status \<Rightarrow> proposal_status \<Rightarrow> bool" where
  approve: "proposal_step ProposalSubmitted ProposalApproved"
| reject: "proposal_step ProposalSubmitted ProposalRejected"
| execute: "proposal_step ProposalApproved ProposalExecuted"

inductive offer_step :: "quote_decision \<times> receipt_status \<Rightarrow> quote_decision \<times> receipt_status \<Rightarrow> bool" where
  accept: "offer_step (QuoteSubmitted, r) (QuoteAccepted, r)"
| reject: "offer_step (QuoteSubmitted, r) (QuoteRejected, r)"
| receive: "s \<in> {ReceiptAccepted, ReceiptRejected} \<Longrightarrow> offer_step (QuoteAccepted, ReceiptPending) (QuoteAccepted, s)"
| fulfil: "offer_step (QuoteAccepted, ReceiptAccepted) (QuoteFulfilled, ReceiptAccepted)"

inductive_simps proposal_step_closed [simp]: "proposal_step ProposalRejected s" "proposal_step ProposalExecuted s"

inductive_simps offer_step_closed [simp]: "offer_step (QuoteRejected, r) s" "offer_step (QuoteFulfilled, r) s"

declare proposal_step.intros [intro, simp] offer_step.intros [intro, simp]

text \<open>What a row says never changes; its status moves along the steps.\<close>

definition proposal_terms :: "approval_proposal \<Rightarrow> approval_proposal" where
  "proposal_terms p = p\<lparr>ap_status := ProposalDraft, ap_resolved_at := None, ap_executed_at := None, ap_updated_at := None\<rparr>"

definition proposal_moves :: "approval_proposal \<Rightarrow> approval_proposal \<Rightarrow> bool" where
  "proposal_moves p p' \<longleftrightarrow> proposal_terms p' = proposal_terms p \<and> proposal_step\<^sup>*\<^sup>* (ap_status p) (ap_status p')"

definition offer_terms :: "supplier_quote \<Rightarrow> string \<times> string \<times> offer_type \<times> int \<times> int \<times> string \<times> int \<times> quote_tier \<times> int option" where
  "offer_terms q = (sq_quote_id q, sq_resource q, sq_offer_type q, sq_available_quantity q, sq_unit_price q, sq_currency q,
     sq_estimated_total_amount q, sq_approval_tier q, sq_submitted_by q)"

definition offer_stage :: "supplier_quote \<Rightarrow> quote_decision \<times> receipt_status" where
  "offer_stage q = (sq_decision_status q, sq_receipt_status q)"

definition offer_moves :: "supplier_quote \<Rightarrow> supplier_quote \<Rightarrow> bool" where
  "offer_moves q q' \<longleftrightarrow> offer_terms q' = offer_terms q \<and> offer_step\<^sup>*\<^sup>* (offer_stage q) (offer_stage q')"

lemma moves_refl [simp]: "proposal_moves p p" "offer_moves q q"
  by (simp_all add: proposal_moves_def offer_moves_def)

lemma moves_trans:
  "proposal_moves p p' \<Longrightarrow> proposal_moves p' p'' \<Longrightarrow> proposal_moves p p''"
  "offer_moves q q' \<Longrightarrow> offer_moves q' q'' \<Longrightarrow> offer_moves q q''"
  by (auto simp: proposal_moves_def offer_moves_def)

definition procurement_safe :: "env \<Rightarrow> 'a proposal_db_scheme \<Rightarrow> 'a proposal_db_scheme \<Rightarrow> bool" where
  "procurement_safe env db db' \<longleftrightarrow> audited env db db' \<and> prefix (approval_decisions db) (approval_decisions db') \<and>
     rows_follow proposal_moves (approval_proposals db) (approval_proposals db') \<and>
     rows_follow offer_moves (supplier_quotes db) (supplier_quotes db')"

lemma procurement_safe_refl [simp]: "procurement_safe env db db"
  by (simp add: procurement_safe_def rows_follow_refl)

lemma procurement_safe_trans:
  assumes "procurement_safe env a b" "procurement_safe env b c" shows "procurement_safe env a c"
proof -
  have "rows_follow proposal_moves (approval_proposals a) (approval_proposals c)"
    by (rule rows_follow_trans [OF moves_trans(1)]) (use assms in \<open>auto simp: procurement_safe_def\<close>)
  moreover have "rows_follow offer_moves (supplier_quotes a) (supplier_quotes c)"
    by (rule rows_follow_trans [OF moves_trans(2)]) (use assms in \<open>auto simp: procurement_safe_def\<close>)
  ultimately show ?thesis using assms audited_trans [of env a b c]
    unfolding procurement_safe_def by (blast intro: prefix_order.order_trans)
qed

lemma procurement_safe_now [simp]: "procurement_safe (env\<lparr>now := t\<rparr>) db db' = procurement_safe env db db'"
  by (simp add: procurement_safe_def)

lemma procurement_safe_same:
  "same_proposals db db' \<Longrightarrow> supplier_quotes db' = supplier_quotes db \<Longrightarrow> audited env db db' \<Longrightarrow> procurement_safe env db db'"
  by (simp add: procurement_safe_def same_proposals_def rows_follow_refl)

lemma events_only_safe: "events_only env db db' \<Longrightarrow> procurement_safe env db db'"
  using events_only_proposals [of env db db'] by (intro procurement_safe_same) (simp_all add: same_offers_def)

text \<open>Saving one row of a table with distinct keys.\<close>

lemma save_follows:
  assumes "distinct (map k rows)" "r \<in> set rows" "k r = i" "\<And>x. R x x" "R r r'"
  shows "rows_follow R rows (update_rows (\<lambda>x. k x = i) (\<lambda>_. r') rows)"
proof -
  have "R x r'" if "k x = i" "x \<in> set rows" for x
    using distinct_map_unique [OF assms(1) that(2) assms(2)] that(1) assms(3,5) by simp
  from rows_follow_update [of R "\<lambda>x. k x = i" rows "\<lambda>_. r'" "[]", OF assms(4) this] show ?thesis by simp
qed

definition quotes_distinct :: "'a proposal_db_scheme \<Rightarrow> bool" where
  "quotes_distinct db \<longleftrightarrow> distinct (map sq_quote_id (supplier_quotes db))"

text \<open>One offer moved, everything else about proposals and offers as before.\<close>

lemma offer_saved_safe:
  assumes "quotes_distinct db" "quote_row qid db = Inr q" "offer_moves q q'" "audited env db db'" "same_proposals db db'"
    "supplier_quotes db' = update_rows (\<lambda>x. sq_quote_id x = qid) (\<lambda>_. q') (supplier_quotes db)"
  shows "procurement_safe env db db'" "quotes_distinct db'"
proof -
  note q = quote_row_ok [OF assms(2)]
  have d: "distinct (map sq_quote_id (supplier_quotes db))" using assms(1) by (simp add: quotes_distinct_def)
  have id: "sq_quote_id q' = qid" using assms(3) q by (simp add: offer_moves_def offer_terms_def)
  have "rows_follow offer_moves (supplier_quotes db) (supplier_quotes db')"
    unfolding assms(6) using q by (intro save_follows [OF d, of q]) (simp_all add: assms(3))
  then show "procurement_safe env db db'" using assms(4,5) by (simp add: procurement_safe_def same_proposals_def rows_follow_refl)
  have "map sq_quote_id (supplier_quotes db') = map sq_quote_id (supplier_quotes db)"
    unfolding assms(6) by (rule map_update_rows) (simp add: id)
  then show "quotes_distinct db'" using d by (simp add: quotes_distinct_def)
qed

lemma decide_offer_safe:
  assumes "quotes_distinct db"
    "accept_resource_offer env qid m reason db = Inr (q', db') \<or> reject_resource_offer env qid m reason db = Inr (q', db')"
  shows "procurement_safe env db db' \<and> quotes_distinct db'"
proof -
  from assms(2) obtain q es where q: "quote_row qid db = Inr q" "sq_decision_status q = QuoteSubmitted"
    and q': "q' = q\<lparr>sq_decision_status := QuoteAccepted, sq_accepted_by := Some (m_id m), sq_accepted_at := Some (now env),
        sq_decision_reason := reason, sq_updated_at := Some (now env)\<rparr> \<or>
     q' = q\<lparr>sq_decision_status := QuoteRejected, sq_rejected_by := Some (m_id m), sq_rejected_at := Some (now env),
        sq_decision_reason := reason, sq_updated_at := Some (now env)\<rparr>"
    and d: "db' = db\<lparr>supplier_quotes := update_rows (\<lambda>x. sq_quote_id x = qid) (\<lambda>_. q') (supplier_quotes db), system_events := es\<rparr>"
    and au: "audited env db db'"
    by (rule decide_offer_cases)
  have "offer_moves q q'" using q' q(2) by (auto simp: offer_moves_def offer_terms_def offer_stage_def)
  from offer_saved_safe [OF assms(1) q(1) this au] show ?thesis by (simp add: d same_proposals_def)
qed

lemmas accept_offer_safe = decide_offer_safe [OF _ disjI1] and reject_offer_safe = decide_offer_safe [OF _ disjI2]

text \<open>One proposal moved, with decisions appended, no offer touched.\<close>

lemma proposal_saved_safe:
  assumes "slots_inv db" "proposal_row pid db = Inr p" "proposal_moves p p'"
    "approval_decisions db' = approval_decisions db @ ds" "supplier_quotes db' = supplier_quotes db"
    "approval_proposals db' = update_rows (\<lambda>x. ap_proposal_id x = pid) (\<lambda>_. p') (approval_proposals db)" "audited env db db'"
  shows "procurement_safe env db db'"
proof -
  note p = proposal_row_ok [OF assms(2)]
  have d: "distinct (map ap_proposal_id (approval_proposals db))" using assms(1) by (simp add: slots_inv_def)
  have "rows_follow proposal_moves (approval_proposals db) (approval_proposals db')"
    unfolding assms(6) using p by (intro save_follows [OF d, of p]) (simp_all add: assms(3))
  then show ?thesis using assms(4,5,7) by (simp add: procurement_safe_def rows_follow_refl)
qed

lemma create_proposal_safe:
  assumes "create_approval_proposal env f uid ty title m key tt ti summary reason tier meta db = Inr (p, db')"
  shows "procurement_safe env db db'" "supplier_quotes db' = supplier_quotes db" "resources db' = resources db"
    "resource_transactions db' = resource_transactions db"
proof -
  from assms have "procurement_safe env db db' \<and> supplier_quotes db' = supplier_quotes db \<and> resources db' = resources db \<and>
    resource_transactions db' = resource_transactions db"
  proof (cases rule: create_proposal_cases)
    case (New pty ptier es)
    have "rows_follow proposal_moves (approval_proposals db) (approval_proposals db @ [p])"
      using rows_follow_update [of proposal_moves "\<lambda>x. False" "approval_proposals db" id "[p]"] by (simp add: update_rows_def)
    then show ?thesis using New(6,7) by (simp add: procurement_safe_def rows_follow_refl)
  qed simp
  then show "procurement_safe env db db'" "supplier_quotes db' = supplier_quotes db" "resources db' = resources db"
    "resource_transactions db' = resource_transactions db" by blast+
qed

lemma approve_safe:
  assumes inv: "slots_inv db" and a: "approve_proposal env f uid pid m role reason db = Inr (p', db')"
  shows "procurement_safe env db db' \<and> supplier_quotes db' = supplier_quotes db"
  using a
proof (cases rule: approve_cases)
  case (1 p es)
  have "ap_status p = ProposalSubmitted" using 1(2) by (auto simp: open_for_role_def split: if_splits)
  then have "proposal_moves p p'" by (auto simp: 1(5) proposal_moves_def proposal_terms_def)
  from proposal_saved_safe [OF inv 1(1) this] show ?thesis using 1(6,7) by simp
qed

lemma reject_safe:
  assumes inv: "slots_inv db" "quotes_distinct db" and a: "reject_proposal env f uid pid m role reason db = Inr (p', db')"
  shows "procurement_safe env db db' \<and> quotes_distinct db'"
  using a
proof (cases rule: reject_cases)
  case (1 p db1 db2)
  have "ap_status p = ProposalSubmitted" using 1(2) by (auto simp: open_for_role_def split: if_splits)
  then have "proposal_moves p p'" by (simp add: 1(4) proposal_moves_def proposal_terms_def r_into_rtranclp)
  then have s1: "procurement_safe env db db1"
    by (rule proposal_saved_safe [OF inv(1) 1(1)]) (simp_all add: 1(3) audited_same)
  have q1: "quotes_distinct db1" using inv(2) by (simp add: 1(3) quotes_distinct_def)
  have "procurement_safe env db1 db2 \<and> quotes_distinct db2" using 1(5) reject_offer_safe [OF q1] q1 by auto
  moreover have "quotes_distinct db' = quotes_distinct db2"
    using events_only_proposals(1) [OF 1(6)] by (simp add: quotes_distinct_def same_offers_def)
  ultimately show ?thesis using s1 events_only_safe [OF 1(6)] procurement_safe_trans by blast
qed

lemma execute_safe:
  assumes inv: "slots_inv db" "quotes_distinct db" and a: "execute_proposal env f pid m db = Inr (p', db')"
  shows "procurement_safe env db db' \<and> quotes_distinct db'"
  using a
proof (cases rule: execute_cases)
  case (Run p db1)
  let ?db2 = "db1\<lparr>approval_proposals := update_rows (\<lambda>x. ap_proposal_id x = pid) (\<lambda>_. p') (approval_proposals db1)\<rparr>"
  have s1: "procurement_safe env db db1 \<and> quotes_distinct db1 \<and> same_proposals db db1"
    using Run(5) accept_offer_safe [OF inv(2)] inv(2) accept_frame(1) by auto
  have r: "proposal_row pid db1 = Inr p" using s1 Run(1) by (simp add: proposal_row_def same_proposals_def)
  have i: "slots_inv db1" using s1 slots_inv_cong inv(1) by blast
  have "proposal_moves p p'" using Run(2) by (simp add: Run(4) proposal_moves_def proposal_terms_def r_into_rtranclp)
  then have s2: "procurement_safe env db1 ?db2"
    by (rule proposal_saved_safe [OF i r, of p' _ "[]"]) (simp_all add: audited_same)
  have "quotes_distinct db' = quotes_distinct db1"
    using events_only_proposals(1) [OF Run(6)] by (simp add: quotes_distinct_def same_offers_def)
  then show ?thesis using s1 s2 events_only_safe [OF Run(6)] procurement_safe_trans by blast
qed (use inv in simp)

lemma submit_safe:
  assumes inv: "slots_inv db" "quotes_distinct db"
    and s: "submit_resource_offer env f uid1 uid2 r m ty quantity price cur mn lead quality nts vis nm db = Inr (q, db')"
  shows "procurement_safe env db db' \<and> slots_inv db' \<and> quotes_distinct db'"
  using s
proof (cases rule: submit_offer_cases)
  case (1 oty db1 p db2)
  have "rows_follow offer_moves (supplier_quotes db) (supplier_quotes db @ [q])"
    using rows_follow_update [of offer_moves "\<lambda>x. False" "supplier_quotes db" id "[q]"] by (simp add: update_rows_def)
  then have s1: "procurement_safe env db db1" by (simp add: 1(7) procurement_safe_def rows_follow_refl audited_same)
  have "same_proposals db db1" by (simp add: 1(7) same_proposals_def)
  then have "slots_inv db2" using slots_inv_cong inv(1) events_only_proposals(2) [OF 1(8)] by blast
  then have "slots_inv db'" by (rule slots_inv_create [OF _ 1(9)])
  moreover have "quotes_distinct db'"
    using inv(2) 1(6) create_proposal_safe(2) [OF 1(9)] events_only_proposals(1) [OF 1(8)]
    by (auto simp: quotes_distinct_def same_offers_def 1(7))
  ultimately show ?thesis using s1 events_only_safe [OF 1(8)] create_proposal_safe(1) [OF 1(9)] procurement_safe_trans by blast
qed

text \<open>A delivery appends one movement, which names the offer, and touches no proposal and no offer.\<close>

lemma delivery_frame:
  assumes "take_delivery env dt de q m nts day db = Inr (t, db')"
  shows "same_proposals db db'" "supplier_quotes db' = supplier_quotes db" "audited env db db'"
    "resource_transactions db' = resource_transactions db @ [t]" "rt_related_supplier_quote t = Some (sq_quote_id q)"
    "rt_resource t = sq_resource q" "rt_quantity_delta t = sq_available_quantity q"
    "stock_inv start db \<Longrightarrow> stock_inv start db'"
proof -
  from assms obtain r' ev txn db1 where
    a: "record_resource_adjustment env dt de (sq_resource q) (sq_available_quantity q) (receipt_operator m)
      (''receipt of offer '' @ sq_quote_id q @ (if nts \<noteq> [] then '': '' @ nts else [])) ''purchase'' day db = Inr ((r', ev, txn), db1)"
    and t: "t = txn\<lparr>rt_related_supplier_quote := Some (sq_quote_id q)\<rparr>" and d: "db' = link_movement txn (sq_quote_id q) db1"
    by (rule delivery_cases)
  from a obtain r ty txid se where row: "resource_row (sq_resource q) db = Inr r"
    and tx: "txn = (stock_movement env txid r (sq_available_quantity q) (receipt_operator m)
        (py_strip (''receipt of offer '' @ sq_quote_id q @ (if nts \<noteq> [] then '': '' @ nts else []))) ty)\<lparr>rt_system_event := Some (se_seq se)\<rparr>"
    and fresh: "\<forall>x \<in> set (resource_transactions db). rt_transaction_id x \<noteq> txid"
    and d1: "db1 = db\<lparr>system_events := system_events db @ [se], stream_events := stream_events db @ [ev],
       resources := update_rows (\<lambda>x. rs_resource_id x = sq_resource q) (\<lambda>_. r') (resources db),
       resource_transactions := resource_transactions db @ [txn]\<rparr>" and au: "audited env db db1"
    by (rule adjust_cases)
  have id: "rt_transaction_id txn = txid" "rt_resource txn = sq_resource q" "rt_quantity_delta txn = sq_available_quantity q"
    using resource_row_ok [OF row] by (simp_all add: tx)
  have keep: "update_rows (\<lambda>x. rt_transaction_id x = txid) u (resource_transactions db) = resource_transactions db" for u
    unfolding update_rows_def by (rule map_idI) (use fresh in auto)
  have rt: "resource_transactions db' = resource_transactions db @ [t]" by (simp add: d link_movement_def d1 id keep t)
  then show "resource_transactions db' = resource_transactions db @ [t]" .
  show "same_proposals db db'" "supplier_quotes db' = supplier_quotes db" "rt_related_supplier_quote t = Some (sq_quote_id q)"
    "rt_resource t = sq_resource q" "rt_quantity_delta t = sq_available_quantity q"
    by (simp_all add: d link_movement_def d1 same_proposals_def t id)
  show "audited env db db'" using au audited_cong_right [of db' db1 env db] by (simp add: d link_movement_def)
  show "stock_inv start db'" if "stock_inv start db"
  proof (rule stock_inv_cong)
    show "stock_inv start db1" using that a by (rule stock_inv_adjust)
    have "list_all2 same_movement (resource_transactions db) (resource_transactions db)"
      by (rule list_all2_refl) (simp add: same_movement_def)
    then show "list_all2 same_movement (resource_transactions db1) (resource_transactions db')"
      by (simp add: rt d1 list_all2_appendI same_movement_def t)
    show "map rt_transaction_id (resource_transactions db') = map rt_transaction_id (resource_transactions db1)"
      by (simp add: rt d1 t)
    show "resources db' = resources db1" by (simp add: d link_movement_def)
  qed
qed

lemma receipt_allowedD:
  assumes "receipt_allowed q status db = Inr s"
  shows "sq_decision_status q = QuoteAccepted" "sq_receipt_status q = ReceiptPending" "s \<in> {ReceiptAccepted, ReceiptRejected}"
    "quote_is_ready_for_receipt q db"
  using assms by (auto simp: receipt_allowed_def split: if_splits option.splits receipt_status.splits)

lemma receipt_safe:
  assumes inv: "quotes_distinct db" and r: "record_offer_receipt env dt de qid m status nts day db = Inr ((q', t), db')"
  shows "procurement_safe env db db' \<and> quotes_distinct db' \<and> same_proposals db db'"
  using r
proof (cases rule: receipt_cases)
  case (1 q s db1)
  let ?db2 = "db1\<lparr>supplier_quotes := update_rows (\<lambda>x. sq_quote_id x = qid) (\<lambda>_. q') (supplier_quotes db1)\<rparr>"
  have s1: "same_proposals db db1 \<and> supplier_quotes db1 = supplier_quotes db \<and> audited env db db1"
    using 1(4) delivery_frame(1-3) by auto
  note a = receipt_allowedD [OF 1(2)]
  have mv: "offer_moves q q'"
    using a by (auto simp: 1(3) offer_moves_def offer_terms_def offer_stage_def intro!: r_into_rtranclp)
  have au: "audited env db ?db2" using s1 audited_cong_right [of ?db2 db1 env db] by simp
  have sp: "same_proposals db ?db2" using s1 by (simp add: same_proposals_def)
  have "procurement_safe env db ?db2" "quotes_distinct ?db2"
    by (rule offer_saved_safe [OF inv 1(1) mv au sp], simp add: s1)+
  moreover have "quotes_distinct db' = quotes_distinct ?db2" "same_proposals ?db2 db'"
    using events_only_proposals(1,2) [OF 1(5)] by (simp_all add: quotes_distinct_def same_offers_def)
  ultimately show ?thesis using sp events_only_safe [OF 1(5)] procurement_safe_trans
    unfolding same_proposals_def by metis
qed

lemma complete_safe:
  assumes inv: "quotes_distinct db" and c: "mark_offer_paid_or_donated env uid qid actor db = Inr (q', db')"
  shows "procurement_safe env db db' \<and> quotes_distinct db' \<and> same_proposals db db'"
  using c
proof (cases rule: complete_cases)
  case (1 q c db1)
  let ?db2 = "db1\<lparr>supplier_quotes := update_rows (\<lambda>x. sq_quote_id x = qid) (\<lambda>_. q') (supplier_quotes db1)\<rparr>"
  have s1: "same_proposals db db1 \<and> supplier_quotes db1 = supplier_quotes db \<and> audited env db db1"
    using 1(5) by (auto simp: credentials_only_def same_proposals_def)
  have mv: "offer_moves q q'"
    using 1(2,3) by (auto simp: 1(4) offer_moves_def offer_terms_def offer_stage_def paid_quote_def intro!: r_into_rtranclp)
  have au: "audited env db ?db2" using s1 audited_cong_right [of ?db2 db1 env db] by simp
  have sp: "same_proposals db ?db2" using s1 by (simp add: same_proposals_def)
  have "procurement_safe env db ?db2" "quotes_distinct ?db2"
    by (rule offer_saved_safe [OF inv 1(1) mv au sp], simp add: s1)+
  moreover have "quotes_distinct db' = quotes_distinct ?db2" "same_proposals ?db2 db'"
    using events_only_proposals(1,2) [OF 1(6)] by (simp_all add: quotes_distinct_def same_offers_def)
  ultimately show ?thesis using sp events_only_safe [OF 1(6)] procurement_safe_trans
    unfolding same_proposals_def by metis
qed

subsection \<open>Histories\<close>

datatype procurement_op =
    Propose string string string member string string string string string string json
  | Approve string string member string string
  | Reject string string member string string
  | Execute string member
  | SubmitOffer string string resource member string int int string int int string string string string
  | AcceptOffer string member string
  | RejectOffer string member string
  | ReceiveOffer "nat \<Rightarrow> string" "nat \<Rightarrow> string" string member string string int
  | CompleteOffer string string member

fun procurement_service ::
    "env \<Rightarrow> fga \<Rightarrow> procurement_op \<Rightarrow> 'a proposal_db_scheme \<Rightarrow> (unit \<times> 'a proposal_db_scheme) result" where
  "procurement_service env f (Propose uid ty title m key tt ti summary reason tier meta) db =
     and_then (create_approval_proposal env f uid ty title m key tt ti summary reason tier meta db) (\<lambda>(p, db'). Inr ((), db'))"
| "procurement_service env f (Approve uid pid m role reason) db =
     and_then (approve_proposal env f uid pid m role reason db) (\<lambda>(p, db'). Inr ((), db'))"
| "procurement_service env f (Reject uid pid m role reason) db =
     and_then (reject_proposal env f uid pid m role reason db) (\<lambda>(p, db'). Inr ((), db'))"
| "procurement_service env f (Execute pid m) db =
     and_then (execute_proposal env f pid m db) (\<lambda>(p, db'). Inr ((), db'))"
| "procurement_service env f (SubmitOffer uid1 uid2 r m ty quantity price cur mn lead quality nts vis nm) db =
     and_then (submit_resource_offer env f uid1 uid2 r m ty quantity price cur mn lead quality nts vis nm db)
       (\<lambda>(q, db'). Inr ((), db'))"
| "procurement_service env f (AcceptOffer qid m reason) db =
     and_then (accept_resource_offer env qid m reason db) (\<lambda>(q, db'). Inr ((), db'))"
| "procurement_service env f (RejectOffer qid m reason) db =
     and_then (reject_resource_offer env qid m reason db) (\<lambda>(q, db'). Inr ((), db'))"
| "procurement_service env f (ReceiveOffer dt de qid m status nts day) db =
     and_then (record_offer_receipt env dt de qid m status nts day db) (\<lambda>(q, db'). Inr ((), db'))"
| "procurement_service env f (CompleteOffer uid qid m) db =
     and_then (mark_offer_paid_or_donated env uid qid m db) (\<lambda>(q, db'). Inr ((), db'))"

definition procurement_step ::
    "env \<Rightarrow> time \<times> fga \<times> procurement_op \<Rightarrow> 'a proposal_db_scheme \<Rightarrow> (unit \<times> 'a proposal_db_scheme) result" where
  "procurement_step env x db = procurement_service (env\<lparr>now := fst x\<rparr>) (fst (snd x)) (snd (snd x)) db"

definition procurement_inv :: "'a proposal_db_scheme \<Rightarrow> bool" where
  "procurement_inv db \<longleftrightarrow> slots_inv db \<and> quotes_distinct db"

lemma procurement_service_ok:
  assumes inv: "procurement_inv db" and s: "procurement_service env f call db = Inr (u, db')"
  shows "procurement_inv db' \<and> procurement_safe env db db'"
proof -
  have i: "slots_inv db" "quotes_distinct db" using inv by (simp_all add: procurement_inv_def)
  show ?thesis
  proof (cases call)
    case (Propose uid ty title m key tt ti summary reason tier meta)
    with s obtain p where c: "create_approval_proposal env f uid ty title m key tt ti summary reason tier meta db = Inr (p, db')"
      by auto
    show ?thesis using create_proposal_safe(1,2) [OF c] slots_inv_create [OF i(1) c] i(2)
      by (simp add: procurement_inv_def quotes_distinct_def)
  next
    case (Approve uid pid m role reason)
    with s obtain p where c: "approve_proposal env f uid pid m role reason db = Inr (p, db')" by auto
    show ?thesis using approve_safe [OF i(1) c] slots_inv_approve [OF i(1) c] i(2)
      by (simp add: procurement_inv_def quotes_distinct_def)
  next
    case (Reject uid pid m role reason)
    with s obtain p where c: "reject_proposal env f uid pid m role reason db = Inr (p, db')" by auto
    show ?thesis using reject_safe [OF i c] slots_inv_reject [OF i(1) c] by (simp add: procurement_inv_def)
  next
    case (Execute pid m)
    with s obtain p where c: "execute_proposal env f pid m db = Inr (p, db')" by auto
    show ?thesis using execute_safe [OF i c] slots_inv_execute [OF i(1) c] by (simp add: procurement_inv_def)
  next
    case (SubmitOffer uid1 uid2 r m ty quantity price cur mn lead quality nts vis nm)
    with s obtain q where c: "submit_resource_offer env f uid1 uid2 r m ty quantity price cur mn lead quality nts vis nm db = Inr (q, db')"
      by auto
    show ?thesis using submit_safe [OF i c] by (simp add: procurement_inv_def)
  next
    case (AcceptOffer qid m reason)
    with s obtain q where c: "accept_resource_offer env qid m reason db = Inr (q, db')" by auto
    show ?thesis using accept_offer_safe [OF i(2) c] slots_inv_cong [OF accept_frame(1) [OF c]] i by (simp add: procurement_inv_def)
  next
    case (RejectOffer qid m reason)
    with s obtain q where c: "reject_resource_offer env qid m reason db = Inr (q, db')" by auto
    show ?thesis using reject_offer_safe [OF i(2) c] slots_inv_cong [OF reject_frame(1) [OF c]] i by (simp add: procurement_inv_def)
  next
    case (ReceiveOffer dt de qid m status nts day)
    with s obtain q t where c: "record_offer_receipt env dt de qid m status nts day db = Inr ((q, t), db')" by auto
    show ?thesis using receipt_safe [OF i(2) c] slots_inv_cong [of db db'] i by (simp add: procurement_inv_def)
  next
    case (CompleteOffer uid qid m)
    with s obtain q where c: "mark_offer_paid_or_donated env uid qid m db = Inr (q, db')" by auto
    show ?thesis using complete_safe [OF i(2) c] slots_inv_cong [of db db'] i by (simp add: procurement_inv_def)
  qed
qed

interpretation procurement: guarded_service "procurement_step env" procurement_inv "procurement_safe env" for env
proof
  fix db db' db'' :: "'a proposal_db_scheme" and x r
  show "procurement_inv db'" "procurement_safe env db db'" if "procurement_inv db" "procurement_step env x db = Inr (r, db')"
    using procurement_service_ok [OF that(1) that(2) [unfolded procurement_step_def]] by auto
  show "procurement_safe env db db''" if "procurement_safe env db db'" "procurement_safe env db' db''"
    by (rule procurement_safe_trans [OF that])
qed simp

text \<open>How many different members an approval of each kind takes.\<close>

definition required_approvals :: "approval_proposal \<Rightarrow> nat" where
  "required_approvals p = (if ap_proposal_type p = ProcurementAcceptance then
     (case ap_approval_tier p of TierSingle \<Rightarrow> 1 | TierStandard \<Rightarrow> 2 | TierMajor \<Rightarrow> 3) else 1)"

lemma filled_slots_count:
  assumes "proposal_is_approved p db" shows "required_approvals p \<le> length (approvals_of p db)"
proof -
  let ?rs = "set (map ad_role (approvals_of p db))"
  have "card ?rs \<le> length (approvals_of p db)" using card_length [of "map ad_role (approvals_of p db)"] by simp
  moreover have "required_approvals p \<le> card ?rs"
  proof -
    have "card S \<le> card ?rs" if "S \<subseteq> ?rs" for S using that by (intro card_mono) auto
    note sub = this
    have "?rs \<noteq> {}" using assms
      by (auto simp: proposal_is_approved_def proposal_approved_roles_def proposal_required_role_groups_def slot_filled_def
          split: if_splits proposal_tier.splits)
    then have one: "1 \<le> card ?rs" by (simp add: Suc_le_eq card_gt_0_iff)
    show ?thesis
    proof (cases "ap_proposal_type p = ProcurementAcceptance \<and> ap_approval_tier p \<noteq> TierSingle")
      case False
      then show ?thesis using one by (cases "ap_approval_tier p") (auto simp: required_approvals_def)
    next
      case True
      then show ?thesis using assms sub [of "{''governance'', ''finance''}"] sub [of "{''governance'', ''finance'', ''second_governance''}"]
        by (cases "ap_approval_tier p")
          (auto simp: required_approvals_def proposal_is_approved_def proposal_approved_roles_def
            proposal_required_role_groups_def slot_filled_def)
    qed
  qed
  ultimately show ?thesis by linarith
qed

subsection \<open>Properties of proposals\<close>

text \<open>C26. In every history of proposals and offers, whatever is approved or executed by slots has every
  slot filled, by as many different members as its tier asks for, governance before finance and
  finance before the second confirmation; a proposal and the terms of an offer never change, their
  statuses only move forward, decisions are only added, and the event ledger keeps verifying.\<close>

theorem approvals_by_distinct_members:
  assumes "procurement_inv db" "chain_ok env db"
  shows "let db' = run_ops (procurement_step env) reqs db in
    chain_ok env db' \<and> prefix (approval_decisions db) (approval_decisions db') \<and>
    rows_follow proposal_moves (approval_proposals db) (approval_proposals db') \<and>
    rows_follow offer_moves (supplier_quotes db) (supplier_quotes db') \<and>
    (\<forall>p \<in> set (approval_proposals db'). ap_proposal_type p \<noteq> MemberApplicationProposal \<longrightarrow> settled (ap_status p) \<longrightarrow>
       proposal_is_approved p db' \<and> required_approvals p \<le> card (ad_approver ` set (approvals_of p db')) \<and>
       in_order [] (map ad_role (approvals_of p db')))"
proof -
  let ?db = "run_ops (procurement_step env) reqs db"
  have i: "procurement_inv ?db" by (rule procurement.run_inv [OF assms(1)])
  have s: "procurement_safe env db ?db" by (rule procurement.run_rel [OF assms(1)])
  have "proposal_is_approved p ?db \<and> required_approvals p \<le> card (ad_approver ` set (approvals_of p ?db)) \<and>
       in_order [] (map ad_role (approvals_of p ?db))"
    if p: "p \<in> set (approval_proposals ?db)" "ap_proposal_type p \<noteq> MemberApplicationProposal" "settled (ap_status p)" for p
  proof -
    have "slot_ok p ?db" using i p(1) by (simp add: procurement_inv_def slots_inv_def)
    then have f: "fills_slots p (approvals_of p ?db)" "proposal_is_approved p ?db" using p by (simp_all add: slot_ok_def)
    then have "card (ad_approver ` set (approvals_of p ?db)) = length (approvals_of p ?db)"
      using distinct_card [of "map ad_approver (approvals_of p ?db)"] by (simp add: fills_slots_def)
    then show ?thesis using f filled_slots_count [OF f(2)] by (simp add: fills_slots_def)
  qed
  then show ?thesis using s assms(2) by (auto simp: Let_def procurement_safe_def audited_def)
qed

lemma example_proposals_tables [simp]:
  "approval_proposals example_proposals = []" "approval_decisions example_proposals = []" "supplier_quotes example_proposals = []"
  "system_events example_proposals = []" "resources example_proposals = [example_resource]" "resource_transactions example_proposals = []"
  by (simp_all add: example_proposals_def example_credentials_def example_org_defs credential_db.defs proposal_db.defs)

text \<open>A purchase of 1200 that governance and finance have approved.\<close>

definition example_purchase :: approval_proposal where
  "example_purchase = (new_slot_proposal (plain_env\<lparr>now := 1\<rparr>) ''1'' ProcurementAcceptance ''accept the quote: Rice''
     (example_member 2 ''M2'') ''supplier_quote:quote-1:acceptance'' ''supplier_quote'' ''quote-1'' [] [] TierStandard JNull)\<lparr>
       ap_status := ProposalApproved, ap_resolved_at := Some 3\<rparr>"

definition example_decided :: proposal_db where
  "example_decided = example_proposals\<lparr>approval_proposals := [example_purchase],
     approval_decisions := [new_decision (plain_env\<lparr>now := 2\<rparr>) ''1'' example_purchase (example_member 3 ''M3'') ''governance'' DecisionApproved [],
       new_decision (plain_env\<lparr>now := 3\<rparr>) ''2'' example_purchase (example_member 1 ''M1'') ''finance'' DecisionApproved []]\<rparr>"

theorem approvals_by_distinct_members_witness:
  "let db' = run_ops (procurement_step plain_env) [(4, legacy_fga, Execute ''proposal-1'' (example_member 3 ''M3''))] example_decided in
    chain_ok plain_env db' \<and> (\<exists>p \<in> set (approval_proposals db'). proposal_moves example_purchase p)"
proof -
  have inv: "procurement_inv example_decided" "chain_ok plain_env example_decided"
    by (simp_all add: procurement_inv_def slots_inv_def quotes_distinct_def slot_ok_def fills_slots_def settled_def
        example_decided_def example_purchase_def
        new_slot_proposal_def new_decision_def approvals_of_def proposal_is_approved_def proposal_approved_roles_def
        proposal_required_role_groups_def slot_filled_def valid_approval_roles_def example_member_def new_id_def)
  have p: "example_purchase \<in> set (approval_proposals example_decided)" by (simp add: example_decided_def)
  from approvals_by_distinct_members [OF inv, of "[(4, legacy_fga, Execute ''proposal-1'' (example_member 3 ''M3''))]"] p
  show ?thesis unfolding Let_def by (blast dest: rows_follow_in)
qed

text \<open>C28. A payment proposal can never be approved: finance is the only role it needs, finance may
  approve only after governance, and governance is not among its roles. For the same reason finance
  alone never decides a purchase, although one role out of governance and finance is enough for the
  lowest tier.\<close>

theorem payment_proposals_stuck:
  assumes "procurement_inv db"
  shows "let db' = run_ops (procurement_step env) reqs db in
    \<forall>p \<in> set (approval_proposals db'). ap_proposal_type p = ProcurementPayment \<longrightarrow> \<not> settled (ap_status p) \<and>
      (\<forall>env' f uid m role reason. \<exists>e. approve_proposal env' f uid (ap_proposal_id p) m role reason db' = Inl e)"
proof -
  let ?db = "run_ops (procurement_step env) reqs db"
  have i: "slots_inv ?db" using procurement.run_inv [OF assms] by (simp add: procurement_inv_def)
  have "\<not> settled (ap_status p) \<and> (\<exists>e. approve_proposal env' f uid (ap_proposal_id p) m role reason ?db = Inl e)"
    if p: "p \<in> set (approval_proposals ?db)" "ap_proposal_type p = ProcurementPayment" for p env' f uid m role reason
  proof -
    have none: "approvals_of x d = []" if "slots_inv d" "x \<in> set (approval_proposals d)" "ap_proposal_type x = ProcurementPayment"
      for x and d :: "'a proposal_db_scheme"
    proof -
      have "fills_slots x (approvals_of x d)" using that by (auto simp: slots_inv_def slot_ok_def)
      then show ?thesis using that(3)
        by (cases "approvals_of x d") (auto simp: fills_slots_def valid_approval_roles_def proposal_required_role_groups_def)
    qed
    have "slot_ok p ?db" using i p(1) by (simp add: slots_inv_def)
    then have u: "\<not> settled (ap_status p)" using none [OF i p] p(2)
      by (auto simp: slot_ok_def proposal_is_approved_def proposal_approved_roles_def proposal_required_role_groups_def slot_filled_def)
    show ?thesis
    proof (cases "approve_proposal env' f uid (ap_proposal_id p) m role reason ?db")
      case (Inr x)
      obtain p' db2 where x: "x = (p', db2)" by (cases x)
      from Inr obtain r where r: "proposal_row (ap_proposal_id p) ?db = Inr r" "open_for_role env' f m role r ?db = Inr ()"
          "slot_order_ok m role (approvals_of r ?db) = Inr ()"
        unfolding x by (rule approve_cases)
      have "r = p" using proposal_row_ok [OF r(1)] p(1) i distinct_map_unique [of ap_proposal_id "approval_proposals ?db" r p]
        by (simp add: slots_inv_def)
      with r none [OF i p] p(2) slot_order_okD(2) [OF r(3)] have False
        by (auto simp: open_for_role_def valid_approval_roles_def proposal_required_role_groups_def split: if_splits)
      then show ?thesis ..
    qed (use u in blast)
  qed
  then show ?thesis unfolding Let_def by blast
qed

definition example_payment :: proposal_db where
  "example_payment = example_proposals\<lparr>approval_proposals := [new_slot_proposal (plain_env\<lparr>now := 1\<rparr>) ''1'' ProcurementPayment
     ''pay the rice'' (example_member 2 ''M2'') ''payment:1'' [] [] [] [] TierSingle JNull]\<rparr>"

theorem payment_proposals_stuck_witness:
  "\<exists>e. approve_proposal plain_env legacy_fga ''2'' ''proposal-1'' (example_member 1 ''M1'') ''finance'' [] example_payment = Inl e"
proof -
  have "procurement_inv example_payment"
    by (simp add: procurement_inv_def slots_inv_def quotes_distinct_def slot_ok_def fills_slots_def settled_def
        example_payment_def new_slot_proposal_def approvals_of_def)
  from payment_proposals_stuck [OF this, of plain_env "[]"] show ?thesis
    by (simp add: example_payment_def new_slot_proposal_def new_id_def)
qed

subsection \<open>Goods enter the stock after approval\<close>

definition deliveries :: "supplier_quote \<Rightarrow> 'a resource_db_scheme \<Rightarrow> resource_transaction list" where
  "deliveries q db = filter (\<lambda>t. rt_related_supplier_quote t = Some (sq_quote_id q)) (resource_transactions db)"

text \<open>An accepted receipt has exactly one movement, of the offered quantity; other offers have none. Every
  offer has its one acceptance proposal, with the tier of the offer, executed before any receipt.\<close>

definition offer_ok :: "supplier_quote \<Rightarrow> 'a proposal_db_scheme \<Rightarrow> bool" where
  "offer_ok q db \<longleftrightarrow>
    (if sq_receipt_status q = ReceiptAccepted
     then \<exists>t. deliveries q db = [t] \<and> rt_resource t = sq_resource q \<and> rt_quantity_delta t = sq_available_quantity q
     else deliveries q db = []) \<and>
    (\<exists>p. acceptance_proposals q db = [p] \<and>
       ap_approval_tier p = supplier_quote_tier_to_proposal_tier (sq_approval_tier q) \<and>
       (sq_receipt_status q \<noteq> ReceiptPending \<longrightarrow> ap_status p = ProposalExecuted))"

definition acceptance_ok :: "approval_proposal \<Rightarrow> 'a proposal_db_scheme \<Rightarrow> bool" where
  "acceptance_ok p db \<longleftrightarrow> ap_proposal_type p = ProcurementAcceptance \<longrightarrow> ap_target_type p = ''supplier_quote'' \<and>
     ap_dedupe_key p = ''supplier_quote:'' @ ap_target_id p @ '':acceptance'' \<and>
     ap_target_id p \<in> sq_quote_id ` set (supplier_quotes db)"

definition purchase_inv :: "(string \<Rightarrow> int) \<Rightarrow> 'a proposal_db_scheme \<Rightarrow> bool" where
  "purchase_inv start db \<longleftrightarrow> procurement_inv db \<and> stock_inv start db \<and>
     (\<forall>t \<in> set (resource_transactions db). \<forall>i. rt_related_supplier_quote t = Some i \<longrightarrow> i \<in> sq_quote_id ` set (supplier_quotes db)) \<and>
     (\<forall>p \<in> set (approval_proposals db). acceptance_ok p db) \<and> (\<forall>q \<in> set (supplier_quotes db). offer_ok q db)"

lemma proposal_terms_sel [simp]:
  "ap_proposal_id (proposal_terms p) = ap_proposal_id p" "ap_proposal_type (proposal_terms p) = ap_proposal_type p"
  "ap_approval_tier (proposal_terms p) = ap_approval_tier p" "ap_target_type (proposal_terms p) = ap_target_type p"
  "ap_target_id (proposal_terms p) = ap_target_id p" "ap_dedupe_key (proposal_terms p) = ap_dedupe_key p"
  by (simp_all add: proposal_terms_def)

lemma executed_stays: "proposal_step\<^sup>*\<^sup>* ProposalExecuted s \<Longrightarrow> s = ProposalExecuted"
  by (erule converse_rtranclpE) simp_all

lemma proposal_movesD:
  assumes "proposal_moves p p'"
  shows "ap_proposal_type p' = ap_proposal_type p" "ap_approval_tier p' = ap_approval_tier p"
    "ap_target_type p' = ap_target_type p" "ap_target_id p' = ap_target_id p" "ap_dedupe_key p' = ap_dedupe_key p"
    "ap_status p = ProposalExecuted \<Longrightarrow> ap_status p' = ProposalExecuted"
proof -
  have t: "proposal_terms p' = proposal_terms p" and s: "proposal_step\<^sup>*\<^sup>* (ap_status p) (ap_status p')"
    using assms by (simp_all add: proposal_moves_def)
  show "ap_proposal_type p' = ap_proposal_type p" using arg_cong [OF t, of ap_proposal_type] by simp
  show "ap_approval_tier p' = ap_approval_tier p" using arg_cong [OF t, of ap_approval_tier] by simp
  show "ap_target_type p' = ap_target_type p" using arg_cong [OF t, of ap_target_type] by simp
  show "ap_target_id p' = ap_target_id p" using arg_cong [OF t, of ap_target_id] by simp
  show "ap_dedupe_key p' = ap_dedupe_key p" using arg_cong [OF t, of ap_dedupe_key] by simp
  show "ap_status p' = ProposalExecuted" if "ap_status p = ProposalExecuted" using s executed_stays by (simp add: that)
qed

lemma offer_movesD:
  assumes "offer_moves q q'"
  shows "sq_quote_id q' = sq_quote_id q" "sq_resource q' = sq_resource q" "sq_available_quantity q' = sq_available_quantity q"
    "sq_approval_tier q' = sq_approval_tier q"
  using assms by (simp_all add: offer_moves_def offer_terms_def)

text \<open>Filtering rows by what never changes.\<close>

lemma filter_follow:
  assumes "rows_follow R as bs" "\<And>a b. R a b \<Longrightarrow> P b = P a" "\<forall>b \<in> set (drop (length as) bs). \<not> P b"
  shows "list_all2 R (filter P as) (filter P bs)"
proof -
  have "filter P bs = filter P (take (length as) bs) @ filter P (drop (length as) bs)"
    by (metis append_take_drop_id filter_append)
  then have "filter P bs = filter P (take (length as) bs)" using assms(3) by (simp add: filter_empty_conv)
  moreover have "list_all2 R xs ys \<Longrightarrow> list_all2 R (filter P xs) (filter P ys)" for xs ys
    by (induction rule: list_all2_induct) (auto simp: assms(2))
  ultimately show ?thesis using assms(1) by (simp add: rows_follow_def)
qed

lemma acceptance_follow:
  assumes "rows_follow proposal_moves (approval_proposals db) (approval_proposals db')" "sq_quote_id q' = sq_quote_id q"
    "\<forall>p \<in> set (drop (length (approval_proposals db)) (approval_proposals db')).
       \<not> (ap_proposal_type p = ProcurementAcceptance \<and> ap_target_id p = sq_quote_id q)"
  shows "list_all2 proposal_moves (acceptance_proposals q db) (acceptance_proposals q' db')"
  unfolding acceptance_proposals_def assms(2)
  by (rule filter_follow [OF assms(1)]) (use assms(3) in \<open>auto dest: proposal_movesD(1,3,4)\<close>)

lemma offer_ok_follow:
  assumes "offer_ok q db" "offer_moves q q'" "sq_receipt_status q' = sq_receipt_status q"
    "deliveries q' db' = deliveries q db" "list_all2 proposal_moves (acceptance_proposals q db) (acceptance_proposals q' db')"
  shows "offer_ok q' db'"
proof -
  from assms(1) obtain p where p: "acceptance_proposals q db = [p]"
      "ap_approval_tier p = supplier_quote_tier_to_proposal_tier (sq_approval_tier q)"
      "sq_receipt_status q \<noteq> ReceiptPending \<longrightarrow> ap_status p = ProposalExecuted"
    by (auto simp: offer_ok_def)
  with assms(5) obtain p' where p': "acceptance_proposals q' db' = [p']" "proposal_moves p p'"
    by (auto simp: list_all2_Cons1)
  note m = offer_movesD [OF assms(2)]
  have "\<exists>p. acceptance_proposals q' db' = [p] \<and> ap_approval_tier p = supplier_quote_tier_to_proposal_tier (sq_approval_tier q') \<and>
       (sq_receipt_status q' \<noteq> ReceiptPending \<longrightarrow> ap_status p = ProposalExecuted)"
    using p p' proposal_movesD(2,6) [OF p'(2)] m(4) assms(3) by auto
  then show ?thesis using assms(1,3,4) m by (auto simp: offer_ok_def)
qed

lemma all2_right: "list_all2 R xs ys \<Longrightarrow> y \<in> set ys \<Longrightarrow> \<exists>x \<in> set xs. R x y"
  by (induction rule: list_all2_induct) auto

text \<open>A service that records no receipt and creates no offer and no acceptance proposal.\<close>

lemma purchase_kept:
  assumes inv: "purchase_inv start db" and i: "procurement_inv db'" and s: "procurement_safe env db db'"
    and stock: "resources db' = resources db" "resource_transactions db' = resource_transactions db"
    and r: "map sq_receipt_status (supplier_quotes db') = map sq_receipt_status (supplier_quotes db)"
    and new: "\<forall>p \<in> set (drop (length (approval_proposals db)) (approval_proposals db')). ap_proposal_type p \<noteq> ProcurementAcceptance"
  shows "purchase_inv start db'"
proof -
  have f: "rows_follow proposal_moves (approval_proposals db) (approval_proposals db')"
    "rows_follow offer_moves (supplier_quotes db) (supplier_quotes db')" using s by (simp_all add: procurement_safe_def)
  have len: "length (supplier_quotes db') = length (supplier_quotes db)" using arg_cong [OF r, of length] by simp
  with f(2) have all2: "list_all2 offer_moves (supplier_quotes db) (supplier_quotes db')" by (simp add: rows_follow_def)
  then have ids: "map sq_quote_id (supplier_quotes db') = map sq_quote_id (supplier_quotes db)"
    by (induction rule: list_all2_induct) (auto dest: offer_movesD(1))
  have ids': "sq_quote_id ` set (supplier_quotes db') = sq_quote_id ` set (supplier_quotes db)"
    using arg_cong [OF ids, of set] by simp
  have "stock_inv start db'" using inv stock by (simp add: purchase_inv_def stock_inv_def movements_def)
  moreover have "acceptance_ok p db'" if p: "p \<in> set (approval_proposals db')" for p
  proof -
    have "p \<in> set (take (length (approval_proposals db)) (approval_proposals db')) \<or>
        p \<in> set (drop (length (approval_proposals db)) (approval_proposals db'))"
      using p by (metis Un_iff append_take_drop_id set_append)
    then show ?thesis
    proof
      assume "p \<in> set (take (length (approval_proposals db)) (approval_proposals db'))"
      with f(1) obtain x where x: "x \<in> set (approval_proposals db)" "proposal_moves x p"
        unfolding rows_follow_def using all2_right by metis
      then show ?thesis using inv proposal_movesD [OF x(2)] by (auto simp: purchase_inv_def acceptance_ok_def ids')
    qed (use new in \<open>simp add: acceptance_ok_def\<close>)
  qed
  moreover have "offer_ok q' db'" if q': "q' \<in> set (supplier_quotes db')" for q'
  proof -
    from q' obtain n where n: "n < length (supplier_quotes db')" "q' = supplier_quotes db' ! n" by (auto simp: in_set_conv_nth)
    let ?q = "supplier_quotes db ! n"
    have q: "?q \<in> set (supplier_quotes db)" "offer_moves ?q q'" using n len all2 by (auto simp: list_all2_conv_all_nth)
    have rs: "sq_receipt_status q' = sq_receipt_status ?q" using n len arg_cong [OF r, of "\<lambda>l. l ! n"] by simp
    note m = offer_movesD(1) [OF q(2)]
    have "list_all2 proposal_moves (acceptance_proposals ?q db) (acceptance_proposals q' db')"
      by (rule acceptance_follow [OF f(1) m]) (use new in simp)
    then show ?thesis
      using inv q(1) by (intro offer_ok_follow [OF _ q(2) rs]) (simp_all add: purchase_inv_def deliveries_def stock m)
  qed
  ultimately show ?thesis using inv i by (simp add: purchase_inv_def stock ids')
qed

lemma offer_ok_cong:
  "offer_ok q db \<Longrightarrow> deliveries q db' = deliveries q db \<Longrightarrow> acceptance_proposals q db' = acceptance_proposals q db \<Longrightarrow> offer_ok q db'"
  by (simp add: offer_ok_def)

lemma new_quote_sel [simp]:
  "sq_receipt_status (new_quote env uid r m ty n pr cur mn ld ql nts vis nm) = ReceiptPending"
  "sq_quote_id (new_quote env uid r m ty n pr cur mn ld ql nts vis nm) = new_id ''quote'' uid"
  by (simp_all add: new_quote_def)

lemma parse_acceptance [simp]:
  "parse_proposal_type ''procurement_acceptance'' = Some ProcurementAcceptance" "parse_proposal_tier (proposal_tier_value t) = Some t"
  "proposal_tier_value t \<noteq> []"
  by (cases t; simp add: parse_proposal_type_def parse_proposal_tier_def)+

lemma purchase_submit:
  assumes inv: "purchase_inv start db"
    and s: "submit_resource_offer env f uid1 uid2 r m ty quantity price cur mn lead quality nts vis nm db = Inr (q, db')"
  shows "purchase_inv start db'"
  using s
proof (cases rule: submit_offer_cases)
  case (1 oty db1 p db2)
  have fresh: "sq_quote_id q \<notin> sq_quote_id ` set (supplier_quotes db)" using 1(6) by auto
  have eq: "approval_proposals db2 = approval_proposals db" "supplier_quotes db2 = supplier_quotes db @ [q]"
    "resources db2 = resources db" "resource_transactions db2 = resource_transactions db"
    using events_only_proposals(1,2) [OF 1(8)] by (simp_all add: 1(7) same_offers_def same_proposals_def)
  have rec: "sq_receipt_status q = ReceiptPending" by (simp add: 1(1))
  have ok: "acceptance_ok x db" if "x \<in> set (approval_proposals db)" for x using inv that by (simp add: purchase_inv_def)
  from 1(9) obtain es where pq: "ap_proposal_type p = ProcurementAcceptance" "ap_target_type p = ''supplier_quote''"
      "ap_target_id p = sq_quote_id q" "ap_dedupe_key p = acceptance_key q"
      "ap_approval_tier p = supplier_quote_tier_to_proposal_tier (sq_approval_tier q)"
    and d: "db' = db2\<lparr>approval_proposals := approval_proposals db2 @ [p], system_events := es\<rparr>"
  proof (cases rule: create_proposal_cases)
    case (Existing pty)
    then have "acceptance_ok p db" "ap_dedupe_key p = ''supplier_quote:'' @ sq_quote_id q @ '':acceptance''"
      "ap_proposal_type p = ProcurementAcceptance" using ok by (simp_all add: eq acceptance_key_def)
    then have False using fresh by (auto simp: acceptance_ok_def)
    then show ?thesis ..
  next
    case (New pty ptier es)
    show ?thesis by (rule that [of es]) (use New in \<open>auto simp: new_slot_proposal_def\<close>)
  qed
  have acc: "acceptance_proposals x db' = acceptance_proposals x db @ (if sq_quote_id x = sq_quote_id q then [p] else [])" for x
    using pq by (simp add: acceptance_proposals_def d eq)
  have del: "deliveries x db' = deliveries x db" for x by (simp add: deliveries_def d eq)
  have "acceptance_proposals q db = []"
  proof -
    have "ap_target_id x \<noteq> sq_quote_id q" if "x \<in> set (approval_proposals db)" "ap_proposal_type x = ProcurementAcceptance" for x
      using ok [OF that(1)] that(2) fresh by (auto simp: acceptance_ok_def)
    then show ?thesis by (auto simp: acceptance_proposals_def filter_empty_conv)
  qed
  moreover have "deliveries q db = []" using inv fresh
    by (auto simp: deliveries_def filter_empty_conv purchase_inv_def)
  ultimately have "offer_ok q db'" using pq rec by (simp add: offer_ok_def acc del)
  moreover have "offer_ok x db'" if x: "x \<in> set (supplier_quotes db)" for x
  proof (rule offer_ok_cong)
    show "offer_ok x db" using inv x by (simp add: purchase_inv_def)
    have "sq_quote_id x \<noteq> sq_quote_id q" using fresh x by (metis imageI)
    then show "acceptance_proposals x db' = acceptance_proposals x db" by (simp add: acc)
  qed (simp add: del)
  moreover have "acceptance_ok x db'" if "x \<in> set (approval_proposals db')" for x
    using that ok pq by (auto simp: d eq acceptance_ok_def acceptance_key_def)
  moreover have "stock_inv start db'" using inv by (simp add: purchase_inv_def stock_inv_def movements_def d eq)
  moreover have "procurement_inv db'"
    using submit_safe [OF _ _ s] inv by (simp add: purchase_inv_def procurement_inv_def)
  ultimately show ?thesis using inv by (auto simp: purchase_inv_def d eq)
qed

lemma ready_executed:
  assumes "quote_is_ready_for_receipt q db" "acceptance_proposals q db = [p]" shows "ap_status p = ProposalExecuted"
  using assms by (simp add: quote_is_ready_for_receipt_def split: if_splits)

lemma purchase_receipt:
  assumes inv: "purchase_inv start db" and r: "record_offer_receipt env dt de qid m status nts day db = Inr ((q', t), db')"
  shows "purchase_inv start db'"
  using r
proof (cases rule: receipt_cases)
  case (1 q s db1)
  note a = receipt_allowedD [OF 1(2)] and q = quote_row_ok [OF 1(1)]
  have i: "procurement_inv db" "stock_inv start db" "offer_ok q db" using inv q by (auto simp: purchase_inv_def)
  have qd: "distinct (map sq_quote_id (supplier_quotes db))" using i(1) by (simp add: procurement_inv_def quotes_distinct_def)
  have id: "sq_quote_id q' = qid" using q by (simp add: 1(3))
  have sp: "same_proposals db db'" using receipt_safe [OF _ r] i(1) by (simp add: procurement_inv_def)
  have ev: "same_offers (db1\<lparr>supplier_quotes := update_rows (\<lambda>x. sq_quote_id x = qid) (\<lambda>_. q') (supplier_quotes db1)\<rparr>) db'"
    by (rule events_only_proposals(1) [OF 1(5)])
  obtain ts where ts: "resource_transactions db' = resource_transactions db @ ts" "supplier_quotes db1 = supplier_quotes db"
    "stock_inv start db'" "\<forall>x \<in> set ts. rt_related_supplier_quote x = Some qid"
    "if s = ReceiptAccepted then \<exists>x. ts = [x] \<and> rt_resource x = sq_resource q \<and> rt_quantity_delta x = sq_available_quantity q else ts = []"
  proof (cases "s = ReceiptAccepted")
    case True
    then obtain tx where tx: "take_delivery env dt de q m nts day db = Inr (tx, db1)" using 1(4) by auto
    note df = delivery_frame [OF tx]
    have "stock_inv start db'" using df(8) [OF i(2)] ev by (simp add: same_offers_def stock_inv_def movements_def)
    then show ?thesis using that [of "[tx]"] df(2,4-7) True ev q by (simp add: same_offers_def)
  next
    case False
    then have "db1 = db" using 1(4) by simp
    then show ?thesis using that [of "[]"] ev i(2) False by (simp add: same_offers_def stock_inv_def movements_def)
  qed
  have quotes: "supplier_quotes db' = update_rows (\<lambda>x. sq_quote_id x = qid) (\<lambda>_. q') (supplier_quotes db)"
    using ev ts(2) by (simp add: same_offers_def)
  have acc: "acceptance_proposals x db' = acceptance_proposals x db" for x
    using sp by (simp add: acceptance_proposals_def same_proposals_def)
  have del: "deliveries x db' = deliveries x db @ (if sq_quote_id x = qid then ts else [])" for x
    using ts(4) by (auto simp: deliveries_def ts(1) filter_empty_conv intro: filter_True)
  have ids: "map sq_quote_id (supplier_quotes db') = map sq_quote_id (supplier_quotes db)"
    unfolding quotes by (rule map_update_rows) (simp add: id)
  have ids': "sq_quote_id ` set (supplier_quotes db') = sq_quote_id ` set (supplier_quotes db)"
    using arg_cong [OF ids, of set] by simp
  have "offer_ok q' db'"
  proof -
    from i(3) obtain p where p: "acceptance_proposals q db = [p]"
        "ap_approval_tier p = supplier_quote_tier_to_proposal_tier (sq_approval_tier q)" and nd: "deliveries q db = []"
      using a(2) by (auto simp: offer_ok_def)
    have ex: "ap_status p = ProposalExecuted" by (rule ready_executed [OF a(4) p(1)])
    have "acceptance_proposals q' db' = [p]" using p(1) q sp by (simp add: acceptance_proposals_def 1(3) same_proposals_def)
    moreover have "deliveries q' db' = ts" using nd q by (simp add: del id) (simp add: deliveries_def 1(3))
    moreover have "sq_receipt_status q' = s" "sq_resource q' = sq_resource q" "sq_approval_tier q' = sq_approval_tier q"
      "sq_available_quantity q' = sq_available_quantity q" by (simp_all add: 1(3))
    ultimately show ?thesis using ts(5) p(2) ex unfolding offer_ok_def by (cases "s = ReceiptAccepted") simp_all
  qed
  moreover have "offer_ok x db'" if "x \<in> set (supplier_quotes db)" "sq_quote_id x \<noteq> qid" for x
    by (rule offer_ok_cong [of x db]) (use that inv in \<open>simp_all add: purchase_inv_def acc del\<close>)
  ultimately have "\<forall>x \<in> set (supplier_quotes db'). offer_ok x db'" by (auto simp: quotes set_update_rows)
  moreover have "procurement_inv db'"
    using receipt_safe [OF _ r] i(1) slots_inv_cong [OF sp] by (simp add: procurement_inv_def)
  moreover have "\<forall>x \<in> set (approval_proposals db'). acceptance_ok x db'"
    using inv sp by (simp add: purchase_inv_def acceptance_ok_def ids' same_proposals_def)
  moreover have "qid \<in> sq_quote_id ` set (supplier_quotes db)" using q by blast
  ultimately show ?thesis using inv ts(1,3,4) by (auto simp: purchase_inv_def ids')
qed

text \<open>The services as the pages call them: acceptance proposals come from submitted offers only.\<close>

fun from_pages :: "procurement_op \<Rightarrow> bool" where
  "from_pages (Propose uid ty title m key tt ti summary reason tier meta) = (ty \<noteq> ''procurement_acceptance'')"
| "from_pages call = True"

definition purchase_step ::
    "env \<Rightarrow> time \<times> fga \<times> procurement_op \<Rightarrow> 'a proposal_db_scheme \<Rightarrow> (unit \<times> 'a proposal_db_scheme) result" where
  "purchase_step env x db = (if from_pages (snd (snd x)) then procurement_step env x db else Inr ((), db))"

lemma receipts_update:
  assumes "quotes_distinct db" "quote_row qid db = Inr q" "sq_quote_id q' = qid" "sq_receipt_status q' = sq_receipt_status q"
  shows "map sq_receipt_status (update_rows (\<lambda>x. sq_quote_id x = qid) (\<lambda>_. q') (supplier_quotes db)) =
    map sq_receipt_status (supplier_quotes db)"
  using assms quote_row_ok [OF assms(2)]
  by (intro update_unique_row(2) [of sq_quote_id _ q]) (simp_all add: quotes_distinct_def)

lemma decide_offer_receipts:
  assumes "quotes_distinct db"
    "accept_resource_offer env qid m reason db = Inr (q', db') \<or> reject_resource_offer env qid m reason db = Inr (q', db')"
  shows "map sq_receipt_status (supplier_quotes db') = map sq_receipt_status (supplier_quotes db)"
proof -
  from assms(2) obtain q es where q: "quote_row qid db = Inr q" "sq_decision_status q = QuoteSubmitted"
    and q': "q' = q\<lparr>sq_decision_status := QuoteAccepted, sq_accepted_by := Some (m_id m), sq_accepted_at := Some (now env),
        sq_decision_reason := reason, sq_updated_at := Some (now env)\<rparr> \<or>
     q' = q\<lparr>sq_decision_status := QuoteRejected, sq_rejected_by := Some (m_id m), sq_rejected_at := Some (now env),
        sq_decision_reason := reason, sq_updated_at := Some (now env)\<rparr>"
    and d: "db' = db\<lparr>supplier_quotes := update_rows (\<lambda>x. sq_quote_id x = qid) (\<lambda>_. q') (supplier_quotes db), system_events := es\<rparr>"
    by (rule decide_offer_cases)
  have "sq_quote_id q' = qid" "sq_receipt_status q' = sq_receipt_status q" using q' quote_row_ok [OF q(1)] by auto
  from receipts_update [OF assms(1) q(1) this] show ?thesis by (simp add: d)
qed

lemmas accept_receipts = decide_offer_receipts [OF _ disjI1] and reject_receipts = decide_offer_receipts [OF _ disjI2]

text \<open>What deciding, executing and completing leave alone.\<close>

definition quiet :: "'a proposal_db_scheme \<Rightarrow> 'a proposal_db_scheme \<Rightarrow> bool" where
  "quiet db db' \<longleftrightarrow> resources db' = resources db \<and> resource_transactions db' = resource_transactions db \<and>
     map sq_receipt_status (supplier_quotes db') = map sq_receipt_status (supplier_quotes db) \<and>
     length (approval_proposals db') = length (approval_proposals db)"

lemma quiet_accept: "quotes_distinct db \<Longrightarrow> accept_resource_offer env qid m reason db = Inr (q', db') \<Longrightarrow> quiet db db'"
  using accept_frame [of env qid m reason db q' db'] accept_receipts [of db env qid m reason q' db']
  by (simp add: quiet_def same_proposals_def)

lemma quiet_reject_offer: "quotes_distinct db \<Longrightarrow> reject_resource_offer env qid m reason db = Inr (q', db') \<Longrightarrow> quiet db db'"
  using reject_frame [of env qid m reason db q' db'] reject_receipts [of db env qid m reason q' db']
  by (simp add: quiet_def same_proposals_def)

lemma length_update_rows [simp]: "length (update_rows P u xs) = length xs"
  by (simp add: update_rows_def)

lemma quiet_approve: "approve_proposal env f uid pid m role reason db = Inr (p', db') \<Longrightarrow> quiet db db'"
  by (erule approve_cases) (simp add: quiet_def)

lemma events_only_quiet: "events_only env db db' \<Longrightarrow> quiet db db'"
  using events_only_proposals(1,2) [of env db db'] by (simp add: quiet_def same_offers_def same_proposals_def)

lemma quiet_refl: "quiet db db"
  by (simp add: quiet_def)

lemma quiet_trans: "quiet a b \<Longrightarrow> quiet b c \<Longrightarrow> quiet a c"
  by (simp add: quiet_def)

lemma quiet_reject:
  assumes inv: "quotes_distinct db" and r: "reject_proposal env f uid pid m role reason db = Inr (p', db')"
  shows "quiet db db'"
  using r
proof (cases rule: reject_cases)
  case (1 p db1 db2)
  have q1: "quiet db db1" by (simp add: 1(3) quiet_def)
  have "quotes_distinct db1" using inv by (simp add: 1(3) quotes_distinct_def)
  then have "quiet db1 db2" using 1(5) quiet_reject_offer quiet_refl by metis
  then show ?thesis using q1 events_only_quiet [OF 1(6)] quiet_trans by blast
qed

lemma quiet_execute:
  assumes inv: "quotes_distinct db" and r: "execute_proposal env f pid m db = Inr (p', db')"
  shows "quiet db db'"
  using r
proof (cases rule: execute_cases)
  case (Run p db1)
  have "quiet db db1" using inv Run(5) quiet_accept quiet_refl by metis
  moreover have "quiet db1 (db1\<lparr>approval_proposals := update_rows (\<lambda>x. ap_proposal_id x = pid) (\<lambda>_. p') (approval_proposals db1)\<rparr>)"
    by (simp add: quiet_def)
  ultimately show ?thesis using events_only_quiet [OF Run(6)] quiet_trans by blast
qed (simp add: quiet_def)

lemma quiet_complete:
  assumes inv: "quotes_distinct db" and c: "mark_offer_paid_or_donated env uid qid actor db = Inr (q', db')"
  shows "quiet db db'"
  using c
proof (cases rule: complete_cases)
  case (1 q c db1)
  have q1: "quiet db db1" "supplier_quotes db1 = supplier_quotes db" using 1(5) by (auto simp: credentials_only_def quiet_def)
  have "sq_quote_id q' = qid" "sq_receipt_status q' = sq_receipt_status q"
    using quote_row_ok [OF 1(1)] by (simp_all add: 1(4) paid_quote_def)
  from receipts_update [OF inv 1(1) this]
  have "quiet db1 (db1\<lparr>supplier_quotes := update_rows (\<lambda>x. sq_quote_id x = qid) (\<lambda>_. q') (supplier_quotes db1)\<rparr>)"
    by (simp add: quiet_def q1(2))
  then show ?thesis using q1(1) events_only_quiet [OF 1(6)] quiet_trans by blast
qed

lemma purchase_quiet:
  assumes "purchase_inv start db" "procurement_inv db'" "procurement_safe env db db'" "quiet db db'"
  shows "purchase_inv start db'"
  by (rule purchase_kept [OF assms(1-3)]) (use assms(4) in \<open>simp_all add: quiet_def\<close>)

lemma purchase_service:
  assumes inv: "purchase_inv start db" and o: "from_pages call" and s: "procurement_service env f call db = Inr (u, db')"
  shows "purchase_inv start db'"
proof -
  have i: "procurement_inv db" using inv by (simp add: purchase_inv_def)
  then have qd: "quotes_distinct db" by (simp add: procurement_inv_def)
  have ok: "procurement_inv db'" "procurement_safe env db db'" using procurement_service_ok [OF i s] by auto
  note keep = purchase_quiet [OF inv ok]
  show ?thesis
  proof (cases call)
    case (Propose uid ty title m key tt ti summary reason tier meta)
    with s obtain p where c: "create_approval_proposal env f uid ty title m key tt ti summary reason tier meta db = Inr (p, db')" by auto
    note fr = create_proposal_safe [OF c]
    have "\<forall>x \<in> set (drop (length (approval_proposals db)) (approval_proposals db')). ap_proposal_type x \<noteq> ProcurementAcceptance"
      using c
    proof (cases rule: create_proposal_cases)
      case (New pty ptier es)
      have "pty \<noteq> ProcurementAcceptance" using o Propose New(1) by (auto simp: parse_proposal_type_def split: if_splits)
      then show ?thesis by (simp add: New(6)) (simp add: New(4) new_slot_proposal_def)
    qed simp
    then show ?thesis by (intro purchase_kept [OF inv ok]) (simp_all add: fr)
  next
    case (SubmitOffer uid1 uid2 r m ty quantity price cur mn lead quality nts vis nm)
    then show ?thesis using s purchase_submit [OF inv] by auto
  next
    case (ReceiveOffer dt de qid m status nts day)
    then show ?thesis using s purchase_receipt [OF inv] by auto
  next
    case (Approve uid pid m role reason)
    then show ?thesis using s by (auto intro: keep quiet_approve)
  next
    case (Reject uid pid m role reason)
    then show ?thesis using s by (auto intro: keep quiet_reject [OF qd])
  next
    case (Execute pid m)
    then show ?thesis using s by (auto intro: keep quiet_execute [OF qd])
  next
    case (AcceptOffer qid m reason)
    then show ?thesis using s by (auto intro: keep quiet_accept [OF qd])
  next
    case (RejectOffer qid m reason)
    then show ?thesis using s by (auto intro: keep quiet_reject_offer [OF qd])
  next
    case (CompleteOffer uid qid m)
    then show ?thesis using s by (auto intro: keep quiet_complete [OF qd])
  qed
qed

interpretation purchases: state_service "purchase_step env" "purchase_inv start" for env start
proof
  fix db db' :: "'a proposal_db_scheme" and x r
  show "purchase_inv start db'" if "purchase_inv start db" "purchase_step env x db = Inr (r, db')"
    using that purchase_service [OF that(1)] by (auto simp: purchase_step_def procurement_step_def split: if_splits)
qed

lemma run_purchase:
  "list_all (\<lambda>x. from_pages (snd (snd x))) reqs \<Longrightarrow> run_ops (procurement_step env) reqs db = run_ops (purchase_step env) reqs db"
  by (induction reqs arbitrary: db) (auto simp: purchase_step_def split: sum.splits)

subsection \<open>Properties of purchases\<close>

definition tier_approvals :: "quote_tier \<Rightarrow> nat" where
  "tier_approvals t = (case t of QuoteSmall \<Rightarrow> 1 | QuoteStandard \<Rightarrow> 2 | QuoteMajor \<Rightarrow> 3)"


text \<open>Ten kilograms for 120 each, approved, executed and received.\<close>

definition example_offer :: supplier_quote where
  "example_offer = (new_quote (plain_env\<lparr>now := 1\<rparr>) ''1'' example_resource (example_member 2 ''M2'') OfferQuote 10000 12000 ''CNY'' 0 0
     [] [] ''public'' [])\<lparr>sq_decision_status := QuoteAccepted, sq_receipt_status := ReceiptAccepted\<rparr>"

definition example_received :: proposal_db where
  "example_received = example_decided\<lparr>approval_proposals := [example_purchase\<lparr>ap_status := ProposalExecuted\<rparr>],
     supplier_quotes := [example_offer], resources := [example_resource\<lparr>rs_current_stock := 15000\<rparr>],
     resource_transactions := [(stock_movement plain_env ''t1'' example_resource 10000 JNull [] ByPurchase)\<lparr>
       rt_related_supplier_quote := Some ''quote-1''\<rparr>]\<rparr>"

lemma example_received_ok: "purchase_inv (\<lambda>_. 5000) example_received"
proof -
  note ex = example_received_def example_decided_def example_purchase_def example_offer_def new_slot_proposal_def new_decision_def
    new_id_def
  have "procurement_inv example_received"
    by (simp add: procurement_inv_def slots_inv_def quotes_distinct_def slot_ok_def fills_slots_def settled_def ex
        approvals_of_def proposal_is_approved_def proposal_approved_roles_def proposal_required_role_groups_def
        slot_filled_def valid_approval_roles_def)
  moreover have "stock_inv (\<lambda>_. 5000) example_received"
    by (simp add: stock_inv_def movements_def ex example_resource_def)
  moreover have "\<forall>p \<in> set (approval_proposals example_received). acceptance_ok p example_received"
    by (simp add: acceptance_ok_def ex)
  moreover have "offer_ok example_offer example_received"
    by (simp add: offer_ok_def deliveries_def acceptance_proposals_def ex)
      (simp add: new_quote_def example_resource_def compute_procurement_approval_tier_def exact_total_def
        SMALL_PURCHASE_LIMIT_def STANDARD_PURCHASE_LIMIT_def)
  ultimately show ?thesis
    unfolding purchase_inv_def by (simp add: ex)
qed


end
