(* ===== verification/Electorate.thy ===== *)
theory Electorate
  imports Procurement_History
begin

text \<open>
  Proposals that an electorate decides: rules and their published versions, the frozen electorate
  (\<^verbatim>\<open>core/electorate_rule_services.py\<close>), the vote from draft to resolution and execution
  (\<^verbatim>\<open>core/unified_proposal_services.py\<close>), and the admission of a member that an approved proposal
  executes (\<^verbatim>\<open>core/member_admission_proposal_adapter.py\<close>).

  A service gets the identifiers of the rows it is called with and reads them again, as the code
  does. Where the code catches an exception inside its transaction, the model goes on from the state
  before the guarded block.
\<close>

subsection \<open>Rules\<close>

definition MANAGE_PROPOSAL_POLICIES_PERMISSION :: string where
  "MANAGE_PROPOSAL_POLICIES_PERMISSION = ''governance.manage_proposal_policies''"

definition MEMBER_ADMISSION_EXECUTION_PERMISSION :: string where
  "MEMBER_ADMISSION_EXECUTION_PERMISSION = ''governance.manage_people''"

definition MEMBER_ADMISSION_RESOLUTION_PERMISSION :: string where
  "MEMBER_ADMISSION_RESOLUTION_PERMISSION = ''governance.resolve_proposals''"

definition require_permission :: "env \<Rightarrow> fga \<Rightarrow> member \<Rightarrow> string \<Rightarrow> string \<Rightarrow> 'a role_db_scheme \<Rightarrow> unit result" where
  "require_permission env f m code message db =
    (if code = [] then ensure_authorization_available f m
     else and_then (member_has_permission env f m code None (now env) db) (\<lambda>b.
       if b then Inr () else Inl (DomainError message)))"

definition rule_template_row :: "string \<Rightarrow> 'a proposal_db_scheme \<Rightarrow> electorate_rule_template result" where
  "rule_template_row code db = (case find_row (\<lambda>t. et_rule_code t = code) (rule_templates db) of
     None \<Rightarrow> Inl (DoesNotExist ''ElectorateRuleTemplate'') | Some t \<Rightarrow> Inr t)"

definition create_electorate_rule_template ::
    "env \<Rightarrow> fga \<Rightarrow> string \<Rightarrow> string \<Rightarrow> string \<Rightarrow> member \<Rightarrow> string \<Rightarrow> 'a proposal_db_scheme \<Rightarrow>
     (electorate_rule_template \<times> 'a proposal_db_scheme) result" where
  "create_electorate_rule_template env f proposal_type rule_code name m description db =
    and_then (require_permission env f m MANAGE_PROPOSAL_POLICIES_PERMISSION ''the member may not maintain policies'' db) (\<lambda>_.
      if rule_code = [] \<or> proposal_type = [] then Inl (DomainError ''the rule code and the proposal type are required'')
      else case find_row (\<lambda>t. et_rule_code t = rule_code) (rule_templates db) of
        Some t \<Rightarrow>
          if et_proposal_type t \<noteq> proposal_type then Inl (DomainError ''the rule code belongs to another proposal type'')
          else Inr (t, db)
      | None \<Rightarrow>
          let t = \<lparr>et_rule_code = rule_code, et_proposal_type = proposal_type, et_name = name, et_description = description,
                et_is_active = True, et_created_by = m_id m, et_created_at = now env, et_updated_at = now env\<rparr>
          in Inr (t, db\<lparr>rule_templates := rule_templates db @ [t]\<rparr>))"

definition next_version :: "string \<Rightarrow> 'a proposal_db_scheme \<Rightarrow> int" where
  "next_version code db = foldr (\<lambda>v n. if rv_template v = code then max (rv_version v) n else n) (rule_versions db) 0 + 1"

definition electorate_rule_payload :: "electorate_rule_version \<Rightarrow> electorate_rule_template \<Rightarrow> member \<Rightarrow> json" where
  "electorate_rule_payload v t actor =
    public_event_payload ''electorate_rule_version'' (public_ref [''electorate-rule'', rv_rule_version_id v]) (et_name t)
      ''published'' ''published'' (''a new version of the rule '' @ et_name t @ '' was published.'')
      [(''rule_code'', JStr (rv_template v)), (''rule_version'', JInt (rv_version v)),
       (''proposal_type'', JStr (et_proposal_type t)),
       (''published_by_display'', JStr (public_member_label (m_display_name actor) (m_member_no actor))),
       (''published_at'', JStr (isoformat (rv_published_at v)))]
      [private_commitment ''selector_config'' True ''internal selector configuration'']"

definition insert_rule_version :: "electorate_rule_version \<Rightarrow> 'a proposal_db_scheme \<Rightarrow> 'a proposal_db_scheme result" where
  "insert_rule_version v db =
    (if exists_row (\<lambda>x. rv_rule_version_id x = rv_rule_version_id v \<or>
          rv_template x = rv_template v \<and> rv_version x = rv_version v) (rule_versions db)
     then Inl IntegrityError else Inr (db\<lparr>rule_versions := rule_versions db @ [v]\<rparr>))"

definition publish_electorate_rule_version ::
    "env \<Rightarrow> fga \<Rightarrow> string \<Rightarrow> string \<Rightarrow> json \<Rightarrow> int \<Rightarrow> int \<Rightarrow> int \<Rightarrow> int \<Rightarrow> string \<Rightarrow> member \<Rightarrow> 'a proposal_db_scheme \<Rightarrow>
     (electorate_rule_version \<times> 'a proposal_db_scheme) result" where
  "publish_electorate_rule_version env f uid code config approve reject minimum hours unresolved m db =
    and_then (require_permission env f m MANAGE_PROPOSAL_POLICIES_PERMISSION ''the member may not publish policies'' db) (\<lambda>_.
    and_then (rule_template_row code db) (\<lambda>t.
      if \<not> et_is_active t then Inl (DomainError ''the template publishes no more'')
      else and_then (validate_selector_config config db) (\<lambda>validated.
        if approve < 1 \<or> reject < 1 \<or> hours < 1 \<or> minimum < 0 then Inl (DomainError ''the thresholds must be positive'')
        else if unresolved \<notin> {''rejected'', ''expired''} then Inl (DomainError ''the unresolved outcome is invalid'')
        else
          let v = \<lparr>rv_rule_version_id = new_id ''rule-version'' uid, rv_template = et_rule_code t, rv_version = next_version code db,
                rv_selector_config = validated, rv_approve_threshold = approve, rv_reject_threshold = reject,
                rv_minimum_participation = minimum, rv_voting_duration_hours = hours, rv_unresolved_outcome = unresolved,
                rv_published_by = m_id m, rv_published_at = now env\<rparr>
          in and_then (insert_rule_version v db) (\<lambda>db1.
             and_then (append_event env ''electorate_rule_published'' ''ElectorateRuleVersion'' (rv_rule_version_id v)
               (Some (m_id m)) None (electorate_rule_payload v t m) (Some (rv_published_at v)) db1) (\<lambda>(e, db2).
             Inr (v, db2))))))"

text \<open>The newest published version for a proposal type, by publication and then by version.\<close>

definition newer_version :: "electorate_rule_version \<Rightarrow> electorate_rule_version \<Rightarrow> bool" where
  "newer_version v w \<longleftrightarrow> rv_published_at w < rv_published_at v \<or> rv_published_at w = rv_published_at v \<and> rv_version w < rv_version v"

definition latest_published_rule_for_proposal_type ::
    "string \<Rightarrow> 'a proposal_db_scheme \<Rightarrow> electorate_rule_version option" where
  "latest_published_rule_for_proposal_type ty db =
    foldl (\<lambda>best v. case best of None \<Rightarrow> Some v | Some b \<Rightarrow> if newer_version v b then Some v else best) None
      (filter (\<lambda>v. exists_row (\<lambda>t. et_rule_code t = rv_template v \<and> et_proposal_type t = ty \<and> et_is_active t) (rule_templates db))
        (rule_versions db))"

subsection \<open>The frozen electorate\<close>

definition elector_row :: "approval_proposal \<Rightarrow> string \<Rightarrow> time \<Rightarrow> member \<Rightarrow> eligibility \<Rightarrow> elector_snapshot" where
  "elector_row p rule_id moment m e =
    \<lparr>es_proposal = ap_proposal_id p, es_member = m_id m, es_rule_version = rule_id, es_qualification_evidence = el_evidence e,
     es_snapshotted_at = moment\<rparr>"

definition snapshot_of :: "string \<Rightarrow> 'a proposal_db_scheme \<Rightarrow> elector_snapshot list" where
  "snapshot_of pid db = filter (\<lambda>s. es_proposal s = pid) (elector_snapshots db)"

definition generate_elector_snapshot ::
    "env \<Rightarrow> fga \<Rightarrow> string \<Rightarrow> int option \<Rightarrow> 'a proposal_db_scheme \<Rightarrow> (nat \<times> 'a proposal_db_scheme) result" where
  "generate_elector_snapshot env f pid excluded db =
    and_then (proposal_row pid db) (\<lambda>p.
      case ap_electorate_rule_version p of
        None \<Rightarrow> Inl (DomainError ''the proposal has no published rule'')
      | Some rule_id \<Rightarrow>
          if snapshot_of pid db \<noteq> [] then Inr (length (snapshot_of pid db), db)
          else
            let moment = (case ap_voting_started_at p of None \<Rightarrow> now env | Some t \<Rightarrow> t) in
            and_then (rule_version_row rule_id db) (\<lambda>rule.
            and_then (map_result (\<lambda>m. and_then (evaluate_rule_for_member f rule m moment excluded db) (\<lambda>e. Inr (m, e)))
              (sort_key m_id (members db))) (\<lambda>decisions.
                let rows = map (\<lambda>(m, e). elector_row p rule_id moment m e) (filter (\<lambda>(m, e). el_allowed e) decisions)
                in Inr (length rows, db\<lparr>elector_snapshots := elector_snapshots db @ rows\<rparr>))))"

subsection \<open>From draft to vote\<close>

definition new_electorate_proposal ::
    "env \<Rightarrow> string \<Rightarrow> proposal_type \<Rightarrow> string \<Rightarrow> member \<Rightarrow> string \<Rightarrow> string \<Rightarrow> string \<Rightarrow> string option \<Rightarrow> string \<Rightarrow> string \<Rightarrow> json \<Rightarrow>
     approval_proposal" where
  "new_electorate_proposal env uid ty title m key target_type target_id rule summary reason metadata =
    \<lparr>ap_proposal_id = new_id ''proposal'' uid, ap_proposal_type = ty, ap_title = title, ap_summary = summary,
     ap_public_reason = reason, ap_status = (if rule = None then AwaitingPolicy else ProposalDraft),
     ap_strategy_type = ElectorateVote, ap_approval_tier = TierSingle,
     ap_target_type = target_type, ap_target_id = target_id, ap_dedupe_key = key, ap_submitted_by = m_id m,
     ap_submitted_at = now env, ap_voting_started_at = None, ap_voting_deadline = None,
     ap_frozen_approve_threshold = None, ap_frozen_reject_threshold = None, ap_frozen_minimum_participation = None,
     ap_frozen_unresolved_outcome = [], ap_resolved_at = None, ap_executed_at = None, ap_metadata = or_empty_dict metadata,
     ap_created_at = now env, ap_updated_at = Some (now env), ap_electorate_rule_version = rule\<rparr>"

definition rule_type_ok :: "electorate_rule_version \<Rightarrow> string \<Rightarrow> 'a proposal_db_scheme \<Rightarrow> bool result" where
  "rule_type_ok v ty db = and_then (rule_template_row (rv_template v) db) (\<lambda>t. Inr (et_proposal_type t = ty))"

text \<open>The adapter of admissions needs no permission to propose.\<close>

definition create_electorate_proposal ::
    "env \<Rightarrow> fga \<Rightarrow> string \<Rightarrow> string \<Rightarrow> string \<Rightarrow> member \<Rightarrow> string \<Rightarrow> string \<Rightarrow> string \<Rightarrow> electorate_rule_version option \<Rightarrow>
     string \<Rightarrow> string \<Rightarrow> json \<Rightarrow> 'a proposal_db_scheme \<Rightarrow> (approval_proposal \<times> 'a proposal_db_scheme) result" where
  "create_electorate_proposal env f uid ty title m key target_type target_id rule summary reason metadata db =
    (case parse_proposal_type ty of
       None \<Rightarrow> Inl (DomainError ''the proposal type has not been migrated'')
     | Some pty \<Rightarrow>
        and_then (proposal_adapter_for pty) (\<lambda>_.
        and_then (require_permission env f m [] ''the member may not propose'' db) (\<lambda>_.
          if key = [] then Inl (DomainError ''the key of the proposal is empty'')
          else case find_row (\<lambda>p. ap_proposal_type p = pty \<and> ap_dedupe_key p = key) (approval_proposals db) of
            Some p \<Rightarrow> Inr (p, db)
          | None \<Rightarrow>
             and_then (case rule of None \<Rightarrow> Inr True | Some v \<Rightarrow> rule_type_ok v ty db) (\<lambda>ok.
               if \<not> ok then Inl (DomainError ''the rule does not apply to the proposal type'')
               else
                 let p = new_electorate_proposal env uid pty title m key target_type target_id
                       (map_option rv_rule_version_id rule) summary reason metadata
                 in case and_then (insert_proposal p db) (\<lambda>db1.
                      and_then (proposal_event env f ''approval_proposal_submitted'' p ''submitted'' m (now env) db1)
                        (\<lambda>db2. Inr (p, db2))) of
                   Inl IntegrityError \<Rightarrow>
                     (case find_row (\<lambda>p. ap_proposal_type p = pty \<and> ap_dedupe_key p = key) (approval_proposals db) of
                        None \<Rightarrow> Inl IntegrityError | Some w \<Rightarrow> Inr (w, db))
                 | r \<Rightarrow> r))))"

definition attach_rule_version ::
    "env \<Rightarrow> string \<Rightarrow> electorate_rule_version \<Rightarrow> 'a proposal_db_scheme \<Rightarrow> (approval_proposal \<times> 'a proposal_db_scheme) result" where
  "attach_rule_version env pid rule db =
    and_then (proposal_row pid db) (\<lambda>p.
      if ap_status p \<notin> {AwaitingPolicy, ProposalDraft} then Inl (DomainError ''the vote has begun'')
      else and_then (rule_type_ok rule (proposal_type_value (ap_proposal_type p)) db) (\<lambda>ok.
        if \<not> ok then Inl (DomainError ''the rule does not apply to the proposal type'')
        else
          let p' = p\<lparr>ap_electorate_rule_version := Some (rv_rule_version_id rule), ap_status := ProposalDraft,
                ap_updated_at := Some (now env)\<rparr>
          in Inr (p', save_proposal p' db)))"

definition voting_proposal :: "env \<Rightarrow> electorate_rule_version \<Rightarrow> approval_proposal \<Rightarrow> approval_proposal" where
  "voting_proposal env rule p = p\<lparr>ap_frozen_approve_threshold := Some (rv_approve_threshold rule),
     ap_frozen_reject_threshold := Some (rv_reject_threshold rule),
     ap_frozen_minimum_participation := Some (rv_minimum_participation rule),
     ap_frozen_unresolved_outcome := rv_unresolved_outcome rule, ap_voting_started_at := Some (now env),
     ap_voting_deadline := Some (now env + rv_voting_duration_hours rule * 3600), ap_status := Voting,
     ap_updated_at := Some (now env)\<rparr>"

definition start_electorate_voting ::
    "env \<Rightarrow> fga \<Rightarrow> string \<Rightarrow> 'a proposal_db_scheme \<Rightarrow> (approval_proposal \<times> 'a proposal_db_scheme) result" where
  "start_electorate_voting env f pid db =
    and_then (proposal_row pid db) (\<lambda>p.
      if ap_strategy_type p \<noteq> ElectorateVote then Inl (DomainError ''the proposal is not decided by an electorate'')
      else if ap_status p = Voting then Inr (p, db)
      else if ap_status p \<noteq> ProposalDraft then Inl (DomainError ''only drafts can be voted on'')
      else case ap_electorate_rule_version p of
        None \<Rightarrow> Inl (DomainError ''the proposal has no published rule'')
      | Some rule_id \<Rightarrow>
          and_then (rule_version_row rule_id db) (\<lambda>rule.
          and_then (rule_type_ok rule (proposal_type_value (ap_proposal_type p)) db) (\<lambda>ok.
            if \<not> ok then Inl (DomainError ''the rule does not fit the proposal type'')
            else
              let p' = voting_proposal env rule p; db1 = save_proposal p' db in
              and_then (excluded_member_id p' db1) (\<lambda>excluded.
              and_then (generate_elector_snapshot env f pid excluded db1) (\<lambda>(n, db2).
              and_then (member_row (ap_submitted_by p') db2) (\<lambda>submitter.
              and_then (proposal_event env f ''proposal_voting_started'' p' ''voting_started'' submitter (now env) db2)
                (\<lambda>db3. Inr (p', db3))))))))"

fun start_waiting ::
    "env \<Rightarrow> fga \<Rightarrow> electorate_rule_version \<Rightarrow> string list \<Rightarrow> 'a proposal_db_scheme \<Rightarrow> 'a proposal_db_scheme result" where
  "start_waiting env f rule [] db = Inr db"
| "start_waiting env f rule (pid # pids) db =
    and_then (attach_rule_version env pid rule db) (\<lambda>(p, db1).
    and_then (start_electorate_voting env f pid db1) (\<lambda>(p', db2). start_waiting env f rule pids db2))"

definition activate_waiting_proposals_for_rule ::
    "env \<Rightarrow> fga \<Rightarrow> electorate_rule_version \<Rightarrow> 'a proposal_db_scheme \<Rightarrow> (nat \<times> 'a proposal_db_scheme) result" where
  "activate_waiting_proposals_for_rule env f rule db =
    and_then (rule_template_row (rv_template rule) db) (\<lambda>t.
      let pids = map ap_proposal_id (sort_key (\<lambda>p. - ap_submitted_at p) (filter (\<lambda>p.
            proposal_type_value (ap_proposal_type p) = et_proposal_type t \<and> ap_strategy_type p = ElectorateVote \<and>
            ap_status p = AwaitingPolicy) (approval_proposals db)))
      in and_then (start_waiting env f rule pids db) (\<lambda>db'. Inr (length pids, db')))"

subsection \<open>Resolution\<close>

definition or_one :: "int option \<Rightarrow> int" where
  "or_one t = (case t of None \<Rightarrow> 1 | Some n \<Rightarrow> if n = 0 then 1 else n)"

definition or_zero :: "int option \<Rightarrow> int" where
  "or_zero t = (case t of None \<Rightarrow> 0 | Some n \<Rightarrow> n)"

definition resolution_outcome_of :: "approval_proposal \<Rightarrow> tally \<Rightarrow> time \<Rightarrow> (resolution_outcome \<times> string) option" where
  "resolution_outcome_of p t at_time =
    (let open_votes = or_zero (ap_frozen_minimum_participation p) \<le> ty_participation_count t in
     if open_votes \<and> or_one (ap_frozen_approve_threshold p) \<le> ty_approve_count t
       then Some (OutcomeApproved, ''approve_threshold_reached'')
     else if open_votes \<and> or_one (ap_frozen_reject_threshold p) \<le> ty_reject_count t
       then Some (OutcomeRejected, ''reject_threshold_reached'')
     else case ap_voting_deadline p of
       None \<Rightarrow> None
     | Some deadline \<Rightarrow>
         if at_time < deadline then None
         else if ap_frozen_unresolved_outcome p = ''rejected'' then Some (OutcomeRejected, ''deadline_unresolved_rejected'')
         else Some (OutcomeExpired, ''deadline_unresolved_expired''))"

definition resolution_evidence :: "approval_proposal \<Rightarrow> tally \<Rightarrow> json" where
  "resolution_evidence p t = JObj [(''eligible_count'', JInt (ty_eligible_count t)),
     (''participation_count'', JInt (ty_participation_count t)), (''approve_count'', JInt (ty_approve_count t)),
     (''reject_count'', JInt (ty_reject_count t)), (''abstain_count'', JInt (ty_abstain_count t)),
     (''approve_threshold'', json_opt_int (ap_frozen_approve_threshold p)),
     (''reject_threshold'', json_opt_int (ap_frozen_reject_threshold p)),
     (''minimum_participation'', json_opt_int (ap_frozen_minimum_participation p))]"

definition insert_resolution :: "proposal_resolution \<Rightarrow> 'a proposal_db_scheme \<Rightarrow> 'a proposal_db_scheme result" where
  "insert_resolution r db =
    (if exists_row (\<lambda>x. pr_proposal x = pr_proposal r) (proposal_resolutions db) then Inl IntegrityError
     else Inr (db\<lparr>proposal_resolutions := proposal_resolutions db @ [r]\<rparr>))"

fun resolved_status :: "resolution_outcome \<Rightarrow> proposal_status" where
  "resolved_status OutcomeApproved = ProposalApproved"
| "resolved_status OutcomeRejected = ProposalRejected"
| "resolved_status OutcomeExpired = ProposalExpired"

fun resolved_event_type :: "resolution_outcome \<Rightarrow> string" where
  "resolved_event_type OutcomeApproved = ''approval_proposal_approved''"
| "resolved_event_type OutcomeRejected = ''approval_proposal_rejected''"
| "resolved_event_type OutcomeExpired = ''proposal_expired''"

definition resolution_row :: "string \<Rightarrow> 'a proposal_db_scheme \<Rightarrow> proposal_resolution result" where
  "resolution_row pid db = (case find_row (\<lambda>r. pr_proposal r = pid) (proposal_resolutions db) of
     None \<Rightarrow> Inl (DoesNotExist ''ProposalResolution'') | Some r \<Rightarrow> Inr r)"

definition save_application :: "member_application \<Rightarrow> 'a proposal_db_scheme \<Rightarrow> 'a proposal_db_scheme" where
  "save_application a db = db\<lparr>member_applications :=
     update_rows (\<lambda>x. ma_application_id x = ma_application_id a) (\<lambda>_. a) (member_applications db)\<rparr>"

text \<open>\<^verbatim>\<open>{**metadata, key: value, ...}\<close>\<close>

definition extend_metadata :: "json \<Rightarrow> (string \<times> json) list \<Rightarrow> json result" where
  "extend_metadata d kvs = (if is_obj d then Inr (dict_update d kvs) else Inl (TypeError ''not a mapping''))"

definition sync_member_application_resolution ::
    "env \<Rightarrow> approval_proposal \<Rightarrow> member \<Rightarrow> 'a proposal_db_scheme \<Rightarrow> 'a proposal_db_scheme result" where
  "sync_member_application_resolution env p actor db =
    and_then (resolution_row (ap_proposal_id p) db) (\<lambda>r.
      if pr_outcome r = OutcomeApproved then Inr db
      else and_then (application_for p db) (\<lambda>a.
           and_then (extend_metadata (ma_metadata a) [(''proposal_outcome'', JStr (resolution_outcome_value (pr_outcome r))),
             (''proposal_resolution_reason'', JStr (pr_reason_code r))]) (\<lambda>meta.
             Inr (save_application (a\<lparr>ma_status := ApplicationDeclined, ma_decided_by := Some (m_id actor),
               ma_decided_at := Some (pr_decided_at r), ma_metadata := meta\<rparr>) db))))"

definition resolve_locked_proposal ::
    "env \<Rightarrow> fga \<Rightarrow> approval_proposal \<Rightarrow> time \<Rightarrow> member \<Rightarrow> 'a proposal_db_scheme \<Rightarrow>
     (approval_proposal \<times> 'a proposal_db_scheme) result" where
  "resolve_locked_proposal env f p at_time actor db =
    and_then (proposal_tally env f p db) (\<lambda>t.
      case resolution_outcome_of p t at_time of
        None \<Rightarrow> Inr (p, db)
      | Some (outcome, reason_code) \<Rightarrow>
          let r = \<lparr>pr_proposal = ap_proposal_id p, pr_outcome = outcome, pr_reason_code = reason_code,
                pr_evidence = resolution_evidence p t, pr_decided_by = Some (m_id actor), pr_decided_at = at_time\<rparr>;
              p' = p\<lparr>ap_status := resolved_status outcome, ap_resolved_at := Some at_time, ap_updated_at := Some at_time\<rparr>
          in and_then (insert_resolution r db) (\<lambda>db1.
             and_then (proposal_adapter_for (ap_proposal_type p)) (\<lambda>_.
             and_then (sync_member_application_resolution env p' actor (save_proposal p' db1)) (\<lambda>db2.
             and_then (proposal_event env f (resolved_event_type outcome) p' (resolution_outcome_value outcome) actor at_time db2)
               (\<lambda>db3. Inr (p', db3))))))"

subsection \<open>Ballots\<close>

definition insert_ballot :: "proposal_ballot \<Rightarrow> 'a proposal_db_scheme \<Rightarrow> 'a proposal_db_scheme result" where
  "insert_ballot b db =
    (if exists_row (\<lambda>x. pb_ballot_id x = pb_ballot_id b \<or>
          pb_proposal x = pb_proposal b \<and> pb_voter x = pb_voter b \<and> pb_revision x = pb_revision b) (proposal_ballots db)
     then Inl IntegrityError else Inr (db\<lparr>proposal_ballots := proposal_ballots db @ [b]\<rparr>))"

definition past_deadline :: "approval_proposal \<Rightarrow> time \<Rightarrow> bool" where
  "past_deadline p t = (case ap_voting_deadline p of None \<Rightarrow> False | Some deadline \<Rightarrow> deadline \<le> t)"

definition cast_electorate_ballot ::
    "env \<Rightarrow> fga \<Rightarrow> string \<Rightarrow> string \<Rightarrow> member \<Rightarrow> string \<Rightarrow> string \<Rightarrow> 'a proposal_db_scheme \<Rightarrow>
     (approval_proposal \<times> 'a proposal_db_scheme) result" where
  "cast_electorate_ballot env f uid pid voter choice reason db =
    and_then (proposal_row pid db) (\<lambda>p.
      if ap_status p \<noteq> Voting then Inl (DomainError ''the proposal takes no votes'')
      else if past_deadline p (now env) then Inl (DomainError ''the deadline has passed'')
      else case parse_ballot_choice choice of
        None \<Rightarrow> Inl (DomainError ''the choice is invalid'')
      | Some c \<Rightarrow>
          and_then (excluded_member_id p db) (\<lambda>excluded.
          and_then (electorate_eligibility_for_proposal env f p voter excluded db) (\<lambda>e.
            if \<not> el_allowed e then Inl (DomainError (el_message e))
            else
              let b = \<lparr>pb_ballot_id = new_id ''ballot'' uid, pb_proposal = pid, pb_voter = m_id voter,
                    pb_revision = latest_revision pid (m_id voter) db + 1, pb_choice = c, pb_reason = reason,
                    pb_submitted_at = now env\<rparr>
              in and_then (insert_ballot b db) (\<lambda>db1.
                 and_then (proposal_event env f ''proposal_ballot_cast'' p ''ballot_cast'' voter (now env) db1) (\<lambda>db2.
                 resolve_locked_proposal env f p (now env) voter db2)))))"

definition finalize_electorate_proposal ::
    "env \<Rightarrow> fga \<Rightarrow> string \<Rightarrow> member \<Rightarrow> 'a proposal_db_scheme \<Rightarrow> (approval_proposal \<times> 'a proposal_db_scheme) result" where
  "finalize_electorate_proposal env f pid actor db =
    and_then (proposal_row pid db) (\<lambda>p.
    and_then (proposal_adapter_for (ap_proposal_type p)) (\<lambda>_.
    and_then (require_permission env f actor MEMBER_ADMISSION_RESOLUTION_PERMISSION ''the member may not finalize'' db) (\<lambda>_.
      if ap_status p \<noteq> Voting then Inr (p, db)
      else if \<not> past_deadline p (now env) then Inl (DomainError ''the deadline has not passed'')
      else resolve_locked_proposal env f p (now env) actor db)))"

subsection \<open>Admission and execution\<close>

definition save_member_status :: "int \<Rightarrow> member_status \<Rightarrow> 'a people_db_scheme \<Rightarrow> 'a people_db_scheme" where
  "save_member_status i s db = db\<lparr>members := update_rows (\<lambda>m. m_id m = i) (\<lambda>m. m\<lparr>m_status := s\<rparr>) (members db)\<rparr>"

definition ADMISSION_TERM :: time where "ADMISSION_TERM = 365 * 86400"

definition term_conflict :: "member \<Rightarrow> role \<Rightarrow> time \<Rightarrow> time \<Rightarrow> 'a role_db_scheme \<Rightarrow> bool" where
  "term_conflict m r start term_end db = exists_row (\<lambda>a. ra_member a = m_id m \<and> ra_role a = rl_id r \<and>
     ra_status a = AssignmentActive \<and> ra_start_at a < term_end \<and> start < ra_end_at a) (role_assignments db)"

text \<open>The adapter of admissions: a covenanter term of a year, and the application it answers.\<close>

definition execute_member_admission ::
    "env \<Rightarrow> string \<Rightarrow> approval_proposal \<Rightarrow> member \<Rightarrow> 'a proposal_db_scheme \<Rightarrow> (json \<times> 'a proposal_db_scheme) result" where
  "execute_member_admission env uid p actor db =
    and_then (application_for p db) (\<lambda>a.
      case ma_linked_member a of
        None \<Rightarrow> Inl (DomainError ''the application has no member'')
      | Some i \<Rightarrow>
          and_then (member_row i db) (\<lambda>m.
            if m_id m = m_id actor then Inl (DomainError ''applicants do not execute their own admission'')
            else if m_status m \<in> {Suspended, Exited} then Inl (DomainError ''the status of the applicant forbids admission'')
            else if m_user_active m = Some False then Inl (DomainError ''the login of the applicant is disabled'')
            else
              let term_end = now env + ADMISSION_TERM in
              and_then (ensure_catalog_role env ROLE_COVENANTER db) (\<lambda>(r, db1).
                if term_conflict m r (now env) term_end db1 then Inl (DomainError ''the applicant already has a term'')
                else and_then (create_role_assignment env uid (m_id m) r (Some (m_id actor)) (Some (now env)) (Some term_end)
                    SourceProposal False db1) (\<lambda>(g, db2).
                  and_then (extend_metadata (ma_metadata a) [(''proposal_outcome'', JStr ''approved''),
                    (''admission_role_assignment_id'', JInt (ra_id g))]) (\<lambda>meta.
                    Inr (JObj [(''application_id'', JStr (ma_application_id a)), (''role_assignment_id'', JInt (ra_id g)),
                        (''role_code'', JStr ''covenanter'')],
                      save_application (a\<lparr>ma_status := ApplicationAdmitted, ma_decided_by := Some (m_id actor),
                        ma_decided_at := Some (now env), ma_metadata := meta\<rparr>)
                        (save_member_status (m_id m) Admitted db2)))))))"

definition insert_execution :: "execution_record \<Rightarrow> 'a proposal_db_scheme \<Rightarrow> 'a proposal_db_scheme result" where
  "insert_execution x db =
    (if exists_row (\<lambda>y. pe_execution_id y = pe_execution_id x \<or> pe_proposal y = pe_proposal x \<or>
          pe_idempotency_key y = pe_idempotency_key x) (execution_records db)
     then Inl IntegrityError else Inr (db\<lparr>execution_records := execution_records db @ [x]\<rparr>))"

definition save_execution :: "execution_record \<Rightarrow> 'a proposal_db_scheme \<Rightarrow> 'a proposal_db_scheme" where
  "save_execution x db = db\<lparr>execution_records :=
     update_rows (\<lambda>y. pe_execution_id y = pe_execution_id x) (\<lambda>_. x) (execution_records db)\<rparr>"

text \<open>The record of an execution that begins, new or taken up again.\<close>

definition begin_execution ::
    "env \<Rightarrow> string \<Rightarrow> approval_proposal \<Rightarrow> member \<Rightarrow> 'a proposal_db_scheme \<Rightarrow> (execution_record \<times> 'a proposal_db_scheme) result" where
  "begin_execution env uid p actor db =
    (case find_row (\<lambda>x. pe_proposal x = ap_proposal_id p) (execution_records db) of
       None \<Rightarrow>
         let x = \<lparr>pe_execution_id = new_id ''execution'' uid, pe_proposal = ap_proposal_id p,
               pe_idempotency_key = ''proposal:'' @ ap_proposal_id p, pe_executed_by = m_id actor, pe_status = ExecutionRunning,
               pe_public_error_code = [], pe_result_data = JObj [], pe_started_at = now env, pe_completed_at = None\<rparr>
         in and_then (insert_execution x db) (\<lambda>db1. Inr (x, db1))
     | Some x \<Rightarrow>
         let x' = x\<lparr>pe_executed_by := m_id actor, pe_status := ExecutionRunning, pe_public_error_code := [],
               pe_completed_at := None\<rparr>
         in Inr (x', save_execution x' db))"

definition finish_execution ::
    "env \<Rightarrow> fga \<Rightarrow> approval_proposal \<Rightarrow> member \<Rightarrow> execution_record \<Rightarrow> (json \<times> 'a proposal_db_scheme) result \<Rightarrow>
     'a proposal_db_scheme \<Rightarrow> (execution_record \<times> 'a proposal_db_scheme) result" where
  "finish_execution env f p actor x outcome db =
    (case outcome of
       Inl (DomainError message) \<Rightarrow>
         let x' = x\<lparr>pe_status := ExecutionDeclined, pe_public_error_code := ''domain_precondition_failed'',
               pe_result_data := JObj [(''message'', JStr message)], pe_completed_at := Some (now env)\<rparr>;
             p' = p\<lparr>ap_status := ExecutionFailed, ap_updated_at := Some (now env)\<rparr>
         in and_then (proposal_event env f ''proposal_execution_failed'' p' ''execution_failed'' actor (now env)
              (save_proposal p' (save_execution x' db))) (\<lambda>db'. Inr (x', db'))
     | Inl e \<Rightarrow> Inl e
     | Inr (result, db1) \<Rightarrow>
         let x' = x\<lparr>pe_status := ExecutionSucceeded, pe_result_data := (if is_obj result then result else JObj []),
               pe_completed_at := Some (now env)\<rparr>;
             p' = p\<lparr>ap_status := ProposalExecuted, ap_executed_at := Some (now env), ap_updated_at := Some (now env)\<rparr>
         in and_then (proposal_event env f ''approval_proposal_executed'' p' ''executed'' actor (now env)
              (save_proposal p' (save_execution x' db1))) (\<lambda>db'. Inr (x', db')))"

definition execute_electorate_proposal ::
    "env \<Rightarrow> fga \<Rightarrow> string \<Rightarrow> string \<Rightarrow> string \<Rightarrow> member \<Rightarrow> 'a proposal_db_scheme \<Rightarrow> (execution_record \<times> 'a proposal_db_scheme) result" where
  "execute_electorate_proposal env f uid1 uid2 pid actor db =
    and_then (proposal_row pid db) (\<lambda>p.
      if ap_strategy_type p \<noteq> ElectorateVote then Inl (DomainError ''the proposal is not decided by an electorate'')
      else and_then (proposal_adapter_for (ap_proposal_type p)) (\<lambda>_.
        and_then (require_permission env f actor MEMBER_ADMISSION_EXECUTION_PERMISSION ''the member may not execute the proposal'' db) (\<lambda>_.
          let resolution = find_row (\<lambda>r. pr_proposal r = pid) (proposal_resolutions db);
              existing = find_row (\<lambda>x. pe_proposal x = pid) (execution_records db)
          in if map_option pr_outcome resolution \<noteq> Some OutcomeApproved
             then Inl (DomainError ''the proposal has no approving resolution'')
             else if map_option pe_status existing = Some ExecutionSucceeded then Inr (the existing, db)
             else if ap_status p \<notin> {ProposalApproved, ExecutionFailed}
             then Inl (DomainError ''only approved proposals and failed executions are executed'')
             else and_then (begin_execution env uid1 p actor db) (\<lambda>(x, db1).
               finish_execution env f p actor x (execute_member_admission env uid2 p actor db1) db1))))"

end
