(* ===== verification/Electorate_History.thy ===== *)
theory Electorate_History
  imports Electorate
begin

text \<open>
  Histories of votes: the tally stays within the frozen electorate, every resolution follows from
  the frozen thresholds and is final, an approved admission is executed once.
\<close>

subsection \<open>The tally counts electors once\<close>

lemma filter_result_filter: "filter_result P xs = Inr ys \<Longrightarrow> ys = filter (\<lambda>x. P x = Inr True) xs"
proof (induction xs arbitrary: ys)
  case (Cons x xs)
  then obtain b zs where "P x = Inr b" "filter_result P xs = Inr zs" "ys = (if b then x # zs else zs)" by auto
  with Cons.IH show ?case by auto
qed simp

definition ballot_key :: "proposal_ballot \<Rightarrow> string \<times> int \<times> int" where
  "ballot_key b = (pb_proposal b, pb_voter b, pb_revision b)"

definition elector_key :: "elector_snapshot \<Rightarrow> string \<times> int" where
  "elector_key s = (es_proposal s, es_member s)"

definition keys_distinct :: "'a proposal_db_scheme \<Rightarrow> bool" where
  "keys_distinct db \<longleftrightarrow> distinct (map ballot_key (proposal_ballots db)) \<and> distinct (map elector_key (elector_snapshots db))"

definition counts_ok :: "tally \<Rightarrow> bool" where
  "counts_ok t \<longleftrightarrow> 0 \<le> ty_approve_count t \<and> 0 \<le> ty_reject_count t \<and> 0 \<le> ty_abstain_count t \<and>
     ty_participation_count t = ty_approve_count t + ty_reject_count t + ty_abstain_count t \<and>
     ty_participation_count t \<le> ty_eligible_count t"

lemma candidates_distinct:
  assumes "distinct (map ballot_key (proposal_ballots db))" shows "distinct (map pb_voter (candidate_ballots pid db))"
  unfolding distinct_map
proof
  show "distinct (candidate_ballots pid db)"
    using assms unfolding candidate_ballots_def distinct_map by simp
  show "inj_on pb_voter (set (candidate_ballots pid db))"
  proof (rule inj_onI)
    fix b c assume bc: "b \<in> set (candidate_ballots pid db)" "c \<in> set (candidate_ballots pid db)" "pb_voter b = pb_voter c"
    then have "ballot_key b = ballot_key c" by (simp add: candidate_ballots_def ballot_key_def)
    moreover have "b \<in> set (proposal_ballots db)" "c \<in> set (proposal_ballots db)" using bc by (simp_all add: candidate_ballots_def)
    ultimately show "b = c" using distinct_map_unique [OF assms] by blast
  qed
qed

lemma counted_elector:
  assumes "ballot_counts env f p excluded db b = Inr True"
  shows "pb_voter b \<in> es_member ` set (snapshot_of (ap_proposal_id p) db)"
proof -
  from assms obtain m where m: "member_row (pb_voter b) db = Inr m"
    and e: "\<exists>e. electorate_eligibility_for_proposal env f p m excluded db = Inr e \<and> el_allowed e"
    by (auto simp: ballot_counts_def)
  have id: "m_id m = pb_voter b" using m by (auto simp: member_row_def split: option.splits dest!: find_row_Some_iff)
  from e have "\<exists>s \<in> set (elector_snapshots db). es_proposal s = ap_proposal_id p \<and> es_member s = m_id m"
    by (auto simp: electorate_eligibility_for_proposal_def split: option.splits if_splits)
  then show ?thesis using id by (force simp: snapshot_of_def)
qed

lemma counts_sum: "int (length bs) = count_choice ChoiceApprove bs + count_choice ChoiceReject bs + count_choice ChoiceAbstain bs"
proof (induction bs)
  case (Cons b bs)
  then show ?case by (cases "pb_choice b") (simp_all add: count_choice_def)
qed (simp add: count_choice_def)

lemma tally_counts_ok:
  assumes "keys_distinct db" "proposal_tally env f p db = Inr t"
  shows "counts_ok t" "ty_eligible_count t = int (card (es_member ` set (snapshot_of (ap_proposal_id p) db)))"
proof -
  let ?snap = "snapshot_of (ap_proposal_id p) db"
  from assms(2) obtain excluded latest where
    l: "filter_result (ballot_counts env f p excluded db) (candidate_ballots (ap_proposal_id p) db) = Inr latest"
    and t: "t = \<lparr>ty_eligible_count = int (length ?snap), ty_participation_count = int (length latest),
             ty_approve_count = count_choice ChoiceApprove latest, ty_reject_count = count_choice ChoiceReject latest,
             ty_abstain_count = count_choice ChoiceAbstain latest\<rparr>"
    by (auto simp: proposal_tally_def snapshot_of_def)
  note f = filter_result_filter [OF l]
  have "inj_on elector_key (set (elector_snapshots db))" "distinct (elector_snapshots db)"
    using assms(1) by (simp_all add: keys_distinct_def distinct_map)
  then have "inj_on es_member (set ?snap)" "distinct ?snap"
    by (auto simp: snapshot_of_def inj_on_def elector_key_def)
  then have card: "card (es_member ` set ?snap) = length ?snap" by (simp add: card_image distinct_card)
  then show "ty_eligible_count t = int (card (es_member ` set ?snap))" by (simp add: t)
  have "distinct (map pb_voter (candidate_ballots (ap_proposal_id p) db))"
    using assms(1) by (intro candidates_distinct) (simp add: keys_distinct_def)
  then have "distinct (map pb_voter latest)" unfolding f by (auto simp: distinct_map inj_on_def)
  then have "length latest = card (pb_voter ` set latest)" using distinct_card by fastforce
  also have "\<dots> \<le> card (es_member ` set ?snap)"
    by (rule card_mono) (auto simp: f intro: counted_elector)
  finally show "counts_ok t" using counts_sum [of latest] by (simp add: counts_ok_def t card count_choice_def)
qed

subsection \<open>The state of the votes\<close>

definition justified :: "approval_proposal \<Rightarrow> proposal_resolution \<Rightarrow> bool" where
  "justified p r \<longleftrightarrow> (\<exists>t. counts_ok t \<and> pr_evidence r = resolution_evidence p t \<and>
     resolution_outcome_of p t (pr_decided_at r) = Some (pr_outcome r, pr_reason_code r))"

definition undecided :: "proposal_status \<Rightarrow> bool" where
  "undecided s \<longleftrightarrow> s \<in> {AwaitingPolicy, ProposalDraft, Voting}"

fun outcome_fits :: "resolution_outcome \<Rightarrow> proposal_status \<Rightarrow> bool" where
  "outcome_fits OutcomeApproved s = (s \<in> {ProposalApproved, ProposalExecuted, ExecutionFailed})"
| "outcome_fits OutcomeRejected s = (s = ProposalRejected)"
| "outcome_fits OutcomeExpired s = (s = ProposalExpired)"

definition resolution_of :: "string \<Rightarrow> 'a proposal_db_scheme \<Rightarrow> proposal_resolution option" where
  "resolution_of pid db = find_row (\<lambda>r. pr_proposal r = pid) (proposal_resolutions db)"

definition execution_of :: "string \<Rightarrow> 'a proposal_db_scheme \<Rightarrow> execution_record option" where
  "execution_of pid db = find_row (\<lambda>x. pe_proposal x = pid) (execution_records db)"

text \<open>A proposal of an electorate is undecided, or its resolution follows from its frozen terms and fits its
  status; it is executed exactly when its execution has succeeded.\<close>

definition execution_fits :: "execution_record option \<Rightarrow> proposal_status \<Rightarrow> bool" where
  "execution_fits x s = (case x of None \<Rightarrow> s \<notin> {ProposalExecuted, ExecutionFailed}
     | Some x \<Rightarrow> pe_status x = ExecutionSucceeded \<and> s = ProposalExecuted \<or> pe_status x = ExecutionDeclined \<and> s = ExecutionFailed)"

definition vote_ok :: "approval_proposal \<Rightarrow> 'a proposal_db_scheme \<Rightarrow> bool" where
  "vote_ok p db \<longleftrightarrow> ap_strategy_type p = ElectorateVote \<longrightarrow>
     (case resolution_of (ap_proposal_id p) db of None \<Rightarrow> undecided (ap_status p)
      | Some r \<Rightarrow> justified p r \<and> outcome_fits (pr_outcome r) (ap_status p)) \<and>
     execution_fits (execution_of (ap_proposal_id p) db) (ap_status p)"

definition vote_inv :: "'a proposal_db_scheme \<Rightarrow> bool" where
  "vote_inv db \<longleftrightarrow> distinct (map m_id (members db)) \<and> keys_distinct db \<and>
     distinct (map ap_proposal_id (approval_proposals db)) \<and>
     distinct (map pe_execution_id (execution_records db)) \<and> distinct (map pe_proposal (execution_records db)) \<and>
     distinct (map pr_proposal (proposal_resolutions db)) \<and>
     (pr_proposal ` set (proposal_resolutions db) \<union> pe_proposal ` set (execution_records db)
        \<subseteq> ap_proposal_id ` set (approval_proposals db)) \<and>
     (\<forall>p \<in> set (approval_proposals db). vote_ok p db \<and> (ap_status p = Voting \<longrightarrow> ap_strategy_type p = ElectorateVote))"

inductive vote_step :: "proposal_status \<Rightarrow> proposal_status \<Rightarrow> bool" where
  attach: "s \<in> {AwaitingPolicy, ProposalDraft} \<Longrightarrow> vote_step s ProposalDraft"
| start: "vote_step ProposalDraft Voting"
| resolve: "vote_step Voting (resolved_status r)"
| execute: "s \<in> {ProposalApproved, ExecutionFailed} \<Longrightarrow> vote_step s ProposalExecuted"
| decline: "s \<in> {ProposalApproved, ExecutionFailed} \<Longrightarrow> vote_step s ExecutionFailed"

inductive_simps vote_step_closed [simp]: "vote_step ProposalRejected s" "vote_step ProposalExpired s" "vote_step ProposalExecuted s"

declare vote_step.intros [intro]

text \<open>The subject of a proposal never changes, and from the start of the vote its rule and thresholds do not either.\<close>

definition vote_subject :: "approval_proposal \<Rightarrow> approval_proposal" where
  "vote_subject p = p\<lparr>ap_status := ProposalDraft, ap_voting_started_at := None, ap_voting_deadline := None,
     ap_frozen_approve_threshold := None, ap_frozen_reject_threshold := None, ap_frozen_minimum_participation := None,
     ap_frozen_unresolved_outcome := [], ap_resolved_at := None, ap_executed_at := None, ap_updated_at := None,
     ap_electorate_rule_version := None\<rparr>"

definition frozen_terms :: "approval_proposal \<Rightarrow> int option \<times> int option \<times> int option \<times> string \<times> time option \<times> string option" where
  "frozen_terms p = (ap_frozen_approve_threshold p, ap_frozen_reject_threshold p, ap_frozen_minimum_participation p,
     ap_frozen_unresolved_outcome p, ap_voting_deadline p, ap_electorate_rule_version p)"

definition vote_moves :: "approval_proposal \<Rightarrow> approval_proposal \<Rightarrow> bool" where
  "vote_moves p p' \<longleftrightarrow> vote_subject p' = vote_subject p \<and> vote_step\<^sup>*\<^sup>* (ap_status p) (ap_status p') \<and>
     (ap_status p \<notin> {AwaitingPolicy, ProposalDraft} \<longrightarrow> frozen_terms p' = frozen_terms p)"

lemma vote_moves_refl [simp]: "vote_moves p p"
  by (simp add: vote_moves_def)

lemma draft_unreachable: "vote_step\<^sup>*\<^sup>* s s' \<Longrightarrow> s' \<in> {AwaitingPolicy, ProposalDraft} \<Longrightarrow> s \<in> {AwaitingPolicy, ProposalDraft}"
proof (induction rule: converse_rtranclp_induct)
  case (step x y)
  then have "y \<in> {AwaitingPolicy, ProposalDraft}" by blast
  with step.hyps(1) show ?case by (cases rule: vote_step.cases) (auto elim: resolved_status.elims)
qed simp

lemma vote_moves_trans: "vote_moves p p' \<Longrightarrow> vote_moves p' p'' \<Longrightarrow> vote_moves p p''"
  unfolding vote_moves_def using draft_unreachable [of "ap_status p" "ap_status p'"] by (metis rtranclp_trans)

text \<open>From the start of the vote the electorate is frozen.\<close>

definition electorate_kept :: "'a proposal_db_scheme \<Rightarrow> 'a proposal_db_scheme \<Rightarrow> bool" where
  "electorate_kept db db' \<longleftrightarrow> (\<forall>p \<in> set (approval_proposals db). ap_status p \<notin> {AwaitingPolicy, ProposalDraft} \<longrightarrow>
     snapshot_of (ap_proposal_id p) db' = snapshot_of (ap_proposal_id p) db)"

lemma electorate_kept_same [simp]: "elector_snapshots db' = elector_snapshots db \<Longrightarrow> electorate_kept db db'"
  by (simp add: electorate_kept_def snapshot_of_def)

lemma electorate_kept_trans:
  assumes "electorate_kept a b" "electorate_kept b c" "rows_follow vote_moves (approval_proposals a) (approval_proposals b)"
  shows "electorate_kept a c"
  unfolding electorate_kept_def
proof (intro ballI impI)
  fix p assume p: "p \<in> set (approval_proposals a)" "ap_status p \<notin> {AwaitingPolicy, ProposalDraft}"
  from rows_follow_in [OF assms(3) p(1)] obtain q where q: "q \<in> set (approval_proposals b)" "vote_moves p q" by blast
  have "ap_proposal_id (vote_subject q) = ap_proposal_id (vote_subject p)" using q(2) by (simp only: vote_moves_def)
  then have id: "ap_proposal_id q = ap_proposal_id p" by (simp add: vote_subject_def)
  have "ap_status q \<notin> {AwaitingPolicy, ProposalDraft}"
    using draft_unreachable [of "ap_status p" "ap_status q"] p(2) q(2) unfolding vote_moves_def by blast
  then show "snapshot_of (ap_proposal_id p) c = snapshot_of (ap_proposal_id p) a"
    using assms(1,2) p q(1) unfolding electorate_kept_def id [symmetric] by (metis id)
qed

definition vote_safe :: "env \<Rightarrow> 'a proposal_db_scheme \<Rightarrow> 'a proposal_db_scheme \<Rightarrow> bool" where
  "vote_safe env db db' \<longleftrightarrow> audited env db db' \<and> prefix (proposal_ballots db) (proposal_ballots db') \<and>
     prefix (elector_snapshots db) (elector_snapshots db') \<and> prefix (proposal_resolutions db) (proposal_resolutions db') \<and>
     rows_follow vote_moves (approval_proposals db) (approval_proposals db') \<and> electorate_kept db db'"

lemma vote_safe_refl [simp]: "vote_safe env db db"
  by (simp add: vote_safe_def rows_follow_refl)

lemma vote_safe_trans: assumes "vote_safe env a b" "vote_safe env b c" shows "vote_safe env a c"
proof -
  have "rows_follow vote_moves (approval_proposals a) (approval_proposals c)"
    by (rule rows_follow_trans [OF vote_moves_trans]) (use assms in \<open>auto simp: vote_safe_def\<close>)
  moreover have "electorate_kept a c" by (rule electorate_kept_trans [of a b]) (use assms in \<open>simp_all add: vote_safe_def\<close>)
  ultimately show ?thesis using assms audited_trans [of env a b c] unfolding vote_safe_def by (blast intro: prefix_order.order_trans)
qed

lemma vote_safe_now [simp]: "vote_safe (env\<lparr>now := t\<rparr>) db db' = vote_safe env db db'"
  by (simp add: vote_safe_def)

text \<open>Steps outside the tables of the vote.\<close>

definition same_votes :: "'a proposal_db_scheme \<Rightarrow> 'a proposal_db_scheme \<Rightarrow> bool" where
  "same_votes db db' \<longleftrightarrow> approval_proposals db' = approval_proposals db \<and> elector_snapshots db' = elector_snapshots db \<and>
     proposal_ballots db' = proposal_ballots db \<and> proposal_resolutions db' = proposal_resolutions db \<and>
     execution_records db' = execution_records db \<and> map m_id (members db') = map m_id (members db)"

lemma same_votes_refl [simp]: "same_votes db db"
  by (simp add: same_votes_def)

lemma same_votes_trans: "same_votes a b \<Longrightarrow> same_votes b c \<Longrightarrow> same_votes a c"
  by (simp add: same_votes_def)

lemma same_votes_inv: "same_votes db db' \<Longrightarrow> vote_inv db' = vote_inv db"
  by (simp add: same_votes_def vote_inv_def keys_distinct_def vote_ok_def resolution_of_def execution_of_def)

lemma same_votes_safe: "same_votes db db' \<Longrightarrow> audited env db db' \<Longrightarrow> vote_safe env db db'"
  by (simp add: same_votes_def vote_safe_def rows_follow_refl)

lemma events_only_votes: "events_only env db db' \<Longrightarrow> same_votes db db' \<and> audited env db db'"
  by (auto simp: events_only_def same_votes_def)

text \<open>One proposal moves; its resolution and execution may be added with it.\<close>

lemma vote_inv_update:
  assumes inv: "vote_inv db" and p: "p \<in> set (approval_proposals db)" "ap_proposal_id p = pid" "ap_proposal_id p' = pid"
    and ps: "approval_proposals db' = update_rows (\<lambda>x. ap_proposal_id x = pid) (\<lambda>_. p') (approval_proposals db)"
    and same: "\<And>i. i \<noteq> pid \<Longrightarrow> resolution_of i db' = resolution_of i db \<and> execution_of i db' = execution_of i db"
    and ids: "distinct (map pe_execution_id (execution_records db'))" "distinct (map pe_proposal (execution_records db'))"
      "distinct (map pr_proposal (proposal_resolutions db'))"
      "pr_proposal ` set (proposal_resolutions db') \<union> pe_proposal ` set (execution_records db')
        \<subseteq> ap_proposal_id ` set (approval_proposals db)"
    and keys: "keys_distinct db'" "map m_id (members db') = map m_id (members db)"
    and ok: "vote_ok p' db'" "ap_status p' = Voting \<longrightarrow> ap_strategy_type p' = ElectorateVote"
  shows "vote_inv db'"
proof -
  have d: "distinct (map ap_proposal_id (approval_proposals db))" using inv by (simp add: vote_inv_def)
  have pids: "map ap_proposal_id (approval_proposals db') = map ap_proposal_id (approval_proposals db)"
    unfolding ps by (rule update_unique_row(2) [OF d p(1,2,3)]) (simp add: p)
  have set': "set (approval_proposals db') = insert p' (set (approval_proposals db) - {p})"
    unfolding ps by (rule update_unique_row(1) [OF d p(1,2,3)])
  have "vote_ok x db' \<and> (ap_status x = Voting \<longrightarrow> ap_strategy_type x = ElectorateVote)"
    if x: "x \<in> set (approval_proposals db')" for x
  proof (cases "x = p'")
    case False
    with x set' have o: "x \<in> set (approval_proposals db)" "x \<noteq> p" by auto
    then have "ap_proposal_id x \<noteq> pid" using distinct_map_unique [OF d o(1) p(1)] p(2) by auto
    then show ?thesis using inv o(1) same by (simp add: vote_inv_def vote_ok_def)
  qed (use ok in simp)
  moreover have "ap_proposal_id ` set (approval_proposals db') = ap_proposal_id ` set (approval_proposals db)"
    using arg_cong [OF pids, of set] by simp
  moreover have "distinct (map m_id (members db))" using inv by (simp add: vote_inv_def)
  ultimately show ?thesis using ids keys d unfolding vote_inv_def pids by simp
qed

lemma vote_follows:
  assumes "vote_inv db" "p \<in> set (approval_proposals db)" "ap_proposal_id p = pid" "vote_moves p p'"
  shows "rows_follow vote_moves (approval_proposals db) (update_rows (\<lambda>x. ap_proposal_id x = pid) (\<lambda>_. p') (approval_proposals db))"
  using assms by (intro save_follows [of ap_proposal_id _ p]) (simp_all add: vote_inv_def)

text \<open>A move that neither resolves nor executes.\<close>

lemma vote_move:
  assumes inv: "vote_inv db" and p: "proposal_row pid db = Inr p" and mv: "vote_moves p p'" "ap_proposal_id p' = pid"
    and st: "undecided (ap_status p)" "undecided (ap_status p')" "ap_strategy_type p' = ap_strategy_type p"
    and v: "ap_status p' = Voting \<longrightarrow> ap_strategy_type p = ElectorateVote"
    and d: "db' = save_proposal p' db"
  shows "vote_inv db'" "vote_safe env db db'"
proof -
  note pr = proposal_row_ok [OF p]
  have "vote_ok p db" using inv pr by (simp add: vote_inv_def)
  then have ok: "vote_ok p' db'" using st pr mv(2)
    by (auto simp: vote_ok_def d resolution_of_def execution_of_def save_proposal_def undecided_def execution_fits_def
        split: option.splits elim: outcome_fits.elims)
  have ps: "approval_proposals db' = update_rows (\<lambda>x. ap_proposal_id x = pid) (\<lambda>_. p') (approval_proposals db)"
    by (simp add: d mv(2))
  show "vote_inv db'"
  proof (rule vote_inv_update [OF inv conjunct1 [OF pr] conjunct2 [OF pr] mv(2) ps])
    show "vote_ok p' db'" by (rule ok)
  qed (use inv v st in \<open>simp_all add: d save_proposal_def resolution_of_def execution_of_def vote_inv_def keys_distinct_def\<close>)
  show "vote_safe env db db'"
    using vote_follows [OF inv conjunct1 [OF pr] conjunct2 [OF pr] mv(1)] ps
    by (simp add: vote_safe_def d audited_same) (simp add: save_proposal_def)
qed

subsection \<open>Rules and drafts\<close>

lemma create_template_ok:
  assumes "create_electorate_rule_template env f ty code nm m descr db = Inr (t, db')"
  shows "same_votes db db' \<and> audited env db db' \<and> (\<exists>ts. db' = db\<lparr>rule_templates := ts\<rparr>)"
proof -
  have "db' = db\<lparr>rule_templates := rule_templates db\<rparr> \<or> (\<exists>ts. db' = db\<lparr>rule_templates := ts\<rparr>)"
    using assms by (auto simp: create_electorate_rule_template_def Let_def split: option.splits if_splits)
  then obtain ts where "db' = db\<lparr>rule_templates := ts\<rparr>" by blast
  then show ?thesis by (auto simp: same_votes_def audited_same)
qed

lemma publish_rule_ok:
  assumes "publish_electorate_rule_version env f uid code config ap rj mn hrs un m db = Inr (v, db')"
  shows "same_votes db db' \<and> audited env db db' \<and> (\<exists>vs es. db' = db\<lparr>rule_versions := vs, system_events := es\<rparr>)"
proof -
  from assms obtain db1 e eid pay at where i: "insert_rule_version v db = Inr db1"
    and a: "append_event env ''electorate_rule_published'' ''ElectorateRuleVersion'' eid (Some (m_id m)) None pay at db1 = Inr (e, db')"
    unfolding publish_electorate_rule_version_def Let_def
    by (simp only: and_then_Inr_conv if_Inl_eq_Inr split_paired_Ex prod.case) (elim conjE exE, simp)
  have d: "db1 = db\<lparr>rule_versions := rule_versions db @ [v]\<rparr>" using i by (auto simp: insert_rule_version_def split: if_splits)
  note db' = append_event_db [OF a]
  have "audited env db db'" using audited_append [OF a] audited_cong_left [of db db1 env db'] by (simp add: d)
  then show ?thesis using db' by (auto simp: same_votes_def d)
qed

text \<open>Nobody else can have won the race for the key when calls are serial.\<close>

lemma no_winner: "(case r of Inl IntegrityError \<Rightarrow> Inl IntegrityError | r \<Rightarrow> r) = Inr x \<longleftrightarrow> r = Inr x"
  by (cases r) (simp_all split: error.splits)

lemma create_electorate_cases:
  assumes "create_electorate_proposal env f uid ty title m key tt ti rule summary reason meta db = Inr (p, db')"
  obtains (Existing) "db' = db" "p \<in> set (approval_proposals db)"
  | (New) pty es where
      "p = new_electorate_proposal env uid pty title m key tt ti (map_option rv_rule_version_id rule) summary reason meta"
      "\<forall>x \<in> set (approval_proposals db). ap_proposal_id x \<noteq> ap_proposal_id p"
      "db' = db\<lparr>approval_proposals := approval_proposals db @ [p], system_events := es\<rparr>" "audited env db db'"
proof -
  from assms obtain pty where ty: "parse_proposal_type ty = Some pty" "proposal_adapter_for pty = Inr ()"
      "require_permission env f m [] ''the member may not propose'' db = Inr ()"
    by (auto simp: create_electorate_proposal_def split: option.splits)
  show thesis
  proof (cases "find_row (\<lambda>p. ap_proposal_type p = pty \<and> ap_dedupe_key p = key) (approval_proposals db)")
    case (Some x)
    with assms ty have "p = x" "db' = db" by (auto simp: create_electorate_proposal_def split: if_splits)
    then show ?thesis using find_row_Some_iff [OF Some] Existing by auto
  next
    case None
    let ?p = "new_electorate_proposal env uid pty title m key tt ti (map_option rv_rule_version_id rule) summary reason meta"
    let ?r = "and_then (insert_proposal ?p db) (\<lambda>db1.
        and_then (proposal_event env f ''approval_proposal_submitted'' ?p ''submitted'' m (now env) db1) (\<lambda>db2. Inr (?p, db2)))"
    have "?r = Inr (p, db')"
      using assms unfolding create_electorate_proposal_def Let_def ty option.case and_then.simps None
      by (simp only: and_then_Inr_conv [of "case rule of None \<Rightarrow> Inr True | Some v \<Rightarrow> rule_type_ok v ty db"]
        and_then_Inr_conv [of "proposal_adapter_for pty"] and_then_Inr_conv [of "require_permission env f m [] t db" for t]
        if_Inl_eq_Inr no_winner) (elim conjE exE, assumption)
    then obtain db1 where i: "insert_proposal ?p db = Inr db1" and p: "p = ?p"
      and e: "proposal_event env f ''approval_proposal_submitted'' ?p ''submitted'' m (now env) db1 = Inr db'"
      by auto
    from i have d: "db1 = db\<lparr>approval_proposals := approval_proposals db @ [p]\<rparr>"
      "\<forall>x \<in> set (approval_proposals db). ap_proposal_id x \<noteq> ap_proposal_id p"
      unfolding p by (auto simp: insert_proposal_def split: if_splits)
    from proposal_event_only [OF e] obtain es where es: "db' = db1\<lparr>system_events := es\<rparr>" and au: "audited env db1 db'"
      by (auto simp: events_only_def)
    have "audited env db db'" using au audited_cong_left [of db db1 env db'] d by simp
    then show ?thesis using New [OF p d(2)] d es by simp
  qed
qed

lemma create_electorate_ok:
  assumes inv: "vote_inv db"
    and c: "create_electorate_proposal env f uid ty title m key tt ti rule summary reason meta db = Inr (p, db')"
  shows "vote_inv db' \<and> vote_safe env db db'"
  using c
proof (cases rule: create_electorate_cases)
  case (New pty es)
  have fresh: "ap_proposal_id p \<notin> ap_proposal_id ` set (approval_proposals db)" using New(2) by auto
  have fk: "pr_proposal ` set (proposal_resolutions db) \<union> pe_proposal ` set (execution_records db)
        \<subseteq> ap_proposal_id ` set (approval_proposals db)" using inv by (simp add: vote_inv_def)
  have none: "resolution_of (ap_proposal_id p) db' = None" "execution_of (ap_proposal_id p) db' = None"
  proof -
    have "pr_proposal r \<noteq> ap_proposal_id p" if "r \<in> set (proposal_resolutions db)" for r
      using subsetD [OF fk UnI1 [OF imageI [OF that]]] fresh by metis
    then show "resolution_of (ap_proposal_id p) db' = None" by (simp add: resolution_of_def New(3) find_row_None_iff)
    have "pe_proposal x \<noteq> ap_proposal_id p" if "x \<in> set (execution_records db)" for x
      using subsetD [OF fk UnI2 [OF imageI [OF that]]] fresh by metis
    then show "execution_of (ap_proposal_id p) db' = None" by (simp add: execution_of_def New(3) find_row_None_iff)
  qed
  have st: "ap_status p \<in> {AwaitingPolicy, ProposalDraft}" by (simp add: New(1) new_electorate_proposal_def)
  have ok: "vote_ok p db'" using none st by (auto simp: vote_ok_def undecided_def execution_fits_def)
  have "vote_ok x db'" if "vote_ok x db" for x
    using that by (simp add: vote_ok_def New(3) resolution_of_def execution_of_def)
  then have "vote_inv db'" using inv fresh ok st fk unfolding vote_inv_def New(3) by (auto simp: keys_distinct_def)
  moreover have "rows_follow vote_moves (approval_proposals db) (approval_proposals db @ [p])"
    using rows_follow_update [of vote_moves "\<lambda>x. False" "approval_proposals db" id "[p]"] by (simp add: update_rows_def)
  ultimately show ?thesis using New(4) by (simp add: vote_safe_def New(3))
qed (use inv in simp)

definition starts_only :: "'a proposal_db_scheme \<Rightarrow> 'a proposal_db_scheme \<Rightarrow> bool" where
  "starts_only db db' \<longleftrightarrow> (\<exists>ps ss es. db' = db\<lparr>approval_proposals := ps, elector_snapshots := ss, system_events := es\<rparr>)"

lemma starts_only_refl [simp]: "starts_only db db"
proof -
  have "db = db\<lparr>approval_proposals := approval_proposals db, elector_snapshots := elector_snapshots db,
      system_events := system_events db\<rparr>" by simp
  then show ?thesis unfolding starts_only_def by blast
qed

lemma starts_only_trans: "starts_only a b \<Longrightarrow> starts_only b c \<Longrightarrow> starts_only a c"
  unfolding starts_only_def by (elim exE) (simp, blast)

lemma find_row_saved: "find_row P rows = Some r \<Longrightarrow> P r' \<Longrightarrow> find_row P (update_rows P (\<lambda>_. r') rows) = Some r'"
  by (induction rows) (auto split: if_splits)

lemma attach_ok:
  assumes inv: "vote_inv db" and a: "attach_rule_version env pid rule db = Inr (p', db')"
  shows "vote_inv db' \<and> vote_safe env db db' \<and> proposal_row pid db' = Inr p' \<and> starts_only db db'"
proof -
  from a obtain p where p: "proposal_row pid db = Inr p" and st: "ap_status p \<in> {AwaitingPolicy, ProposalDraft}"
    and p': "p' = p\<lparr>ap_electorate_rule_version := Some (rv_rule_version_id rule), ap_status := ProposalDraft,
                ap_updated_at := Some (now env)\<rparr>" and d: "db' = save_proposal p' db"
    by (auto simp: attach_rule_version_def Let_def split: if_splits)
  note pr = proposal_row_ok [OF p]
  have mv: "vote_moves p p'" using st by (auto simp: vote_moves_def p' vote_subject_def)
  have id: "ap_proposal_id p' = pid" using pr by (simp add: p')
  have u: "undecided (ap_status p)" "undecided (ap_status p')" using st by (auto simp: undecided_def p')
  have "find_row (\<lambda>x. ap_proposal_id x = pid) (update_rows (\<lambda>x. ap_proposal_id x = pid) (\<lambda>_. p') (approval_proposals db)) = Some p'"
    using p id by (intro find_row_saved) (auto simp: proposal_row_def split: option.splits)
  then have "proposal_row pid db' = Inr p'" by (simp add: d proposal_row_def id)
  moreover have "db' = db\<lparr>approval_proposals := approval_proposals db', elector_snapshots := elector_snapshots db,
      system_events := system_events db\<rparr>" by (simp add: d save_proposal_def)
  then have "starts_only db db'" unfolding starts_only_def by blast
  ultimately show ?thesis using vote_move [OF inv p mv id u _ _ d] by (simp add: p')
qed

subsection \<open>The vote begins\<close>

lemma map_result_fst: "map_result f xs = Inr ys \<Longrightarrow> (\<And>x y. f x = Inr y \<Longrightarrow> fst y = x) \<Longrightarrow> map fst ys = xs"
  by (induction xs arbitrary: ys) auto

text \<open>An electorate is frozen once, with every member at most once.\<close>

lemma snapshot_ok:
  assumes keys: "keys_distinct db" "distinct (map m_id (members db))"
    and g: "generate_elector_snapshot env f pid excluded db = Inr (n, db')"
  obtains rows where "db' = db\<lparr>elector_snapshots := elector_snapshots db @ rows\<rparr>" "keys_distinct db'"
    "\<forall>s \<in> set rows. es_proposal s = pid"
proof -
  from g obtain p rule_id where p: "proposal_row pid db = Inr p" and r: "ap_electorate_rule_version p = Some rule_id"
    by (auto simp: generate_elector_snapshot_def split: option.splits)
  show thesis
  proof (cases "snapshot_of pid db = []")
    case False
    with g p r have "db' = db" by (simp add: generate_elector_snapshot_def)
    then show ?thesis using that [of "[]"] keys by simp
  next
    case True
    let ?moment = "case ap_voting_started_at p of None \<Rightarrow> now env | Some t \<Rightarrow> t"
    from g p r True obtain rule ds where
      ds: "map_result (\<lambda>m. and_then (evaluate_rule_for_member f rule m ?moment excluded db) (\<lambda>e. Inr (m, e)))
              (sort_key m_id (members db)) = Inr ds"
      and d: "db' = db\<lparr>elector_snapshots := elector_snapshots db @
        map (\<lambda>(m, e). elector_row p rule_id ?moment m e) (filter (\<lambda>(m, e). el_allowed e) ds)\<rparr>"
      by (auto simp: generate_elector_snapshot_def Let_def)
    let ?rows = "map (\<lambda>(m, e). elector_row p rule_id ?moment m e) (filter (\<lambda>(m, e). el_allowed e) ds)"
    have "map fst ds = sort_key m_id (members db)"
      by (rule map_result_fst [OF ds]) auto
    then have "map (m_id \<circ> fst) ds = map m_id (sort_key m_id (members db))" by (metis map_map)
    moreover have "distinct (map m_id (sort_key m_id (members db)))" using keys(2) by (simp add: distinct_map)
    ultimately have "distinct (map (m_id \<circ> fst) ds)" by simp
    then have "distinct (map (m_id \<circ> fst) (filter (\<lambda>(m, e). el_allowed e) ds))" by (rule distinct_map_filter)
    moreover have "map elector_key ?rows = map (\<lambda>x. (ap_proposal_id p, x)) (map (m_id \<circ> fst) (filter (\<lambda>(m, e). el_allowed e) ds))"
      by (simp add: elector_key_def elector_row_def case_prod_unfold comp_def)
    moreover have "distinct (map (\<lambda>x. (i :: string, x :: int)) ys) = distinct ys" for i ys by (simp add: distinct_map inj_on_def)
    ultimately have dr: "distinct (map elector_key ?rows)" by (simp only:)
    have id: "ap_proposal_id p = pid" using proposal_row_ok [OF p] by simp
    have "fst (elector_key x) \<noteq> pid" if "x \<in> set (elector_snapshots db)" for x
      using True that by (auto simp: snapshot_of_def filter_empty_conv elector_key_def)
    moreover have "fst (elector_key x) = pid" if "x \<in> set ?rows" for x
      using that id by (auto simp: elector_key_def elector_row_def)
    ultimately have "set (map elector_key (elector_snapshots db)) \<inter> set (map elector_key ?rows) = {}" by force
    then have "keys_distinct db'" using keys(1) dr by (simp add: keys_distinct_def d del: map_map)
    moreover have "\<forall>s \<in> set ?rows. es_proposal s = pid" using id by (auto simp: elector_row_def)
    ultimately show ?thesis by (rule that [OF d])
  qed
qed

lemma snapshot_inv:
  assumes "vote_inv db" "db' = db\<lparr>elector_snapshots := elector_snapshots db @ rows\<rparr>" "keys_distinct db'"
    and rows: "\<forall>s \<in> set rows. es_proposal s = pid" and safe: "vote_safe env db0 db"
    and draft: "\<forall>p \<in> set (approval_proposals db0). ap_proposal_id p = pid \<longrightarrow> ap_status p = ProposalDraft"
  shows "vote_inv db' \<and> vote_safe env db0 db'"
proof -
  have "vote_inv db'" using assms(1,3)
    by (simp add: assms(2) vote_inv_def vote_ok_def resolution_of_def execution_of_def)
  moreover have "snapshot_of i db' = snapshot_of i db" if "i \<noteq> pid" for i
    using that rows by (simp add: assms(2) snapshot_of_def filter_empty_conv)
  then have "electorate_kept db0 db'" using safe draft unfolding vote_safe_def electorate_kept_def by force
  moreover have "audited env db0 db'" using safe audited_trans [OF _ audited_same, of env db0 db db']
    by (simp add: assms(2) vote_safe_def)
  ultimately show ?thesis using safe by (simp add: assms(2) vote_safe_def prefix_prefix)
qed

lemma start_ok:
  assumes inv: "vote_inv db" and s: "start_electorate_voting env f pid db = Inr (p', db')"
  shows "vote_inv db' \<and> vote_safe env db db' \<and> starts_only db db'"
proof -
  from s obtain p where p: "proposal_row pid db = Inr p" and el: "ap_strategy_type p = ElectorateVote"
    by (auto simp: start_electorate_voting_def split: if_splits)
  note pr = proposal_row_ok [OF p]
  show ?thesis
  proof (cases "ap_status p = Voting")
    case True
    with s p el have "db' = db" by (simp add: start_electorate_voting_def)
    then show ?thesis using inv by simp
  next
    case False
    with s p el obtain rule excluded n db2 submitter where st: "ap_status p = ProposalDraft"
      and g: "generate_elector_snapshot env f pid excluded (save_proposal (voting_proposal env rule p) db) = Inr (n, db2)"
      and e: "proposal_event env f ''proposal_voting_started'' (voting_proposal env rule p) ''voting_started'' submitter (now env) db2 = Inr db'"
      by (auto simp: start_electorate_voting_def Let_def split: option.splits if_splits)
    let ?p = "voting_proposal env rule p" and ?db1 = "save_proposal (voting_proposal env rule p) db"
    have mv: "vote_moves p ?p" using st by (auto simp: vote_moves_def voting_proposal_def vote_subject_def)
    have f: "ap_proposal_id ?p = pid" "ap_strategy_type ?p = ap_strategy_type p" "ap_status ?p = Voting"
      using pr by (simp_all add: voting_proposal_def)
    have u: "undecided (ap_status p)" "undecided (ap_status ?p)" using st f by (simp_all add: undecided_def)
    have i1: "vote_inv ?db1" "vote_safe env db ?db1"
      using vote_move [OF inv p mv f(1) u f(2) _ refl] el by simp_all
    have k: "keys_distinct ?db1" "distinct (map m_id (members ?db1))" using i1(1) by (simp_all add: vote_inv_def)
    from k g obtain rows where rows: "db2 = ?db1\<lparr>elector_snapshots := elector_snapshots ?db1 @ rows\<rparr>" "keys_distinct db2"
      "\<forall>s \<in> set rows. es_proposal s = pid"
      by (rule snapshot_ok)
    have "distinct (map ap_proposal_id (approval_proposals db))" using inv by (simp add: vote_inv_def)
    then have "\<forall>q \<in> set (approval_proposals db). ap_proposal_id q = pid \<longrightarrow> ap_status q = ProposalDraft"
      using pr st distinct_map_unique [of ap_proposal_id "approval_proposals db" _ p] by metis
    with rows i1 have i2: "vote_inv db2 \<and> vote_safe env db db2" by (intro snapshot_inv [OF i1(1) rows])
    have ev: "same_votes db2 db' \<and> audited env db2 db'" by (rule events_only_votes [OF proposal_event_only [OF e]])
    from proposal_event_only [OF e] obtain es where "db' = db2\<lparr>system_events := es\<rparr>" by (auto simp: events_only_def)
    then have "starts_only db db'" unfolding starts_only_def by (auto simp: rows(1) save_proposal_def)
    then show ?thesis using i1(2) i2 ev same_votes_inv same_votes_safe vote_safe_trans by blast
  qed
qed

lemma start_waiting_ok:
  "vote_inv db \<Longrightarrow> start_waiting env f rule pids db = Inr db' \<Longrightarrow> vote_inv db' \<and> vote_safe env db db' \<and> starts_only db db'"
proof (induction pids arbitrary: db)
  case Nil
  then show ?case by simp
next
  case (Cons pid pids)
  then obtain p db1 p' db2 where a: "attach_rule_version env pid rule db = Inr (p, db1)"
    and s: "start_electorate_voting env f pid db1 = Inr (p', db2)" and r: "start_waiting env f rule pids db2 = Inr db'" by auto
  note a' = attach_ok [OF Cons.prems(1) a]
  have s': "vote_inv db2 \<and> vote_safe env db1 db2 \<and> starts_only db1 db2"
    using a' by (intro start_ok [OF _ s]) blast
  have "vote_inv db' \<and> vote_safe env db2 db' \<and> starts_only db2 db'"
    using s' by (intro Cons.IH [OF _ r]) blast
  moreover have "starts_only db db1" using a' by blast
  ultimately show ?case using a' s' vote_safe_trans starts_only_trans by blast
qed

subsection \<open>Ballots and resolutions\<close>

text \<open>The tables behind the role invariant.\<close>

definition same_roles :: "'a credential_db_scheme \<Rightarrow> 'a credential_db_scheme \<Rightarrow> bool" where
  "same_roles db db' \<longleftrightarrow> role_assignments db' = role_assignments db \<and> credential_templates db' = credential_templates db \<and>
     credential_grants db' = credential_grants db"

lemma same_roles_refl [simp]: "same_roles db db"
  by (simp add: same_roles_def)

lemma same_roles_trans: "same_roles a b \<Longrightarrow> same_roles b c \<Longrightarrow> same_roles a c"
  by (simp add: same_roles_def)

lemma starts_only_roles: "starts_only db db' \<Longrightarrow> same_roles db db'"
  by (auto simp: starts_only_def same_roles_def)

lemma events_only_roles: "events_only env db db' \<Longrightarrow> same_roles db db'"
  by (auto simp: events_only_def same_roles_def)

lemma terms_cong:
  assumes "frozen_terms p' = frozen_terms p"
  shows "resolution_outcome_of p' t at = resolution_outcome_of p t at" "resolution_evidence p' t = resolution_evidence p t"
proof -
  have "ap_frozen_approve_threshold p' = ap_frozen_approve_threshold p" "ap_frozen_reject_threshold p' = ap_frozen_reject_threshold p"
    "ap_frozen_minimum_participation p' = ap_frozen_minimum_participation p"
    "ap_frozen_unresolved_outcome p' = ap_frozen_unresolved_outcome p" "ap_voting_deadline p' = ap_voting_deadline p"
    using assms by (simp_all add: frozen_terms_def)
  then show "resolution_outcome_of p' t at = resolution_outcome_of p t at" "resolution_evidence p' t = resolution_evidence p t"
    by (simp_all only: resolution_outcome_of_def resolution_evidence_def)
qed

lemma sync_ok:
  assumes "sync_member_application_resolution env p actor db = Inr db'"
  shows "same_votes db db' \<and> audited env db db' \<and> same_roles db db'"
proof -
  from assms have "db' = db \<or> (\<exists>a. db' = save_application a db)"
    by (auto simp: sync_member_application_resolution_def split: if_splits)
  then show ?thesis by (auto simp: save_application_def same_votes_def same_roles_def audited_same)
qed

lemma save_proposal_votes [simp]:
  "elector_snapshots (save_proposal p db) = elector_snapshots db" "proposal_ballots (save_proposal p db) = proposal_ballots db"
  "proposal_resolutions (save_proposal p db) = proposal_resolutions db" "execution_records (save_proposal p db) = execution_records db"
  "members (save_proposal p db) = members db" "role_assignments (save_proposal p db) = role_assignments db"
  by (simp_all add: save_proposal_def)

lemma resolve_ok:
  assumes inv: "vote_inv db" and p: "proposal_row pid db = Inr p" "ap_status p = Voting"
    and r: "resolve_locked_proposal env f p at_time actor db = Inr (p', db')"
  shows "vote_inv db' \<and> vote_safe env db db' \<and> same_roles db db'"
proof -
  note pr = proposal_row_ok [OF p(1)]
  from r obtain t where t: "proposal_tally env f p db = Inr t" by (auto simp: resolve_locked_proposal_def)
  show ?thesis
  proof (cases "resolution_outcome_of p t at_time")
    case None
    with r t have "db' = db" by (simp add: resolve_locked_proposal_def)
    with inv show ?thesis by simp
  next
    case (Some x)
    obtain outcome reason_code where x: "x = (outcome, reason_code)" by (cases x)
    let ?r = "\<lparr>pr_proposal = ap_proposal_id p, pr_outcome = outcome, pr_reason_code = reason_code,
                pr_evidence = resolution_evidence p t, pr_decided_by = Some (m_id actor), pr_decided_at = at_time\<rparr>"
    let ?p = "p\<lparr>ap_status := resolved_status outcome, ap_resolved_at := Some at_time, ap_updated_at := Some at_time\<rparr>"
    from r t Some x obtain db1 db2 where i: "insert_resolution ?r db = Inr db1"
      and s: "sync_member_application_resolution env ?p actor (save_proposal ?p db1) = Inr db2"
      and e: "proposal_event env f (resolved_event_type outcome) ?p (resolution_outcome_value outcome) actor at_time db2 = Inr db'"
      by (auto simp: resolve_locked_proposal_def Let_def)
    have d1: "db1 = db\<lparr>proposal_resolutions := proposal_resolutions db @ [?r]\<rparr>" and fresh: "resolution_of pid db = None"
      using i pr by (auto simp: insert_resolution_def resolution_of_def find_row_None_iff split: if_splits)
    let ?d = "save_proposal ?p db1"
    have el: "ap_strategy_type p = ElectorateVote" and okp: "vote_ok p db" using inv pr p(2) by (auto simp: vote_inv_def)
    then have nox: "execution_of pid db = None" using pr p(2)
      by (auto simp: vote_ok_def execution_fits_def split: option.splits)
    have res: "resolution_of i ?d = (if i = pid then Some ?r else resolution_of i db)" for i
      using fresh pr by (auto simp: resolution_of_def d1 find_row_append split: option.splits)
    have exe: "execution_of i ?d = execution_of i db" for i by (simp add: execution_of_def d1)
    have "counts_ok t" using tally_counts_ok(1) [OF _ t] inv by (simp add: vote_inv_def)
    then have "justified ?p ?r" unfolding justified_def
      using Some x terms_cong [of ?p p] by (intro exI [of _ t]) (simp add: frozen_terms_def)
    moreover have "outcome_fits outcome (resolved_status outcome)" by (cases outcome) simp_all
    moreover have "execution_fits None (resolved_status outcome)" by (cases outcome) (simp_all add: execution_fits_def)
    ultimately have ok: "vote_ok ?p ?d" using nox pr by (simp add: vote_ok_def res exe)
    have fk: "pr_proposal ` set (proposal_resolutions ?d) \<union> pe_proposal ` set (execution_records ?d)
        \<subseteq> ap_proposal_id ` set (approval_proposals db)" using inv pr by (auto simp: vote_inv_def d1)
    have dr: "distinct (map pr_proposal (proposal_resolutions ?d))"
      using inv fresh pr by (auto simp: vote_inv_def d1 resolution_of_def find_row_None_iff)
    have ps: "approval_proposals ?d = update_rows (\<lambda>x. ap_proposal_id x = pid) (\<lambda>_. ?p) (approval_proposals db)"
      using pr by (simp add: d1)
    have inv1: "vote_inv ?d"
    proof (rule vote_inv_update [OF inv conjunct1 [OF pr] conjunct2 [OF pr] _ ps])
      show "vote_ok ?p ?d" by (rule ok)
      show "pr_proposal ` set (proposal_resolutions ?d) \<union> pe_proposal ` set (execution_records ?d)
        \<subseteq> ap_proposal_id ` set (approval_proposals db)" by (rule fk)
      show "distinct (map pr_proposal (proposal_resolutions ?d))" by (rule dr)
      show "resolution_of i ?d = resolution_of i db \<and> execution_of i ?d = execution_of i db" if "i \<noteq> pid" for i
        using that by (simp only: res exe if_False simp_thms)
      show "ap_status ?p = Voting \<longrightarrow> ap_strategy_type ?p = ElectorateVote" using el by simp
    qed (use inv pr in \<open>simp_all add: d1 vote_inv_def keys_distinct_def\<close>)
    have mv: "vote_moves p ?p" using p(2)
      by (auto simp: vote_moves_def vote_subject_def frozen_terms_def)
    have safe1: "vote_safe env db ?d"
      using vote_follows [OF inv conjunct1 [OF pr] conjunct2 [OF pr] mv] ps by (simp add: vote_safe_def audited_same d1)
    have roles1: "same_roles db ?d" by (simp add: same_roles_def d1)
    note s' = sync_ok [OF s]
    note e' = events_only_votes [OF proposal_event_only [OF e]] events_only_roles [OF proposal_event_only [OF e]]
    have "vote_inv db'" using inv1 s' e' same_votes_inv by blast
    moreover have "vote_safe env db db'" using safe1 s' e' same_votes_safe vote_safe_trans by blast
    moreover have "same_roles db db'" using roles1 s' e' same_roles_trans by blast
    ultimately show ?thesis by blast
  qed
qed

lemma cast_ok:
  assumes inv: "vote_inv db" and c: "cast_electorate_ballot env f uid pid voter choice reason db = Inr (p', db')"
  shows "vote_inv db' \<and> vote_safe env db db' \<and> same_roles db db'"
proof -
  from c obtain p b db1 db2 where p: "proposal_row pid db = Inr p" "ap_status p = Voting"
    and i: "insert_ballot b db = Inr db1"
    and e: "proposal_event env f ''proposal_ballot_cast'' p ''ballot_cast'' voter (now env) db1 = Inr db2"
    and r: "resolve_locked_proposal env f p (now env) voter db2 = Inr (p', db')"
    by (auto simp: cast_electorate_ballot_def Let_def split: option.splits if_splits)
  have d1: "db1 = db\<lparr>proposal_ballots := proposal_ballots db @ [b]\<rparr>" "ballot_key b \<notin> ballot_key ` set (proposal_ballots db)"
    using i by (auto simp: insert_ballot_def ballot_key_def split: if_splits)
  have inv1: "vote_inv db1" using inv d1(2)
    by (simp add: d1(1) vote_inv_def keys_distinct_def vote_ok_def resolution_of_def execution_of_def)
  have safe1: "vote_safe env db db1" by (simp add: d1(1) vote_safe_def audited_same rows_follow_refl)
  note ev = proposal_event_only [OF e]
  note e' = events_only_votes [OF ev] events_only_roles [OF ev]
  have inv2: "vote_inv db2" using inv1 e' same_votes_inv by blast
  have "proposal_row pid db2 = Inr p" using p(1) e' by (simp add: proposal_row_def same_votes_def d1(1))
  from resolve_ok [OF inv2 this p(2) r] have "vote_inv db' \<and> vote_safe env db2 db' \<and> same_roles db2 db'" .
  moreover have "vote_safe env db db2" using vote_safe_trans [OF safe1 same_votes_safe] e' by blast
  moreover have "same_roles db db2" using e'(2) by (simp add: d1(1) same_roles_def)
  ultimately show ?thesis using vote_safe_trans [of env db db2 db'] same_roles_trans [of db db2 db'] by blast
qed

lemma finalize_ok:
  assumes inv: "vote_inv db" and c: "finalize_electorate_proposal env f pid actor db = Inr (p', db')"
  shows "vote_inv db' \<and> vote_safe env db db' \<and> same_roles db db'"
proof -
  from c obtain p where p: "proposal_row pid db = Inr p"
    and r: "ap_status p \<noteq> Voting \<and> db' = db \<or> ap_status p = Voting \<and> resolve_locked_proposal env f p (now env) actor db = Inr (p', db')"
    by (auto simp: finalize_electorate_proposal_def split: if_splits)
  from r show ?thesis
  proof
    assume "ap_status p = Voting \<and> resolve_locked_proposal env f p (now env) actor db = Inr (p', db')"
    then show ?thesis using resolve_ok [OF inv p] by blast
  qed (use inv in simp)
qed

subsection \<open>Admission\<close>

definition roles_only :: "'a credential_db_scheme \<Rightarrow> 'a credential_db_scheme \<Rightarrow> bool" where
  "roles_only db db' \<longleftrightarrow> (\<exists>os rs ps rps as ts gs es. db' = db\<lparr>organizations := os, roles := rs, permissions := ps,
     role_permissions := rps, role_assignments := as, credential_templates := ts, credential_grants := gs, system_events := es\<rparr>)"

lemma roles_only_frame:
  fixes db db' :: "'a proposal_db_scheme"
  assumes "roles_only db db'"
  shows "same_votes db db'" "members db' = members db" "member_applications db' = member_applications db"
  using assms by (auto simp: roles_only_def same_votes_def)

lemma setup_roles_only:
  fixes db db' :: "'a credential_db_scheme"
  assumes "setup_only db db'" shows "roles_only db db'"
proof -
  from assms obtain os rs ps rps where d: "db' = db\<lparr>organizations := os, roles := rs, permissions := ps, role_permissions := rps\<rparr>"
    unfolding setup_only_def by auto
  have "db' = db\<lparr>organizations := os, roles := rs, permissions := ps, role_permissions := rps,
    role_assignments := role_assignments db, credential_templates := credential_templates db,
    credential_grants := credential_grants db, system_events := system_events db\<rparr>" by (simp add: d)
  then show ?thesis unfolding roles_only_def by blast
qed

lemma create_assignment_only:
  assumes inv: "role_inv db" and c: "create_role_assignment env uid mid r by' s e src skip db = Inr (a, db')"
  shows "roles_only db db'"
proof -
  from c obtain m db1 created where
    p: "place_assignment env m r by' (case s of None \<Rightarrow> now env | Some t \<Rightarrow> t)
       (case e of None \<Rightarrow> default_role_assignment_end_at (case s of None \<Rightarrow> now env | Some t \<Rightarrow> t) | Some t \<Rightarrow> t) src db
       = Inr ((a, created), db1)"
    and d: "db' = db1 \<or> (\<exists>g. issue_covenanter_number env uid m by' db1 = Inr (g, db'))"
    by (rule create_assignment_cases)
  have i: "assignments_inv db" "numbers_inv db" using inv unfolding role_inv_def by blast+
  from place_ok(4) [OF i(1) p] obtain as where d1: "db1 = db\<lparr>organizations := organizations db, roles := roles db,
      permissions := permissions db, role_permissions := role_permissions db, role_assignments := as\<rparr>" by auto
  have "numbers_inv db1" using role_frame(1) [OF d1] i(2) by blast
  then have wf: "templates_wf db1" unfolding numbers_inv_def by blast
  have "\<exists>ts gs es. db' = db1\<lparr>credential_templates := ts, credential_grants := gs, system_events := es\<rparr>"
  proof (cases "db' = db1")
    case True
    then have "db' = db1\<lparr>credential_templates := credential_templates db1, credential_grants := credential_grants db1,
      system_events := system_events db1\<rparr>" by simp
    then show ?thesis by blast
  next
    case False
    with d obtain g where "issue_covenanter_number env uid m by' db1 = Inr (g, db')" by blast
    with wf show ?thesis by (rule issue_number_frame) blast
  qed
  then show ?thesis unfolding roles_only_def d1 by (simp, blast)
qed

lemma role_inv_cong: "same_roles db db' \<Longrightarrow> role_inv db' = role_inv db"
  using assignments_inv_cong [of db' db]
  by (simp add: role_inv_def same_roles_def numbers_inv_def templates_wf_def template_ids_def grants_of_def)

lemma admission_cases:
  assumes inv: "role_inv db" and x: "execute_member_admission env uid p actor db = Inr (j, db')"
  obtains a m r db1 g db2 meta where "application_for p db = Inr a" "ma_linked_member a = Some (m_id m)" "member_row (m_id m) db = Inr m"
    "m_id m \<noteq> m_id actor" "ensure_catalog_role env ROLE_COVENANTER db = Inr (r, db1)"
    "\<not> term_conflict m r (now env) (now env + ADMISSION_TERM) db1"
    "create_role_assignment env uid (m_id m) r (Some (m_id actor)) (Some (now env)) (Some (now env + ADMISSION_TERM))
       SourceProposal False db1 = Inr (g, db2)"
    "db' = save_application (a\<lparr>ma_status := ApplicationAdmitted, ma_decided_by := Some (m_id actor),
       ma_decided_at := Some (now env), ma_metadata := meta\<rparr>) (save_member_status (m_id m) Admitted db2)" "is_obj j"
proof -
  from x obtain a i m r db1 g db2 meta where a: "application_for p db = Inr a" "ma_linked_member a = Some i"
    and m: "member_row i db = Inr m" "m_id m \<noteq> m_id actor"
    and c: "ensure_catalog_role env ROLE_COVENANTER db = Inr (r, db1)" "\<not> term_conflict m r (now env) (now env + ADMISSION_TERM) db1"
      "create_role_assignment env uid (m_id m) r (Some (m_id actor)) (Some (now env)) (Some (now env + ADMISSION_TERM))
         SourceProposal False db1 = Inr (g, db2)"
    and d: "db' = save_application (a\<lparr>ma_status := ApplicationAdmitted, ma_decided_by := Some (m_id actor),
       ma_decided_at := Some (now env), ma_metadata := meta\<rparr>) (save_member_status (m_id m) Admitted db2)" "is_obj j"
    by (auto simp: execute_member_admission_def Let_def split: option.splits if_splits)
  have "m_id m = i" using m(1) by (auto simp: member_row_def split: option.splits dest!: find_row_Some_iff)
  with a m c d show thesis by (intro that [of a m r db1 g db2 meta]) simp_all
qed

lemma admission_ok:
  assumes inv: "role_inv db" and x: "execute_member_admission env uid p actor db = Inr (j, db')"
  shows "same_votes db db' \<and> audited env db db' \<and> role_inv db'"
  using inv x
proof (cases rule: admission_cases)
  case (1 a m r db1 g db2 meta)
  have s1: "setup_only db db1" by (rule setup_only_catalog_role [OF 1(5)])
  note k1 = setup_only_kept [OF s1 inv]
  note k2 = create_assignment_ok(1,2) [OF k1(1) 1(7)]
  have v: "same_votes db db2"
    using same_votes_trans [OF roles_only_frame(1) [OF setup_roles_only [OF s1]] roles_only_frame(1) [OF create_assignment_only [OF k1(1) 1(7)]]] .
  have "map m_id (update_rows (\<lambda>x. m_id x = m_id m) (\<lambda>x. x\<lparr>m_status := Admitted\<rparr>) (members db2)) = map m_id (members db2)"
    by (rule map_update_rows) simp
  then have v': "same_votes db2 db'" by (simp add: 1(8) save_application_def save_member_status_def same_votes_def)
  have r': "same_roles db2 db'" by (simp add: 1(8) save_application_def save_member_status_def same_roles_def)
  have "audited env db db1" "audited env db1 db2" using k1(2) k2(2) by (simp_all add: role_safe_def credential_safe_def)
  moreover have "audited env db2 db'" by (simp add: 1(8) save_application_def save_member_status_def audited_same)
  ultimately have "audited env db db'" using audited_trans by blast
  then show ?thesis using same_votes_trans [OF v v'] role_inv_cong [OF r'] k2(1) by blast
qed

subsection \<open>Execution\<close>

definition records_ok :: "'a proposal_db_scheme \<Rightarrow> string \<Rightarrow> execution_record \<Rightarrow> execution_record list \<Rightarrow> bool" where
  "records_ok db pid x xs \<longleftrightarrow> distinct (map pe_execution_id xs) \<and> distinct (map pe_proposal xs) \<and>
     pe_proposal ` set xs \<subseteq> insert pid (pe_proposal ` set (execution_records db)) \<and>
     find_row (\<lambda>y. pe_proposal y = pid) xs = Some x \<and>
     (\<forall>i. i \<noteq> pid \<longrightarrow> find_row (\<lambda>y. pe_proposal y = i) xs = execution_of i db)"

lemma find_other_record:
  "\<forall>y \<in> set xs. pe_execution_id y = k \<longrightarrow> pe_proposal y = pid \<Longrightarrow> pe_proposal x' = pid \<Longrightarrow> i \<noteq> pid \<Longrightarrow>
   find_row (\<lambda>y. pe_proposal y = i) (update_rows (\<lambda>y. pe_execution_id y = k) (\<lambda>_. x') xs) = find_row (\<lambda>y. pe_proposal y = i) xs"
  by (induction xs) auto

lemma records_saved:
  assumes "records_ok db pid x xs" "pe_execution_id x' = pe_execution_id x" "pe_proposal x' = pid"
  shows "records_ok db pid x' (update_rows (\<lambda>y. pe_execution_id y = pe_execution_id x) (\<lambda>_. x') xs)"
proof -
  let ?u = "update_rows (\<lambda>y. pe_execution_id y = pe_execution_id x) (\<lambda>_. x') xs"
  have x: "x \<in> set xs" "pe_proposal x = pid" and d: "distinct (map pe_execution_id xs)" "distinct (map pe_proposal xs)"
    using assms(1) find_row_Some_iff [of "\<lambda>y. pe_proposal y = pid" xs x] by (auto simp: records_ok_def)
  have ids: "map pe_execution_id ?u = map pe_execution_id xs" "map pe_proposal ?u = map pe_proposal xs"
    by (rule update_unique_row(2) [OF d(1) x(1)], simp_all add: assms x)+
  have set': "set ?u = insert x' (set xs - {x})" by (rule update_unique_row(1) [OF d(1) x(1)]) (simp_all add: assms)
  have "find_row (\<lambda>y. pe_proposal y = pid) ?u = Some x'"
  proof (rule find_row_unique)
    show "x' \<in> set ?u" by (simp add: set')
    fix y assume y: "y \<in> set ?u" "pe_proposal y = pid"
    show "y = x'"
    proof (rule ccontr)
      assume "y \<noteq> x'"
      then have "y \<in> set xs" "y \<noteq> x" using y(1) unfolding set' by blast+
      moreover have "y = x" by (rule distinct_map_unique [OF d(2) \<open>y \<in> set xs\<close> x(1)]) (simp add: y x)
      ultimately show False by simp
    qed
  qed (simp add: assms)
  moreover have "find_row (\<lambda>y. pe_proposal y = i) ?u = find_row (\<lambda>y. pe_proposal y = i) xs" if "i \<noteq> pid" for i
  proof -
    have "pe_proposal y = pid" if "y \<in> set xs" "pe_execution_id y = pe_execution_id x" for y
      using distinct_map_unique [OF d(1) that(1) x(1)] that(2) x(2) by simp
    then have "\<forall>y \<in> set xs. pe_execution_id y = pe_execution_id x \<longrightarrow> pe_proposal y = pid" by blast
    then show ?thesis by (rule find_other_record) (use that assms(3) in auto)
  qed
  moreover have "pe_proposal ` set ?u = pe_proposal ` set xs" using arg_cong [OF ids(2), of set] by simp
  ultimately show ?thesis using assms(1) by (simp add: records_ok_def ids)
qed

lemma begin_ok:
  assumes inv: "vote_inv db" and b: "begin_execution env uid p actor db = Inr (x, db1)"
  shows "(\<exists>xs. db1 = db\<lparr>execution_records := xs\<rparr>) \<and> records_ok db (ap_proposal_id p) x (execution_records db1)"
proof -
  let ?pid = "ap_proposal_id p"
  have d: "distinct (map pe_execution_id (execution_records db))" "distinct (map pe_proposal (execution_records db))"
    using inv by (simp_all add: vote_inv_def)
  show ?thesis
  proof (cases "find_row (\<lambda>x. pe_proposal x = ?pid) (execution_records db)")
    case None
    with b have i: "insert_execution x db = Inr db1" and px: "pe_proposal x = ?pid"
      by (auto simp: begin_execution_def Let_def)
    from i have d1: "db1 = db\<lparr>execution_records := execution_records db @ [x]\<rparr>"
      "\<forall>y \<in> set (execution_records db). pe_execution_id y \<noteq> pe_execution_id x \<and> pe_proposal y \<noteq> pe_proposal x"
      by (auto simp: insert_execution_def split: if_splits)
    have "records_ok db ?pid x (execution_records db @ [x])"
      using d d1(2) px None by (auto simp: records_ok_def execution_of_def find_row_append split: option.splits)
    then show ?thesis by (auto simp: d1(1))
  next
    case (Some y)
    note y = find_row_Some_iff [OF Some]
    have ok: "records_ok db ?pid y (execution_records db)" using d Some by (auto simp: records_ok_def execution_of_def)
    from b [symmetric] Some have x: "x = y\<lparr>pe_executed_by := m_id actor, pe_status := ExecutionRunning, pe_public_error_code := [],
               pe_completed_at := None\<rparr>" and d1: "db1 = save_execution x db"
      unfolding begin_execution_def Let_def by simp_all
    have id: "pe_execution_id x = pe_execution_id y" by (simp add: x)
    have "records_ok db ?pid x (update_rows (\<lambda>z. pe_execution_id z = pe_execution_id y) (\<lambda>_. x) (execution_records db))"
      by (rule records_saved [OF ok]) (simp_all add: x y)
    then have "records_ok db ?pid x (execution_records db1)" by (simp add: d1 save_execution_def id)
    moreover have "\<exists>xs. db1 = db\<lparr>execution_records := xs\<rparr>" unfolding d1 save_execution_def by blast
    ultimately show ?thesis by blast
  qed
qed

lemma execution_saved:
  assumes inv: "vote_inv db" and p: "proposal_row pid db = Inr p"
    and s: "ap_strategy_type p = ElectorateVote" "resolution_of pid db = Some r" "pr_outcome r = OutcomeApproved"
    and d1: "db1 = db\<lparr>execution_records := xs\<rparr>" "records_ok db pid x xs" and d2: "same_votes db1 db2" "audited env db1 db2"
    and x': "pe_execution_id x' = pe_execution_id x" "pe_proposal x' = pid" "execution_fits (Some x') (ap_status p')"
    and p': "p' = p\<lparr>ap_status := st, ap_executed_at := ex, ap_updated_at := up\<rparr>" "st \<in> {ProposalExecuted, ExecutionFailed}"
      "ap_status p \<in> {ProposalApproved, ExecutionFailed}"
  shows "vote_inv (save_proposal p' (save_execution x' db2))" "vote_safe env db (save_proposal p' (save_execution x' db2))"
proof -
  let ?u = "update_rows (\<lambda>y. pe_execution_id y = pe_execution_id x) (\<lambda>_. x') xs"
  let ?d = "save_proposal p' (save_execution x' db2)"
  note pr = proposal_row_ok [OF p]
  have u: "records_ok db pid x' ?u" by (rule records_saved [OF d1(2) x'(1,2)])
  have xs: "execution_records ?d = ?u" using d2(1) by (simp add: same_votes_def save_execution_def x' d1(1))
  have others: "proposal_ballots ?d = proposal_ballots db" "elector_snapshots ?d = elector_snapshots db"
    "proposal_resolutions ?d = proposal_resolutions db" "map m_id (members ?d) = map m_id (members db)"
    using d2(1) by (simp_all add: same_votes_def save_execution_def d1(1))
  have pid': "ap_proposal_id p' = pid" using pr by (simp add: p')
  have ps: "approval_proposals ?d = update_rows (\<lambda>x. ap_proposal_id x = pid) (\<lambda>_. p') (approval_proposals db)"
    using d2(1) pid' by (simp add: same_votes_def save_execution_def d1(1))
  have res: "resolution_of i ?d = resolution_of i db" for i by (simp only: resolution_of_def others)
  have exe: "execution_of pid ?d = Some x'" "i \<noteq> pid \<Longrightarrow> execution_of i ?d = execution_of i db" for i
    using u unfolding execution_of_def [of _ ?d] xs records_ok_def by blast+
  have "vote_ok p db" using inv pr by (simp add: vote_inv_def)
  then have "justified p r" using s pr by (simp add: vote_ok_def)
  then have "justified p' r" using terms_cong [of p' p] by (simp add: justified_def p' frozen_terms_def)
  moreover have "outcome_fits (pr_outcome r) (ap_status p')" using s(3) p' by auto
  ultimately have ok: "vote_ok p' ?d" using x'(3) s(2) by (simp add: vote_ok_def res exe pid')
  have ids: "pe_proposal ` set ?u \<subseteq> insert pid (pe_proposal ` set (execution_records db))"
    using u by (simp only: records_ok_def)
  have old: "pr_proposal ` set (proposal_resolutions db) \<union> pe_proposal ` set (execution_records db)
      \<subseteq> ap_proposal_id ` set (approval_proposals db)" using inv by (simp only: vote_inv_def)
  have pid: "pid \<in> ap_proposal_id ` set (approval_proposals db)" using pr by blast
  show "vote_inv ?d"
  proof (rule vote_inv_update [OF inv conjunct1 [OF pr] conjunct2 [OF pr] pid' ps])
    show "vote_ok p' ?d" by (rule ok)
    show "resolution_of i ?d = resolution_of i db \<and> execution_of i ?d = execution_of i db" if "i \<noteq> pid" for i
      using exe(2) [OF that] res by blast
    show "distinct (map pe_execution_id (execution_records ?d))" "distinct (map pe_proposal (execution_records ?d))"
      using u unfolding xs records_ok_def by blast+
    show "pr_proposal ` set (proposal_resolutions ?d) \<union> pe_proposal ` set (execution_records ?d)
        \<subseteq> ap_proposal_id ` set (approval_proposals db)"
      using ids old pid unfolding xs others by blast
    show "ap_status p' = Voting \<longrightarrow> ap_strategy_type p' = ElectorateVote" using p' by auto
  qed (use inv others in \<open>simp_all add: vote_inv_def keys_distinct_def\<close>)
  have "vote_step (ap_status p) (ap_status p')" using p' by auto
  then have mv: "vote_moves p p'" by (auto simp: vote_moves_def vote_subject_def frozen_terms_def p')
  have "audited env db db2" using d2(2) audited_cong_left [of db db1 env db2] by (simp add: d1(1))
  moreover have "audited env db2 ?d" by (rule audited_same) (simp add: save_proposal_def save_execution_def)
  ultimately have "audited env db ?d" by (rule audited_trans)
  then show "vote_safe env db ?d"
    using vote_follows [OF inv conjunct1 [OF pr] conjunct2 [OF pr] mv] electorate_kept_same [OF others(2)]
    unfolding vote_safe_def ps others by simp
qed

lemma execution_cases:
  assumes "execute_electorate_proposal env f uid1 uid2 pid actor db = Inr (x, db')"
  obtains (Again) "db' = db" "execution_of pid db = Some x" "pe_status x = ExecutionSucceeded"
  | (Run) p r x0 db1 where "proposal_row pid db = Inr p" "ap_strategy_type p = ElectorateVote"
      "resolution_of pid db = Some r" "pr_outcome r = OutcomeApproved" "ap_status p \<in> {ProposalApproved, ExecutionFailed}"
      "begin_execution env uid1 p actor db = Inr (x0, db1)"
      "finish_execution env f p actor x0 (execute_member_admission env uid2 p actor db1) db1 = Inr (x, db')"
proof -
  from assms obtain p where p: "proposal_row pid db = Inr p" "ap_strategy_type p = ElectorateVote"
    "map_option pr_outcome (resolution_of pid db) = Some OutcomeApproved"
    and d: "map_option pe_status (execution_of pid db) = Some ExecutionSucceeded \<and> x = the (execution_of pid db) \<and> db' = db \<or>
      ap_status p \<in> {ProposalApproved, ExecutionFailed} \<and> (\<exists>x0 db1. begin_execution env uid1 p actor db = Inr (x0, db1) \<and>
        finish_execution env f p actor x0 (execute_member_admission env uid2 p actor db1) db1 = Inr (x, db'))"
    unfolding execute_electorate_proposal_def Let_def resolution_of_def execution_of_def
    by (auto split: if_splits)
  from p(3) obtain r where r: "resolution_of pid db = Some r" "pr_outcome r = OutcomeApproved" by auto
  from d show thesis
  proof
    assume "map_option pe_status (execution_of pid db) = Some ExecutionSucceeded \<and> x = the (execution_of pid db) \<and> db' = db"
    then show thesis by (intro Again) auto
  next
    assume "ap_status p \<in> {ProposalApproved, ExecutionFailed} \<and> (\<exists>x0 db1. begin_execution env uid1 p actor db = Inr (x0, db1) \<and>
        finish_execution env f p actor x0 (execute_member_admission env uid2 p actor db1) db1 = Inr (x, db'))"
    then show thesis using Run [OF p(1,2) r] by blast
  qed
qed

text \<open>What an execution saves: the declined record, or what the adapter did and the succeeded record.\<close>

lemma finish_cases:
  assumes "finish_execution env f p actor x0 outcome db1 = Inr (x, db')"
  obtains (Refused) msg p' where "outcome = Inl (DomainError msg)" "p' = p\<lparr>ap_status := ExecutionFailed,
        ap_executed_at := ap_executed_at p, ap_updated_at := Some (now env)\<rparr>"
      "x = x0\<lparr>pe_status := ExecutionDeclined, pe_public_error_code := ''domain_precondition_failed'',
        pe_result_data := JObj [(''message'', JStr msg)], pe_completed_at := Some (now env)\<rparr>"
      "events_only env (save_proposal p' (save_execution x db1)) db'"
  | (Done) j db2 p' where "outcome = Inr (j, db2)" "p' = p\<lparr>ap_status := ProposalExecuted,
        ap_executed_at := Some (now env), ap_updated_at := Some (now env)\<rparr>"
      "x = x0\<lparr>pe_status := ExecutionSucceeded, pe_result_data := (if is_obj j then j else JObj []),
        pe_completed_at := Some (now env)\<rparr>"
      "events_only env (save_proposal p' (save_execution x db2)) db'"
proof (cases outcome)
  case (Inl e)
  with assms obtain msg where e: "e = DomainError msg" by (cases e) (auto simp: finish_execution_def)
  let ?p = "p\<lparr>ap_status := ExecutionFailed, ap_updated_at := Some (now env)\<rparr>"
  let ?x = "x0\<lparr>pe_status := ExecutionDeclined, pe_public_error_code := ''domain_precondition_failed'',
        pe_result_data := JObj [(''message'', JStr msg)], pe_completed_at := Some (now env)\<rparr>"
  from assms have "x = ?x" and "proposal_event env f ''proposal_execution_failed'' ?p ''execution_failed'' actor (now env)
      (save_proposal ?p (save_execution ?x db1)) = Inr db'"
    by (auto simp: finish_execution_def Inl e Let_def)
  from this(1) proposal_event_only [OF this(2)] show ?thesis by (intro Refused [of msg ?p]) (simp_all add: Inl e)
next
  case (Inr y)
  obtain j db2 where y: "y = (j, db2)" by (cases y)
  let ?p = "p\<lparr>ap_status := ProposalExecuted, ap_executed_at := Some (now env), ap_updated_at := Some (now env)\<rparr>"
  let ?x = "x0\<lparr>pe_status := ExecutionSucceeded, pe_result_data := (if is_obj j then j else JObj []),
        pe_completed_at := Some (now env)\<rparr>"
  from assms have "x = ?x" and "proposal_event env f ''approval_proposal_executed'' ?p ''executed'' actor (now env)
      (save_proposal ?p (save_execution ?x db2)) = Inr db'"
    by (auto simp: finish_execution_def Inr y Let_def)
  from this(1) proposal_event_only [OF this(2)] show ?thesis by (intro Done [of j db2 ?p]) (simp_all add: Inr y)
qed

lemma save_roles [simp]: "same_roles db (save_proposal p (save_execution x db))"
  by (simp add: same_roles_def save_proposal_def save_execution_def)

lemma execution_ok:
  assumes inv: "vote_inv db" "role_inv db" and x: "execute_electorate_proposal env f uid1 uid2 pid actor db = Inr (x, db')"
  shows "vote_inv db' \<and> vote_safe env db db' \<and> role_inv db'"
  using x
proof (cases rule: execution_cases)
  case (Run p r x0 db1)
  note pr = proposal_row_ok [OF Run(1)]
  from begin_ok [OF inv(1) Run(6)] obtain xs where d1: "db1 = db\<lparr>execution_records := xs\<rparr>" "records_ok db pid x0 xs"
    using pr by auto
  have x0: "pe_proposal x0 = pid" using d1(2) find_row_Some_iff [of "\<lambda>y. pe_proposal y = pid" xs x0] by (auto simp: records_ok_def)
  have roles1: "role_inv db1" using role_inv_cong [of db db1] inv(2) by (simp add: d1(1) same_roles_def)
  from Run(7) show ?thesis
  proof (cases rule: finish_cases)
    case (Refused msg p')
    note e' = events_only_votes [OF Refused(4)] role_inv_cong [OF events_only_roles [OF Refused(4)]]
    note k = execution_saved [OF inv(1) Run(1-4) d1 same_votes_refl audited_refl _ _ _ Refused(2) _ Run(5), of x]
    have "vote_inv (save_proposal p' (save_execution x db1))" "vote_safe env db (save_proposal p' (save_execution x db1))"
      using k x0 by (simp_all add: Refused(2,3) execution_fits_def)
    moreover have "role_inv (save_proposal p' (save_execution x db1))" using role_inv_cong [OF save_roles] roles1 by blast
    ultimately show ?thesis using e' same_votes_inv same_votes_safe vote_safe_trans by metis
  next
    case (Done j db2 p')
    note e' = events_only_votes [OF Done(4)] role_inv_cong [OF events_only_roles [OF Done(4)]]
    note a = admission_ok [OF roles1 Done(1)]
    note k = execution_saved [OF inv(1) Run(1-4) d1 conjunct1 [OF a] conjunct1 [OF conjunct2 [OF a]] _ _ _ Done(2) _ Run(5), of x]
    have "vote_inv (save_proposal p' (save_execution x db2))" "vote_safe env db (save_proposal p' (save_execution x db2))"
      using k x0 by (simp_all add: Done(2,3) execution_fits_def)
    moreover have "role_inv (save_proposal p' (save_execution x db2))" using role_inv_cong [OF save_roles] a by blast
    ultimately show ?thesis using e' same_votes_inv same_votes_safe vote_safe_trans by metis
  qed
qed (use inv in simp)


subsection \<open>Histories of votes\<close>

datatype electorate_op =
    AddTemplate string string string member string
  | PublishRule string string json int int int int string member
  | ActivateWaiting electorate_rule_version
  | ProposeVote string string string member string string string "electorate_rule_version option" string string json
  | AttachRule string electorate_rule_version
  | StartVoting string
  | CastBallot string string member string string
  | Finalize string member
  | ExecuteVote string string string member

fun electorate_service ::
    "env \<Rightarrow> fga \<Rightarrow> electorate_op \<Rightarrow> 'a proposal_db_scheme \<Rightarrow> (unit \<times> 'a proposal_db_scheme) result" where
  "electorate_service env f (AddTemplate ty code nm m descr) db =
     and_then (create_electorate_rule_template env f ty code nm m descr db) (\<lambda>(t, db'). Inr ((), db'))"
| "electorate_service env f (PublishRule uid code config ap rj mn hrs un m) db =
     and_then (publish_electorate_rule_version env f uid code config ap rj mn hrs un m db) (\<lambda>(v, db'). Inr ((), db'))"
| "electorate_service env f (ActivateWaiting rule) db =
     and_then (activate_waiting_proposals_for_rule env f rule db) (\<lambda>(n, db'). Inr ((), db'))"
| "electorate_service env f (ProposeVote uid ty title m key tt ti rule summary reason meta) db =
     and_then (create_electorate_proposal env f uid ty title m key tt ti rule summary reason meta db) (\<lambda>(p, db'). Inr ((), db'))"
| "electorate_service env f (AttachRule pid rule) db =
     and_then (attach_rule_version env pid rule db) (\<lambda>(p, db'). Inr ((), db'))"
| "electorate_service env f (StartVoting pid) db =
     and_then (start_electorate_voting env f pid db) (\<lambda>(p, db'). Inr ((), db'))"
| "electorate_service env f (CastBallot uid pid voter choice reason) db =
     and_then (cast_electorate_ballot env f uid pid voter choice reason db) (\<lambda>(p, db'). Inr ((), db'))"
| "electorate_service env f (Finalize pid m) db =
     and_then (finalize_electorate_proposal env f pid m db) (\<lambda>(p, db'). Inr ((), db'))"
| "electorate_service env f (ExecuteVote uid1 uid2 pid m) db =
     and_then (execute_electorate_proposal env f uid1 uid2 pid m db) (\<lambda>(x, db'). Inr ((), db'))"

definition electorate_step ::
    "env \<Rightarrow> time \<times> fga \<times> electorate_op \<Rightarrow> 'a proposal_db_scheme \<Rightarrow> (unit \<times> 'a proposal_db_scheme) result" where
  "electorate_step env x db = electorate_service (env\<lparr>now := fst x\<rparr>) (fst (snd x)) (snd (snd x)) db"

definition electorate_inv :: "'a proposal_db_scheme \<Rightarrow> bool" where
  "electorate_inv db \<longleftrightarrow> vote_inv db \<and> role_inv db"

lemma electorate_inv_same:
  "electorate_inv db \<Longrightarrow> same_votes db db' \<Longrightarrow> audited env db db' \<Longrightarrow> same_roles db db' \<Longrightarrow>
   electorate_inv db' \<and> vote_safe env db db'"
  unfolding electorate_inv_def by (simp add: same_votes_inv role_inv_cong same_votes_safe)

lemma electorate_inv_roles:
  "electorate_inv db \<Longrightarrow> vote_inv db' \<and> vote_safe env db db' \<Longrightarrow> same_roles db db' \<Longrightarrow>
   electorate_inv db' \<and> vote_safe env db db'"
  unfolding electorate_inv_def by (simp add: role_inv_cong)

lemma electorate_service_ok:
  assumes inv: "electorate_inv db" and s: "electorate_service env f call db = Inr (u, db')"
  shows "electorate_inv db' \<and> vote_safe env db db'"
proof -
  have i: "vote_inv db" "role_inv db" using inv by (simp_all add: electorate_inv_def)
  show ?thesis
  proof (cases call)
    case (AddTemplate ty code nm m descr)
    with s obtain t where "create_electorate_rule_template env f ty code nm m descr db = Inr (t, db')" by auto
    from create_template_ok [OF this] show ?thesis
      by (intro electorate_inv_same [OF inv]) (auto simp: same_roles_def)
  next
    case (PublishRule uid code config ap rj mn hrs un m)
    with s obtain v where "publish_electorate_rule_version env f uid code config ap rj mn hrs un m db = Inr (v, db')" by auto
    from publish_rule_ok [OF this] show ?thesis
      by (intro electorate_inv_same [OF inv]) (auto simp: same_roles_def)
  next
    case (ActivateWaiting rule)
    with s obtain pids where "start_waiting env f rule pids db = Inr db'"
      by (auto simp: activate_waiting_proposals_for_rule_def Let_def)
    from start_waiting_ok [OF i(1) this] show ?thesis
      using electorate_inv_roles [OF inv] starts_only_roles by blast
  next
    case (ProposeVote uid ty title m key tt ti rule summary reason meta)
    with s obtain p where c: "create_electorate_proposal env f uid ty title m key tt ti rule summary reason meta db = Inr (p, db')"
      by auto
    from c have "same_roles db db'" by (cases rule: create_electorate_cases) (auto simp: same_roles_def)
    with create_electorate_ok [OF i(1) c] show ?thesis using electorate_inv_roles [OF inv] by blast
  next
    case (AttachRule pid rule)
    with s obtain p where "attach_rule_version env pid rule db = Inr (p, db')" by auto
    from attach_ok [OF i(1) this] show ?thesis using electorate_inv_roles [OF inv] starts_only_roles by blast
  next
    case (StartVoting pid)
    with s obtain p where "start_electorate_voting env f pid db = Inr (p, db')" by auto
    from start_ok [OF i(1) this] show ?thesis using electorate_inv_roles [OF inv] starts_only_roles by blast
  next
    case (CastBallot uid pid voter choice reason)
    with s obtain p where "cast_electorate_ballot env f uid pid voter choice reason db = Inr (p, db')" by auto
    from cast_ok [OF i(1) this] show ?thesis using electorate_inv_roles [OF inv] by blast
  next
    case (Finalize pid m)
    with s obtain p where "finalize_electorate_proposal env f pid m db = Inr (p, db')" by auto
    from finalize_ok [OF i(1) this] show ?thesis using electorate_inv_roles [OF inv] by blast
  next
    case (ExecuteVote uid1 uid2 pid m)
    with s obtain x where "execute_electorate_proposal env f uid1 uid2 pid m db = Inr (x, db')" by auto
    from execution_ok [OF i this] show ?thesis by (simp add: electorate_inv_def)
  qed
qed

interpretation votes: guarded_service "electorate_step env" electorate_inv "vote_safe env" for env
proof unfold_locales
  fix x :: "time \<times> fga \<times> electorate_op" and db :: "'a proposal_db_scheme" and r db'
  assume "electorate_inv db" "electorate_step env x db = Inr (r, db')"
  from electorate_service_ok [OF this(1) this(2) [unfolded electorate_step_def]]
  show "electorate_inv db'" "vote_safe env db db'" by simp_all
qed (auto intro: vote_safe_trans)


subsection \<open>Properties of votes\<close>

text \<open>C31. In every history of rules, proposals, votes and executions, each tally counts an elector at
  most once: participation is the sum of the three choices and never exceeds the eligible count, which
  is the number of different members in the frozen electorate.\<close>

theorem tally_within_electorate:
  assumes "electorate_inv db" "db' = run_ops (electorate_step env0) xs db" "proposal_tally env f p db' = Inr t"
  shows "0 \<le> ty_approve_count t \<and> 0 \<le> ty_reject_count t \<and> 0 \<le> ty_abstain_count t \<and>
    ty_participation_count t = ty_approve_count t + ty_reject_count t + ty_abstain_count t \<and>
    ty_participation_count t \<le> ty_eligible_count t \<and>
    ty_eligible_count t = int (card (es_member ` set (snapshot_of (ap_proposal_id p) db')))"
proof -
  have "electorate_inv db'" unfolding assms(2) by (rule votes.run_inv [OF assms(1)])
  then have "keys_distinct db'" by (simp add: electorate_inv_def vote_inv_def)
  from tally_counts_ok [OF this assms(3)] show ?thesis by (simp add: counts_ok_def)
qed

definition example_application :: member_application where
  "example_application = \<lparr>ma_application_id = ''a1'', ma_applicant_name = ''M4'', ma_contact = [], ma_motivation = [],
     ma_availability_hours_per_week = 8, ma_role_gap = [], ma_availability_slots = JList [], ma_capability_scores = JObj [],
     ma_can_issue_responsibility_documents = False, ma_document_authority_domains = JList [],
     ma_status = ApplicationSubmitted, ma_requested_member_no = ''M4'', ma_account_user = None, ma_linked_member = Some 4,
     ma_dynamic_answers = JObj [], ma_frozen_at = None, ma_decided_by = None, ma_admission_proposal = Some ''proposal-1'',
     ma_submitted_at = 0, ma_decided_at = None, ma_metadata = JObj []\<rparr>"

definition example_admission :: approval_proposal where
  "example_admission = voting_proposal (plain_env\<lparr>now := 1\<rparr>) example_rule
     (new_electorate_proposal plain_env ''1'' MemberApplicationProposal ''admit M4'' (example_member 1 ''M1'')
       ''member_application:a1'' ''member_application'' ''a1'' (Some ''v1'') [] [] JNull)"

definition example_electorate :: proposal_db where
  "example_electorate = example_proposals\<lparr>
     members := members example_proposals @ [example_member 4 ''M4''], member_applications := [example_application],
     rule_versions := [example_rule], approval_proposals := [example_admission],
     elector_snapshots := [\<lparr>es_proposal = ''proposal-1'', es_member = 3, es_rule_version = ''v1'',
       es_qualification_evidence = JObj [], es_snapshotted_at = 1\<rparr>],
     proposal_ballots := [\<lparr>pb_ballot_id = ''b1'', pb_proposal = ''proposal-1'', pb_voter = 3, pb_revision = 1,
       pb_choice = ChoiceApprove, pb_reason = [], pb_submitted_at = 2\<rparr>]\<rparr>"

lemma example_proposals_roles [simp]:
  "members example_proposals = [example_member 1 ''M1'', example_member 2 ''M2'', example_member 3 ''M3'']"
  "role_assignments example_proposals = role_assignments example_credentials"
  "credential_templates example_proposals = []" "credential_grants example_proposals = []"
  "elector_snapshots example_proposals = []" "proposal_ballots example_proposals = []"
  "proposal_resolutions example_proposals = []" "execution_records example_proposals = []"
  by (simp_all add: example_proposals_def example_credentials_def example_org_with_def credential_db.defs proposal_db.defs)

lemma example_admission_simps [simp]:
  "ap_proposal_id example_admission = ''proposal-1''" "ap_status example_admission = Voting"
  "ap_strategy_type example_admission = ElectorateVote" "ap_electorate_rule_version example_admission = Some ''v1''"
  "ap_proposal_type example_admission = MemberApplicationProposal" "ap_target_type example_admission = ''member_application''"
  "ap_target_id example_admission = ''a1''"
  by (simp_all add: example_admission_def voting_proposal_def new_electorate_proposal_def new_id_def)

lemma example_electorate_inv: "electorate_inv example_electorate" "chain_ok plain_env example_electorate"
proof -
  have "vote_inv example_electorate"
    by (simp add: vote_inv_def keys_distinct_def vote_ok_def resolution_of_def execution_of_def example_electorate_def
        undecided_def execution_fits_def)
  moreover have "role_inv example_electorate = role_inv example_credentials"
    by (simp add: role_inv_def assignments_inv_def held_def numbers_inv_def templates_wf_def template_ids_def grants_of_def
        example_electorate_def example_credentials_ok)
  ultimately show "electorate_inv example_electorate" using example_role_inv by (simp add: electorate_inv_def)
  show "chain_ok plain_env example_electorate" by (simp add: example_electorate_def)
qed

theorem tally_within_electorate_witness:
  "\<exists>t. proposal_tally plain_env legacy_fga example_admission
      (run_ops (electorate_step plain_env) [(5, legacy_fga, StartVoting ''proposal-2'')] example_electorate) = Inr t \<and>
    ty_approve_count t = 1 \<and> ty_participation_count t \<le> ty_eligible_count t"
proof -
  let ?db = "run_ops (electorate_step plain_env) [(5, legacy_fga, StartVoting ''proposal-2'')] example_electorate"
  have db: "?db = example_electorate"
    by (simp add: electorate_step_def start_electorate_voting_def proposal_row_def example_electorate_def)
  have "\<exists>t. proposal_tally plain_env legacy_fga example_admission example_electorate = Inr t \<and> ty_approve_count t = 1"
    by (simp add: proposal_tally_def excluded_member_id_def proposal_adapter_for_def application_for_def example_application_def
        candidate_ballots_def latest_revision_def ballot_counts_def member_row_def electorate_eligibility_for_proposal_def
        rule_version_row_def evaluate_rule_for_member_def ensure_authorization_available_def validate_selector_config_def
        MAX_SELECTOR_DEPTH_def validate_condition_def condition_matches_def member_has_platform_role_def count_choice_def
        role_definition_for_code_def authority_defs catalog_defs member_allows_role_facts_def example_rule_def
        example_electorate_def example_proposals_def example_credentials_def example_org_defs credential_db.defs)
  then obtain t where t: "proposal_tally plain_env legacy_fga example_admission ?db = Inr t" "ty_approve_count t = 1"
    unfolding db by blast
  from tally_within_electorate [OF example_electorate_inv(1) refl t(1)] t show ?thesis by blast
qed


text \<open>C29. In every history of rules, proposals, votes and executions, the ledger keeps verifying, ballots,
  electorates and resolutions are only appended, the electorate and the terms of a proposal are fixed
  once its vote begins, and its status only moves forward. A proposal has at most one resolution, which
  follows from the counts in its evidence and the fixed thresholds and fits the status; it is executed
  exactly when its one execution has succeeded.\<close>

theorem votes_decided_once:
  assumes "electorate_inv db" "chain_ok env db" "db' = run_ops (electorate_step env) xs db"
  shows "chain_ok env db' \<and> prefix (proposal_ballots db) (proposal_ballots db') \<and>
    prefix (elector_snapshots db) (elector_snapshots db') \<and> prefix (proposal_resolutions db) (proposal_resolutions db') \<and>
    electorate_kept db db' \<and> rows_follow vote_moves (approval_proposals db) (approval_proposals db') \<and>
    distinct (map pr_proposal (proposal_resolutions db')) \<and>
    (\<forall>p \<in> set (approval_proposals db'). ap_strategy_type p = ElectorateVote \<longrightarrow>
       (case resolution_of (ap_proposal_id p) db' of
          None \<Rightarrow> ap_status p \<in> {AwaitingPolicy, ProposalDraft, Voting}
        | Some r \<Rightarrow> justified p r \<and> outcome_fits (pr_outcome r) (ap_status p)) \<and>
       (ap_status p = ProposalExecuted \<longleftrightarrow> map_option pe_status (execution_of (ap_proposal_id p) db') = Some ExecutionSucceeded))"
proof -
  have inv: "vote_inv db'" using votes.run_inv [OF assms(1), of env xs] by (simp add: assms(3) electorate_inv_def)
  have safe: "vote_safe env db db'" unfolding assms(3) by (rule votes.run_rel [OF assms(1)])
  have "chain_ok env db'" using safe assms(2) by (simp add: vote_safe_def audited_def)
  moreover have "(case resolution_of (ap_proposal_id p) db' of None \<Rightarrow> ap_status p \<in> {AwaitingPolicy, ProposalDraft, Voting}
        | Some r \<Rightarrow> justified p r \<and> outcome_fits (pr_outcome r) (ap_status p)) \<and>
       (ap_status p = ProposalExecuted \<longleftrightarrow> map_option pe_status (execution_of (ap_proposal_id p) db') = Some ExecutionSucceeded)"
    if p: "p \<in> set (approval_proposals db')" "ap_strategy_type p = ElectorateVote" for p
  proof -
    have ok: "vote_ok p db'" using inv p(1) by (simp add: vote_inv_def)
    then have "execution_fits (execution_of (ap_proposal_id p) db') (ap_status p)" using p(2) by (simp add: vote_ok_def)
    then have "ap_status p = ProposalExecuted \<longleftrightarrow>
        map_option pe_status (execution_of (ap_proposal_id p) db') = Some ExecutionSucceeded"
      by (cases "execution_of (ap_proposal_id p) db'") (auto simp: execution_fits_def)
    then show ?thesis using ok p(2) unfolding vote_ok_def undecided_def by simp
  qed
  ultimately show ?thesis using safe inv by (simp add: vote_safe_def vote_inv_def)
qed

theorem votes_decided_once_witness:
  "let db' = run_ops (electorate_step plain_env) [(2 * 86400, legacy_fga, Finalize ''proposal-1'' (example_member 1 ''M1''))]
       example_electorate in
    chain_ok plain_env db' \<and> snapshot_of ''proposal-1'' db' = snapshot_of ''proposal-1'' example_electorate \<and>
    (\<exists>p \<in> set (approval_proposals db'). vote_moves example_admission p)"
proof -
  have p: "example_admission \<in> set (approval_proposals example_electorate)" by (simp add: example_electorate_def)
  note v = votes_decided_once [OF example_electorate_inv refl,
      of "[(2 * 86400, legacy_fga, Finalize ''proposal-1'' (example_member 1 ''M1''))]"]
  let ?db = "run_ops (electorate_step plain_env) [(2 * 86400, legacy_fga, Finalize ''proposal-1'' (example_member 1 ''M1''))]
    example_electorate"
  note c = conjunct1 [OF v] and v5 = conjunct2 [OF conjunct2 [OF conjunct2 [OF conjunct2 [OF v]]]]
  note kept = conjunct1 [OF v5] and follow = conjunct1 [OF conjunct2 [OF v5]]
  have "snapshot_of ''proposal-1'' ?db = snapshot_of ''proposal-1'' example_electorate"
    using bspec [OF kept [unfolded electorate_kept_def] p] by simp
  then show ?thesis using c rows_follow_in [OF follow p] unfolding Let_def by (intro conjI)
qed


text \<open>An admission grants one covenanter term of a year and marks the application and its member.\<close>

definition admitted :: "time \<Rightarrow> approval_proposal \<Rightarrow> 'a proposal_db_scheme \<Rightarrow> bool" where
  "admitted t p db \<longleftrightarrow> (\<exists>a \<in> set (member_applications db). \<exists>m \<in> set (members db). \<exists>r \<in> set (roles db). \<exists>g.
     ma_application_id a = ap_target_id p \<and> ma_status a = ApplicationAdmitted \<and> ma_linked_member a = Some (m_id m) \<and>
     m_status m = Admitted \<and> rl_name r = ROLE_COVENANTER \<and> held (m_id m) (rl_id r) db = [g] \<and>
     ra_start_at g = t \<and> ra_end_at g = t + ADMISSION_TERM)"

lemma new_term:
  assumes inv: "role_inv db" and st: "started (now env) db"
    and c: "create_role_assignment env uid (m_id m) r by' (Some (now env)) (Some (now env + ADMISSION_TERM)) src skip db = Inr (g, db')"
    and free: "\<not> term_conflict m r (now env) (now env + ADMISSION_TERM) db"
  shows "ra_start_at g = now env \<and> ra_end_at g = now env + ADMISSION_TERM"
proof -
  from c obtain m' db1 created where m': "find_row (\<lambda>x. m_id x = m_id m) (members db) = Some m'"
    and p: "place_assignment env m' r by' (now env) (now env + ADMISSION_TERM) src db = Inr ((g, created), db1)"
    by (rule create_assignment_cases) simp
  have id: "m_id m' = m_id m" using find_row_Some_iff [OF m'] by simp
  have "distinct (map ra_id (role_assignments db))" using inv by (simp add: role_inv_def assignments_inv_def)
  from this p show ?thesis
  proof (cases rule: place_cases)
    case Reuse
    then have g: "g \<in> set (role_assignments db)" "ra_member g = m_id m" "ra_role g = rl_id r" "ra_status g = AssignmentActive"
      by (auto simp: held_def id)
    then have "ra_start_at g \<le> now env" using st by (simp add: started_def)
    moreover have "(0 :: int) < ADMISSION_TERM" by (simp add: ADMISSION_TERM_def)
    ultimately have "ra_start_at g < now env + ADMISSION_TERM" by linarith
    then show ?thesis using free g Reuse(2) by (auto simp: term_conflict_def)
  qed (simp add: new_assignment_def)
qed

lemma admission_effect:
  assumes inv: "role_inv db" and wf: "setup_wf db" and st: "started (now env) db"
    and x: "execute_member_admission env uid p actor db = Inr (j, db')"
  shows "admitted (now env) p db'"
  using inv x
proof (cases rule: admission_cases)
  case (1 a m r db1 g db2 meta)
  have s1: "setup_only db db1" by (rule setup_only_catalog_role [OF 1(5)])
  have i1: "role_inv db1" by (rule setup_only_kept(1) [OF s1 inv])
  have "started (now env) db1" using st setup_only_frame(1) [OF s1] by (simp add: started_def)
  from new_term [OF i1 this 1(7,6)] have g: "ra_start_at g = now env \<and> ra_end_at g = now env + ADMISSION_TERM" .
  note fr = create_assignment_frame [OF i1 1(7)]
  have "held (m_id m) (rl_id r) db2 = [g]" by (rule create_assignment_ok(3) [OF i1 1(7)])
  then have h: "held (m_id m) (rl_id r) db' = [g]"
    by (simp add: 1(8) held_def save_application_def save_member_status_def)
  from wf 1(5) [folded catalog_entries(2)] catalog_entries(1) obtain og :: organization where
    r: "role_ready (og_id og) cov_definition db1 r" by (rule catalog_role_cases)
  have "r \<in> set (roles db1) \<and> rl_name r = ROLE_COVENANTER"
    using r catalog_entries(2) by (auto simp: role_ready_def dest!: find_row_Some_iff)
  then have r': "r \<in> set (roles db')" "rl_name r = ROLE_COVENANTER"
    using fr(2) by (simp_all add: 1(8) save_application_def save_member_status_def)
  have mem: "members db2 = members db" using fr(5) setup_only_frame(2) [OF s1] by simp
  have "m \<in> set (members db)" using 1(3) by (auto simp: member_row_def split: option.splits dest!: find_row_Some_iff)
  then have m': "m\<lparr>m_status := Admitted\<rparr> \<in> set (members db')"
    by (force simp: 1(8) save_application_def save_member_status_def mem update_rows_def)
  have apps: "member_applications db2 = member_applications db"
    using roles_only_frame(3) [OF setup_roles_only [OF s1]] roles_only_frame(3) [OF create_assignment_only [OF i1 1(7)]] by simp
  have a: "a \<in> set (member_applications db)" "ma_application_id a = ap_target_id p"
    using 1(1) by (auto simp: application_for_def split: if_splits option.splits dest!: find_row_Some_iff)
  let ?a = "a\<lparr>ma_status := ApplicationAdmitted, ma_decided_by := Some (m_id actor), ma_decided_at := Some (now env), ma_metadata := meta\<rparr>"
  have "?a \<in> set (member_applications db')"
    using a(1) by (force simp: 1(8) save_application_def save_member_status_def apps update_rows_def)
  then show ?thesis unfolding admitted_def
    using a(2) 1(2) m' r' h g by (intro bexI [of _ ?a] bexI [of _ "m\<lparr>m_status := Admitted\<rparr>"] bexI [of _ r] exI [of _ g]) simp_all
qed

lemma executed_final:
  assumes inv: "electorate_inv db" and p: "proposal_row pid db = Inr p" "ap_strategy_type p = ElectorateVote"
      "ap_status p = ProposalExecuted"
    and x: "execute_electorate_proposal env f uid1 uid2 pid actor db = Inr (y, db')"
  shows "db' = db \<and> execution_of pid db = Some y \<and> pe_status y = ExecutionSucceeded"
  using x
proof (cases rule: execution_cases)
  case (Run q r x0 db1)
  then show ?thesis using p by simp
qed simp


lemma executed_status_stays:
  assumes inv: "electorate_inv db" and p: "proposal_row pid db = Inr p" "ap_strategy_type p = ElectorateVote"
      "ap_status p = ProposalExecuted"
    and d: "d = run_ops (electorate_step env) xs db"
  obtains q where "proposal_row pid d = Inr q" "ap_strategy_type q = ElectorateVote" "ap_status q = ProposalExecuted"
proof -
  have inv': "vote_inv d" using votes.run_inv [OF inv, of env xs] by (simp add: d electorate_inv_def)
  have "vote_safe env db d" unfolding d by (rule votes.run_rel [OF inv])
  then have f: "rows_follow vote_moves (approval_proposals db) (approval_proposals d)" by (simp add: vote_safe_def)
  note pr = proposal_row_ok [OF p(1)]
  from rows_follow_in [OF f conjunct1 [OF pr]] obtain q where q: "q \<in> set (approval_proposals d)" "vote_moves p q" by blast
  have s: "vote_subject q = vote_subject p" "vote_step\<^sup>*\<^sup>* ProposalExecuted (ap_status q)" using q(2) p(3) by (simp_all add: vote_moves_def)
  have id: "ap_proposal_id q = pid" using arg_cong [OF s(1), of ap_proposal_id] pr by (simp add: vote_subject_def)
  have el: "ap_strategy_type q = ElectorateVote" using arg_cong [OF s(1), of ap_strategy_type] p(2) by (simp add: vote_subject_def)
  have st: "ap_status q = ProposalExecuted" using s(2) by (cases rule: converse_rtranclpE) auto
  have "find_row (\<lambda>x. ap_proposal_id x = pid) (approval_proposals d) = Some q"
  proof (rule find_row_unique)
    show "x = q" if "x \<in> set (approval_proposals d)" "ap_proposal_id x = pid" for x
      by (rule distinct_map_unique [of ap_proposal_id "approval_proposals d"]) (use inv' q(1) id that in \<open>simp_all add: vote_inv_def\<close>)
  qed (use q(1) id in simp_all)
  then show thesis using el st by (intro that) (simp_all add: proposal_row_def)
qed

lemma execution_succeeds_once:
  assumes inv: "electorate_inv db" and wf: "setup_wf db" and st: "started (now env) db"
    and x: "execute_electorate_proposal env f uid1 uid2 pid actor db = Inr (x, db')"
    and s: "pe_status x = ExecutionSucceeded" "map_option pe_status (execution_of pid db) \<noteq> Some ExecutionSucceeded"
  obtains p where "proposal_row pid db' = Inr p" "ap_strategy_type p = ElectorateVote" "ap_status p = ProposalExecuted"
    "admitted (now env) p db'"
  using x
proof (cases rule: execution_cases)
  case Again
  then show ?thesis using s by simp
next
  case (Run p r x0 db1)
  have i: "vote_inv db" "role_inv db" using inv by (simp_all add: electorate_inv_def)
  note pr = proposal_row_ok [OF Run(1)]
  from begin_ok [OF i(1) Run(6)] obtain xs where d1: "db1 = db\<lparr>execution_records := xs\<rparr>" by blast
  have i1: "role_inv db1" using role_inv_cong [of db db1] i(2) by (simp add: d1 same_roles_def)
  have w1: "setup_wf db1" "started (now env) db1" using wf st by (simp_all add: d1 setup_wf_def started_def)
  from Run(7) show ?thesis
  proof (cases rule: finish_cases)
    case (Refused msg p')
    then show ?thesis using s by simp
  next
    case (Done j db2 p')
    have a: "admitted (now env) p db2" by (rule admission_effect [OF i1 w1 Done(1)])
    note v = admission_ok [OF i1 Done(1)]
    from Done(4) obtain es where e: "db' = (save_proposal p' (save_execution x db2))\<lparr>system_events := es\<rparr>"
      by (auto simp: events_only_def)
    have id: "ap_proposal_id p' = pid" "ap_target_id p' = ap_target_id p" using pr by (simp_all add: Done(2))
    have "admitted (now env) p' db'"
      using a by (simp add: admitted_def e save_proposal_def save_execution_def held_def id)
    moreover have "approval_proposals db2 = approval_proposals db" using v by (simp add: same_votes_def d1)
    then have "approval_proposals db' = update_rows (\<lambda>x. ap_proposal_id x = pid) (\<lambda>_. p') (approval_proposals db)"
      by (simp add: e save_execution_def id)
    moreover have "find_row (\<lambda>x. ap_proposal_id x = pid) (approval_proposals db) = Some p"
      using Run(1) by (auto simp: proposal_row_def split: option.splits)
    ultimately have "proposal_row pid db' = Inr p'"
      using find_row_saved [of "\<lambda>x. ap_proposal_id x = pid" "approval_proposals db" p p'] id by (simp add: proposal_row_def)
    with \<open>admitted (now env) p' db'\<close> show ?thesis using Run(2) by (intro that) (simp_all add: Done(2))
  qed
qed



text \<open>The example electorate approves, and member 1 executes the admission of member 4.\<close>

definition example_approved :: proposal_db where
  "example_approved = example_electorate\<lparr>
     approval_proposals := [example_admission\<lparr>ap_status := ProposalApproved, ap_resolved_at := Some 3\<rparr>],
     proposal_resolutions := [\<lparr>pr_proposal = ''proposal-1'', pr_outcome = OutcomeApproved,
       pr_reason_code = ''approve_threshold_reached'', pr_evidence = resolution_evidence example_admission \<lparr>ty_eligible_count = 1,
         ty_participation_count = 1, ty_approve_count = 1, ty_reject_count = 0, ty_abstain_count = 0\<rparr>,
       pr_decided_by = Some 3, pr_decided_at = 3\<rparr>],
     role_permissions := [\<lparr>rp_role = 2, rp_permission = ''governance.manage_people'', rp_scope = ''global'',
       rp_constraints_json = JObj []\<rparr>]\<rparr>"

lemma example_terms [simp]: "or_one (ap_frozen_approve_threshold example_admission) = 1"
  "or_zero (ap_frozen_minimum_participation example_admission) = 0"
  by (simp_all add: example_admission_def voting_proposal_def new_electorate_proposal_def example_rule_def or_one_def or_zero_def)

lemma example_approved_inv: "electorate_inv example_approved" "setup_wf example_approved" "started t example_approved \<longleftrightarrow> 0 \<le> t"
proof -
  let ?p = "example_admission\<lparr>ap_status := ProposalApproved, ap_resolved_at := Some 3\<rparr>"
  let ?t = "\<lparr>ty_eligible_count = 1, ty_participation_count = 1, ty_approve_count = 1, ty_reject_count = 0, ty_abstain_count = 0\<rparr>"
  have "resolution_outcome_of ?p ?t 3 = Some (OutcomeApproved, ''approve_threshold_reached'')"
    "resolution_evidence ?p ?t = resolution_evidence example_admission ?t"
    using terms_cong [of ?p example_admission] by (simp_all add: frozen_terms_def resolution_outcome_of_def)
  then have "justified ?p \<lparr>pr_proposal = ''proposal-1'', pr_outcome = OutcomeApproved,
       pr_reason_code = ''approve_threshold_reached'', pr_evidence = resolution_evidence example_admission ?t,
       pr_decided_by = Some 3, pr_decided_at = 3\<rparr>"
    unfolding justified_def by (intro exI [of _ ?t]) (simp add: counts_ok_def)
  then have "vote_inv example_approved"
    by (simp add: vote_inv_def keys_distinct_def vote_ok_def resolution_of_def execution_of_def example_approved_def
        example_electorate_def execution_fits_def)
  moreover have "role_inv example_approved = role_inv example_electorate"
    by (rule role_inv_cong) (simp add: same_roles_def example_approved_def)
  ultimately show "electorate_inv example_approved" using example_electorate_inv by (simp add: electorate_inv_def)
  show "setup_wf example_approved" "started t example_approved \<longleftrightarrow> 0 \<le> t"
    by (simp_all add: setup_wf_def started_def example_approved_def example_electorate_def example_proposals_def
        example_credentials_def example_org_defs credential_db.defs)
qed

lemma admission_live:
  assumes inv: "role_inv db" and wf: "setup_wf db"
    and a: "application_for p db = Inr a" "ma_linked_member a = Some i" "is_obj (ma_metadata a)"
    and m: "member_row i db = Inr m" "m_id m \<noteq> m_id actor" "member_allows_role_facts m"
    and free: "\<forall>x \<in> set (role_assignments db). ra_member x \<noteq> i"
    and fresh: "credential_templates db = []" "credential_grants db = []" "system_events db = []" "\<not> sha_collision env"
  obtains j db' where "execute_member_admission env uid p actor db = Inr (j, db')"
proof -
  from catalog_role_live [OF wf catalog_entries(1), of env] obtain r db1 where
    c: "ensure_catalog_role env ROLE_COVENANTER db = Inr (r, db1)" unfolding catalog_entries(2) by blast
  have s1: "setup_only db db1" by (rule setup_only_catalog_role [OF c])
  have i1: "role_inv db1" by (rule setup_only_kept(1) [OF s1 inv])
  from wf c [folded catalog_entries(2)] catalog_entries(1) obtain rs og where rs: "catalog_ready rs db1"
    "organization_ready og db1" "role_ready (og_id og) cov_definition db1 r" by (rule catalog_role_cases)
  have "setup_wf db1" using rs(1) by (simp add: catalog_ready_def)
  from ready_role_facts(6) [OF this rs(2,3) catalog_entries(1), of "example_assignment 0 0 (rl_id r)"]
  have def1: "catalog_role_definition_for_role r db1 = Some cov_definition" by (simp add: example_assignment_def)
  have id: "m_id m = i" and "find_row (\<lambda>m. m_id m = i) (members db) = Some m"
    using m(1) by (auto simp: member_row_def split: option.splits dest!: find_row_Some_iff)
  then have m1: "find_row (\<lambda>x. m_id x = m_id m) (members db1) = Some m" using setup_only_frame(2) [OF s1] by simp
  have fresh1: "credential_templates db1 = []" "credential_grants db1 = []" "system_events db1 = []"
    using s1 fresh(1-3) unfolding setup_only_def by auto
  have "(case Some (now env) of None \<Rightarrow> now env | Some t \<Rightarrow> t) < (case Some (now env + ADMISSION_TERM) of None \<Rightarrow>
      default_role_assignment_end_at (case Some (now env) of None \<Rightarrow> now env | Some t \<Rightarrow> t) | Some t \<Rightarrow> t)"
    by (simp add: ADMISSION_TERM_def)
  from covenanter_grant_live [OF i1 m1 m(3) def1 fresh1 fresh(4) this] obtain g db2 where
    g: "create_role_assignment env uid (m_id m) r (Some (m_id actor)) (Some (now env)) (Some (now env + ADMISSION_TERM))
      SourceProposal False db1 = Inr (g, db2)" by blast
  have "\<not> term_conflict m r (now env) (now env + ADMISSION_TERM) db1"
    using free setup_only_frame(1) [OF s1] by (simp add: term_conflict_def id)
  moreover have "m_status m \<notin> {Suspended, Exited}" "m_user_active m \<noteq> Some False"
    using m(3) by (auto simp: member_allows_role_facts_def)
  ultimately show thesis using a m(1,2) c g that
    by (simp add: execute_member_admission_def extend_metadata_def Let_def)
qed


lemma admission_tables:
  assumes inv: "role_inv db" and x: "execute_member_admission env uid p actor db = Inr (j, db')"
  shows "rule_versions db' = rule_versions db" "map ma_application_id (member_applications db') = map ma_application_id (member_applications db)"
proof -
  have "rule_versions db' = rule_versions db \<and> map ma_application_id (member_applications db') = map ma_application_id (member_applications db)"
    using inv x
  proof (cases rule: admission_cases)
    case (1 a m r db1 g db2 meta)
    have s1: "setup_only db db1" by (rule setup_only_catalog_role [OF 1(5)])
    have i1: "role_inv db1" by (rule setup_only_kept(1) [OF s1 inv])
    have "rule_versions db2 = rule_versions db \<and> member_applications db2 = member_applications db"
      using setup_roles_only [OF s1] create_assignment_only [OF i1 1(7)] by (auto simp: roles_only_def)
    then show ?thesis by (simp add: 1(8) save_application_def save_member_status_def map_update_rows)
  qed
  then show "rule_versions db' = rule_versions db"
    "map ma_application_id (member_applications db') = map ma_application_id (member_applications db)" by simp_all
qed

lemma find_row_live: "k \<in> set (map g xs) \<Longrightarrow> \<exists>x. find_row (\<lambda>x. g x = k) xs = Some x"
  by (induction xs) auto

lemma filter_result_live: "\<forall>x \<in> set xs. \<exists>b. P x = Inr b \<Longrightarrow> \<exists>ys. filter_result P xs = Inr ys"
  by (induction xs) fastforce+

lemma eligibility_live:
  assumes "fga_backend f = ''legacy''" "ap_electorate_rule_version p = Some i" "rule_version_row i db = Inr rule"
    "validate_selector_config (rv_selector_config rule) db = Inr c"
  shows "\<exists>e. electorate_eligibility_for_proposal env f p m excluded db = Inr e"
proof -
  have v: "validate_selector_node (active_domain db) 0 (rv_selector_config rule) = Inr ()"
    using assms(4) by (auto simp: validate_selector_config_def)
  have "\<forall>k v. validate_condition (active_domain db) k v = Inr () \<longrightarrow>
      condition_matches f m (now env) db k v = Inr (member_satisfies m (now env) db k v)"
    using condition_sound [OF assms(1)] by blast
  from evaluate_valid(1) [OF this v] obtain ev where
    "evaluate_selector_node (condition_matches f m (now env) db) (rv_selector_config rule) =
      Inr (selector_holds (member_satisfies m (now env) db) (rv_selector_config rule), ev)" by blast
  then show ?thesis using assms
    by (simp add: electorate_eligibility_for_proposal_def evaluate_rule_for_member_def ensure_authorization_available_def)
qed

lemma tally_live:
  assumes "fga_backend f = ''legacy''" "ap_electorate_rule_version p = Some i" "rule_version_row i db = Inr rule"
    "validate_selector_config (rv_selector_config rule) db = Inr c"
    and "ap_proposal_type p = MemberApplicationProposal" "application_for p db = Inr a"
    and "pb_voter ` set (proposal_ballots db) \<subseteq> m_id ` set (members db)"
  shows "\<exists>t. proposal_tally env f p db = Inr t"
proof -
  have "\<forall>x \<in> set (candidate_ballots (ap_proposal_id p) db). \<exists>b. ballot_counts env f p (ma_linked_member a) db x = Inr b"
  proof
    fix x assume "x \<in> set (candidate_ballots (ap_proposal_id p) db)"
    then have "pb_voter x \<in> set (map m_id (members db))" using assms(7) by (auto simp: candidate_ballots_def)
    from find_row_live [OF this] obtain m where "member_row (pb_voter x) db = Inr m" by (auto simp: member_row_def)
    moreover from eligibility_live [OF assms(1-4)] obtain e where
      "electorate_eligibility_for_proposal env f p m (ma_linked_member a) db = Inr e" by blast
    ultimately show "\<exists>b. ballot_counts env f p (ma_linked_member a) db x = Inr b" by (simp add: ballot_counts_def)
  qed
  from filter_result_live [OF this] obtain ys where
    "filter_result (ballot_counts env f p (ma_linked_member a) db) (candidate_ballots (ap_proposal_id p) db) = Inr ys" by blast
  then show ?thesis using assms(5,6) by (simp add: proposal_tally_def excluded_member_id_def proposal_adapter_for_def)
qed

lemma proposal_ref_nonblank: "nonblank (public_ref (''approval-proposal'' # parts))"
proof -
  have "nonblank s \<Longrightarrow> nonblank (join_colon (s # ss))" for s ss by (cases ss) simp_all
  then have "nonblank (join_colon (''approval-proposal'' # ss))" for ss by (simp add: is_space_def)
  moreover have "map (\<lambda>p. replace_spaces (py_strip p)) (filter (\<lambda>p. py_strip p \<noteq> []) (''approval-proposal'' # parts)) =
      ''approval-proposal'' # map (\<lambda>p. replace_spaces (py_strip p)) (filter (\<lambda>p. py_strip p \<noteq> []) parts)"
    by (simp add: py_strip_def is_space_def replace_spaces_def)
  ultimately show ?thesis unfolding public_ref_def Let_def by (simp add: is_space_def)
qed

lemma admission_event_live:
  assumes "chain_ok env db" "\<not> sha_collision env" "proposal_tally env f p db = Inr t" "ap_strategy_type p = ElectorateVote"
    "ap_proposal_type p = MemberApplicationProposal" "ap_electorate_rule_version p = Some i" "rule_version_row i db = Inr rule"
    "ap_submitted_by p \<in> set (map m_id (members db))" "nonblank action"
  shows "\<exists>db'. proposal_event env f ty p action actor at db = Inr db'"
proof -
  from find_row_live [OF assms(8)] obtain s where s: "member_row (ap_submitted_by p) db = Inr s" by (auto simp: member_row_def)
  obtain facts where fs: "strategy_facts env f p db = Inr facts" and sf: "safe_facts facts"
    using assms(3-7) by (simp add: strategy_facts_def PUBLIC_LEDGER_DENYLIST_KEYS_def split: option.splits)
  have sa: "safe_facts (application_facts p db)"
    by (simp add: application_facts_def PUBLIC_LEDGER_DENYLIST_KEYS_def Let_def split: option.splits)
  have st: "nonblank (proposal_status_value s)" for s by (cases s) (simp_all add: is_space_def)
  from s fs obtain pay where pay: "approval_proposal_payload env f p action actor db = Inr pay" by (simp add: approval_proposal_payload_def Let_def)
  have "\<exists>e. append_event env ty ''ApprovalProposal'' (ap_proposal_id p) (Some (m_id actor)) None pay (Some at) db =
      Inr (e, db\<lparr>system_events := system_events db @ [e]\<rparr>)"
  proof -
    have p: "pay = public_event_payload ''approval_proposal'' (public_ref [''approval-proposal'', ap_proposal_id p])
        ''admission proposal'' action (proposal_status_value (ap_status p))
        (''proposal '' @ ap_proposal_id p @ '' (admission proposal) '' @ action @ ''.'')
        ([(''approval_proposal_id'', JStr (ap_proposal_id p)),
            (''ap_type'', JStr (proposal_type_value (ap_proposal_type p))),
            (''ap_title'', JStr ''admission proposal''), (''ap_summary'', JStr ''the community decides on an application''),
            (''ap_status'', JStr (proposal_status_value (ap_status p))),
            (''ap_strategy_type'', JStr (strategy_type_value (ap_strategy_type p))),
            (''ap_target_type'', JStr (ap_target_type p)),
            (''ap_submitted_by_display'', JStr (public_member_label (m_display_name s) (m_member_no s))),
            (''ap_actor_display'', JStr (public_member_label (m_display_name actor) (m_member_no actor)))] @
           application_facts p db @ facts)
        [private_commitment ''metadata'' (json_truthy (ap_metadata p)) ''metadata'']"
      using pay s fs assms(5) by (simp add: approval_proposal_payload_def Let_def)
    have "validate_public_ledger_payload pay = Inr ()" unfolding p
      by (rule public_event_payload_valid)
        (use sf sa st assms(9) in \<open>simp_all add: is_space_def PUBLIC_LEDGER_DENYLIST_KEYS_def proposal_ref_nonblank\<close>)
    from append_succeeds [OF assms(1,2) this p] show ?thesis by (simp add: Let_def)
  qed
  then show ?thesis using pay by (auto simp: proposal_event_def)
qed


lemma example_execution:
  "\<exists>x db'. execute_electorate_proposal (plain_env\<lparr>now := 50\<rparr>) legacy_fga ''x'' ''u'' ''proposal-1'' (example_member 1 ''M1'')
     example_approved = Inr (x, db') \<and> pe_status x = ExecutionSucceeded"
proof -
  let ?env = "plain_env\<lparr>now := 50\<rparr>" and ?m = "example_member 1 ''M1''"
  let ?p = "example_admission\<lparr>ap_status := ProposalApproved, ap_resolved_at := Some 3\<rparr>"
  let ?p' = "?p\<lparr>ap_status := ProposalExecuted, ap_executed_at := Some 50, ap_updated_at := Some 50\<rparr>"
  let ?x = "\<lparr>pe_execution_id = new_id ''execution'' ''x'', pe_proposal = ''proposal-1'',
      pe_idempotency_key = ''proposal:proposal-1'', pe_executed_by = 1, pe_status = ExecutionRunning,
      pe_public_error_code = [], pe_result_data = JObj [], pe_started_at = 50, pe_completed_at = None\<rparr>"
  let ?db1 = "example_approved\<lparr>execution_records := [?x]\<rparr>"
  have inv: "vote_inv example_approved" "role_inv ?db1"
    using example_approved_inv(1) role_inv_cong [of example_approved ?db1] by (simp_all add: electorate_inv_def same_roles_def)
  have b: "begin_execution ?env ''x'' ?p ?m example_approved = Inr (?x, ?db1)"
    by (simp add: begin_execution_def insert_execution_def example_approved_def example_electorate_def Let_def)
  have wf: "setup_wf ?db1" using example_approved_inv(2) by (simp add: setup_wf_def)
  have app: "application_for ?p ?db1 = Inr example_application"
    by (simp add: application_for_def example_approved_def example_electorate_def example_application_def)
  have mr: "member_row 4 ?db1 = Inr (example_member 4 ''M4'')"
    by (simp add: member_row_def example_approved_def example_electorate_def)
  have free: "\<forall>x \<in> set (role_assignments ?db1). ra_member x \<noteq> 4"
    by (simp add: example_approved_def example_electorate_def example_credentials_def example_org_with_def example_assignment_def)
  have side: "ma_linked_member example_application = Some 4" "is_obj (ma_metadata example_application)"
    "m_id (example_member 4 ''M4'') \<noteq> m_id ?m" "member_allows_role_facts (example_member 4 ''M4'')"
    "credential_templates ?db1 = []" "credential_grants ?db1 = []" "system_events ?db1 = []" "\<not> sha_collision ?env"
    by (simp_all add: example_application_def member_allows_role_facts_def example_member_def example_approved_def example_electorate_def)
  obtain j db2 where j: "execute_member_admission ?env ''u'' ?p ?m ?db1 = Inr (j, db2)"
    by (rule admission_live [OF inv(2) wf app side(1,2) mr side(3,4) free side(5-8)])
  note v = admission_ok [OF inv(2) j] and tb = admission_tables [OF inv(2) j]
  let ?x' = "?x\<lparr>pe_status := ExecutionSucceeded, pe_result_data := (if is_obj j then j else JObj []), pe_completed_at := Some 50\<rparr>"
  let ?db3 = "save_proposal ?p' (save_execution ?x' db2)"
  have "chain_ok ?env ?db1" by (simp add: example_approved_def example_electorate_def)
  then have c: "chain_ok ?env ?db3" using v by (simp add: audited_def save_proposal_def save_execution_def chain_ok_def verify_event_chain_def)
  have mem: "map m_id (members ?db3) = [1, 2, 3, 4]"
    using v by (simp add: same_votes_def save_execution_def example_approved_def example_electorate_def)
  have rule: "rule_version_row ''v1'' ?db3 = Inr example_rule"
    using tb(1) by (simp add: rule_version_row_def save_proposal_def save_execution_def example_approved_def example_electorate_def
        example_rule_def)
  have val: "validate_selector_config (rv_selector_config example_rule) ?db3 = Inr (rv_selector_config example_rule)"
    by (simp add: validate_selector_config_def example_rule_def MAX_SELECTOR_DEPTH_def validate_condition_def
        role_definition_for_code_def ROLE_DEFINITIONS_def)
  have "''a1'' \<in> set (map ma_application_id (member_applications ?db3))"
    using tb(2) by (simp add: save_proposal_def save_execution_def example_approved_def example_electorate_def example_application_def)
  from find_row_live [OF this] obtain a where a: "application_for ?p' ?db3 = Inr a" by (auto simp: application_for_def)
  have bal: "pb_voter ` set (proposal_ballots ?db3) \<subseteq> m_id ` set (members ?db3)"
    using arg_cong [OF mem, of set] v by (simp add: same_votes_def save_execution_def example_approved_def example_electorate_def)
  from tally_live [OF _ _ rule val _ a bal, of legacy_fga ?env] obtain t where
    t: "proposal_tally ?env legacy_fga ?p' ?db3 = Inr t" by (auto simp: legacy_fga_def)
  from admission_event_live [OF c _ t _ _ _ rule, of "''executed''" "''approval_proposal_executed''" ?m 50] obtain db' where
    e: "proposal_event ?env legacy_fga ''approval_proposal_executed'' ?p' ''executed'' ?m 50 ?db3 = Inr db'"
    unfolding mem by (auto simp: is_space_def example_admission_def voting_proposal_def new_electorate_proposal_def)
  have "finish_execution ?env legacy_fga ?p ?m ?x (Inr (j, db2)) ?db1 = Inr (?x', db')"
    using e by (simp add: finish_execution_def Let_def)
  moreover have "require_permission ?env legacy_fga ?m MEMBER_ADMISSION_EXECUTION_PERMISSION msg example_approved = Inr ()" for msg
    by (simp add: require_permission_def MEMBER_ADMISSION_EXECUTION_PERMISSION_def authority_defs catalog_defs
        example_approved_def example_electorate_def example_proposals_def example_credentials_def example_org_defs credential_db.defs)
  moreover have "proposal_row ''proposal-1'' example_approved = Inr ?p" by (simp add: proposal_row_def example_approved_def)
  ultimately show ?thesis using b j
    by (simp add: execute_electorate_proposal_def proposal_adapter_for_def Let_def)
      (simp add: example_approved_def example_electorate_def)
qed


end
