(* ===== verification/Evidence.thy ===== *)
theory Evidence
  imports Prelude "HOL-Library.Sublist"
begin

text \<open>
  Files as evidence: bounded reading, detection and validation of uploads
  (\<^verbatim>\<open>core/file_processing/\<close>), the keys of stored objects and the gateway to the object storage
  (\<^verbatim>\<open>core/file_storage/\<close>).

  Bytes are characters. The content detector (Magika), the image library (Pillow), the csv reader
  and the storage backend are parameters. The object storage is outside every database transaction:
  its state is passed along explicitly and a raised exception does not restore it.
\<close>

subsection \<open>Limits\<close>

record file_limits =
  lim_max_upload_bytes :: nat
  lim_max_files :: nat
  lim_max_total_bytes :: nat
  lim_max_edge_pixels :: int
  lim_max_total_pixels :: int

text \<open>An upload yields chunks until it ends or its reading raises. \<open>up_size\<close> is what the client
  declared, 0 when it declared nothing.\<close>

record upload =
  up_name :: string
  up_size :: int
  up_chunks :: "string result list"

fun collect_chunks :: "nat \<Rightarrow> string \<Rightarrow> string result list \<Rightarrow> string result" where
  "collect_chunks max_bytes read [] = Inr read"
| "collect_chunks max_bytes read (Inl e # chunks) =
    (case e of DomainError m \<Rightarrow> Inl (DomainError m) | _ \<Rightarrow> Inl (DomainError ''the file cannot be read''))"
| "collect_chunks max_bytes read (Inr chunk # chunks) =
    (if max_bytes < length (read @ chunk) then Inl (DomainError ''the file is too large'')
     else collect_chunks max_bytes (read @ chunk) chunks)"

definition read_bounded_upload :: "nat \<Rightarrow> upload \<Rightarrow> string result" where
  "read_bounded_upload max_bytes up =
    and_then (collect_chunks max_bytes [] (up_chunks up)) (\<lambda>contents.
      if contents = [] then Inl (DomainError ''the file is empty'') else Inr contents)"

subsection \<open>Detection\<close>

record file_libraries =
  lib_identify :: "string \<Rightarrow> string result"
  lib_image_size :: "string \<Rightarrow> (int \<times> int) result"
  lib_image_load :: "string \<Rightarrow> unit result"
  lib_csv_reads :: "string \<Rightarrow> bool"
  lib_sha256 :: "string \<Rightarrow> string"

definition ALLOWED_LABELS :: "(string \<times> string) list" where
  "ALLOWED_LABELS = [(''pdf'', ''application/pdf''), (''jpeg'', ''image/jpeg''), (''jpg'', ''image/jpeg''),
     (''png'', ''image/png''), (''webp'', ''image/webp''), (''csv'', ''text/csv'')]"

record processed_attachment =
  pa_content :: string
  pa_media_type :: string
  pa_display_filename :: string
  pa_sha256 :: string
  pa_size :: nat

text \<open>\<^verbatim>\<open>PurePath(...).name\<close>: the last component that is neither empty nor a single dot.\<close>

fun split_slash :: "string \<Rightarrow> string \<Rightarrow> string list" where
  "split_slash read [] = [read]"
| "split_slash read (c # cs) = (if c = CHR ''/'' then read # split_slash [] cs else split_slash (read @ [c]) cs)"

definition path_name :: "string \<Rightarrow> string" where
  "path_name s = (case rev (filter (\<lambda>p. p \<noteq> [] \<and> p \<noteq> ''.'') (split_slash [] s)) of [] \<Rightarrow> [] | p # ps \<Rightarrow> p)"

definition safe_filename :: "string \<Rightarrow> string" where
  "safe_filename name =
    (let given = (if name = [] then ''attachment'' else name);
         cleaned = py_strip (path_name (map (\<lambda>c. if of_char c = (92 :: nat) then CHR ''/'' else c) given))
     in take 255 (if cleaned = [] then ''attachment'' else cleaned))"

text \<open>Errors of the image library that count as a broken image.\<close>

fun broken_image :: "error \<Rightarrow> bool" where
  "broken_image (ValueError m) = True"
| "broken_image (LibraryError n) = (n \<in> {''UnidentifiedImageError'', ''OSError''})"
| "broken_image e = False"

definition image_error :: "error \<Rightarrow> error" where
  "image_error e = (if broken_image e then DomainError ''the image is broken'' else e)"

definition validate_image :: "file_limits \<Rightarrow> file_libraries \<Rightarrow> string \<Rightarrow> unit result" where
  "validate_image lim lib contents =
    (case lib_image_size lib contents of
       Inl e \<Rightarrow> Inl (image_error e)
     | Inr (width, height) \<Rightarrow>
         if lim_max_edge_pixels lim < width \<or> lim_max_edge_pixels lim < height then Inl (DomainError ''the edge is too long'')
         else if lim_max_total_pixels lim < width * height then Inl (DomainError ''the image has too many pixels'')
         else case lib_image_load lib contents of Inl e \<Rightarrow> Inl (image_error e) | Inr u \<Rightarrow> Inr ())"

definition contains_text :: "string \<Rightarrow> string \<Rightarrow> bool" where
  "contains_text part s = list_ex (prefix part) (suffixes s)"

definition pdf_ok :: "string \<Rightarrow> bool" where
  "pdf_ok contents \<longleftrightarrow> prefix ''%PDF-'' contents \<and> contains_text ''%%EOF'' (drop (length contents - 2048) contents)"

text \<open>Well-formed UTF-8, in the code units of a text. Its NUL characters are its NUL bytes.\<close>

definition unit_in :: "nat \<Rightarrow> nat \<Rightarrow> nat \<Rightarrow> bool" where
  "unit_in lo hi n \<longleftrightarrow> lo \<le> n \<and> n \<le> hi"

text \<open>The range of the second unit of a sequence, given the first: no overlong form, no surrogate,
  nothing above the last code point.\<close>

definition second_unit :: "nat \<Rightarrow> nat \<Rightarrow> bool" where
  "second_unit a b =
    (if a = 224 then unit_in 160 191 b else if a = 237 then unit_in 128 159 b
     else if a = 240 then unit_in 144 191 b else if a = 244 then unit_in 128 143 b
     else unit_in 128 191 b)"

fun utf8_ok :: "nat list \<Rightarrow> bool" where
  "utf8_ok [] = True"
| "utf8_ok (a # bs) =
    (if a < 128 then utf8_ok bs
     else if unit_in 194 223 a then (case bs of b # cs \<Rightarrow> second_unit a b \<and> utf8_ok cs | _ \<Rightarrow> False)
     else if unit_in 224 239 a then
       (case bs of b # c # cs \<Rightarrow> second_unit a b \<and> unit_in 128 191 c \<and> utf8_ok cs | _ \<Rightarrow> False)
     else if unit_in 240 244 a then
       (case bs of b # c # d # cs \<Rightarrow> second_unit a b \<and> unit_in 128 191 c \<and> unit_in 128 191 d \<and> utf8_ok cs | _ \<Rightarrow> False)
     else False)"

definition csv_ok :: "file_libraries \<Rightarrow> string \<Rightarrow> bool" where
  "csv_ok lib contents \<longleftrightarrow> utf8_ok (map of_char contents) \<and> 0 \<notin> set (map (of_char :: char \<Rightarrow> nat) contents) \<and> lib_csv_reads lib contents"

definition process_business_attachment :: "file_limits \<Rightarrow> file_libraries \<Rightarrow> upload \<Rightarrow> processed_attachment result" where
  "process_business_attachment lim lib up =
    and_then (read_bounded_upload (lim_max_upload_bytes lim) up) (\<lambda>contents.
      case lib_identify lib contents of
        Inl e \<Rightarrow> Inl (DomainError ''the type of the file cannot be identified'')
      | Inr found \<Rightarrow>
          (case map_of ALLOWED_LABELS (py_lower found) of
             None \<Rightarrow> Inl (DomainError ''the type of the file is not supported'')
           | Some media \<Rightarrow>
               and_then (if prefix ''image/'' media then validate_image lim lib contents
                         else if media = ''application/pdf'' then
                           (if pdf_ok contents then Inr () else Inl (DomainError ''the PDF is broken''))
                         else if csv_ok lib contents then Inr () else Inl (DomainError ''the CSV is not valid UTF-8 text'')) (\<lambda>_.
                 Inr \<lparr>pa_content = contents, pa_media_type = media, pa_display_filename = safe_filename (up_name up),
                   pa_sha256 = lib_sha256 lib contents, pa_size = length contents\<rparr>)))"

subsection \<open>Object keys\<close>

definition world_char :: "char \<Rightarrow> bool" where
  "world_char c = (let n = (of_char c :: nat) in 48 \<le> n \<and> n \<le> 57 \<or> 65 \<le> n \<and> n \<le> 90 \<or> 97 \<le> n \<and> n \<le> 122)"

definition require_safe_world_id :: "string \<Rightarrow> string result" where
  "require_safe_world_id w =
    (case w of [] \<Rightarrow> Inl (DomainError ''the world is invalid'')
     | c # cs \<Rightarrow> if world_char c \<and> length cs \<le> 95 \<and> list_all (\<lambda>d. world_char d \<or> d = CHR ''_'' \<or> d = CHR ''-'') cs
                 then Inr w else Inl (DomainError ''the world is invalid''))"

definition business_attachment_prefix :: "string \<Rightarrow> string result" where
  "business_attachment_prefix w = and_then (require_safe_world_id w) (\<lambda>v. Inr (v @ ''/runtime/permanent-attachments/''))"

definition new_business_attachment_key :: "string \<Rightarrow> string \<Rightarrow> string result" where
  "new_business_attachment_key w uid = and_then (business_attachment_prefix w) (\<lambda>pre. Inr (pre @ uid))"

definition require_business_attachment_key :: "string \<Rightarrow> string \<Rightarrow> string result" where
  "require_business_attachment_key key w =
    and_then (business_attachment_prefix w) (\<lambda>expected.
      if \<not> prefix expected key \<or> contains_text ''..'' key \<or> 92 \<in> set (map (of_char :: char \<Rightarrow> nat) key)
      then Inl (DomainError ''the key does not belong to the world'')
      else let suf = drop (length expected) key in
        if suf = [] \<or> CHR ''/'' \<in> set suf then Inl (DomainError ''the key is invalid'') else Inr key)"

subsection \<open>The storage gateway\<close>

type_synonym store = "string \<Rightarrow> string option"

record storage =
  st_save :: "string \<Rightarrow> string \<Rightarrow> store \<Rightarrow> string result \<times> store"
  st_delete :: "string \<Rightarrow> store \<Rightarrow> store"

definition save_immutable :: "storage \<Rightarrow> string \<Rightarrow> string \<Rightarrow> string \<Rightarrow> store \<Rightarrow> string result \<times> store" where
  "save_immutable sto w uid contents s =
    (case new_business_attachment_key w uid of
       Inl e \<Rightarrow> (Inl e, s)
     | Inr key \<Rightarrow>
         (case st_save sto key contents s of
            (Inl e, s') \<Rightarrow> (Inl e, s')
          | (Inr saved, s') \<Rightarrow>
              if saved \<noteq> key then (Inl (LibraryError ''RuntimeError''), st_delete sto saved s') else (Inr key, s')))"

definition delete_uncommitted :: "storage \<Rightarrow> string \<Rightarrow> string \<Rightarrow> store \<Rightarrow> unit result \<times> store" where
  "delete_uncommitted sto w key s =
    (case require_business_attachment_key key w of Inl e \<Rightarrow> (Inl e, s) | Inr k \<Rightarrow> (Inr (), st_delete sto k s))"

text \<open>The loops that undo object writes. An exception of a deletion ends them and replaces the one
  that caused them.\<close>

fun delete_all_uncommitted :: "storage \<Rightarrow> string \<Rightarrow> string list \<Rightarrow> store \<Rightarrow> unit result \<times> store" where
  "delete_all_uncommitted sto w [] s = (Inr (), s)"
| "delete_all_uncommitted sto w (key # keys) s =
    (case delete_uncommitted sto w key s of
       (Inl e, s') \<Rightarrow> (Inl e, s')
     | (Inr u, s') \<Rightarrow> delete_all_uncommitted sto w keys s')"

definition raise_after_cleanup :: "storage \<Rightarrow> string \<Rightarrow> string list \<Rightarrow> error \<Rightarrow> store \<Rightarrow> 'a result \<times> store" where
  "raise_after_cleanup sto w keys e s =
    (case delete_all_uncommitted sto w keys s of (Inl e', s') \<Rightarrow> (Inl e', s') | (Inr u, s') \<Rightarrow> (Inl e, s'))"

subsection \<open>What the backend promises\<close>

text \<open>Documented behaviour of a Django storage: saving writes one new object, under the given name or
  another free one, or raises without writing; deleting removes one object.\<close>

definition storage_laws :: "storage \<Rightarrow> bool" where
  "storage_laws sto \<longleftrightarrow>
    (\<forall>k c s k' s'. st_save sto k c s = (Inr k', s') \<longrightarrow> s k' = None \<and> s' = s(k' \<mapsto> c)) \<and>
    (\<forall>k c s e s'. st_save sto k c s = (Inl e, s') \<longrightarrow> s' = s) \<and> (\<forall>k s. st_delete sto k s = s(k := None))"

lemma collect_chunks_bound:
  "collect_chunks n read chunks = Inr contents \<Longrightarrow> length read \<le> n \<Longrightarrow> length contents \<le> n"
  by (induction n read chunks rule: collect_chunks.induct) (auto split: if_splits error.splits)

lemma process_ok:
  assumes "process_business_attachment lim lib up = Inr p"
  shows "pa_content p \<noteq> []" "length (pa_content p) \<le> lim_max_upload_bytes lim" "pa_size p = length (pa_content p)"
    "pa_sha256 p = lib_sha256 lib (pa_content p)"
proof -
  from assms obtain contents where c: "collect_chunks (lim_max_upload_bytes lim) [] (up_chunks up) = Inr contents" "contents \<noteq> []"
    and r: "process_business_attachment lim lib up = Inr p"
    by (auto simp: process_business_attachment_def read_bounded_upload_def split: if_splits)
  then have "pa_content p = contents \<and> pa_size p = length contents \<and> pa_sha256 p = lib_sha256 lib contents"
    by (cases "lib_identify lib contents") (auto simp: process_business_attachment_def read_bounded_upload_def split: option.splits)
  with c collect_chunks_bound [OF c(1)] show "pa_content p \<noteq> []" "length (pa_content p) \<le> lim_max_upload_bytes lim"
    "pa_size p = length (pa_content p)" "pa_sha256 p = lib_sha256 lib (pa_content p)" by simp_all
qed

subsection \<open>Keys that were made can be undone\<close>

lemma contains_text_Nil: "contains_text part [] \<longleftrightarrow> part = []"
  by (simp add: contains_text_def)

lemma contains_text_Cons: "contains_text part (c # s) \<longleftrightarrow> prefix part (c # s) \<or> contains_text part s"
  by (auto simp: contains_text_def)

definition hex_text :: "string \<Rightarrow> bool" where
  "hex_text uid \<longleftrightarrow> uid \<noteq> [] \<and> list_all world_char uid"

lemma no_dots: "list_all (\<lambda>c. c \<noteq> CHR ''.'') s \<Longrightarrow> \<not> contains_text ''..'' s"
  by (induction s) (auto simp: contains_text_Nil contains_text_Cons)

text \<open>\<^verbatim>\<open>uuid4().hex\<close>: the 32 hexadecimal digits of a random number.\<close>

definition hex_digit :: "nat \<Rightarrow> char" where
  "hex_digit n = (if n < 10 then char_of (48 + n) else char_of (87 + n))"

definition uuid_hex :: "nat \<Rightarrow> string" where
  "uuid_hex n = map (\<lambda>i. hex_digit (n div 16 ^ i mod 16)) (rev [0..<32])"

lemma hex_digit_world: "n < 16 \<Longrightarrow> world_char (hex_digit n)"
  by (auto simp: world_char_def hex_digit_def Let_def)

lemma uuid_hex_text [simp]: "hex_text (uuid_hex n)"
  by (auto simp: hex_text_def uuid_hex_def list_all_iff intro!: hex_digit_world)

text \<open>Characters of object keys: no dot, no backslash.\<close>

definition plain_char :: "char \<Rightarrow> bool" where
  "plain_char c \<longleftrightarrow> c \<noteq> CHR ''.'' \<and> (of_char c :: nat) \<noteq> 92"

lemma world_char_plain: "world_char c \<Longrightarrow> plain_char c \<and> c \<noteq> CHR ''/''"
  by (auto simp: world_char_def plain_char_def Let_def)

lemma world_id_plain:
  assumes "require_safe_world_id w = Inr v" shows "v = w \<and> list_all plain_char w"
proof (cases w)
  case Nil
  then show ?thesis using assms by (simp add: require_safe_world_id_def)
next
  case (Cons c cs)
  with assms have c: "v = w" "world_char c" "list_all (\<lambda>d. world_char d \<or> d = CHR ''_'' \<or> d = CHR ''-'') cs"
    by (simp_all add: require_safe_world_id_def split: if_splits)
  have "plain_char d" if "world_char d \<or> d = CHR ''_'' \<or> d = CHR ''-''" for d
    using that world_char_plain by (elim disjE) (simp_all add: plain_char_def)
  with c(3) have "list_all plain_char cs" by (rule list.pred_mono_strong) simp
  then show ?thesis using Cons c(1,2) world_char_plain by simp
qed

lemma made_key:
  assumes "new_business_attachment_key w uid = Inr key"
  shows "business_attachment_prefix w = Inr (w @ ''/runtime/permanent-attachments/'')" "list_all plain_char w"
    "key = (w @ ''/runtime/permanent-attachments/'') @ uid"
proof -
  from assms obtain v where v: "require_safe_world_id w = Inr v" and k: "key = (v @ ''/runtime/permanent-attachments/'') @ uid"
    by (auto simp: new_business_attachment_key_def business_attachment_prefix_def)
  note w = world_id_plain [OF v]
  show "business_attachment_prefix w = Inr (w @ ''/runtime/permanent-attachments/'')" "list_all plain_char w"
    "key = (w @ ''/runtime/permanent-attachments/'') @ uid"
    using v w k by (simp_all add: business_attachment_prefix_def)
qed

lemma plain_keyD:
  assumes "list_all plain_char s"
  shows "\<not> contains_text ''..'' s" "92 \<notin> set (map (of_char :: char \<Rightarrow> nat) s)"
proof -
  show "\<not> contains_text ''..'' s" by (rule no_dots) (rule list.pred_mono_strong [OF assms], simp add: plain_char_def)
  show "92 \<notin> set (map (of_char :: char \<Rightarrow> nat) s)"
    using assms unfolding list_all_iff plain_char_def set_map by fastforce
qed

lemma made_key_accepted:
  assumes "new_business_attachment_key w uid = Inr key" "hex_text uid"
  shows "require_business_attachment_key key w = Inr key"
proof -
  note m = made_key [OF assms(1)]
  have u: "list_all plain_char uid" "uid \<noteq> []" "CHR ''/'' \<notin> set uid"
    using assms(2) world_char_plain by (auto simp: hex_text_def list_all_iff)
  have "list_all plain_char ''/runtime/permanent-attachments/''" by (simp add: plain_char_def)
  then have "list_all plain_char key" using m(2) u(1) by (simp only: m(3) list_all_append)
  from plain_keyD [OF this] show ?thesis
    using u by (simp add: require_business_attachment_key_def m(1) Let_def) (simp add: m(3))
qed

lemma save_immutable_ok:
  assumes "storage_laws sto" "save_immutable sto w uid contents s = (r, s')" "hex_text uid"
  shows "case r of Inl e \<Rightarrow> s' = s
    | Inr key \<Rightarrow> s key = None \<and> s' = s(key \<mapsto> contents) \<and> require_business_attachment_key key w = Inr key"
  using assms made_key_accepted [OF _ assms(3)]
  by (auto simp: save_immutable_def storage_laws_def split: sum.splits prod.splits if_splits) (metis fun_upd_upd fun_upd_triv)

lemma delete_all_ok:
  assumes "storage_laws sto" "\<forall>k \<in> set keys. require_business_attachment_key k w = Inr k"
  shows "delete_all_uncommitted sto w keys s = (Inr (), s |` (- set keys))"
  using assms(2)
proof (induction keys arbitrary: s)
  case (Cons k keys)
  then have "delete_all_uncommitted sto w (k # keys) s = delete_all_uncommitted sto w keys (s(k := None))"
    using assms(1) by (simp add: delete_uncommitted_def storage_laws_def)
  also have "\<dots> = (Inr (), (s(k := None)) |` (- set keys))" using Cons by simp
  also have "(s(k := None)) |` (- set keys) = s |` (- set (k # keys))" by (auto simp: restrict_map_def)
  finally show ?case .
qed (simp add: restrict_map_def)

end
