(* ===== verification/Finance.thy ===== *)
theory Finance
  imports Proposals Evidence
begin

text \<open>
  Reimbursements: claims, reviews, payments and their evidence
  (\<^verbatim>\<open>core/finance_services.py\<close>, \<^verbatim>\<open>core/payment_backends.py\<close>, \<^verbatim>\<open>core/attachment_services.py\<close>,
  \<^verbatim>\<open>core/models/finance.py\<close>, \<^verbatim>\<open>core/models/attachments.py\<close>).

  The services work on the row the caller has loaded: \<open>claim\<close> is that copy, and nothing reads or
  locks the row again. Amounts are in cents, a day is a triple of year, month and day, texts fit
  their columns. Saved objects live outside the transaction, so a service returns the object store
  also when it raises. \<^verbatim>\<open>parse_date\<close>, today's date, the payment setting, the detector, the image
  and csv libraries and the storage backend are parameters. A random identifier is drawn per row,
  two for each attachment: the number its key spells and its identifier.
\<close>

subsection \<open>Rows\<close>

datatype claim_category = CatServer | CatAiUsage | CatSoftware | CatOperations | CatOther

fun claim_category_value :: "claim_category \<Rightarrow> string" where
  "claim_category_value CatServer = ''server''"
| "claim_category_value CatAiUsage = ''ai_usage''"
| "claim_category_value CatSoftware = ''software''"
| "claim_category_value CatOperations = ''operations''"
| "claim_category_value CatOther = ''other''"

definition parse_claim_category :: "string \<Rightarrow> claim_category option" where
  "parse_claim_category s = find_row (\<lambda>c. claim_category_value c = s)
    [CatServer, CatAiUsage, CatSoftware, CatOperations, CatOther]"

fun claim_category_label :: "claim_category \<Rightarrow> string" where
  "claim_category_label CatServer = ''server''"
| "claim_category_label CatAiUsage = ''AI usage''"
| "claim_category_label CatSoftware = ''software''"
| "claim_category_label CatOperations = ''operations''"
| "claim_category_label CatOther = ''other''"

datatype claim_status = ClaimSubmitted | ClaimUnderReview | ClaimApproved | ClaimRejected | ClaimPaid | ClaimWithdrawn

fun claim_status_value :: "claim_status \<Rightarrow> string" where
  "claim_status_value ClaimSubmitted = ''submitted''"
| "claim_status_value ClaimUnderReview = ''under_review''"
| "claim_status_value ClaimApproved = ''approved''"
| "claim_status_value ClaimRejected = ''rejected''"
| "claim_status_value ClaimPaid = ''paid''"
| "claim_status_value ClaimWithdrawn = ''withdrawn''"

fun claim_status_label :: "claim_status \<Rightarrow> string" where
  "claim_status_label ClaimUnderReview = ''under review''"
| "claim_status_label s = claim_status_value s"

type_synonym date = "int \<times> nat \<times> nat"

record expense_claim =
  ec_claim_id :: string
  ec_claimant :: int
  ec_title :: string
  ec_description :: string
  ec_amount :: int
  ec_currency :: string
  ec_expense_date :: date
  ec_vendor :: string
  ec_category :: claim_category
  ec_status :: claim_status
  ec_public_note :: string
  ec_created_at :: time
  ec_updated_at :: time

datatype finance_decision = FinanceApproved | FinanceRejected

fun finance_decision_value :: "finance_decision \<Rightarrow> string" where
  "finance_decision_value FinanceApproved = ''approved''"
| "finance_decision_value FinanceRejected = ''rejected''"

definition parse_finance_decision :: "string \<Rightarrow> finance_decision option" where
  "parse_finance_decision s = find_row (\<lambda>d. finance_decision_value d = s) [FinanceApproved, FinanceRejected]"

record finance_review =
  fr_review_id :: string
  fr_claim :: string
  fr_reviewer :: int
  fr_decision :: finance_decision
  fr_reason :: string
  fr_reviewed_at :: time

datatype transaction_direction = DirectionIn | DirectionOut

fun direction_value :: "transaction_direction \<Rightarrow> string" where
  "direction_value DirectionIn = ''in''"
| "direction_value DirectionOut = ''out''"

datatype transaction_type = Reimbursement | FinanceIncome | FinanceExpense | FinanceCorrection

fun transaction_type_value :: "transaction_type \<Rightarrow> string" where
  "transaction_type_value Reimbursement = ''reimbursement''"
| "transaction_type_value FinanceIncome = ''income''"
| "transaction_type_value FinanceExpense = ''expense''"
| "transaction_type_value FinanceCorrection = ''correction''"

record finance_transaction =
  ft_transaction_id :: string
  ft_claim :: "string option"
  ft_transaction_type :: transaction_type
  ft_amount :: int
  ft_currency :: string
  ft_direction :: transaction_direction
  ft_summary :: string
  ft_occurred_at :: time
  ft_recorded_by :: "int option"
  ft_metadata :: json

datatype execution_result = PaymentSucceeded | PaymentFailed

datatype sync_status = SyncLocal | Synced | SyncFailed

record payment_execution =
  px_execution_id :: string
  px_claim :: string
  px_backend_type :: string
  px_status :: execution_result
  px_payment_date :: date
  px_payment_method :: string
  px_payer :: int
  px_note :: string
  px_external_system :: string
  px_external_object_id :: string
  px_sync_status :: sync_status
  px_result_snapshot :: json
  px_finance_transaction :: "string option"
  px_executed_at :: time

datatype attachment_audience = AudiencePrivate | AudiencePublic

datatype attachment_lifecycle = LifecycleSealed | LifecycleSuperseded | LifecycleWithdrawn

record attachment =
  att_attachment_id :: string
  att_object_key :: string
  att_detected_media_type :: string
  att_display_filename :: string
  att_byte_size :: nat
  att_sha256 :: string
  att_uploaded_by :: int
  att_audience :: attachment_audience
  att_lifecycle :: attachment_lifecycle
  att_source_attachment :: "string option"
  att_supersedes :: "string option"
  att_created_at :: time

datatype attachment_purpose = ExpenseEvidence | PaymentEvidence | PublicMaterial

record claim_attachment =
  cl_claim :: string
  cl_attachment :: string
  cl_purpose :: attachment_purpose
  cl_payment_execution :: "string option"
  cl_created_at :: time

record finance_db = proposal_db +
  expense_claims :: "expense_claim list"
  finance_reviews :: "finance_review list"
  payment_executions :: "payment_execution list"
  finance_transactions :: "finance_transaction list"
  attachments :: "attachment list"
  claim_attachments :: "claim_attachment list"

subsection \<open>Saving rows\<close>

definition insert_claim :: "expense_claim \<Rightarrow> 'a finance_db_scheme \<Rightarrow> 'a finance_db_scheme result" where
  "insert_claim c db =
    (if 10 ^ 12 \<le> ec_amount c then Inl (LibraryError ''InvalidOperation'')
     else if exists_row (\<lambda>x. ec_claim_id x = ec_claim_id c) (expense_claims db) then Inl IntegrityError
     else Inr (db\<lparr>expense_claims := expense_claims db @ [c]\<rparr>))"

text \<open>\<^verbatim>\<open>claim.save(update_fields=["status", "updated_at"])\<close>.\<close>

definition set_claim_status :: "claim_status \<Rightarrow> time \<Rightarrow> expense_claim \<Rightarrow> expense_claim" where
  "set_claim_status st t c = c\<lparr>ec_status := st, ec_updated_at := t\<rparr>"

definition save_claim_status ::
    "string \<Rightarrow> claim_status \<Rightarrow> time \<Rightarrow> 'a finance_db_scheme \<Rightarrow> 'a finance_db_scheme result" where
  "save_claim_status cid st t db =
    (if \<not> exists_row (\<lambda>x. ec_claim_id x = cid) (expense_claims db) then Inl (LibraryError ''DatabaseError'')
     else Inr (db\<lparr>expense_claims :=
       update_rows (\<lambda>x. ec_claim_id x = cid) (set_claim_status st t) (expense_claims db)\<rparr>))"

definition insert_review :: "finance_review \<Rightarrow> 'a finance_db_scheme \<Rightarrow> 'a finance_db_scheme result" where
  "insert_review r db =
    (if exists_row (\<lambda>x. fr_review_id x = fr_review_id r) (finance_reviews db) then Inl IntegrityError
     else Inr (db\<lparr>finance_reviews := finance_reviews db @ [r]\<rparr>))"

definition insert_finance_transaction :: "finance_transaction \<Rightarrow> 'a finance_db_scheme \<Rightarrow> 'a finance_db_scheme result" where
  "insert_finance_transaction t db =
    (if exists_row (\<lambda>x. ft_transaction_id x = ft_transaction_id t) (finance_transactions db) then Inl IntegrityError
     else Inr (db\<lparr>finance_transactions := finance_transactions db @ [t]\<rparr>))"

text \<open>One execution per claim and per transaction.\<close>

definition insert_payment_execution :: "payment_execution \<Rightarrow> 'a finance_db_scheme \<Rightarrow> 'a finance_db_scheme result" where
  "insert_payment_execution p db =
    (if exists_row (\<lambda>x. px_execution_id x = px_execution_id p \<or> px_claim x = px_claim p \<or>
          px_finance_transaction x \<noteq> None \<and> px_finance_transaction x = px_finance_transaction p) (payment_executions db)
     then Inl IntegrityError
     else Inr (db\<lparr>payment_executions := payment_executions db @ [p]\<rparr>))"

definition insert_attachment :: "attachment \<Rightarrow> 'a finance_db_scheme \<Rightarrow> 'a finance_db_scheme result" where
  "insert_attachment a db =
    (if exists_row (\<lambda>x. att_attachment_id x = att_attachment_id a \<or> att_object_key x = att_object_key a) (attachments db)
     then Inl IntegrityError
     else Inr (db\<lparr>attachments := attachments db @ [a]\<rparr>))"

definition insert_link :: "claim_attachment \<Rightarrow> 'a finance_db_scheme \<Rightarrow> 'a finance_db_scheme result" where
  "insert_link l db =
    (if exists_row (\<lambda>x. cl_attachment x = cl_attachment l) (claim_attachments db) then Inl IntegrityError
     else Inr (db\<lparr>claim_attachments := claim_attachments db @ [l]\<rparr>))"

subsection \<open>Reading the input\<close>

text \<open>What \<^verbatim>\<open>Decimal(str(amount))\<close> gives: nothing for a text that is no number, a NaN, a signed
  infinity, or a coefficient and an exponent of ten.\<close>

datatype decimal_input = NoDecimal | DecimalNaN | DecimalInfinite bool | DecimalFinite int int

definition div_half_even :: "int \<Rightarrow> int \<Rightarrow> int" where
  "div_half_even n d = (let q = n div d; r = n mod d in if 2 * r < d \<or> 2 * r = d \<and> even q then q else q + 1)"

definition quantize_cents :: "int \<Rightarrow> int \<Rightarrow> int" where
  "quantize_cents c e =
    (if 0 \<le> e + 2 then c * 10 ^ nat (e + 2) else div_half_even c (10 ^ nat (- (e + 2))))"

fun normalise_amount :: "decimal_input \<Rightarrow> int result" where
  "normalise_amount NoDecimal = Inl (DomainError ''the amount is not a number'')"
| "normalise_amount DecimalNaN = Inl (LibraryError ''InvalidOperation'')"
| "normalise_amount (DecimalInfinite positive) =
    (if positive then Inl (LibraryError ''InvalidOperation'') else Inl (DomainError ''the amount must be positive''))"
| "normalise_amount (DecimalFinite c e) =
    (if c \<le> 0 then Inl (DomainError ''the amount must be positive'')
     else if 10 ^ 28 \<le> quantize_cents c e then Inl (LibraryError ''InvalidOperation'')
     else Inr (quantize_cents c e))"

datatype date_input = DateValue date | DateText string

definition normalise_expense_date :: "(string \<Rightarrow> date option result) \<Rightarrow> date_input \<Rightarrow> date result" where
  "normalise_expense_date parse_date d =
    (case d of DateValue v \<Rightarrow> Inr v
     | DateText s \<Rightarrow> and_then (parse_date s) (\<lambda>v. case v of
         None \<Rightarrow> Inl (DomainError ''the date is not valid'') | Some w \<Rightarrow> Inr w))"

text \<open>\<^verbatim>\<open>str.upper\<close> on the Latin-1 range; the two letters whose capital lies outside it stay.\<close>

definition upper_char :: "char \<Rightarrow> string" where
  "upper_char c = (let n = (of_char c :: nat) in
     if 97 \<le> n \<and> n \<le> 122 \<or> 224 \<le> n \<and> n \<le> 254 \<and> n \<noteq> 247 then [char_of (n - 32)]
     else if n = 223 then ''SS'' else [c])"

definition py_upper :: "string \<Rightarrow> string" where
  "py_upper s = concat (map upper_char s)"

definition normalise_currency :: "string \<Rightarrow> string result" where
  "normalise_currency currency =
    (let v = py_upper (py_strip (if currency = [] then ''CNY'' else currency))
     in if v = [] \<or> 8 < length v then Inl (DomainError ''the currency is not valid'') else Inr v)"

subsection \<open>Payment backends\<close>

record payment_request =
  pq_claim_id :: string
  pq_amount :: string
  pq_currency :: string
  pq_payment_date :: date
  pq_payment_method :: string

record payment_result =
  po_succeeded :: bool
  po_external_system :: string
  po_external_object_id :: string
  po_snapshot :: json

record payment_backend =
  bk_backend_type :: string
  bk_execute :: "payment_request \<Rightarrow> payment_result result"

definition live_os_manual_backend :: payment_backend where
  "live_os_manual_backend = \<lparr>bk_backend_type = ''liveos_manual'',
     bk_execute = (\<lambda>q. if py_strip (pq_payment_method q) = [] then Inl (DomainError ''the payment method is empty'')
       else Inr \<lparr>po_succeeded = True, po_external_system = [], po_external_object_id = [],
         po_snapshot = JObj [(''mode'', JStr ''manual_confirmation'')]\<rparr>)\<rparr>"

definition PAYMENT_BACKENDS :: "(string \<times> payment_backend) list" where
  "PAYMENT_BACKENDS = [(bk_backend_type live_os_manual_backend, live_os_manual_backend)]"

definition get_payment_backend :: "string \<Rightarrow> payment_backend result" where
  "get_payment_backend setting =
    (case map_of PAYMENT_BACKENDS (py_lower (py_strip setting)) of
       None \<Rightarrow> Inl (DomainError ''the payment backend is not implemented'')
     | Some b \<Rightarrow> Inr b)"

subsection \<open>Published facts\<close>

definition finance_member_label :: "member \<Rightarrow> string" where
  "finance_member_label m = (if m_display_name m \<noteq> [] then m_display_name m else m_member_no m)"

text \<open>\<^verbatim>\<open>str\<close> of an amount with two decimal places.\<close>

definition show_cents :: "int \<Rightarrow> string" where
  "show_cents n = (if n < 0 then ''-'' else []) @ show_nat (nat \<bar>n\<bar> div 100) @ ''.'' @
     [digit_char (nat \<bar>n\<bar> mod 100 div 10), digit_char (nat \<bar>n\<bar> mod 10)]"

definition expense_claim_facts :: "expense_claim \<Rightarrow> member \<Rightarrow> (string \<times> json) list" where
  "expense_claim_facts c m =
    [(''source'', JStr ''finance''), (''claim_id'', JStr (ec_claim_id c)), (''title'', JStr (ec_title c)),
     (''amount'', JStr (show_cents (ec_amount c))), (''currency'', JStr (ec_currency c)),
     (''category'', JStr (claim_category_value (ec_category c))),
     (''category_label'', JStr (claim_category_label (ec_category c))),
     (''status'', JStr (claim_status_value (ec_status c))),
     (''status_label'', JStr (claim_status_label (ec_status c))),
     (''claimant_public_name'', JStr (finance_member_label m))]"

definition expense_claim_payload :: "expense_claim \<Rightarrow> member \<Rightarrow> json" where
  "expense_claim_payload c m =
    public_event_payload ''expense_claim'' (public_ref [''expense-claim'', ec_claim_id c]) (ec_title c) ''submitted''
      (claim_status_value (ec_status c))
      (''claim '' @ ec_title c @ '' '' @ show_cents (ec_amount c) @ '' '' @ ec_currency c)
      (expense_claim_facts c m) [private_commitment ''member_id'' True ''the claimant'']"

definition finance_review_facts :: "finance_review \<Rightarrow> expense_claim \<Rightarrow> member \<Rightarrow> (string \<times> json) list" where
  "finance_review_facts r c m =
    [(''source'', JStr ''finance''), (''claim_id'', JStr (ec_claim_id c)), (''title'', JStr (ec_title c)),
     (''amount'', JStr (show_cents (ec_amount c))), (''currency'', JStr (ec_currency c)),
     (''decision'', JStr (finance_decision_value (fr_decision r))),
     (''decision_label'', JStr (finance_decision_value (fr_decision r))),
     (''reason'', JStr (take 200 (fr_reason r))), (''reviewer_public_name'', JStr (finance_member_label m))]"

definition finance_review_payload :: "finance_review \<Rightarrow> expense_claim \<Rightarrow> member \<Rightarrow> json" where
  "finance_review_payload r c m =
    public_event_payload ''finance_review'' (public_ref [''finance-review'', fr_review_id r]) (''review-'' @ ec_claim_id c)
      (finance_decision_value (fr_decision r)) (finance_decision_value (fr_decision r))
      (''claim reviewed: '' @ finance_decision_value (fr_decision r))
      (finance_review_facts r c m) [private_commitment ''member_id'' True ''the reviewer'']"

text \<open>The transaction of a payment has a claim and a payer.\<close>

definition finance_transaction_facts :: "finance_transaction \<Rightarrow> member option \<Rightarrow> (string \<times> json) list" where
  "finance_transaction_facts t payer =
    [(''source'', JStr ''finance''), (''transaction_id'', JStr (ft_transaction_id t)),
     (''claim_id'', JStr (case ft_claim t of None \<Rightarrow> [] | Some c \<Rightarrow> c)),
     (''transaction_type'', JStr (transaction_type_value (ft_transaction_type t))),
     (''transaction_type_label'', JStr (transaction_type_value (ft_transaction_type t))),
     (''amount'', JStr (show_cents (ft_amount t))), (''currency'', JStr (ft_currency t)),
     (''direction'', JStr (direction_value (ft_direction t))), (''summary'', JStr (ft_summary t)),
     (''payer_public_name'', JStr (case payer of None \<Rightarrow> [] | Some m \<Rightarrow> finance_member_label m))]"

definition finance_transaction_payload :: "finance_transaction \<Rightarrow> member option \<Rightarrow> json" where
  "finance_transaction_payload t payer =
    public_event_payload ''finance_transaction'' (public_ref [''finance-transaction'', ft_transaction_id t]) (ft_summary t)
      ''recorded'' ''recorded''
      (transaction_type_value (ft_transaction_type t) @ '' '' @ show_cents (ft_amount t) @ '' '' @ ft_currency t)
      (finance_transaction_facts t payer) []"

definition public_event_row :: "env \<Rightarrow> string \<Rightarrow> string \<Rightarrow> string \<Rightarrow> (string \<times> json) list \<Rightarrow> stream_event" where
  "public_event_row env event_id title summary facts =
    \<lparr>ev_event_id = event_id, ev_event_type = ''governance'', ev_simulation_day = 1,
      ev_severity = ''info'', ev_title = title, ev_summary = summary, ev_involved_member_ids = [],
      ev_related_task = None, ev_occurred_at = now env, ev_generated_by = ''live_os'', ev_visibility = ''public'',
      ev_payload = JObj facts\<rparr>"

definition write_public_event ::
    "env \<Rightarrow> string \<Rightarrow> string \<Rightarrow> string \<Rightarrow> (string \<times> json) list \<Rightarrow> 'a task_db_scheme \<Rightarrow> 'a task_db_scheme result" where
  "write_public_event env event_id title summary facts db =
    insert_stream_event (public_event_row env event_id title summary facts) db"

text \<open>\<^verbatim>\<open>value.rsplit("-", 1)[-1]\<close>.\<close>

definition event_suffix :: "string \<Rightarrow> string" where
  "event_suffix v = rev (takeWhile (\<lambda>c. c \<noteq> CHR ''-'') (rev v))"

subsection \<open>Attachments\<close>

record finance_config =
  cf_limits :: file_limits
  cf_files :: file_libraries
  cf_storage :: storage
  cf_parse_date :: "string \<Rightarrow> date option result"
  cf_today :: date
  cf_backend_setting :: string

definition validate_batch :: "file_limits \<Rightarrow> upload list \<Rightarrow> upload list result" where
  "validate_batch lim uploads =
    (if uploads = [] then Inl (DomainError ''upload at least one file'')
     else if lim_max_files lim < length uploads then Inl (DomainError ''too many files'')
     else if int (lim_max_total_bytes lim) < sum_list (map (\<lambda>u. max 0 (up_size u)) uploads) then
       Inl (DomainError ''the files are too large together'')
     else Inr uploads)"

text \<open>What all attachments of one call share.\<close>

record attachment_context =
  ax_claim :: string
  ax_uploaded_by :: int
  ax_purpose :: attachment_purpose
  ax_payment_execution :: "string option"
  ax_audience :: attachment_audience
  ax_source_attachment :: "string option"
  ax_supersedes :: "string option"

definition new_attachment :: "env \<Rightarrow> attachment_context \<Rightarrow> string \<Rightarrow> string \<Rightarrow> processed_attachment \<Rightarrow> attachment" where
  "new_attachment env ctx uid key p =
    \<lparr>att_attachment_id = new_id ''attachment'' uid, att_object_key = key, att_detected_media_type = pa_media_type p,
     att_display_filename = pa_display_filename p, att_byte_size = pa_size p, att_sha256 = pa_sha256 p,
     att_uploaded_by = ax_uploaded_by ctx, att_audience = ax_audience ctx, att_lifecycle = LifecycleSealed,
     att_source_attachment = ax_source_attachment ctx, att_supersedes = ax_supersedes ctx, att_created_at = now env\<rparr>"

definition new_link :: "env \<Rightarrow> attachment_context \<Rightarrow> attachment \<Rightarrow> claim_attachment" where
  "new_link env ctx a =
    \<lparr>cl_claim = ax_claim ctx, cl_attachment = att_attachment_id a, cl_purpose = ax_purpose ctx,
     cl_payment_execution = ax_payment_execution ctx, cl_created_at = now env\<rparr>"

definition record_attachment ::
    "env \<Rightarrow> attachment_context \<Rightarrow> attachment \<Rightarrow> 'a finance_db_scheme \<Rightarrow> 'a finance_db_scheme result" where
  "record_attachment env ctx a db = and_then (insert_attachment a db) (insert_link (new_link env ctx a))"

text \<open>The loop over the processed files returns the created attachments, the keys saved so far and the
  store. \<open>draw\<close> gives the identifiers of the file at a position.\<close>

fun attach_items ::
    "env \<Rightarrow> storage \<Rightarrow> string \<Rightarrow> attachment_context \<Rightarrow> (nat \<Rightarrow> nat \<times> string) \<Rightarrow> nat \<Rightarrow> processed_attachment list \<Rightarrow>
     'a finance_db_scheme \<Rightarrow> string list \<Rightarrow> store \<Rightarrow>
     (attachment list \<times> 'a finance_db_scheme) result \<times> string list \<times> store" where
  "attach_items env sto w ctx draw n [] db keys s = (Inr ([], db), keys, s)"
| "attach_items env sto w ctx draw n (p # ps) db keys s =
    (case save_immutable sto w (uuid_hex (fst (draw n))) (pa_content p) s of
       (Inl e, s1) \<Rightarrow> (Inl e, keys, s1)
     | (Inr key, s1) \<Rightarrow>
         let a = new_attachment env ctx (snd (draw n)) key p in
         (case record_attachment env ctx a db of
            Inl e \<Rightarrow> (Inl e, keys @ [key], s1)
          | Inr db1 \<Rightarrow>
              (case attach_items env sto w ctx draw (Suc n) ps db1 (keys @ [key]) s1 of
                 (Inl e, keys', s') \<Rightarrow> (Inl e, keys', s')
               | (Inr (as, db'), keys', s') \<Rightarrow> (Inr (a # as, db'), keys', s'))))"

definition create_expense_attachments ::
    "env \<Rightarrow> finance_config \<Rightarrow> string \<Rightarrow> attachment_context \<Rightarrow> (nat \<Rightarrow> nat \<times> string) \<Rightarrow> upload list \<Rightarrow>
     'a finance_db_scheme \<Rightarrow> store \<Rightarrow> (attachment list \<times> 'a finance_db_scheme) result \<times> store" where
  "create_expense_attachments env cfg w ctx draw uploads db s =
    (case and_then (validate_batch (cf_limits cfg) uploads) (\<lambda>items.
            and_then (map_result (process_business_attachment (cf_limits cfg) (cf_files cfg)) items) (\<lambda>processed.
              if lim_max_total_bytes (cf_limits cfg) < sum_list (map pa_size processed)
              then Inl (DomainError ''the files are too large together'') else Inr processed)) of
       Inl e \<Rightarrow> (Inl e, s)
     | Inr processed \<Rightarrow>
         (case attach_items env (cf_storage cfg) w ctx draw 0 processed db [] s of
            (Inr y, keys, s') \<Rightarrow> (Inr y, s')
          | (Inl e, keys, s') \<Rightarrow> raise_after_cleanup (cf_storage cfg) w keys e s'))"

text \<open>A call that fails after its attachments were created removes their objects.\<close>

definition commit_or_cleanup ::
    "storage \<Rightarrow> string \<Rightarrow> attachment list \<Rightarrow> 'b result \<Rightarrow> store \<Rightarrow> 'b result \<times> store" where
  "commit_or_cleanup sto w created r s =
    (case r of Inr y \<Rightarrow> (Inr y, s) | Inl e \<Rightarrow> raise_after_cleanup sto w (map att_object_key created) e s)"

definition can_read_private_claim_attachment ::
    "env \<Rightarrow> fga \<Rightarrow> member \<Rightarrow> expense_claim \<Rightarrow> 'a finance_db_scheme \<Rightarrow> bool result" where
  "can_read_private_claim_attachment env f m c db =
    (if m_id m = ec_claimant c \<and> ec_status c \<noteq> ClaimWithdrawn then Inr True
     else any_result (\<lambda>code. member_has_permission env f m code None (now env) db)
       [FINANCE_REVIEW_PERMISSION, FINANCE_PAY_PERMISSION, FINANCE_VIEW_PRIVATE_PERMISSION])"

definition publish_expense_attachment_copy ::
    "env \<Rightarrow> fga \<Rightarrow> finance_config \<Rightarrow> string \<Rightarrow> (nat \<Rightarrow> nat \<times> string) \<Rightarrow> expense_claim \<Rightarrow> attachment \<Rightarrow> member \<Rightarrow>
     upload \<Rightarrow> 'a finance_db_scheme \<Rightarrow> store \<Rightarrow> (attachment list \<times> 'a finance_db_scheme) result \<times> store" where
  "publish_expense_attachment_copy env f cfg w draw c src m up db s =
    (if att_audience src \<noteq> AudiencePrivate then (Inl (DomainError ''the source must be a private original''), s)
     else if \<not> exists_row (\<lambda>l. cl_claim l = ec_claim_id c \<and> cl_attachment l = att_attachment_id src) (claim_attachments db)
       then (Inl (DomainError ''the source does not belong to the claim''), s)
     else (case member_has_permission env f m FINANCE_PUBLISH_PUBLIC_ATTACHMENTS_PERMISSION None (now env) db of
         Inl e \<Rightarrow> (Inl e, s)
       | Inr allowed \<Rightarrow>
           if \<not> allowed then (Inl (DomainError ''no permission to publish''), s)
           else create_expense_attachments env cfg w
             \<lparr>ax_claim = ec_claim_id c, ax_uploaded_by = m_id m, ax_purpose = PublicMaterial,
              ax_payment_execution = None, ax_audience = AudiencePublic,
              ax_source_attachment = Some (att_attachment_id src), ax_supersedes = None\<rparr> draw [up] db s))"

definition correct_expense_attachment ::
    "env \<Rightarrow> fga \<Rightarrow> finance_config \<Rightarrow> string \<Rightarrow> (nat \<Rightarrow> nat \<times> string) \<Rightarrow> expense_claim \<Rightarrow> attachment \<Rightarrow> member \<Rightarrow>
     upload \<Rightarrow> 'a finance_db_scheme \<Rightarrow> store \<Rightarrow> (attachment list \<times> 'a finance_db_scheme) result \<times> store" where
  "correct_expense_attachment env f cfg w draw c replaced m up db s =
    (case find_row (\<lambda>l. cl_claim l = ec_claim_id c \<and> cl_attachment l = att_attachment_id replaced) (claim_attachments db) of
       None \<Rightarrow> (Inl (DomainError ''only private evidence of the claim can be corrected''), s)
     | Some old \<Rightarrow>
         if att_audience replaced \<noteq> AudiencePrivate then
           (Inl (DomainError ''only private evidence of the claim can be corrected''), s)
         else (case (if m_id m \<noteq> ec_claimant c then can_read_private_claim_attachment env f m c db else Inr True) of
             Inl e \<Rightarrow> (Inl e, s)
           | Inr allowed \<Rightarrow>
               if \<not> allowed then (Inl (DomainError ''no permission to correct the evidence''), s)
               else create_expense_attachments env cfg w
                 \<lparr>ax_claim = ec_claim_id c, ax_uploaded_by = m_id m, ax_purpose = cl_purpose old,
                  ax_payment_execution = cl_payment_execution old, ax_audience = AudiencePrivate,
                  ax_source_attachment = None, ax_supersedes = Some (att_attachment_id replaced)\<rparr> draw [up] db s))"

subsection \<open>Claims\<close>

record claim_input =
  ci_title :: string
  ci_description :: string
  ci_amount :: decimal_input
  ci_currency :: string
  ci_expense_date :: date_input
  ci_vendor :: string
  ci_category :: string
  ci_public_note :: string

text \<open>The part of a submission before its evidence.\<close>

definition open_claim ::
    "env \<Rightarrow> finance_config \<Rightarrow> string \<Rightarrow> member \<Rightarrow> claim_input \<Rightarrow> 'a finance_db_scheme \<Rightarrow>
     (expense_claim \<times> 'a finance_db_scheme) result" where
  "open_claim env cfg uid m i db =
    (if m_status m \<in> {Suspended, Exited} then Inl (DomainError ''the member is not active'')
     else (case parse_claim_category (ci_category i) of
         None \<Rightarrow> Inl (DomainError ''the category is not valid'')
       | Some cat \<Rightarrow>
           and_then (normalise_amount (ci_amount i)) (\<lambda>amount.
           and_then (normalise_expense_date (cf_parse_date cfg) (ci_expense_date i)) (\<lambda>day.
           and_then (normalise_currency (ci_currency i)) (\<lambda>currency.
             let c = \<lparr>ec_claim_id = new_id ''expense-claim'' uid, ec_claimant = m_id m, ec_title = ci_title i,
                      ec_description = ci_description i, ec_amount = amount, ec_currency = currency, ec_expense_date = day,
                      ec_vendor = ci_vendor i, ec_category = cat, ec_status = ClaimSubmitted,
                      ec_public_note = ci_public_note i, ec_created_at = now env, ec_updated_at = now env\<rparr>
             in and_then (insert_claim c db) (\<lambda>db1. Inr (c, db1)))))))"

definition announce_claim ::
    "env \<Rightarrow> expense_claim \<Rightarrow> member \<Rightarrow> 'a finance_db_scheme \<Rightarrow> (expense_claim \<times> 'a finance_db_scheme) result" where
  "announce_claim env c m db =
    and_then (write_public_event env (''expense-claim-submitted-'' @ ec_claim_id c) ''a claim was received''
        (finance_member_label m @ '' submitted '' @ ec_title c @ '' '' @ show_cents (ec_amount c) @ '' '' @ ec_currency c)
        (expense_claim_facts c m) db) (\<lambda>db1.
    and_then (append_event env ''expense_claim_submitted'' ''ExpenseClaim'' (ec_claim_id c) (Some (m_id m)) None
        (expense_claim_payload c m) None db1) (\<lambda>(e, db2). Inr (c, db2)))"

text \<open>\<^verbatim>\<open>if require_evidence or evidence_uploads is not None\<close>.\<close>

definition take_evidence ::
    "env \<Rightarrow> finance_config \<Rightarrow> string \<Rightarrow> attachment_context \<Rightarrow> (nat \<Rightarrow> nat \<times> string) \<Rightarrow> bool \<Rightarrow> upload list option \<Rightarrow>
     'a finance_db_scheme \<Rightarrow> store \<Rightarrow> (attachment list \<times> 'a finance_db_scheme) result \<times> store" where
  "take_evidence env cfg w ctx draw required uploads db s =
    (if required \<or> uploads \<noteq> None
     then create_expense_attachments env cfg w ctx draw (case uploads of None \<Rightarrow> [] | Some us \<Rightarrow> us) db s
     else (Inr ([], db), s))"

definition submit_expense_claim ::
    "env \<Rightarrow> finance_config \<Rightarrow> string \<Rightarrow> string \<Rightarrow> (nat \<Rightarrow> nat \<times> string) \<Rightarrow> member \<Rightarrow> claim_input \<Rightarrow> bool \<Rightarrow>
     upload list option \<Rightarrow> 'a finance_db_scheme \<Rightarrow> store \<Rightarrow> (expense_claim \<times> 'a finance_db_scheme) result \<times> store" where
  "submit_expense_claim env cfg w uid draw m i required uploads db s =
    (case open_claim env cfg uid m i db of
       Inl e \<Rightarrow> (Inl e, s)
     | Inr (c, db1) \<Rightarrow>
         (case take_evidence env cfg w
             \<lparr>ax_claim = ec_claim_id c, ax_uploaded_by = m_id m, ax_purpose = ExpenseEvidence, ax_payment_execution = None,
              ax_audience = AudiencePrivate, ax_source_attachment = None, ax_supersedes = None\<rparr> draw required uploads db1 s of
            (Inl e, s1) \<Rightarrow> (Inl e, s1)
          | (Inr (created, db2), s1) \<Rightarrow>
              commit_or_cleanup (cf_storage cfg) w created (announce_claim env c m db2) s1))"

definition announce_review ::
    "env \<Rightarrow> finance_review \<Rightarrow> expense_claim \<Rightarrow> member \<Rightarrow> 'a finance_db_scheme \<Rightarrow>
     (finance_review \<times> 'a finance_db_scheme) result" where
  "announce_review env r c m db =
    and_then (write_public_event env
        (''expense-claim-reviewed-'' @ ec_claim_id c @ ''-'' @ event_suffix (fr_review_id r)) ''a claim was reviewed''
        (finance_member_label m @ '' '' @ finance_decision_value (fr_decision r) @ '' '' @ ec_title c)
        (finance_review_facts r c m) db) (\<lambda>db1.
    and_then (append_event env ''expense_claim_reviewed'' ''FinanceReview'' (fr_review_id r) (Some (m_id m)) None
        (finance_review_payload r c m) None db1) (\<lambda>(e, db2). Inr (r, db2)))"

definition reviewed_status :: "finance_decision \<Rightarrow> claim_status" where
  "reviewed_status d = (if d = FinanceApproved then ClaimApproved else ClaimRejected)"

definition review_expense_claim ::
    "env \<Rightarrow> fga \<Rightarrow> string \<Rightarrow> expense_claim \<Rightarrow> member \<Rightarrow> string \<Rightarrow> string \<Rightarrow> 'a finance_db_scheme \<Rightarrow>
     (finance_review \<times> 'a finance_db_scheme) result" where
  "review_expense_claim env f uid c m decision reason db =
    and_then (is_finance_reviewer env f m db) (\<lambda>allowed.
      if \<not> allowed then Inl (DomainError ''only finance reviewers review claims'')
      else if m_id m = ec_claimant c then Inl (DomainError ''claimants do not review their own claims'')
      else if ec_status c \<notin> {ClaimSubmitted, ClaimUnderReview} then Inl (DomainError ''the claim cannot be reviewed'')
      else (case parse_finance_decision decision of
          None \<Rightarrow> Inl (DomainError ''the decision is not valid'')
        | Some d \<Rightarrow>
            if d = FinanceRejected \<and> py_strip reason = [] then Inl (DomainError ''a rejection needs a reason'')
            else let c' = set_claim_status (reviewed_status d) (now env) c;
                     r = \<lparr>fr_review_id = new_id ''finance-review'' uid, fr_claim = ec_claim_id c, fr_reviewer = m_id m,
                          fr_decision = d, fr_reason = reason, fr_reviewed_at = now env\<rparr>
            in and_then (save_claim_status (ec_claim_id c) (reviewed_status d) (now env) db) (\<lambda>db1.
               and_then (insert_review r db1) (\<lambda>db2. announce_review env r c' m db2))))"

text \<open>The checks of a payment and the backend's answer.\<close>

definition clear_payment ::
    "env \<Rightarrow> fga \<Rightarrow> finance_config \<Rightarrow> expense_claim \<Rightarrow> member \<Rightarrow> date_input option \<Rightarrow> string \<Rightarrow> 'a finance_db_scheme \<Rightarrow>
     (date \<times> payment_backend \<times> payment_result) result" where
  "clear_payment env f cfg c m day method db =
    and_then (is_finance_payer env f m db) (\<lambda>allowed.
      if \<not> allowed then Inl (DomainError ''only finance payers mark payments'')
      else if m_id m = ec_claimant c then Inl (DomainError ''claimants do not pay their own claims'')
      else if ec_status c \<noteq> ClaimApproved then Inl (DomainError ''only approved claims can be paid'')
      else and_then (normalise_expense_date (cf_parse_date cfg)
          (case day of None \<Rightarrow> DateValue (cf_today cfg) | Some d \<Rightarrow> if d = DateText [] then DateValue (cf_today cfg) else d)) (\<lambda>date.
        and_then (get_payment_backend (cf_backend_setting cfg)) (\<lambda>b.
        and_then (bk_execute b \<lparr>pq_claim_id = ec_claim_id c, pq_amount = show_cents (ec_amount c), pq_currency = ec_currency c,
            pq_payment_date = date, pq_payment_method = method\<rparr>) (\<lambda>res.
          if \<not> po_succeeded res then Inl (DomainError ''the payment did not succeed'') else Inr (date, b, res)))))"

text \<open>Only the listed keys of a backend's snapshot are kept.\<close>

definition kept_snapshot :: "json \<Rightarrow> json" where
  "kept_snapshot snap = JObj (concat (map (\<lambda>k. case json_get k snap of None \<Rightarrow> [] | Some v \<Rightarrow> [(k, v)]) [''mode'', ''reference'']))"

definition record_payment ::
    "env \<Rightarrow> string \<Rightarrow> expense_claim \<Rightarrow> member \<Rightarrow> date \<Rightarrow> payment_backend \<Rightarrow> payment_result \<Rightarrow> string \<Rightarrow> string \<Rightarrow>
     'a finance_db_scheme \<Rightarrow> (finance_transaction \<times> payment_execution \<times> 'a finance_db_scheme) result" where
  "record_payment env uid c m date b res method note_text db =
    (let t = \<lparr>ft_transaction_id = new_id ''finance-tx'' uid, ft_claim = Some (ec_claim_id c),
              ft_transaction_type = Reimbursement, ft_amount = ec_amount c, ft_currency = ec_currency c,
              ft_direction = DirectionOut, ft_summary = ''reimbursement: '' @ ec_title c, ft_occurred_at = now env,
              ft_recorded_by = Some (m_id m), ft_metadata = JObj []\<rparr>;
         p = \<lparr>px_execution_id = new_id ''payment-execution'' uid, px_claim = ec_claim_id c,
              px_backend_type = bk_backend_type b, px_status = PaymentSucceeded, px_payment_date = date,
              px_payment_method = method, px_payer = m_id m, px_note = note_text,
              px_external_system = po_external_system res, px_external_object_id = po_external_object_id res,
              px_sync_status = (if po_external_system res \<noteq> [] then Synced else SyncLocal),
              px_result_snapshot = kept_snapshot (po_snapshot res),
              px_finance_transaction = Some (ft_transaction_id t), px_executed_at = now env\<rparr>
     in and_then (insert_finance_transaction t db) (\<lambda>db1.
        and_then (insert_payment_execution p db1) (\<lambda>db2. Inr (t, p, db2))))"

definition announce_payment ::
    "env \<Rightarrow> expense_claim \<Rightarrow> finance_transaction \<Rightarrow> member \<Rightarrow> 'a finance_db_scheme \<Rightarrow>
     (finance_transaction \<times> 'a finance_db_scheme) result" where
  "announce_payment env c t m db =
    and_then (save_claim_status (ec_claim_id c) ClaimPaid (now env) db) (\<lambda>db1.
    and_then (write_public_event env
        (''expense-claim-paid-'' @ ec_claim_id c @ ''-'' @ event_suffix (ft_transaction_id t)) ''a claim was paid''
        (ec_title c @ '' '' @ show_cents (ec_amount c) @ '' '' @ ec_currency c @ '' was paid'')
        (finance_transaction_facts t (Some m)) db1) (\<lambda>db2.
    and_then (append_event env ''expense_claim_paid'' ''FinanceTransaction'' (ft_transaction_id t) (Some (m_id m)) None
        (finance_transaction_payload t (Some m)) None db2) (\<lambda>(e, db3). Inr (t, db3))))"

definition mark_expense_claim_paid ::
    "env \<Rightarrow> fga \<Rightarrow> finance_config \<Rightarrow> string \<Rightarrow> string \<Rightarrow> (nat \<Rightarrow> nat \<times> string) \<Rightarrow> expense_claim \<Rightarrow> member \<Rightarrow>
     date_input option \<Rightarrow> string \<Rightarrow> string \<Rightarrow> bool \<Rightarrow> upload list option \<Rightarrow> 'a finance_db_scheme \<Rightarrow> store \<Rightarrow>
     (finance_transaction \<times> 'a finance_db_scheme) result \<times> store" where
  "mark_expense_claim_paid env f cfg w uid draw c m day method note_text required uploads db s =
    (case and_then (clear_payment env f cfg c m day method db) (\<lambda>(date, b, res).
            record_payment env uid c m date b res method note_text db) of
       Inl e \<Rightarrow> (Inl e, s)
     | Inr (t, p, db1) \<Rightarrow>
         (case take_evidence env cfg w
             \<lparr>ax_claim = ec_claim_id c, ax_uploaded_by = m_id m, ax_purpose = PaymentEvidence,
              ax_payment_execution = Some (px_execution_id p), ax_audience = AudiencePrivate,
              ax_source_attachment = None, ax_supersedes = None\<rparr> draw required uploads db1 s of
            (Inl e, s1) \<Rightarrow> (Inl e, s1)
          | (Inr (created, db2), s1) \<Rightarrow>
              commit_or_cleanup (cf_storage cfg) w created (announce_payment env c t m db2) s1))"

text \<open>A withdrawal is shown to the public but not recorded on the event ledger.\<close>

definition withdrawal_facts :: "expense_claim \<Rightarrow> member \<Rightarrow> (string \<times> json) list" where
  "withdrawal_facts c m =
    [(''source'', JStr ''finance''), (''claim_id'', JStr (ec_claim_id c)), (''title'', JStr (ec_title c)),
     (''amount'', JStr (show_cents (ec_amount c))), (''currency'', JStr (ec_currency c)),
     (''status'', JStr (claim_status_value (ec_status c))), (''status_label'', JStr (claim_status_label (ec_status c))),
     (''claimant_public_name'', JStr (finance_member_label m)), (''action_type'', JStr ''withdrawn'')]"

definition withdraw_expense_claim ::
    "env \<Rightarrow> expense_claim \<Rightarrow> member \<Rightarrow> 'a finance_db_scheme \<Rightarrow> (expense_claim \<times> 'a finance_db_scheme) result" where
  "withdraw_expense_claim env c m db =
    (if m_id m \<noteq> ec_claimant c then Inl (DomainError ''only the claimant withdraws a claim'')
     else if ec_status c \<notin> {ClaimSubmitted, ClaimUnderReview} then Inl (DomainError ''the claim cannot be withdrawn'')
     else let c' = set_claim_status ClaimWithdrawn (now env) c in
       and_then (save_claim_status (ec_claim_id c) ClaimWithdrawn (now env) db) (\<lambda>db1.
       and_then (write_public_event env (''expense-claim-withdrawn-'' @ ec_claim_id c) ''a claim was withdrawn''
           (finance_member_label m @ '' withdrew '' @ ec_title c) (withdrawal_facts c' m) db1) (\<lambda>db2.
         Inr (c', db2))))"

end
