(* ===== verification/Finance_History.thy ===== *)
theory Finance_History
  imports Finance Procurement_History
begin

text \<open>
  What the calls of \<open>Finance\<close> change, and what holds over histories in which every request works on
  a copy of the claim it loaded at some earlier moment.
\<close>

subsection \<open>Objects and their rows\<close>

text \<open>The stored object of an attachment is what its row says.\<close>

definition object_ok :: "finance_config \<Rightarrow> store \<Rightarrow> attachment \<Rightarrow> bool" where
  "object_ok cfg s a \<longleftrightarrow> (case s (att_object_key a) of None \<Rightarrow> False
     | Some content \<Rightarrow> content \<noteq> [] \<and> length content \<le> lim_max_upload_bytes (cf_limits cfg) \<and>
         att_byte_size a = length content \<and> att_sha256 a = lib_sha256 (cf_files cfg) content)"

text \<open>The store has grown by exactly the objects of the attachments, under removable keys.\<close>

definition objects_added :: "finance_config \<Rightarrow> string \<Rightarrow> attachment list \<Rightarrow> store \<Rightarrow> store \<Rightarrow> bool" where
  "objects_added cfg w as s s' \<longleftrightarrow>
    (\<forall>a \<in> set as. require_business_attachment_key (att_object_key a) w = Inr (att_object_key a) \<and> object_ok cfg s' a) \<and>
    s' |` (- att_object_key ` set as) = s \<and> distinct (map att_object_key as)"

definition keys_added :: "string \<Rightarrow> string list \<Rightarrow> store \<Rightarrow> store \<Rightarrow> bool" where
  "keys_added w ks s s' \<longleftrightarrow> (\<forall>k \<in> set ks. require_business_attachment_key k w = Inr k) \<and> s' |` (- set ks) = s"

lemma keys_added_undo:
  "storage_laws sto \<Longrightarrow> keys_added w ks s s' \<Longrightarrow> raise_after_cleanup sto w ks e s' = (Inl e, s)"
  using delete_all_ok [of sto ks w s'] by (simp add: raise_after_cleanup_def keys_added_def)

lemma objects_added_keys: "objects_added cfg w as s s' \<Longrightarrow> keys_added w (map att_object_key as) s s'"
  by (simp add: objects_added_def keys_added_def)

lemma commit_or_cleanup_ok:
  assumes "storage_laws sto" "objects_added cfg w as s s'"
  shows "commit_or_cleanup sto w as r s' = (r, if isl r then s else s')"
  using keys_added_undo [OF assms(1) objects_added_keys [OF assms(2)]]
  by (cases r) (simp_all add: commit_or_cleanup_def)

definition processed_ok :: "finance_config \<Rightarrow> processed_attachment \<Rightarrow> bool" where
  "processed_ok cfg p \<longleftrightarrow> pa_content p \<noteq> [] \<and> length (pa_content p) \<le> lim_max_upload_bytes (cf_limits cfg) \<and>
     pa_size p = length (pa_content p) \<and> pa_sha256 p = lib_sha256 (cf_files cfg) (pa_content p)"

definition add_attachments ::
    "env \<Rightarrow> attachment_context \<Rightarrow> attachment list \<Rightarrow> 'a finance_db_scheme \<Rightarrow> 'a finance_db_scheme" where
  "add_attachments env ctx as db = db\<lparr>attachments := attachments db @ as,
     claim_attachments := claim_attachments db @ map (new_link env ctx) as\<rparr>"

lemma add_attachments_simps:
  "add_attachments env ctx [] db = db"
  "add_attachments env ctx as (add_attachments env ctx [a] db) = add_attachments env ctx (a # as) db"
  by (simp_all add: add_attachments_def)

lemma record_attachment_ok:
  "record_attachment env ctx a db = Inr db' \<Longrightarrow> db' = add_attachments env ctx [a] db \<and>
     att_object_key a \<notin> att_object_key ` set (attachments db) \<and> att_attachment_id a \<notin> att_attachment_id ` set (attachments db)"
  by (auto simp: record_attachment_def insert_attachment_def insert_link_def add_attachments_def split: if_splits)

lemma attach_items_ok:
  assumes laws: "storage_laws (cf_storage cfg)"
    and "\<forall>p \<in> set ps. processed_ok cfg p" "attach_items env (cf_storage cfg) w ctx draw n ps db keys s = (r, keys', s')"
  shows "case r of Inl e \<Rightarrow> \<exists>ks. keys' = keys @ ks \<and> keys_added w ks s s'
    | Inr (as, db') \<Rightarrow> db' = add_attachments env ctx as db \<and> objects_added cfg w as s s' \<and> length as = length ps"
  using assms(2,3)
proof (induction ps arbitrary: n db keys s r keys' s')
  case Nil
  then show ?case by (auto simp: add_attachments_simps objects_added_def restrict_map_def)
next
  case (Cons p ps)
  obtain r1 s1 where save: "save_immutable (cf_storage cfg) w (uuid_hex (fst (draw n))) (pa_content p) s = (r1, s1)"
    by (cases "save_immutable (cf_storage cfg) w (uuid_hex (fst (draw n))) (pa_content p) s")
  note saved = save_immutable_ok [OF laws save uuid_hex_text]
  show ?case
  proof (cases r1)
    case (Inl e)
    with saved have "s1 = s" by simp
    then show ?thesis using Cons.prems(2) save Inl by (auto simp: keys_added_def restrict_map_def)
  next
    case (Inr key)
    with saved have key: "s key = None" "s1 = s(key \<mapsto> pa_content p)" "require_business_attachment_key key w = Inr key" by auto
    let ?a = "new_attachment env ctx (snd (draw n)) key p"
    have undo1: "s1 |` (- {key}) = s" using key(1,2) by (auto simp: restrict_map_def)
    show ?thesis
    proof (cases "record_attachment env ctx ?a db")
      case (Inl e)
      then have "r = Inl e \<and> keys' = keys @ [key] \<and> s' = s1" using Cons.prems(2) save Inr by (simp add: Let_def)
      then show ?thesis using undo1 key(3) by (auto simp: keys_added_def)
    next
      case (Inr db1)
      obtain r2 keys2 s2 where rest:
        "attach_items env (cf_storage cfg) w ctx draw (Suc n) ps db1 (keys @ [key]) s1 = (r2, keys2, s2)"
        by (metis prod_cases3)
      have ps: "\<forall>q \<in> set ps. processed_ok cfg q" using Cons.prems(1) by simp
      note ih = Cons.IH [OF ps rest]
      have step: "attach_items env (cf_storage cfg) w ctx draw n (p # ps) db keys s =
          (case r2 of Inl e \<Rightarrow> (Inl e, keys2, s2) | Inr (as, db') \<Rightarrow> (Inr (?a # as, db'), keys2, s2))"
        using save \<open>r1 = Inr key\<close> Inr rest by (auto simp: Let_def split: sum.splits prod.splits)
      show ?thesis
      proof (cases r2)
        case (Inl e)
        with ih obtain ks where ks: "keys2 = (keys @ [key]) @ ks" "keys_added w ks s1 s2" by auto
        have "s2 |` (- set (key # ks)) = (s2 |` (- set ks)) |` (- {key})" by (auto simp: restrict_map_def)
        then have "keys_added w (key # ks) s s2" using ks(2) key(3) undo1 by (simp add: keys_added_def del: restrict_restrict)
        then show ?thesis using step Inl Cons.prems(2) ks(1) by auto
      next
        case (Inr y)
        then obtain as db' where y: "r2 = Inr (as, db')" by (cases y) auto
        with ih have r2: "db' = add_attachments env ctx as db1" "objects_added cfg w as s1 s2" "length as = length ps" by auto
        have k: "key \<notin> att_object_key ` set as"
        proof
          assume "key \<in> att_object_key ` set as"
          then have "(s2 |` (- att_object_key ` set as)) key = None" by simp
          then show False using r2(2) key(2) by (simp add: objects_added_def)
        qed
        have "s2 key = s1 key" using r2(2) k unfolding objects_added_def by (metis ComplI restrict_in)
        then have "object_ok cfg s2 ?a"
          using key(2) Cons.prems(1) by (simp add: object_ok_def new_attachment_def processed_ok_def)
        moreover have "s2 |` (- att_object_key ` set (?a # as)) = (s2 |` (- att_object_key ` set as)) |` (- {key})"
          by (auto simp: restrict_map_def new_attachment_def)
        ultimately have "objects_added cfg w (?a # as) s s2"
          using r2(2) undo1 key(3) k by (simp add: objects_added_def new_attachment_def del: restrict_restrict)
        moreover have "db' = add_attachments env ctx (?a # as) db"
          using r2(1) record_attachment_ok [OF \<open>record_attachment env ctx ?a db = Inr db1\<close>] by (simp add: add_attachments_simps)
        ultimately show ?thesis using step y Cons.prems(2) r2(3) by auto
      qed
    qed
  qed
qed

lemma map_result_all: "map_result f xs = Inr ys \<Longrightarrow> (\<And>x y. f x = Inr y \<Longrightarrow> P y) \<Longrightarrow> \<forall>y \<in> set ys. P y"
  by (induction xs arbitrary: ys) auto

lemma create_attachments_ok:
  assumes laws: "storage_laws (cf_storage cfg)"
    and c: "create_expense_attachments env cfg w ctx draw uploads db s = (r, s')"
  shows "case r of Inl e \<Rightarrow> s' = s | Inr (as, db') \<Rightarrow> db' = add_attachments env ctx as db \<and> objects_added cfg w as s s'"
proof (cases "and_then (validate_batch (cf_limits cfg) uploads) (\<lambda>items.
            and_then (map_result (process_business_attachment (cf_limits cfg) (cf_files cfg)) items) (\<lambda>processed.
              if lim_max_total_bytes (cf_limits cfg) < sum_list (map pa_size processed)
              then Inl (DomainError ''the files are too large together'') else Inr processed))")
  case (Inl e)
  then show ?thesis using c by (auto simp: create_expense_attachments_def)
next
  case (Inr ps)
  then obtain items where "map_result (process_business_attachment (cf_limits cfg) (cf_files cfg)) items = Inr ps" by auto
  then have ok: "\<forall>p \<in> set ps. processed_ok cfg p"
    by (rule map_result_all) (use process_ok in \<open>simp add: processed_ok_def\<close>)
  obtain r1 keys s1 where a: "attach_items env (cf_storage cfg) w ctx draw 0 ps db [] s = (r1, keys, s1)" by (metis prod_cases3)
  note items = attach_items_ok [OF laws ok a]
  have "create_expense_attachments env cfg w ctx draw uploads db s =
      (case r1 of Inr y \<Rightarrow> (Inr y, s1) | Inl e \<Rightarrow> raise_after_cleanup (cf_storage cfg) w keys e s1)"
    unfolding create_expense_attachments_def Inr by (simp add: a split: sum.splits)
  then show ?thesis using items c by (cases r1) (auto simp: keys_added_undo [OF laws])
qed

subsection \<open>What a call changes\<close>

definition published_only :: "env \<Rightarrow> 'a task_db_scheme \<Rightarrow> 'a task_db_scheme \<Rightarrow> bool" where
  "published_only env db db' \<longleftrightarrow> (\<exists>evs es. db' = db\<lparr>stream_events := evs, system_events := es\<rparr>) \<and> audited env db db' \<and>
     prefix (stream_events db) (stream_events db')"

lemma write_public_event_only:
  "write_public_event env i title summary facts db = Inr db' \<Longrightarrow>
     published_only env db db' \<and> (\<exists>evs. db' = db\<lparr>stream_events := evs\<rparr>)"
  unfolding published_only_def write_public_event_def insert_stream_event_def
  by (auto simp: audited_same intro!: exI [of _ "system_events db"])

lemma published_only_append:
  assumes "published_only env db db1" "append_event env ty aty aid ac asg p occ db1 = Inr (e, db')"
  shows "published_only env db db'"
proof -
  obtain es where "db' = db1\<lparr>system_events := es\<rparr>" using append_event_db [OF assms(2)] by blast
  moreover from assms(1) obtain evs es1 where "db1 = db\<lparr>stream_events := evs, system_events := es1\<rparr>"
    by (auto simp: published_only_def)
  ultimately have "\<exists>evs es. db' = db\<lparr>stream_events := evs, system_events := es\<rparr>" "stream_events db' = stream_events db1" by auto
  then show ?thesis using assms(1) audited_trans [OF _ audited_append [OF assms(2)]] by (auto simp: published_only_def)
qed

text \<open>A claim as a submission opens it.\<close>

definition fresh_claim :: "member \<Rightarrow> expense_claim \<Rightarrow> expense_claim list \<Rightarrow> bool" where
  "fresh_claim m c rows \<longleftrightarrow> ec_status c = ClaimSubmitted \<and> ec_claimant c = m_id m \<and> 0 \<le> ec_amount c \<and> ec_amount c < 10 ^ 12 \<and>
     ec_currency c \<noteq> [] \<and> length (ec_currency c) \<le> 8 \<and> m_status m \<notin> {Suspended, Exited} \<and>
     ec_claim_id c \<notin> ec_claim_id ` set rows"

lemma quantize_nonneg: "0 \<le> c \<Longrightarrow> 0 \<le> quantize_cents c e"
  by (auto simp: quantize_cents_def div_half_even_def Let_def pos_imp_zdiv_nonneg_iff)

lemma open_claim_ok:
  assumes "open_claim env cfg uid m i db = Inr (c, db')"
  shows "fresh_claim m c (expense_claims db) \<and> db' = db\<lparr>expense_claims := expense_claims db @ [c]\<rparr>"
proof -
  from assms obtain cat amount day currency where
    c: "m_status m \<notin> {Suspended, Exited}" "normalise_amount (ci_amount i) = Inr amount" "normalise_currency (ci_currency i) = Inr currency"
      "c = \<lparr>ec_claim_id = new_id ''expense-claim'' uid, ec_claimant = m_id m, ec_title = ci_title i,
                      ec_description = ci_description i, ec_amount = amount, ec_currency = currency, ec_expense_date = day,
                      ec_vendor = ci_vendor i, ec_category = cat, ec_status = ClaimSubmitted,
                      ec_public_note = ci_public_note i, ec_created_at = now env, ec_updated_at = now env\<rparr>"
      "insert_claim c db = Inr db'"
    by (auto simp: open_claim_def Let_def split: if_splits option.splits)
  have "0 \<le> amount" using c(2) by (cases "ci_amount i") (auto split: if_splits intro: quantize_nonneg)
  moreover have "currency \<noteq> [] \<and> length currency \<le> 8"
    using c(3) by (auto simp: normalise_currency_def Let_def split: if_splits)
  ultimately show ?thesis using c(1,4,5) by (auto simp: insert_claim_def fresh_claim_def split: if_splits)
qed

lemma announce_claim_ok: "announce_claim env c m db = Inr (c', db') \<Longrightarrow> c' = c \<and> published_only env db db'"
  by (auto simp: announce_claim_def dest!: write_public_event_only intro: published_only_append)

lemma take_evidence_ok:
  assumes "storage_laws (cf_storage cfg)"
    and "take_evidence env cfg w ctx draw required uploads db s = (r, s')"
  shows "case r of Inl e \<Rightarrow> s' = s | Inr (as, db') \<Rightarrow> db' = add_attachments env ctx as db \<and> objects_added cfg w as s s'"
  using assms(2) create_attachments_ok [OF assms(1)]
  by (auto simp: take_evidence_def add_attachments_simps objects_added_def restrict_map_def split: if_splits)

lemma submit_ok:
  assumes laws: "storage_laws (cf_storage cfg)"
    and c: "submit_expense_claim env cfg w uid draw m i required uploads db s = (r, s')"
  shows "case r of Inl e \<Rightarrow> s' = s
    | Inr (c, db') \<Rightarrow> fresh_claim m c (expense_claims db) \<and> (\<exists>ctx as. ax_claim ctx = ec_claim_id c \<and> objects_added cfg w as s s' \<and>
        published_only env (add_attachments env ctx as (db\<lparr>expense_claims := expense_claims db @ [c]\<rparr>)) db')"
proof (cases "open_claim env cfg uid m i db")
  case (Inl e)
  have "r = Inl e" "s' = s" using c by (simp_all add: submit_expense_claim_def Inl)
  then show ?thesis by simp
next
  case (Inr y)
  obtain c0 db1 where y: "y = (c0, db1)" by (cases y)
  note o = open_claim_ok [OF Inr [unfolded y]]
  let ?ctx = "\<lparr>ax_claim = ec_claim_id c0, ax_uploaded_by = m_id m, ax_purpose = ExpenseEvidence, ax_payment_execution = None,
              ax_audience = AudiencePrivate, ax_source_attachment = None, ax_supersedes = None\<rparr>"
  obtain r1 s1 where t: "take_evidence env cfg w ?ctx draw required uploads db1 s = (r1, s1)"
    by (cases "take_evidence env cfg w ?ctx draw required uploads db1 s")
  note ev = take_evidence_ok [OF laws t]
  show ?thesis
  proof (cases r1)
    case r1: (Inl e)
    have "r = Inl e" "s' = s1" using c by (simp_all add: submit_expense_claim_def Inr y t r1)
    then show ?thesis using ev r1 by simp
  next
    case r1: (Inr z)
    obtain as db2 where z: "z = (as, db2)" by (cases z)
    have ok: "db2 = add_attachments env ?ctx as db1" "objects_added cfg w as s s1" using ev r1 z by auto
    have fin: "r = announce_claim env c0 m db2" "s' = (if isl r then s else s1)"
      using c commit_or_cleanup_ok [OF laws ok(2), of "announce_claim env c0 m db2"]
      by (auto simp: submit_expense_claim_def Inr y t r1 z)
    show ?thesis
    proof (cases r)
      case r: (Inr q)
      obtain c' db' where q: "q = (c', db')" by (cases q)
      have a: "announce_claim env c0 m db2 = Inr (c', db')" using fin(1) r q by simp
      have "s' = s1" using fin(2) unfolding r by simp
      with announce_claim_ok [OF a] show ?thesis using o ok r q
        by (auto intro!: exI [of _ ?ctx] exI [of _ as])
    qed (use fin in simp)
  qed
qed

text \<open>The rows of the claims after a status was saved.\<close>

definition status_saved :: "string \<Rightarrow> claim_status \<Rightarrow> time \<Rightarrow> expense_claim list \<Rightarrow> expense_claim list" where
  "status_saved cid st t rows = update_rows (\<lambda>x. ec_claim_id x = cid) (set_claim_status st t) rows"

lemma save_claim_status_ok:
  "save_claim_status cid st t db = Inr db' \<Longrightarrow>
     cid \<in> ec_claim_id ` set (expense_claims db) \<and> db' = db\<lparr>expense_claims := status_saved cid st t (expense_claims db)\<rparr>"
  by (auto simp: save_claim_status_def status_saved_def split: if_splits)

lemma announce_review_ok: "announce_review env r c m db = Inr (r', db') \<Longrightarrow> r' = r \<and> published_only env db db'"
  by (auto simp: announce_review_def dest!: write_public_event_only intro: published_only_append)

lemma review_ok:
  assumes "review_expense_claim env f uid c m decision reason db = Inr (r, db')"
  shows "is_finance_reviewer env f m db = Inr True" "m_id m \<noteq> ec_claimant c" "ec_status c \<in> {ClaimSubmitted, ClaimUnderReview}"
    "fr_claim r = ec_claim_id c" "fr_reviewer r = m_id m" "ec_claim_id c \<in> ec_claim_id ` set (expense_claims db)"
    "fr_decision r = FinanceRejected \<Longrightarrow> py_strip (fr_reason r) \<noteq> []"
    "published_only env (db\<lparr>expense_claims :=
         status_saved (ec_claim_id c) (reviewed_status (fr_decision r)) (now env) (expense_claims db),
       finance_reviews := finance_reviews db @ [r]\<rparr>) db'"
proof -
  from assms obtain d where
    a: "is_finance_reviewer env f m db = Inr True" "m_id m \<noteq> ec_claimant c" "ec_status c \<in> {ClaimSubmitted, ClaimUnderReview}"
      "parse_finance_decision decision = Some d" "\<not> (d = FinanceRejected \<and> py_strip reason = [])"
    by (auto simp: review_expense_claim_def split: if_splits option.splits)
  define r0 where r0: "r0 = \<lparr>fr_review_id = new_id ''finance-review'' uid, fr_claim = ec_claim_id c, fr_reviewer = m_id m,
                          fr_decision = d, fr_reason = reason, fr_reviewed_at = now env\<rparr>"
  define c' where "c' = set_claim_status (reviewed_status d) (now env) c"
  have "and_then (save_claim_status (ec_claim_id c) (reviewed_status d) (now env) db) (\<lambda>db1.
      and_then (insert_review r0 db1) (announce_review env r0 c' m)) = Inr (r, db')"
    using assms by (simp only: review_expense_claim_def Let_def a if_False option.case and_then.simps r0 c'_def not_not not_True_eq_False
        simp_thms)
  then obtain db1 db2 where
    s: "save_claim_status (ec_claim_id c) (reviewed_status d) (now env) db = Inr db1"
      "insert_review r0 db1 = Inr db2" "announce_review env r0 c' m db2 = Inr (r, db')" by auto
  note s1 = save_claim_status_ok [OF s(1)] and s3 = announce_review_ok [OF s(3)]
  have "db2 = db\<lparr>expense_claims := status_saved (ec_claim_id c) (reviewed_status d) (now env) (expense_claims db),
       finance_reviews := finance_reviews db @ [r0]\<rparr>"
    using s(2) s1 by (auto simp: insert_review_def split: if_splits)
  then show "published_only env (db\<lparr>expense_claims :=
         status_saved (ec_claim_id c) (reviewed_status (fr_decision r)) (now env) (expense_claims db),
       finance_reviews := finance_reviews db @ [r]\<rparr>) db'" using s3 by (simp add: r0)
  show "is_finance_reviewer env f m db = Inr True" "m_id m \<noteq> ec_claimant c" "ec_status c \<in> {ClaimSubmitted, ClaimUnderReview}"
    "fr_claim r = ec_claim_id c" "fr_reviewer r = m_id m" "ec_claim_id c \<in> ec_claim_id ` set (expense_claims db)"
    "fr_decision r = FinanceRejected \<Longrightarrow> py_strip (fr_reason r) \<noteq> []"
    using a s1 s3 by (simp_all add: r0)
qed

lemma withdraw_ok:
  assumes "withdraw_expense_claim env c m db = Inr (c', db')"
  shows "m_id m = ec_claimant c" "ec_status c \<in> {ClaimSubmitted, ClaimUnderReview}"
    "ec_claim_id c \<in> ec_claim_id ` set (expense_claims db)"
    "published_only env (db\<lparr>expense_claims := status_saved (ec_claim_id c) ClaimWithdrawn (now env) (expense_claims db)\<rparr>) db'"
  using assms by (auto simp: withdraw_expense_claim_def Let_def split: if_splits
      dest!: save_claim_status_ok write_public_event_only)

text \<open>The payment rows of a claim as a payer records them.\<close>

definition pays_claim :: "expense_claim \<Rightarrow> member \<Rightarrow> finance_transaction \<Rightarrow> payment_execution \<Rightarrow> bool" where
  "pays_claim c m t p \<longleftrightarrow> ft_claim t = Some (ec_claim_id c) \<and> ft_transaction_type t = Reimbursement \<and>
     ft_amount t = ec_amount c \<and> ft_currency t = ec_currency c \<and> ft_direction t = DirectionOut \<and>
     ft_recorded_by t = Some (m_id m) \<and> px_claim p = ec_claim_id c \<and> px_payer p = m_id m \<and> px_status p = PaymentSucceeded \<and>
     px_finance_transaction p = Some (ft_transaction_id t)"

lemma clear_payment_ok:
  assumes "clear_payment env f cfg c m day method db = Inr (date, b, res)"
  shows "is_finance_payer env f m db = Inr True" "m_id m \<noteq> ec_claimant c" "ec_status c = ClaimApproved" "b = live_os_manual_backend"
proof -
  from assms have a: "is_finance_payer env f m db = Inr True" "m_id m \<noteq> ec_claimant c" "ec_status c = ClaimApproved"
    "get_payment_backend (cf_backend_setting cfg) = Inr b"
    unfolding clear_payment_def by (simp_all only: if_Inl_eq_Inr and_then_Inr_conv prod.inject sum.inject) auto
  then show "is_finance_payer env f m db = Inr True" "m_id m \<noteq> ec_claimant c" "ec_status c = ClaimApproved" by simp_all
  show "b = live_os_manual_backend"
    using a(4) by (auto simp: get_payment_backend_def PAYMENT_BACKENDS_def split: option.splits if_splits)
qed

lemma record_payment_ok:
  assumes "record_payment env uid c m date b res method note_text db = Inr (t, p, db')"
  shows "pays_claim c m t p" "db' = db\<lparr>finance_transactions := finance_transactions db @ [t], payment_executions := payment_executions db @ [p]\<rparr>"
    "ec_claim_id c \<notin> px_claim ` set (payment_executions db)" "ft_transaction_id t \<notin> ft_transaction_id ` set (finance_transactions db)"
  using assms by (auto simp: record_payment_def Let_def pays_claim_def insert_finance_transaction_def insert_payment_execution_def split: if_splits)

lemma announce_payment_ok:
  assumes "announce_payment env c t m db = Inr (t', db')"
  shows "t' = t" "ec_claim_id c \<in> ec_claim_id ` set (expense_claims db)"
    "published_only env (db\<lparr>expense_claims := status_saved (ec_claim_id c) ClaimPaid (now env) (expense_claims db)\<rparr>) db'"
  using assms by (auto simp: announce_payment_def dest!: save_claim_status_ok write_public_event_only intro: published_only_append)

lemma pay_ok:
  assumes laws: "storage_laws (cf_storage cfg)"
    and c: "mark_expense_claim_paid env f cfg w uid draw c m day method note_text required uploads db s = (r, s')"
  shows "case r of Inl e \<Rightarrow> s' = s
    | Inr (t, db') \<Rightarrow> is_finance_payer env f m db = Inr True \<and> m_id m \<noteq> ec_claimant c \<and> ec_status c = ClaimApproved \<and>
        ec_claim_id c \<in> ec_claim_id ` set (expense_claims db) \<and> ec_claim_id c \<notin> px_claim ` set (payment_executions db) \<and>
        ft_transaction_id t \<notin> ft_transaction_id ` set (finance_transactions db) \<and>
        (\<exists>ctx as p. pays_claim c m t p \<and> ax_claim ctx = ec_claim_id c \<and> objects_added cfg w as s s' \<and> published_only env (add_attachments env ctx as
          (db\<lparr>finance_transactions := finance_transactions db @ [t], payment_executions := payment_executions db @ [p],
             expense_claims := status_saved (ec_claim_id c) ClaimPaid (now env) (expense_claims db)\<rparr>)) db')"
proof (cases "and_then (clear_payment env f cfg c m day method db) (\<lambda>(date, b, res).
            record_payment env uid c m date b res method note_text db)")
  case (Inl e)
  have "r = Inl e" "s' = s" using c by (simp_all add: mark_expense_claim_paid_def Inl)
  then show ?thesis by simp
next
  case (Inr y)
  obtain t0 p0 db1 where y: "y = (t0, p0, db1)" by (cases y) auto
  from Inr obtain date b res where cl: "clear_payment env f cfg c m day method db = Inr (date, b, res)"
    and rc: "record_payment env uid c m date b res method note_text db = Inr (t0, p0, db1)"
    unfolding y by (simp only: and_then_Inr_conv split_paired_Ex prod.case) (elim exE conjE)
  note cl = clear_payment_ok [OF cl] and rc = record_payment_ok [OF rc]
  let ?ctx = "\<lparr>ax_claim = ec_claim_id c, ax_uploaded_by = m_id m, ax_purpose = PaymentEvidence,
              ax_payment_execution = Some (px_execution_id p0), ax_audience = AudiencePrivate,
              ax_source_attachment = None, ax_supersedes = None\<rparr>"
  obtain r1 s1 where t: "take_evidence env cfg w ?ctx draw required uploads db1 s = (r1, s1)"
    by (cases "take_evidence env cfg w ?ctx draw required uploads db1 s")
  note ev = take_evidence_ok [OF laws t]
  show ?thesis
  proof (cases r1)
    case r1: (Inl e)
    have "r = Inl e" "s' = s1" using c by (simp_all add: mark_expense_claim_paid_def Inr y t r1)
    then show ?thesis using ev r1 by simp
  next
    case r1: (Inr z)
    obtain as db2 where z: "z = (as, db2)" by (cases z)
    have ok: "db2 = add_attachments env ?ctx as db1" "objects_added cfg w as s s1" using ev r1 z by auto
    have fin: "r = announce_payment env c t0 m db2" "s' = (if isl r then s else s1)"
      using c commit_or_cleanup_ok [OF laws ok(2), of "announce_payment env c t0 m db2"]
      by (auto simp: mark_expense_claim_paid_def Inr y t r1 z)
    show ?thesis
    proof (cases r)
      case r: (Inr q)
      obtain t' db' where q: "q = (t', db')" by (cases q)
      have a: "announce_payment env c t0 m db2 = Inr (t', db')" using fin(1) r q by simp
      have s1: "s' = s1" using fin(2) unfolding r by simp
      note an = announce_payment_ok [OF a]
      have db2: "db2\<lparr>expense_claims := status_saved (ec_claim_id c) ClaimPaid (now env) (expense_claims db2)\<rparr> =
          add_attachments env ?ctx as (db\<lparr>finance_transactions := finance_transactions db @ [t0],
             payment_executions := payment_executions db @ [p0],
             expense_claims := status_saved (ec_claim_id c) ClaimPaid (now env) (expense_claims db)\<rparr>)"
        "expense_claims db2 = expense_claims db"
        unfolding ok(1) rc(2) by (simp_all add: add_attachments_def)
      have "pays_claim c m t0 p0 \<and> ax_claim ?ctx = ec_claim_id c \<and> objects_added cfg w as s s' \<and> published_only env (add_attachments env ?ctx as
          (db\<lparr>finance_transactions := finance_transactions db @ [t0], payment_executions := payment_executions db @ [p0],
             expense_claims := status_saved (ec_claim_id c) ClaimPaid (now env) (expense_claims db)\<rparr>)) db'"
        using rc(1) ok(2) an(3) unfolding db2(1) s1 by (intro conjI) simp_all
      then have "\<exists>ctx as p. pays_claim c m t0 p \<and> ax_claim ctx = ec_claim_id c \<and> objects_added cfg w as s s' \<and> published_only env (add_attachments env ctx as
          (db\<lparr>finance_transactions := finance_transactions db @ [t0], payment_executions := payment_executions db @ [p],
             expense_claims := status_saved (ec_claim_id c) ClaimPaid (now env) (expense_claims db)\<rparr>)) db'" by blast
      then show ?thesis using cl rc(3,4) an(1,2) db2(2) by (simp add: r q)
    qed (use fin in simp)
  qed
qed

lemma create_attachments_for:
  assumes laws: "storage_laws (cf_storage cfg)"
    and c: "create_expense_attachments env cfg w ctx draw uploads db s = (r, s')" and "ax_claim ctx = cid"
  shows "case r of Inl e \<Rightarrow> s' = s
    | Inr (as, db') \<Rightarrow> \<exists>x. ax_claim x = cid \<and> db' = add_attachments env x as db \<and> objects_added cfg w as s s'"
  using create_attachments_ok [where draw = draw, OF laws c] assms(3) by (auto split: sum.splits)

lemma publish_ok:
  assumes laws: "storage_laws (cf_storage cfg)"
    and c: "publish_expense_attachment_copy env f cfg w draw c src m up db s = (r, s')"
  shows "case r of Inl e \<Rightarrow> s' = s
    | Inr (as, db') \<Rightarrow> \<exists>x. ax_claim x = ec_claim_id c \<and> db' = add_attachments env x as db \<and> objects_added cfg w as s s'"
    "isl r \<or> member_has_permission env f m FINANCE_PUBLISH_PUBLIC_ATTACHMENTS_PERMISSION None (now env) db = Inr True"
proof -
  let ?ctx = "\<lparr>ax_claim = ec_claim_id c, ax_uploaded_by = m_id m, ax_purpose = PublicMaterial,
              ax_payment_execution = None, ax_audience = AudiencePublic,
              ax_source_attachment = Some (att_attachment_id src), ax_supersedes = None\<rparr>"
  let ?perm = "member_has_permission env f m FINANCE_PUBLISH_PUBLIC_ATTACHMENTS_PERMISSION None (now env) db"
  have "(\<exists>e. r = Inl e \<and> s' = s) \<or> ?perm = Inr True \<and> create_expense_attachments env cfg w ?ctx draw [up] db s = (r, s')"
    using c unfolding publish_expense_attachment_copy_def by (cases ?perm) (simp_all split: if_splits, blast+)
  then consider e where "r = Inl e" "s' = s"
    | "?perm = Inr True" "create_expense_attachments env cfg w ?ctx draw [up] db s = (r, s')" by blast
  note two = this
  show "case r of Inl e \<Rightarrow> s' = s
    | Inr (as, db') \<Rightarrow> \<exists>x. ax_claim x = ec_claim_id c \<and> db' = add_attachments env x as db \<and> objects_added cfg w as s s'"
    using two
  proof cases
    case 2
    show ?thesis by (rule create_attachments_for [OF laws 2(2)]) simp
  qed simp
  show "isl r \<or> ?perm = Inr True" using two by cases simp_all
qed

lemma correct_ok:
  assumes laws: "storage_laws (cf_storage cfg)"
    and c: "correct_expense_attachment env f cfg w draw c replaced m up db s = (r, s')"
  shows "case r of Inl e \<Rightarrow> s' = s
    | Inr (as, db') \<Rightarrow> \<exists>x. ax_claim x = ec_claim_id c \<and> db' = add_attachments env x as db \<and> objects_added cfg w as s s'"
proof (cases "find_row (\<lambda>l. cl_claim l = ec_claim_id c \<and> cl_attachment l = att_attachment_id replaced) (claim_attachments db)")
  case (Some old)
  let ?ctx = "\<lparr>ax_claim = ec_claim_id c, ax_uploaded_by = m_id m, ax_purpose = cl_purpose old,
                  ax_payment_execution = cl_payment_execution old, ax_audience = AudiencePrivate,
                  ax_source_attachment = None, ax_supersedes = Some (att_attachment_id replaced)\<rparr>"
  let ?perm = "if m_id m \<noteq> ec_claimant c then can_read_private_claim_attachment env f m c db else Inr True"
  have "(\<exists>e. r = Inl e \<and> s' = s) \<or> create_expense_attachments env cfg w ?ctx draw [up] db s = (r, s')"
    using c unfolding correct_expense_attachment_def Some option.case
    by (cases ?perm) (simp_all only: sum.case split: if_splits, auto)
  then show ?thesis
  proof (elim disjE exE conjE)
    assume "create_expense_attachments env cfg w ?ctx draw [up] db s = (r, s')"
    then show ?thesis by (rule create_attachments_for [OF laws]) simp
  qed simp
next
  case None
  then have "isl r \<and> s' = s" using c by (auto simp: correct_expense_attachment_def)
  then show ?thesis by (cases r) simp_all
qed

subsection \<open>Histories\<close>

text \<open>The database, the object store, and the copies of claims that requests have loaded so far and
  may still act on.\<close>

record 'a desk =
  desk_db :: "'a finance_db_scheme"
  desk_store :: store
  desk_copies :: "expense_claim list"

text \<open>A call names its copy by position. \<open>Elsewhere\<close> is any change of the other tables.\<close>

datatype 'd finance_op =
    LoadClaim string
  | SubmitClaim string "nat \<Rightarrow> nat \<times> string" member claim_input bool "upload list option"
  | ReviewClaim fga string nat member string string
  | PayClaim fga string "nat \<Rightarrow> nat \<times> string" nat member "date_input option" string string bool "upload list option"
  | WithdrawClaim nat member
  | PublishCopy fga "nat \<Rightarrow> nat \<times> string" nat attachment member upload
  | CorrectEvidence fga "nat \<Rightarrow> nat \<times> string" nat attachment member upload
  | Elsewhere "'d \<Rightarrow> 'd"

text \<open>The state after a call: a failed one leaves the database as it was and the store it returns.\<close>

fun settle_call :: "'a desk \<Rightarrow> ('b \<times> 'a finance_db_scheme) result \<times> store \<Rightarrow> 'a desk" where
  "settle_call d (Inl e, s) = d\<lparr>desk_store := s\<rparr>"
| "settle_call d (Inr (x, db), s) = d\<lparr>desk_db := db, desk_store := s\<rparr>"

definition with_copy :: "nat \<Rightarrow> 'a desk \<Rightarrow> (expense_claim \<Rightarrow> 'a desk) \<Rightarrow> 'a desk" where
  "with_copy i d f = (if i < length (desk_copies d) then f (desk_copies d ! i) else d)"

definition keep_finance :: "'a finance_db_scheme \<Rightarrow> 'a finance_db_scheme \<Rightarrow> 'a finance_db_scheme" where
  "keep_finance db db' = db'\<lparr>expense_claims := expense_claims db, finance_reviews := finance_reviews db,
     payment_executions := payment_executions db, finance_transactions := finance_transactions db,
     attachments := attachments db, claim_attachments := claim_attachments db\<rparr>"

fun finance_service ::
    "env \<Rightarrow> finance_config \<Rightarrow> string \<Rightarrow> ('a finance_db_scheme) finance_op \<Rightarrow> 'a desk \<Rightarrow> 'a desk" where
  "finance_service env cfg w (LoadClaim cid) d =
    (case find_row (\<lambda>c. ec_claim_id c = cid) (expense_claims (desk_db d)) of
       None \<Rightarrow> d | Some c \<Rightarrow> d\<lparr>desk_copies := desk_copies d @ [c]\<rparr>)"
| "finance_service env cfg w (SubmitClaim uid draw m i required uploads) d =
    settle_call d (submit_expense_claim env cfg w uid draw m i required uploads (desk_db d) (desk_store d))"
| "finance_service env cfg w (ReviewClaim f uid i m decision reason) d =
    with_copy i d (\<lambda>c. settle_call d (review_expense_claim env f uid c m decision reason (desk_db d), desk_store d))"
| "finance_service env cfg w (PayClaim f uid draw i m day method note_text required uploads) d =
    with_copy i d (\<lambda>c. settle_call d
      (mark_expense_claim_paid env f cfg w uid draw c m day method note_text required uploads (desk_db d) (desk_store d)))"
| "finance_service env cfg w (WithdrawClaim i m) d =
    with_copy i d (\<lambda>c. settle_call d (withdraw_expense_claim env c m (desk_db d), desk_store d))"
| "finance_service env cfg w (PublishCopy f draw i src m up) d =
    with_copy i d (\<lambda>c. settle_call d
      (publish_expense_attachment_copy env f cfg w draw c src m up (desk_db d) (desk_store d)))"
| "finance_service env cfg w (CorrectEvidence f draw i src m up) d =
    with_copy i d (\<lambda>c. settle_call d
      (correct_expense_attachment env f cfg w draw c src m up (desk_db d) (desk_store d)))"
| "finance_service env cfg w (Elsewhere g) d = d\<lparr>desk_db := keep_finance (desk_db d) (g (desk_db d))\<rparr>"

definition finance_step ::
    "env \<Rightarrow> finance_config \<Rightarrow> string \<Rightarrow> time \<times> ('a finance_db_scheme) finance_op \<Rightarrow> 'a desk \<Rightarrow> (unit \<times> 'a desk) result" where
  "finance_step env cfg w x d = Inr ((), finance_service (env\<lparr>now := fst x\<rparr>) cfg w (snd x) d)"

subsection \<open>The abstract books\<close>

text \<open>What a history does to the finance tables, the store and the copies, as a step relation: the
  services refine it.\<close>

record books =
  bk_claims :: "expense_claim list"
  bk_reviews :: "finance_review list"
  bk_payments :: "payment_execution list"
  bk_transactions :: "finance_transaction list"
  bk_attachments :: "attachment list"
  bk_links :: "claim_attachment list"
  bk_store :: store
  bk_copies :: "expense_claim list"

definition books_of :: "'a desk \<Rightarrow> books" where
  "books_of d = (let db = desk_db d in
    \<lparr>bk_claims = expense_claims db, bk_reviews = finance_reviews db, bk_payments = payment_executions db,
     bk_transactions = finance_transactions db, bk_attachments = attachments db, bk_links = claim_attachments db,
     bk_store = desk_store d, bk_copies = desk_copies d\<rparr>)"

definition attached ::
    "finance_config \<Rightarrow> string \<Rightarrow> string \<Rightarrow> attachment list \<Rightarrow> claim_attachment list \<Rightarrow> store \<Rightarrow> store \<Rightarrow> bool" where
  "attached cfg w cid as ls s s' \<longleftrightarrow> objects_added cfg w as s s' \<and> map cl_attachment ls = map att_attachment_id as \<and>
     (\<forall>l \<in> set ls. cl_claim l = cid)"

inductive books_step :: "finance_config \<Rightarrow> string \<Rightarrow> books \<Rightarrow> books \<Rightarrow> bool" for cfg w where
  Loading: "c \<in> set (bk_claims b) \<Longrightarrow> books_step cfg w b (b\<lparr>bk_copies := bk_copies b @ [c]\<rparr>)"
| Opening: "fresh_claim m c (bk_claims b) \<Longrightarrow> attached cfg w (ec_claim_id c) as ls (bk_store b) s' \<Longrightarrow>
    books_step cfg w b (b\<lparr>bk_claims := bk_claims b @ [c], bk_attachments := bk_attachments b @ as,
      bk_links := bk_links b @ ls, bk_store := s'\<rparr>)"
| Reviewing: "c \<in> set (bk_copies b) \<Longrightarrow> ec_claim_id c \<in> ec_claim_id ` set (bk_claims b) \<Longrightarrow>
    ec_status c \<in> {ClaimSubmitted, ClaimUnderReview} \<Longrightarrow> fr_claim r = ec_claim_id c \<Longrightarrow> fr_reviewer r \<noteq> ec_claimant c \<Longrightarrow>
    books_step cfg w b (b\<lparr>bk_claims := status_saved (ec_claim_id c) (reviewed_status (fr_decision r)) t (bk_claims b),
      bk_reviews := bk_reviews b @ [r]\<rparr>)"
| Paying: "c \<in> set (bk_copies b) \<Longrightarrow> ec_claim_id c \<in> ec_claim_id ` set (bk_claims b) \<Longrightarrow>
    ec_status c = ClaimApproved \<Longrightarrow> pays_claim c m t p \<Longrightarrow> m_id m \<noteq> ec_claimant c \<Longrightarrow>
    ec_claim_id c \<notin> px_claim ` set (bk_payments b) \<Longrightarrow> ft_transaction_id t \<notin> ft_transaction_id ` set (bk_transactions b) \<Longrightarrow>
    attached cfg w (ec_claim_id c) as ls (bk_store b) s' \<Longrightarrow>
    books_step cfg w b (b\<lparr>bk_claims := status_saved (ec_claim_id c) ClaimPaid at (bk_claims b),
      bk_payments := bk_payments b @ [p], bk_transactions := bk_transactions b @ [t],
      bk_attachments := bk_attachments b @ as, bk_links := bk_links b @ ls, bk_store := s'\<rparr>)"
| Withdrawing: "c \<in> set (bk_copies b) \<Longrightarrow> ec_claim_id c \<in> ec_claim_id ` set (bk_claims b) \<Longrightarrow>
    ec_status c \<in> {ClaimSubmitted, ClaimUnderReview} \<Longrightarrow>
    books_step cfg w b (b\<lparr>bk_claims := status_saved (ec_claim_id c) ClaimWithdrawn t (bk_claims b)\<rparr>)"
| Attaching: "c \<in> set (bk_copies b) \<Longrightarrow> attached cfg w (ec_claim_id c) as ls (bk_store b) s' \<Longrightarrow>
    books_step cfg w b (b\<lparr>bk_attachments := bk_attachments b @ as, bk_links := bk_links b @ ls, bk_store := s'\<rparr>)"

lemma attached_new: "ax_claim ctx = cid \<Longrightarrow> objects_added cfg w as s s' \<Longrightarrow> attached cfg w cid as (map (new_link env ctx) as) s s'"
  by (auto simp: attached_def new_link_def)

lemma published_books:
  assumes "published_only env db db'"
  shows "books_of (d\<lparr>desk_db := db', desk_store := s\<rparr>) = books_of (d\<lparr>desk_db := db, desk_store := s\<rparr>)"
  using assms by (auto simp: published_only_def books_of_def Let_def)

text \<open>Refinement: a call either leaves the books alone or is one of their steps.\<close>

definition books_move :: "finance_config \<Rightarrow> string \<Rightarrow> books \<Rightarrow> books \<Rightarrow> bool" where
  "books_move cfg w b b' \<longleftrightarrow> b' = b \<or> books_step cfg w b b'"

lemma settle_failed: "books_of (settle_call d (Inl e, desk_store d)) = books_of d"
  by simp

lemma submit_refines:
  assumes "storage_laws (cf_storage cfg)"
  shows "books_move cfg w (books_of d)
    (books_of (settle_call d (submit_expense_claim env cfg w uid draw m i required uploads (desk_db d) (desk_store d))))"
proof -
  obtain r s' where s: "submit_expense_claim env cfg w uid draw m i required uploads (desk_db d) (desk_store d) = (r, s')"
    by (cases "submit_expense_claim env cfg w uid draw m i required uploads (desk_db d) (desk_store d)")
  note ok = submit_ok [OF assms s]
  show ?thesis
  proof (cases r)
    case (Inl e)
    then show ?thesis using ok s by (simp add: books_move_def)
  next
    case (Inr y)
    obtain c db' where y: "y = (c, db')" by (cases y)
    from ok obtain ctx as where o: "fresh_claim m c (expense_claims (desk_db d))" "ax_claim ctx = ec_claim_id c"
      "objects_added cfg w as (desk_store d) s'"
      "published_only (env) (add_attachments env ctx as ((desk_db d)\<lparr>expense_claims := expense_claims (desk_db d) @ [c]\<rparr>)) db'"
      by (auto simp: Inr y)
    have "books_of (settle_call d (r, s')) = (books_of d)\<lparr>bk_claims := bk_claims (books_of d) @ [c],
        bk_attachments := bk_attachments (books_of d) @ as, bk_links := bk_links (books_of d) @ map (new_link env ctx) as,
        bk_store := s'\<rparr>"
      using published_books [OF o(4), where d = d and s = s'] by (simp add: Inr y books_of_def Let_def add_attachments_def)
    then show ?thesis unfolding s books_move_def
      using Opening [of m c "books_of d" cfg w as "map (new_link env ctx) as" s'] o(1) attached_new [OF o(2,3)]
      by (simp add: books_of_def Let_def)
  qed
qed

lemma review_refines:
  assumes "c \<in> set (desk_copies d)"
  shows "books_move cfg w (books_of d)
    (books_of (settle_call d (review_expense_claim env f uid c m decision reason (desk_db d), desk_store d)))"
proof (cases "review_expense_claim env f uid c m decision reason (desk_db d)")
  case (Inr y)
  obtain r db' where y: "y = (r, db')" by (cases y)
  note o = review_ok [OF Inr [unfolded y]]
  have "books_of (settle_call d (Inr y, desk_store d)) = (books_of d)\<lparr>
      bk_claims := status_saved (ec_claim_id c) (reviewed_status (fr_decision r)) (now env) (bk_claims (books_of d)),
      bk_reviews := bk_reviews (books_of d) @ [r]\<rparr>"
    using published_books [OF o(8), where d = d and s = "desk_store d"] by (simp add: y books_of_def Let_def)
  then show ?thesis unfolding Inr books_move_def
    using Reviewing [of c "books_of d" r cfg w "now env"] o assms by (simp add: books_of_def Let_def)
qed (simp add: books_move_def)

lemma withdraw_refines:
  assumes "c \<in> set (desk_copies d)"
  shows "books_move cfg w (books_of d)
    (books_of (settle_call d (withdraw_expense_claim env c m (desk_db d), desk_store d)))"
proof (cases "withdraw_expense_claim env c m (desk_db d)")
  case (Inr y)
  obtain c' db' where y: "y = (c', db')" by (cases y)
  note o = withdraw_ok [OF Inr [unfolded y]]
  have "books_of (settle_call d (Inr y, desk_store d)) = (books_of d)\<lparr>
      bk_claims := status_saved (ec_claim_id c) ClaimWithdrawn (now env) (bk_claims (books_of d))\<rparr>"
    using published_books [OF o(4), where d = d and s = "desk_store d"] by (simp add: y books_of_def Let_def)
  then show ?thesis unfolding Inr books_move_def
    using Withdrawing [of c "books_of d" cfg w "now env"] o assms by (simp add: books_of_def Let_def)
qed (simp add: books_move_def)

lemma pay_refines:
  assumes "storage_laws (cf_storage cfg)" "c \<in> set (desk_copies d)"
  shows "books_move cfg w (books_of d) (books_of (settle_call d
    (mark_expense_claim_paid env f cfg w uid draw c m day method note_text required uploads (desk_db d) (desk_store d))))"
proof -
  obtain r s' where s:
    "mark_expense_claim_paid env f cfg w uid draw c m day method note_text required uploads (desk_db d) (desk_store d) = (r, s')"
    by (cases "mark_expense_claim_paid env f cfg w uid draw c m day method note_text required uploads (desk_db d) (desk_store d)")
  note ok = pay_ok [OF assms(1) s]
  show ?thesis
  proof (cases r)
    case (Inl e)
    then show ?thesis using ok s by (simp add: books_move_def)
  next
    case (Inr y)
    obtain t db' where y: "y = (t, db')" by (cases y)
    let ?db = "(desk_db d)\<lparr>finance_transactions := finance_transactions (desk_db d) @ [t]\<rparr>"
    from ok obtain ctx as p where o: "m_id m \<noteq> ec_claimant c" "ec_status c = ClaimApproved"
      "ec_claim_id c \<in> ec_claim_id ` set (expense_claims (desk_db d))" "ec_claim_id c \<notin> px_claim ` set (payment_executions (desk_db d))"
      "ft_transaction_id t \<notin> ft_transaction_id ` set (finance_transactions (desk_db d))" "pays_claim c m t p"
      "ax_claim ctx = ec_claim_id c" "objects_added cfg w as (desk_store d) s'"
      "published_only env (add_attachments env ctx as (?db\<lparr>payment_executions := payment_executions (desk_db d) @ [p],
             expense_claims := status_saved (ec_claim_id c) ClaimPaid (now env) (expense_claims (desk_db d))\<rparr>)) db'"
      by (auto simp: Inr y)
    have "books_of (settle_call d (r, s')) = (books_of d)\<lparr>
        bk_claims := status_saved (ec_claim_id c) ClaimPaid (now env) (bk_claims (books_of d)),
        bk_payments := bk_payments (books_of d) @ [p], bk_transactions := bk_transactions (books_of d) @ [t],
        bk_attachments := bk_attachments (books_of d) @ as, bk_links := bk_links (books_of d) @ map (new_link env ctx) as,
        bk_store := s'\<rparr>"
      using published_books [OF o(9), where d = d and s = s'] by (simp add: Inr y books_of_def Let_def add_attachments_def)
    then show ?thesis unfolding s books_move_def
      using Paying [of c "books_of d" m t p cfg w as "map (new_link env ctx) as" s' "now env"] o assms(2)
        attached_new [OF o(7,8)] by (simp add: books_of_def Let_def)
  qed
qed

lemma attaching_refines:
  assumes "c \<in> set (desk_copies d)" and "case r of Inl e \<Rightarrow> s' = desk_store d
    | Inr (as, db') \<Rightarrow> \<exists>ctx. ax_claim ctx = ec_claim_id c \<and> db' = add_attachments env ctx as (desk_db d) \<and> objects_added cfg w as (desk_store d) s'"
  shows "books_move cfg w (books_of d) (books_of (settle_call d (r, s')))"
proof (cases r)
  case (Inr y)
  obtain as db' where y: "y = (as, db')" by (cases y)
  from assms(2) obtain ctx where o: "ax_claim ctx = ec_claim_id c" "db' = add_attachments env ctx as (desk_db d)"
    "objects_added cfg w as (desk_store d) s'" by (auto simp: Inr y)
  then have "books_of (settle_call d (r, s')) = (books_of d)\<lparr>bk_attachments := bk_attachments (books_of d) @ as,
      bk_links := bk_links (books_of d) @ map (new_link env ctx) as, bk_store := s'\<rparr>"
    by (simp add: Inr y books_of_def Let_def add_attachments_def)
  then show ?thesis unfolding books_move_def
    using Attaching [of c "books_of d" cfg w as "map (new_link env ctx) as" s'] attached_new [OF o(1,3)] assms(1)
    by (simp add: books_of_def Let_def)
qed (use assms(2) in \<open>simp add: books_move_def\<close>)

lemma load_refines:
  assumes "c \<in> set (expense_claims (desk_db d))"
  shows "books_move cfg w (books_of d) (books_of (d\<lparr>desk_copies := desk_copies d @ [c]\<rparr>))"
proof -
  have "books_of (d\<lparr>desk_copies := desk_copies d @ [c]\<rparr>) = (books_of d)\<lparr>bk_copies := bk_copies (books_of d) @ [c]\<rparr>"
    by (simp add: books_of_def Let_def)
  then show ?thesis unfolding books_move_def
    using Loading [of c "books_of d" cfg w] assms by (simp add: books_of_def Let_def)
qed

lemma with_copy_move:
  "(\<And>c. c \<in> set (desk_copies d) \<Longrightarrow> books_move cfg w (books_of d) (books_of (f c))) \<Longrightarrow>
     books_move cfg w (books_of d) (books_of (with_copy i d f))"
  by (simp add: with_copy_def books_move_def)

lemma publish_refines:
  assumes laws: "storage_laws (cf_storage cfg)" and "c \<in> set (desk_copies d)"
  shows "books_move cfg w (books_of d) (books_of (settle_call d
      (publish_expense_attachment_copy env f cfg w draw c src m up (desk_db d) (desk_store d))))"
proof -
  obtain r s' where s: "publish_expense_attachment_copy env f cfg w draw c src m up (desk_db d) (desk_store d) = (r, s')"
    by (cases "publish_expense_attachment_copy env f cfg w draw c src m up (desk_db d) (desk_store d)")
  show ?thesis unfolding s
    by (rule attaching_refines [where c = c and env = env])
      (use publish_ok(1) [OF laws s] assms(2) in \<open>auto split: sum.splits\<close>)
qed

lemma correct_refines:
  assumes laws: "storage_laws (cf_storage cfg)" and "c \<in> set (desk_copies d)"
  shows "books_move cfg w (books_of d) (books_of (settle_call d
      (correct_expense_attachment env f cfg w draw c src m up (desk_db d) (desk_store d))))"
proof -
  obtain r s' where s: "correct_expense_attachment env f cfg w draw c src m up (desk_db d) (desk_store d) = (r, s')"
    by (cases "correct_expense_attachment env f cfg w draw c src m up (desk_db d) (desk_store d)")
  show ?thesis unfolding s
    by (rule attaching_refines [where c = c and env = env])
      (use correct_ok [OF laws s] assms(2) in \<open>auto split: sum.splits\<close>)
qed

lemma elsewhere_refines: "books_move cfg w (books_of d) (books_of (d\<lparr>desk_db := keep_finance (desk_db d) db\<rparr>))"
  by (simp add: books_move_def books_of_def keep_finance_def Let_def)

lemma service_refines:
  assumes laws: "storage_laws (cf_storage cfg)"
  shows "books_move cfg w (books_of d) (books_of (finance_service env cfg w call d))"
proof (cases call)
  case (LoadClaim cid)
  show ?thesis
  proof (cases "find_row (\<lambda>c. ec_claim_id c = cid) (expense_claims (desk_db d))")
    case (Some c)
    then have "c \<in> set (expense_claims (desk_db d))" using find_row_Some_iff [OF Some] by simp
    from load_refines [OF this] show ?thesis by (simp add: LoadClaim Some)
  qed (simp add: LoadClaim books_move_def)
next
  case SubmitClaim
  show ?thesis unfolding SubmitClaim finance_service.simps by (rule submit_refines [OF laws])
next
  case ReviewClaim
  show ?thesis unfolding ReviewClaim finance_service.simps by (rule with_copy_move) (rule review_refines)
next
  case PayClaim
  show ?thesis unfolding PayClaim finance_service.simps by (rule with_copy_move) (rule pay_refines [OF laws])
next
  case WithdrawClaim
  show ?thesis unfolding WithdrawClaim finance_service.simps by (rule with_copy_move) (rule withdraw_refines)
next
  case PublishCopy
  show ?thesis unfolding PublishCopy finance_service.simps by (rule with_copy_move) (rule publish_refines [OF laws])
next
  case CorrectEvidence
  show ?thesis unfolding CorrectEvidence finance_service.simps by (rule with_copy_move) (rule correct_refines [OF laws])
next
  case Elsewhere
  show ?thesis unfolding Elsewhere finance_service.simps by (rule elsewhere_refines)
qed

subsection \<open>Payments are backed and unique\<close>

text \<open>What a claim is about, without its status.\<close>

definition claim_terms :: "expense_claim \<Rightarrow> expense_claim" where
  "claim_terms c = set_claim_status ClaimSubmitted 0 c"

lemma claim_terms_status [simp]: "claim_terms (set_claim_status st t c) = claim_terms c"
  by (simp add: claim_terms_def set_claim_status_def)

lemma claim_terms_eqD:
  assumes "claim_terms c = claim_terms c'"
  shows "ec_claim_id c = ec_claim_id c'" "ec_claimant c = ec_claimant c'" "ec_amount c = ec_amount c'" "ec_currency c = ec_currency c'"
proof -
  have "ec_claim_id (claim_terms c) = ec_claim_id c" "ec_claimant (claim_terms c) = ec_claimant c"
    "ec_amount (claim_terms c) = ec_amount c" "ec_currency (claim_terms c) = ec_currency c" for c
    by (simp_all add: claim_terms_def set_claim_status_def)
  then show "ec_claim_id c = ec_claim_id c'" "ec_claimant c = ec_claimant c'" "ec_amount c = ec_amount c'" "ec_currency c = ec_currency c'"
    using assms by metis+
qed

definition backed :: "finance_review list \<Rightarrow> expense_claim \<Rightarrow> bool" where
  "backed rs c \<longleftrightarrow> (\<exists>r \<in> set rs. fr_claim r = ec_claim_id c \<and> fr_decision r = FinanceApproved \<and> fr_reviewer r \<noteq> ec_claimant c)"

definition payment_of :: "expense_claim list \<Rightarrow> finance_review list \<Rightarrow> finance_transaction \<Rightarrow> payment_execution \<Rightarrow> bool" where
  "payment_of cs rs t p \<longleftrightarrow> (\<exists>c \<in> set cs. \<exists>m. pays_claim c m t p \<and> m_id m \<noteq> ec_claimant c \<and> backed rs c)"

definition claims_kept :: "expense_claim list \<Rightarrow> expense_claim list \<Rightarrow> bool" where
  "claims_kept cs cs' \<longleftrightarrow> (\<forall>c \<in> set cs. \<exists>c' \<in> set cs'. claim_terms c' = claim_terms c)"

lemma claims_kept_saved [simp]: "claims_kept cs (status_saved cid st t cs)"
  unfolding claims_kept_def
proof
  fix c assume "c \<in> set cs"
  then have "(if ec_claim_id c = cid then set_claim_status st t c else c) \<in> set (status_saved cid st t cs)"
    unfolding status_saved_def set_update_rows by (rule imageI)
  then show "\<exists>c' \<in> set (status_saved cid st t cs). claim_terms c' = claim_terms c" by (rule bexI [rotated]) simp
qed

lemma claims_kept_append [simp]: "claims_kept cs (cs @ cs')"
  by (auto simp: claims_kept_def)

lemma backed_terms: "claim_terms c' = claim_terms c \<Longrightarrow> backed rs c' = backed rs c"
  using claim_terms_eqD(1,2) [of c' c] by (simp add: backed_def)

lemma backed_append: "backed rs c \<Longrightarrow> backed (rs @ rs') c"
  by (auto simp: backed_def)

lemma pays_terms: "claim_terms c' = claim_terms c \<Longrightarrow> pays_claim c' m t p = pays_claim c m t p"
  using claim_terms_eqD [of c' c] by (simp add: pays_claim_def)

lemma payment_of_mono:
  assumes "claims_kept cs cs'" "payment_of cs rs t p" shows "payment_of cs' (rs @ rs') t p"
proof -
  from assms(2) obtain c m where c: "c \<in> set cs" "pays_claim c m t p" "m_id m \<noteq> ec_claimant c" "backed rs c"
    by (auto simp: payment_of_def)
  with assms(1) obtain c' where c': "c' \<in> set cs'" "claim_terms c' = claim_terms c" by (auto simp: claims_kept_def)
  show ?thesis unfolding payment_of_def
    using c c' pays_terms [OF c'(2)] backed_append [of rs c rs'] backed_terms [OF c'(2)] claim_terms_eqD(2) [OF c'(2)]
    by (intro bexI [OF _ c'(1)] exI [of _ m]) simp
qed

lemmas payment_of_kept = payment_of_mono [where rs' = "[]", simplified]

definition known_claim :: "expense_claim list \<Rightarrow> finance_review list \<Rightarrow> expense_claim \<Rightarrow> bool" where
  "known_claim cs rs c \<longleftrightarrow> (\<exists>c' \<in> set cs. claim_terms c' = claim_terms c) \<and>
     (ec_status c \<in> {ClaimApproved, ClaimPaid} \<longrightarrow> backed rs c)"

lemma known_claim_mono: "claims_kept cs cs' \<Longrightarrow> known_claim cs rs c \<Longrightarrow> known_claim cs' (rs @ rs') c"
  unfolding known_claim_def claims_kept_def using backed_append by metis

lemmas known_claim_kept = known_claim_mono [where rs' = "[]", simplified]

definition books_inv :: "books \<Rightarrow> bool" where
  "books_inv b \<longleftrightarrow> distinct (map ec_claim_id (bk_claims b)) \<and>
     (\<forall>c \<in> set (bk_claims b). 0 \<le> ec_amount c \<and> ec_amount c < 10 ^ 12) \<and>
     (\<forall>c \<in> set (bk_claims b) \<union> set (bk_copies b). known_claim (bk_claims b) (bk_reviews b) c) \<and>
     list_all2 (payment_of (bk_claims b) (bk_reviews b)) (bk_transactions b) (bk_payments b) \<and>
     distinct (map px_claim (bk_payments b)) \<and> distinct (map ft_transaction_id (bk_transactions b))"

text \<open>Saving a status keeps the invariant when the new status is backed.\<close>

lemma saved_known:
  assumes "\<forall>c \<in> set cs. known_claim cs rs c" and "st \<in> {ClaimApproved, ClaimPaid} \<longrightarrow> (\<forall>c \<in> set cs. ec_claim_id c = cid \<longrightarrow> backed (rs @ rs') c)"
    and "c \<in> set (status_saved cid st t cs)"
  shows "known_claim (status_saved cid st t cs) (rs @ rs') c"
proof -
  from assms(3) obtain c0 where c0: "c0 \<in> set cs" "c = (if ec_claim_id c0 = cid then set_claim_status st t c0 else c0)"
    by (auto simp: status_saved_def set_update_rows)
  have k: "known_claim (status_saved cid st t cs) (rs @ rs') c0"
    using assms(1) c0(1) known_claim_mono [OF claims_kept_saved] by blast
  have "ec_status (set_claim_status st t c0) = st" by (simp add: set_claim_status_def)
  moreover have "backed rs2 (set_claim_status st t c0) = backed rs2 c0" for rs2 by (rule backed_terms) simp
  ultimately show ?thesis using k c0 assms(2) by (auto simp: known_claim_def)
qed

lemma saved_amounts:
  "\<forall>c \<in> set cs. P (ec_amount c) \<Longrightarrow> \<forall>c \<in> set (status_saved cid st t cs). P (ec_amount c)"
  by (auto simp: status_saved_def set_update_rows set_claim_status_def)

lemma saved_ids [simp]: "map ec_claim_id (status_saved cid st t cs) = map ec_claim_id cs"
  unfolding status_saved_def by (rule map_update_rows) (simp add: set_claim_status_def)

lemma inv_save:
  assumes inv: "books_inv b"
    and approved: "st \<in> {ClaimApproved, ClaimPaid} \<longrightarrow> (\<forall>c \<in> set (bk_claims b). ec_claim_id c = cid \<longrightarrow> backed (bk_reviews b @ rs') c)"
    and new: "list_all2 (payment_of (bk_claims b) (bk_reviews b)) ts ps"
      "distinct (map px_claim (bk_payments b @ ps))" "distinct (map ft_transaction_id (bk_transactions b @ ts))"
    and b': "bk_claims b' = status_saved cid st t (bk_claims b)" "bk_reviews b' = bk_reviews b @ rs'"
      "bk_transactions b' = bk_transactions b @ ts" "bk_payments b' = bk_payments b @ ps" "bk_copies b' = bk_copies b"
  shows "books_inv b'"
proof -
  note i = inv [unfolded books_inv_def]
  have "list_all2 (payment_of (bk_claims b) (bk_reviews b)) (bk_transactions b @ ts) (bk_payments b @ ps)"
    using i new(1) by (simp add: list_all2_appendI)
  then have "list_all2 (payment_of (bk_claims b') (bk_reviews b')) (bk_transactions b') (bk_payments b')"
    unfolding b' by (rule list_all2_mono) (rule payment_of_mono [OF claims_kept_saved])
  moreover have "known_claim (bk_claims b') (bk_reviews b') c" if "c \<in> set (bk_claims b') \<union> set (bk_copies b')" for c
  proof (cases "c \<in> set (bk_claims b')")
    case True
    then show ?thesis unfolding b' using saved_known [OF _ approved] i by blast
  next
    case False
    then have "known_claim (bk_claims b) (bk_reviews b) c" using that i b'(5) by auto
    then show ?thesis unfolding b' by (rule known_claim_mono [OF claims_kept_saved])
  qed
  ultimately show ?thesis
    using i new(2,3) saved_amounts [of "bk_claims b" "\<lambda>x. 0 \<le> x \<and> x < 10 ^ 12" cid st t]
    unfolding books_inv_def by (simp add: b')
qed

lemma books_inv_step:
  assumes "books_step cfg w b b'" "books_inv b" shows "books_inv b'"
  using assms
proof cases
  case (Loading c)
  then show ?thesis using assms(2) by (auto simp: books_inv_def)
next
  case (Opening m c as ls s')
  note i = assms(2) [unfolded books_inv_def]
  have k: "known_claim (bk_claims b @ [c]) (bk_reviews b) x" if "known_claim (bk_claims b) (bk_reviews b) x" for x
    using known_claim_kept [OF claims_kept_append that] .
  have "known_claim (bk_claims b @ [c]) (bk_reviews b) c"
    using Opening(2) by (simp add: known_claim_def fresh_claim_def)
  moreover have "list_all2 (payment_of (bk_claims b @ [c]) (bk_reviews b)) (bk_transactions b) (bk_payments b)"
    by (rule list_all2_mono [OF conjunct1 [OF conjunct2 [OF conjunct2 [OF conjunct2 [OF i]]]]])
      (rule payment_of_kept [OF claims_kept_append])
  ultimately show ?thesis using i Opening(2) unfolding Opening(1) books_inv_def fresh_claim_def by (auto intro: k)
next
  case (Reviewing c r t)
  from assms(2) Reviewing(2) obtain c' where c': "c' \<in> set (bk_claims b)" "claim_terms c' = claim_terms c"
    unfolding books_inv_def known_claim_def by blast
  have d: "distinct (map ec_claim_id (bk_claims b))" using assms(2) by (simp add: books_inv_def)
  have "x = c'" if "x \<in> set (bk_claims b)" "ec_claim_id x = ec_claim_id c" for x
    using distinct_map_unique [OF d that(1) c'(1)] that(2) claim_terms_eqD(1) [OF c'(2)] by simp
  then have "backed (bk_reviews b @ [r]) x" if "x \<in> set (bk_claims b)" "ec_claim_id x = ec_claim_id c" "fr_decision r = FinanceApproved" for x
    using Reviewing(5,6) that claim_terms_eqD(1,2) [OF c'(2)] by (auto simp: backed_def)
  then show ?thesis
    by (intro inv_save [OF assms(2), where ts = "[]" and ps = "[]" and rs' = "[r]" and cid = "ec_claim_id c" and
          st = "reviewed_status (fr_decision r)" and t = t])
      (use assms(2) in \<open>auto simp: Reviewing(1) reviewed_status_def books_inv_def split: if_splits\<close>)
next
  case (Paying c m t p as ls s' moment)
  from assms(2) Paying(2,4) obtain c' where c': "c' \<in> set (bk_claims b)" "claim_terms c' = claim_terms c" "backed (bk_reviews b) c'"
    unfolding books_inv_def known_claim_def using backed_terms by blast
  have d: "distinct (map ec_claim_id (bk_claims b))" using assms(2) by (simp add: books_inv_def)
  have "x = c'" if "x \<in> set (bk_claims b)" "ec_claim_id x = ec_claim_id c" for x
    using distinct_map_unique [OF d that(1) c'(1)] that(2) claim_terms_eqD(1) [OF c'(2)] by simp
  then have approved: "\<forall>x \<in> set (bk_claims b). ec_claim_id x = ec_claim_id c \<longrightarrow> backed (bk_reviews b @ []) x" using c'(3) by auto
  have "payment_of (bk_claims b) (bk_reviews b) t p" unfolding payment_of_def
    using c' pays_terms [OF c'(2), of m t p] Paying(5,6) claim_terms_eqD(2) [OF c'(2)] by (intro bexI [OF _ c'(1)] exI [of _ m]) simp
  moreover have "px_claim p = ec_claim_id c" using Paying(5) by (simp add: pays_claim_def)
  ultimately show ?thesis
    by (intro inv_save [OF assms(2), where ts = "[t]" and ps = "[p]" and rs' = "[]" and cid = "ec_claim_id c" and
          st = ClaimPaid and t = moment])
      (use assms(2) Paying(7,8) approved in \<open>auto simp: Paying(1) books_inv_def\<close>)
next
  case (Withdrawing c t)
  then show ?thesis
    by (intro inv_save [OF assms(2), where ts = "[]" and ps = "[]" and rs' = "[]" and cid = "ec_claim_id c" and
          st = ClaimWithdrawn and t = t])
      (use assms(2) in \<open>auto simp: books_inv_def\<close>)
next
  case Attaching
  then show ?thesis using assms(2) by (simp add: books_inv_def)
qed

subsection \<open>What histories keep\<close>

definition books_grow :: "books \<Rightarrow> books \<Rightarrow> bool" where
  "books_grow b b' \<longleftrightarrow> rows_follow (\<lambda>c c'. claim_terms c' = claim_terms c) (bk_claims b) (bk_claims b') \<and>
     prefix (bk_reviews b) (bk_reviews b') \<and> prefix (bk_payments b) (bk_payments b') \<and>
     prefix (bk_transactions b) (bk_transactions b') \<and> prefix (bk_attachments b) (bk_attachments b') \<and>
     prefix (bk_links b) (bk_links b') \<and> bk_store b \<subseteq>\<^sub>m bk_store b'"

lemma books_grow_refl [simp]: "books_grow b b"
  by (simp add: books_grow_def rows_follow_refl)

lemma books_grow_trans: "books_grow a b \<Longrightarrow> books_grow b c \<Longrightarrow> books_grow a c"
  unfolding books_grow_def by (intro conjI; elim conjE)
    (erule (1) rows_follow_trans [rotated], simp | erule (1) prefix_order.order_trans | erule (1) map_le_trans)+

lemma attached_grows: "attached cfg w cid as ls s s' \<Longrightarrow> s \<subseteq>\<^sub>m s'"
  by (auto simp: attached_def objects_added_def map_le_def restrict_map_def split: if_splits)

lemma saved_follows:
  "rows_follow (\<lambda>c c'. claim_terms c' = claim_terms c) cs (status_saved cid st t cs)"
  unfolding status_saved_def
  by (rule rows_follow_update [where bs = "[]", simplified]) simp_all

lemma rows_follow_append: "(\<And>a. R a a) \<Longrightarrow> rows_follow R as (as @ bs)"
  by (simp add: rows_follow_def list_all2_refl)

lemma books_grow_step: "books_step cfg w b b' \<Longrightarrow> books_grow b b'"
  by (induction rule: books_step.induct)
    (simp_all add: books_grow_def rows_follow_refl rows_follow_append saved_follows attached_grows)

text \<open>The store holds exactly the objects of the recorded attachments, each as recorded, and each
  attachment hangs on one claim.\<close>

definition evidence_inv :: "finance_config \<Rightarrow> books \<Rightarrow> bool" where
  "evidence_inv cfg b \<longleftrightarrow> dom (bk_store b) = att_object_key ` set (bk_attachments b) \<and>
     distinct (map att_object_key (bk_attachments b)) \<and>
     (\<forall>a \<in> set (bk_attachments b). object_ok cfg (bk_store b) a) \<and>
     map cl_attachment (bk_links b) = map att_attachment_id (bk_attachments b) \<and>
     (\<forall>l \<in> set (bk_links b). cl_claim l \<in> ec_claim_id ` set (bk_claims b))"

lemma evidence_attached:
  assumes "evidence_inv cfg b" "attached cfg w cid as ls (bk_store b) s'" "cid \<in> ec_claim_id ` set cs"
    "ec_claim_id ` set (bk_claims b) \<subseteq> ec_claim_id ` set cs"
    and b': "bk_claims b' = cs" "bk_attachments b' = bk_attachments b @ as" "bk_links b' = bk_links b @ ls" "bk_store b' = s'"
  shows "evidence_inv cfg b'"
proof -
  let ?ks = "att_object_key ` set as"
  have a: "s' |` (- ?ks) = bk_store b" "\<forall>a \<in> set as. object_ok cfg s' a" "distinct (map att_object_key as)"
    "map cl_attachment ls = map att_attachment_id as" "\<forall>l \<in> set ls. cl_claim l = cid"
    using assms(2) by (auto simp: attached_def objects_added_def)
  have keys: "?ks \<subseteq> dom s'" using a(2) by (auto simp: object_ok_def split: option.splits)
  have "dom (bk_store b) = dom s' - ?ks" unfolding a(1) [symmetric] by auto
  then have d: "dom s' = dom (bk_store b) \<union> ?ks" "?ks \<inter> dom (bk_store b) = {}" using keys by auto
  have old: "s' k = bk_store b k" if "k \<in> dom (bk_store b)" for k
    using that d(2) unfolding a(1) [symmetric] by (auto simp: restrict_map_def split: if_splits)
  note i = assms(1) [unfolded evidence_inv_def]
  have "object_ok cfg s' x" if "x \<in> set (bk_attachments b)" for x
  proof -
    have "att_object_key x \<in> dom (bk_store b)" using i that by simp
    from old [OF this] show ?thesis using i that by (simp add: object_ok_def)
  qed
  then show ?thesis using i a d assms(3,4) unfolding evidence_inv_def b' by auto
qed

lemma evidence_step:
  assumes "books_step cfg w b b'" "books_inv b" "evidence_inv cfg b" shows "evidence_inv cfg b'"
proof -
  have id: "ec_claim_id c \<in> ec_claim_id ` set (bk_claims b)" if "c \<in> set (bk_copies b)" for c
    using assms(2) that claim_terms_eqD(1) unfolding books_inv_def known_claim_def by (metis UnI2 image_iff)
  have saved: "ec_claim_id ` set (status_saved cid st t cs) = ec_claim_id ` set cs" for cid st t cs
    by (metis saved_ids set_map)
  show ?thesis using assms(1)
  proof cases
    case (Opening m c as ls s')
    then show ?thesis by (intro evidence_attached [OF assms(3) Opening(3)]) auto
  next
    case (Paying c m t p as ls s' moment)
    show ?thesis by (rule evidence_attached [OF assms(3) Paying(9)]) (use Paying(3) in \<open>simp_all add: Paying(1) saved\<close>)
  next
    case (Attaching c as ls s')
    show ?thesis by (rule evidence_attached [OF assms(3) Attaching(3) id [OF Attaching(2)]]) (simp_all add: Attaching(1))
  qed (use assms(3) saved in \<open>simp_all add: evidence_inv_def\<close>)
qed

definition desk_inv :: "finance_config \<Rightarrow> 'a desk \<Rightarrow> bool" where
  "desk_inv cfg d \<longleftrightarrow> storage_laws (cf_storage cfg) \<and> books_inv (books_of d) \<and> evidence_inv cfg (books_of d)"

lemma finance_service_inv: "desk_inv cfg d \<Longrightarrow> desk_inv cfg (finance_service env cfg w call d)"
  using service_refines [of cfg w d env call] books_inv_step evidence_step
  unfolding desk_inv_def books_move_def by metis

lemma finance_service_grow: "desk_inv cfg d \<Longrightarrow> books_grow (books_of d) (books_of (finance_service env cfg w call d))"
  using service_refines [of cfg w d env call] books_grow_step books_grow_refl
  unfolding desk_inv_def books_move_def by metis

interpretation finance: guarded_service "finance_step env cfg w" "desk_inv cfg" "\<lambda>d d'. books_grow (books_of d) (books_of d')"
  for env cfg w
  by unfold_locales (auto simp: finance_step_def intro: finance_service_inv finance_service_grow books_grow_trans)

subsection \<open>Requests one after the other\<close>

text \<open>A request that loads its claim itself acts on the stored row.\<close>

definition serial_step ::
    "env \<Rightarrow> finance_config \<Rightarrow> string \<Rightarrow> time \<times> ('a finance_db_scheme) finance_op \<Rightarrow> 'a desk \<Rightarrow> (unit \<times> 'a desk) result" where
  "serial_step env cfg w x d = finance_step env cfg w x (d\<lparr>desk_copies := expense_claims (desk_db d)\<rparr>)"

inductive claim_step :: "claim_status \<Rightarrow> claim_status \<Rightarrow> bool" where
  "s \<in> {ClaimSubmitted, ClaimUnderReview} \<Longrightarrow> claim_step s (reviewed_status d)"
| "s \<in> {ClaimSubmitted, ClaimUnderReview} \<Longrightarrow> claim_step s ClaimWithdrawn"
| "claim_step ClaimApproved ClaimPaid"

inductive_cases claim_stepE: "claim_step s s'"

definition decisions_on :: "string \<Rightarrow> finance_review list \<Rightarrow> finance_decision list" where
  "decisions_on cid rs = map fr_decision (filter (\<lambda>r. fr_claim r = cid) rs)"

definition paid_in :: "string \<Rightarrow> payment_execution list \<Rightarrow> bool" where
  "paid_in cid ps \<longleftrightarrow> cid \<in> px_claim ` set ps"

fun status_explained :: "claim_status \<Rightarrow> finance_decision list \<Rightarrow> bool \<Rightarrow> bool" where
  "status_explained ClaimApproved ds paid = (ds = [FinanceApproved] \<and> \<not> paid)"
| "status_explained ClaimPaid ds paid = (ds = [FinanceApproved] \<and> paid)"
| "status_explained ClaimRejected ds paid = (ds = [FinanceRejected] \<and> \<not> paid)"
| "status_explained s ds paid = (ds = [] \<and> \<not> paid)"

definition claim_explained :: "books \<Rightarrow> expense_claim \<Rightarrow> bool" where
  "claim_explained b c \<longleftrightarrow>
     status_explained (ec_status c) (decisions_on (ec_claim_id c) (bk_reviews b)) (paid_in (ec_claim_id c) (bk_payments b))"

definition serial_inv :: "books \<Rightarrow> bool" where
  "serial_inv b \<longleftrightarrow> distinct (map ec_claim_id (bk_claims b)) \<and> fr_claim ` set (bk_reviews b) \<subseteq> ec_claim_id ` set (bk_claims b) \<and>
     px_claim ` set (bk_payments b) \<subseteq> ec_claim_id ` set (bk_claims b) \<and> (\<forall>c \<in> set (bk_claims b). claim_explained b c)"

definition claim_moves :: "expense_claim \<Rightarrow> expense_claim \<Rightarrow> bool" where
  "claim_moves c c' \<longleftrightarrow> claim_terms c' = claim_terms c \<and> claim_step\<^sup>*\<^sup>* (ec_status c) (ec_status c')"

definition serial_grow :: "books \<Rightarrow> books \<Rightarrow> bool" where
  "serial_grow b b' \<longleftrightarrow> rows_follow claim_moves (bk_claims b) (bk_claims b')"

lemma claim_moves_refl [simp]: "claim_moves c c"
  by (simp add: claim_moves_def)

lemma serial_grow_refl [simp]: "serial_grow b b"
  by (simp add: serial_grow_def rows_follow_refl)

lemma serial_grow_trans: "serial_grow a b \<Longrightarrow> serial_grow b c \<Longrightarrow> serial_grow a c"
  unfolding serial_grow_def by (erule (1) rows_follow_trans [rotated]) (auto simp: claim_moves_def)

lemma serial_save:
  assumes inv: "serial_inv b" and c: "c \<in> set (bk_claims b)"
    and new: "\<forall>r \<in> set rs. fr_claim r = ec_claim_id c" "\<forall>p \<in> set ps. px_claim p = ec_claim_id c"
    and b': "bk_claims b' = status_saved (ec_claim_id c) st t (bk_claims b)" "bk_reviews b' = bk_reviews b @ rs"
      "bk_payments b' = bk_payments b @ ps"
    and ok: "claim_step (ec_status c) st" "status_explained st (decisions_on (ec_claim_id c) (bk_reviews b @ rs))
      (paid_in (ec_claim_id c) (bk_payments b @ ps))"
  shows "serial_inv b' \<and> serial_grow b b'"
proof -
  note i = inv [unfolded serial_inv_def]
  have same: "x = c" if "x \<in> set (bk_claims b)" "ec_claim_id x = ec_claim_id c" for x
    using distinct_map_unique [of ec_claim_id "bk_claims b" x c] that c i by simp
  have "claim_explained b' x" if x: "x \<in> set (bk_claims b')" for x
  proof -
    from x obtain y where y: "y \<in> set (bk_claims b)"
      "x = (if ec_claim_id y = ec_claim_id c then set_claim_status st t y else y)"
      by (auto simp: b' status_saved_def set_update_rows)
    show ?thesis
    proof (cases "ec_claim_id y = ec_claim_id c")
      case True
      then show ?thesis using y(2) ok(2) by (simp add: claim_explained_def b' set_claim_status_def)
    next
      case False
      then have "decisions_on (ec_claim_id y) (bk_reviews b @ rs) = decisions_on (ec_claim_id y) (bk_reviews b)"
        "paid_in (ec_claim_id y) (bk_payments b @ ps) = paid_in (ec_claim_id y) (bk_payments b)"
        using new by (auto simp: decisions_on_def paid_in_def filter_empty_conv)
      then show ?thesis using y i False by (simp add: claim_explained_def b')
    qed
  qed
  moreover have ids: "map ec_claim_id (bk_claims b') = map ec_claim_id (bk_claims b)" by (simp add: b')
  then have "ec_claim_id ` set (bk_claims b') = ec_claim_id ` set (bk_claims b)" by (metis set_map)
  moreover have "serial_grow b b'" unfolding serial_grow_def b'(1) status_saved_def
    by (rule rows_follow_update [where bs = "[]", simplified], simp)
      (use same ok(1) in \<open>auto simp: claim_moves_def set_claim_status_def claim_terms_def\<close>)
  ultimately show ?thesis using i ids new c unfolding serial_inv_def by (auto simp: b'(2,3))
qed

lemma serial_books_step:
  assumes "books_step cfg w (b\<lparr>bk_copies := bk_claims b\<rparr>) b'" "serial_inv b"
  shows "serial_inv b' \<and> serial_grow b b'"
  using assms(1)
proof cases
  case (Loading c)
  then show ?thesis using assms(2) by (simp add: serial_inv_def serial_grow_def rows_follow_refl claim_explained_def)
next
  case (Opening m c as ls s')
  then have c: "ec_claim_id c \<notin> ec_claim_id ` set (bk_claims b)" "ec_status c = ClaimSubmitted" by (simp_all add: fresh_claim_def)
  then have "ec_claim_id c \<notin> fr_claim ` set (bk_reviews b)" "ec_claim_id c \<notin> px_claim ` set (bk_payments b)"
    using assms(2) unfolding serial_inv_def by blast+
  then have "decisions_on (ec_claim_id c) (bk_reviews b) = []" "\<not> paid_in (ec_claim_id c) (bk_payments b)"
    by (force simp: decisions_on_def filter_empty_conv, simp add: paid_in_def)
  then show ?thesis
    using assms(2) c Opening(1) by (auto simp: serial_inv_def serial_grow_def rows_follow_append claim_explained_def)
next
  case (Reviewing c r t)
  then have c: "c \<in> set (bk_claims b)" by simp
  with assms(2) have "claim_explained b c" by (simp add: serial_inv_def)
  then have "decisions_on (ec_claim_id c) (bk_reviews b) = []" "\<not> paid_in (ec_claim_id c) (bk_payments b)"
    using Reviewing(4) by (auto simp: claim_explained_def)
  then have e: "status_explained (reviewed_status (fr_decision r)) (decisions_on (ec_claim_id c) (bk_reviews b @ [r]))
      (paid_in (ec_claim_id c) (bk_payments b @ []))"
    using Reviewing(5) by (cases "fr_decision r") (simp_all add: decisions_on_def reviewed_status_def)
  show ?thesis
    by (rule serial_save [OF assms(2) c, where rs = "[r]" and ps = "[]" and st = "reviewed_status (fr_decision r)" and t = t])
      (use Reviewing e in \<open>simp_all add: claim_step.intros\<close>)
next
  case (Paying c m t p as ls s' moment)
  then have c: "c \<in> set (bk_claims b)" by simp
  with assms(2) have "claim_explained b c" by (simp add: serial_inv_def)
  then have e: "status_explained ClaimPaid (decisions_on (ec_claim_id c) (bk_reviews b @ []))
      (paid_in (ec_claim_id c) (bk_payments b @ [p]))"
    using Paying(4,5) by (simp add: claim_explained_def pays_claim_def paid_in_def)
  show ?thesis
    by (rule serial_save [OF assms(2) c, where rs = "[]" and ps = "[p]" and st = ClaimPaid and t = moment])
      (use Paying e in \<open>simp_all add: claim_step.intros pays_claim_def\<close>)
next
  case (Withdrawing c t)
  then have c: "c \<in> set (bk_claims b)" by simp
  with assms(2) have "claim_explained b c" by (simp add: serial_inv_def)
  then have e: "status_explained ClaimWithdrawn (decisions_on (ec_claim_id c) (bk_reviews b @ []))
      (paid_in (ec_claim_id c) (bk_payments b @ []))"
    using Withdrawing(4) by (auto simp: claim_explained_def)
  show ?thesis
    by (rule serial_save [OF assms(2) c, where rs = "[]" and ps = "[]" and st = ClaimWithdrawn and t = t])
      (use Withdrawing e in \<open>simp_all add: claim_step.intros\<close>)
next
  case (Attaching c as ls s')
  then show ?thesis using assms(2) by (simp add: serial_inv_def serial_grow_def rows_follow_refl claim_explained_def)
qed

lemma serial_service:
  assumes "desk_inv cfg d" "serial_inv (books_of d)" "serial_step env cfg w x d = Inr (u, d')"
  shows "desk_inv cfg d' \<and> serial_inv (books_of d') \<and> serial_grow (books_of d) (books_of d')"
proof -
  let ?d = "d\<lparr>desk_copies := expense_claims (desk_db d)\<rparr>"
  have b: "books_of ?d = (books_of d)\<lparr>bk_copies := bk_claims (books_of d)\<rparr>" by (simp add: books_of_def Let_def)
  have inv: "desk_inv cfg ?d" using assms(1) by (simp add: desk_inv_def b books_inv_def evidence_inv_def)
  have d': "d' = finance_service (env\<lparr>now := fst x\<rparr>) cfg w (snd x) ?d"
    using assms(3) by (simp add: serial_step_def finance_step_def)
  have "books_move cfg w (books_of ?d) (books_of d')"
    unfolding d' by (rule service_refines) (use assms(1) in \<open>simp add: desk_inv_def\<close>)
  then show ?thesis
  proof (unfold books_move_def, elim disjE)
    assume e: "books_of d' = books_of ?d"
    have "serial_inv (books_of d') = serial_inv (books_of d)" "serial_grow (books_of d) (books_of d')"
      unfolding e b by (simp_all add: serial_inv_def claim_explained_def serial_grow_def rows_follow_refl)
    then show ?thesis using assms(2) finance_service_inv [OF inv] d' by simp
  next
    assume "books_step cfg w (books_of ?d) (books_of d')"
    from serial_books_step [OF this [unfolded b] assms(2)] show ?thesis using finance_service_inv [OF inv] d' by simp
  qed
qed

interpretation serial_finance: guarded_service "serial_step env cfg w"
    "\<lambda>d. desk_inv cfg d \<and> serial_inv (books_of d)" "\<lambda>d d'. serial_grow (books_of d) (books_of d')"
  for env cfg w
proof
  fix d d' d'' :: "'a desk" and x u
  show "desk_inv cfg d' \<and> serial_inv (books_of d')" "serial_grow (books_of d) (books_of d')"
    if "desk_inv cfg d \<and> serial_inv (books_of d)" "serial_step env cfg w x d = Inr (u, d')"
    using serial_service [OF conjunct1 [OF that(1)] conjunct2 [OF that(1)] that(2)] by simp_all
  show "serial_grow (books_of d) (books_of d)" by simp
  show "serial_grow (books_of d) (books_of d'')"
    if "serial_grow (books_of d) (books_of d')" "serial_grow (books_of d') (books_of d'')"
    using serial_grow_trans that .
qed

end
