(* ===== verification/Reimbursements.thy ===== *)
theory Reimbursements
  imports Finance_History
begin

text \<open>
  The properties of reimbursements, over the histories of \<open>Finance_History\<close>: what is paid, how a
  claim moves, which evidence is kept, and what a stale copy of a claim can do.
\<close>

subsection \<open>The payments of a claim\<close>

definition payments_for :: "string \<Rightarrow> 'a finance_db_scheme \<Rightarrow> payment_execution list" where
  "payments_for cid db = filter (\<lambda>p. px_claim p = cid) (payment_executions db)"

definition transactions_for :: "string \<Rightarrow> 'a finance_db_scheme \<Rightarrow> finance_transaction list" where
  "transactions_for cid db = filter (\<lambda>t. ft_claim t = Some cid) (finance_transactions db)"

lemma paired_filters:
  assumes "list_all2 R ts ps" "\<And>t p. R t p \<Longrightarrow> P t = Q p" shows "list_all2 R (filter P ts) (filter Q ps)"
  using assms by (induction rule: list_all2_induct) auto

lemma distinct_filter_key: "distinct (map k xs) \<Longrightarrow> length (filter (\<lambda>x. k x = v) xs) \<le> 1"
proof (induction xs)
  case (Cons x xs)
  then show ?case by (cases "k x = v") (auto simp: filter_empty_conv image_iff)
qed simp

lemma payments_unique:
  assumes inv: "books_inv (books_of d)" and c: "c \<in> set (expense_claims (desk_db d))"
  shows "payments_for (ec_claim_id c) (desk_db d) = [] \<and> transactions_for (ec_claim_id c) (desk_db d) = [] \<or>
    (\<exists>p t m. payments_for (ec_claim_id c) (desk_db d) = [p] \<and> transactions_for (ec_claim_id c) (desk_db d) = [t] \<and>
       pays_claim c m t p \<and> m_id m \<noteq> ec_claimant c \<and> backed (finance_reviews (desk_db d)) c)"
proof -
  let ?db = "desk_db d" and ?id = "ec_claim_id c"
  note i = inv [unfolded books_inv_def books_of_def Let_def, simplified]
  have "list_all2 (payment_of (expense_claims ?db) (finance_reviews ?db)) (transactions_for ?id ?db) (payments_for ?id ?db)"
    unfolding transactions_for_def payments_for_def
    by (rule paired_filters) (use i in \<open>auto simp: payment_of_def pays_claim_def\<close>)
  moreover have "length (payments_for ?id ?db) \<le> 1" unfolding payments_for_def by (rule distinct_filter_key) (use i in simp)
  ultimately consider "payments_for ?id ?db = []" "transactions_for ?id ?db = []"
    | p t where "payments_for ?id ?db = [p]" "transactions_for ?id ?db = [t]"
        "payment_of (expense_claims ?db) (finance_reviews ?db) t p"
    by (cases "payments_for ?id ?db"; cases "transactions_for ?id ?db") auto
  then show ?thesis
  proof cases
    case (2 p t)
    then obtain c' m where c': "c' \<in> set (expense_claims ?db)" "pays_claim c' m t p" "m_id m \<noteq> ec_claimant c'"
      "backed (finance_reviews ?db) c'" by (auto simp: payment_of_def)
    have "p \<in> set (payments_for ?id ?db)" using 2 by simp
    then have "ec_claim_id c' = ?id" using c'(2) by (simp add: payments_for_def pays_claim_def)
    then have "c' = c" using distinct_map_unique [of ec_claim_id "expense_claims ?db" c' c] i c c'(1) by simp
    then show ?thesis using 2 c' by blast
  qed simp
qed

subsection \<open>Calls that succeed\<close>

lemma public_ref_tag:
  assumes "py_strip tag = tag" "nonblank (replace_spaces tag)" shows "nonblank (public_ref (tag # parts))"
proof -
  have "tag \<noteq> []" using assms(2) by (auto simp: replace_spaces_def)
  moreover have "nonblank s \<Longrightarrow> nonblank (join_colon (s # ss))" for s ss by (cases ss) simp_all
  ultimately show ?thesis using assms by (auto simp: public_ref_def Let_def is_space_def)
qed

lemma publishing_succeeds:
  assumes "chain_ok env db" "\<not> sha_collision env" "event_id \<notin> ev_event_id ` set (stream_events db)"
    and "validate_public_ledger_payload p = Inr ()"
    and "p = public_event_payload sty ref label action stage psum pfacts cs"
  shows "\<exists>db'. and_then (write_public_event env event_id title summary facts db) (\<lambda>db1.
      and_then (append_event env ty aty aid ac asg p None db1) (\<lambda>(e, db2). Inr (x, db2))) = Inr (x, db') \<and>
    ev_event_id ` set (stream_events db') = insert event_id (ev_event_id ` set (stream_events db))"
proof -
  let ?ev = "public_event_row env event_id title summary facts"
  have ev: "ev_event_id ?ev = event_id" "ev_simulation_day ?ev = 1" by (simp_all add: public_event_row_def)
  have w: "write_public_event env event_id title summary facts db = Inr (db\<lparr>stream_events := stream_events db @ [?ev]\<rparr>)"
    using assms(3) by (auto simp: write_public_event_def insert_stream_event_def ev image_iff)
  let ?db1 = "db\<lparr>stream_events := stream_events db @ [?ev]\<rparr>"
  have "chain_ok env ?db1" using assms(1) chain_ok_cong [of ?db1 db env] by simp
  from append_succeeds [OF this assms(2,4,5), of ty aty aid ac asg None] show ?thesis by (simp add: w ev Let_def)
qed

lemma review_payload_valid: "validate_public_ledger_payload (finance_review_payload r c m) = Inr ()"
  unfolding finance_review_payload_def
  by (rule public_event_payload_valid)
    (cases "fr_decision r", simp_all add: is_space_def finance_review_facts_def PUBLIC_LEDGER_DENYLIST_KEYS_def public_ref_tag
      py_strip_def replace_spaces_def)+

lemma transaction_payload_valid:
  "nonblank (ft_summary t) \<Longrightarrow> validate_public_ledger_payload (finance_transaction_payload t mo) = Inr ()"
  unfolding finance_transaction_payload_def
  by (rule public_event_payload_valid)
    (cases "ft_transaction_type t", simp_all add: is_space_def finance_transaction_facts_def PUBLIC_LEDGER_DENYLIST_KEYS_def public_ref_tag
      py_strip_def replace_spaces_def)+

definition announced :: "string \<Rightarrow> 'a task_db_scheme \<Rightarrow> 'a task_db_scheme \<Rightarrow> bool" where
  "announced i db db' \<longleftrightarrow> ev_event_id ` set (stream_events db') = insert i (ev_event_id ` set (stream_events db))"

lemma review_succeeds:
  assumes "is_finance_reviewer env f m db = Inr True" "m_id m \<noteq> ec_claimant c" "ec_status c \<in> {ClaimSubmitted, ClaimUnderReview}"
    and "parse_finance_decision decision = Some d" "\<not> (d = FinanceRejected \<and> py_strip reason = [])"
    and "ec_claim_id c \<in> ec_claim_id ` set (expense_claims db)"
    and "new_id ''finance-review'' uid \<notin> fr_review_id ` set (finance_reviews db)" "chain_ok env db" "\<not> sha_collision env"
    and "''expense-claim-reviewed-'' @ ec_claim_id c @ ''-'' @ event_suffix (new_id ''finance-review'' uid) \<notin> ev_event_id ` set (stream_events db)"
  shows "\<exists>r db'. review_expense_claim env f uid c m decision reason db = Inr (r, db') \<and> fr_decision r = d \<and>
    announced (''expense-claim-reviewed-'' @ ec_claim_id c @ ''-'' @ event_suffix (new_id ''finance-review'' uid)) db db'"
proof -
  define r where "r = \<lparr>fr_review_id = new_id ''finance-review'' uid, fr_claim = ec_claim_id c, fr_reviewer = m_id m,
                          fr_decision = d, fr_reason = reason, fr_reviewed_at = now env\<rparr>"
  define c' where "c' = set_claim_status (reviewed_status d) (now env) c"
  have id: "ec_claim_id c' = ec_claim_id c" by (simp add: c'_def set_claim_status_def)
  define db2 where "db2 = db\<lparr>expense_claims := status_saved (ec_claim_id c) (reviewed_status d) (now env) (expense_claims db),
    finance_reviews := finance_reviews db @ [r]\<rparr>"
  have 2: "review_expense_claim env f uid c m decision reason db = announce_review env r c' m db2"
    using assms(1-7) unfolding review_expense_claim_def
    by (auto simp: Let_def r_def c'_def db2_def save_claim_status_def status_saved_def insert_review_def image_iff)
  have "chain_ok env db2" using assms(8) chain_ok_cong [of db2 db env] by (simp add: db2_def)
  moreover have e: "stream_events db2 = stream_events db" by (simp add: db2_def)
  moreover have i: "fr_review_id r = new_id ''finance-review'' uid" "fr_decision r = d" by (simp_all add: r_def)
  ultimately have "\<exists>db'. announce_review env r c' m db2 = Inr (r, db') \<and> announced (''expense-claim-reviewed-'' @ ec_claim_id c @ ''-'' @
      event_suffix (new_id ''finance-review'' uid)) db2 db'"
    unfolding announce_review_def id announced_def i
    by (intro publishing_succeeds [OF _ assms(9) _ review_payload_valid finance_review_payload_def]) (use assms(10) in simp_all)
  then show ?thesis by (auto simp: 2 i announced_def e)
qed

lemma pay_succeeds:
  assumes "is_finance_payer env f m db = Inr True" "m_id m \<noteq> ec_claimant c" "ec_status c = ClaimApproved"
    and "get_payment_backend (cf_backend_setting cfg) = Inr live_os_manual_backend" "py_strip method \<noteq> []"
    and "ec_claim_id c \<in> ec_claim_id ` set (expense_claims db)" "ec_claim_id c \<notin> px_claim ` set (payment_executions db)"
    and "new_id ''finance-tx'' uid \<notin> ft_transaction_id ` set (finance_transactions db)"
      "Some (new_id ''finance-tx'' uid) \<notin> px_finance_transaction ` set (payment_executions db)"
      "new_id ''payment-execution'' uid \<notin> px_execution_id ` set (payment_executions db)"
    and "chain_ok env db" "\<not> sha_collision env"
    and "''expense-claim-paid-'' @ ec_claim_id c @ ''-'' @ event_suffix (new_id ''finance-tx'' uid) \<notin> ev_event_id ` set (stream_events db)"
  shows "\<exists>t db'. mark_expense_claim_paid env f cfg w uid draw c m (Some (DateValue day)) method note_text False None db s = (Inr (t, db'), s) \<and>
    announced (''expense-claim-paid-'' @ ec_claim_id c @ ''-'' @ event_suffix (new_id ''finance-tx'' uid)) db db'"
proof -
  let ?b = live_os_manual_backend
  obtain res where cl: "clear_payment env f cfg c m (Some (DateValue day)) method db = Inr (day, ?b, res)"
    using assms(1-5) by (auto simp: clear_payment_def normalise_expense_date_def live_os_manual_backend_def)
  have n: "px_claim x \<noteq> ec_claim_id c" "px_execution_id x \<noteq> new_id ''payment-execution'' uid"
      "px_finance_transaction x \<noteq> Some (new_id ''finance-tx'' uid)" if "x \<in> set (payment_executions db)" for x
    using that assms(7,9,10) by force+
  have n': "ft_transaction_id x \<noteq> new_id ''finance-tx'' uid" if "x \<in> set (finance_transactions db)" for x
    using that assms(8) by force
  obtain t p where rc: "record_payment env uid c m day ?b res method note_text db =
      Inr (t, p, db\<lparr>finance_transactions := finance_transactions db @ [t], payment_executions := payment_executions db @ [p]\<rparr>)"
    "ft_transaction_id t = new_id ''finance-tx'' uid" "nonblank (ft_summary t)"
    using n n' by (auto simp: record_payment_def Let_def insert_finance_transaction_def insert_payment_execution_def is_space_def)
  define db1 where "db1 = db\<lparr>finance_transactions := finance_transactions db @ [t], payment_executions := payment_executions db @ [p]\<rparr>"
  define db2 where "db2 = db1\<lparr>expense_claims := status_saved (ec_claim_id c) ClaimPaid (now env) (expense_claims db)\<rparr>"
  have 1: "mark_expense_claim_paid env f cfg w uid draw c m (Some (DateValue day)) method note_text False None db s =
      commit_or_cleanup (cf_storage cfg) w [] (announce_payment env c t m db1) s"
    by (simp add: mark_expense_claim_paid_def cl rc(1) db1_def take_evidence_def)
  have sv: "save_claim_status (ec_claim_id c) ClaimPaid (now env) db1 = Inr db2"
    using assms(6) by (auto simp: save_claim_status_def status_saved_def db2_def db1_def image_iff)
  have "chain_ok env db2" using assms(11) chain_ok_cong [of db2 db env] by (simp add: db2_def db1_def)
  moreover have e: "stream_events db2 = stream_events db" by (simp add: db2_def db1_def)
  ultimately have "\<exists>db'. announce_payment env c t m db1 = Inr (t, db') \<and>
      announced (''expense-claim-paid-'' @ ec_claim_id c @ ''-'' @ event_suffix (new_id ''finance-tx'' uid)) db2 db'"
    unfolding announce_payment_def sv and_then.simps announced_def rc(2)
    by (intro publishing_succeeds [OF _ assms(12) _ transaction_payload_valid finance_transaction_payload_def])
      (use assms(13) rc(3) in simp_all)
  then obtain db' where "announce_payment env c t m db1 = Inr (t, db')"
    "announced (''expense-claim-paid-'' @ ec_claim_id c @ ''-'' @ event_suffix (new_id ''finance-tx'' uid)) db db'"
    by (auto simp: announced_def e)
  then show ?thesis unfolding 1 by (auto simp: commit_or_cleanup_def)
qed

lemma withdraw_succeeds:
  assumes "m_id m = ec_claimant c" "ec_status c \<in> {ClaimSubmitted, ClaimUnderReview}"
    "ec_claim_id c \<in> ec_claim_id ` set (expense_claims db)"
    "''expense-claim-withdrawn-'' @ ec_claim_id c \<notin> ev_event_id ` set (stream_events db)"
  shows "\<exists>c' db'. withdraw_expense_claim env c m db = Inr (c', db')"
  using assms by (auto simp: withdraw_expense_claim_def Let_def save_claim_status_def write_public_event_def insert_stream_event_def
      public_event_row_def image_iff)

subsection \<open>An example\<close>

text \<open>A storage that refuses a taken name, and files whose digest is their text.\<close>

definition example_storage :: storage where
  "example_storage = \<lparr>st_save = (\<lambda>k c s. if s k = None then (Inr k, s(k \<mapsto> c)) else (Inl (LibraryError ''FileExistsError''), s)),
     st_delete = (\<lambda>k s. s(k := None))\<rparr>"

lemma example_storage_laws: "storage_laws example_storage"
  by (simp add: storage_laws_def example_storage_def)

definition example_finance_config :: finance_config where
  "example_finance_config = \<lparr>
     cf_limits = \<lparr>lim_max_upload_bytes = 10, lim_max_files = 2, lim_max_total_bytes = 20, lim_max_edge_pixels = 10, lim_max_total_pixels = 100\<rparr>,
     cf_files = \<lparr>lib_identify = (\<lambda>c. Inr ''csv''), lib_image_size = (\<lambda>c. Inr (1, 1)), lib_image_load = (\<lambda>c. Inr ()),
       lib_csv_reads = (\<lambda>c. True), lib_sha256 = (\<lambda>c. c)\<rparr>,
     cf_storage = example_storage, cf_parse_date = (\<lambda>s. Inr None), cf_today = (2025, 1, 1), cf_backend_setting = ''liveos_manual''\<rparr>"

text \<open>Member 2 claims 12.50 with one file of evidence, member 3 reviews, member 1 may pay.\<close>

definition example_claim :: expense_claim where
  "example_claim = \<lparr>ec_claim_id = ''expense-claim-1'', ec_claimant = 2, ec_title = ''server'', ec_description = [], ec_amount = 1250,
     ec_currency = ''CNY'', ec_expense_date = (2025, 1, 1), ec_vendor = [], ec_category = CatServer, ec_status = ClaimSubmitted,
     ec_public_note = [], ec_created_at = 0, ec_updated_at = 0\<rparr>"

definition example_evidence :: attachment where
  "example_evidence = \<lparr>att_attachment_id = ''attachment-1'', att_object_key = ''w/runtime/permanent-attachments/1'',
     att_detected_media_type = ''text/csv'', att_display_filename = ''bill.csv'', att_byte_size = 3, att_sha256 = ''a,b'',
     att_uploaded_by = 2, att_audience = AudiencePrivate, att_lifecycle = LifecycleSealed, att_source_attachment = None,
     att_supersedes = None, att_created_at = 0\<rparr>"

definition example_payers :: proposal_db where
  "example_payers = example_proposals\<lparr>role_permissions := role_permissions example_proposals @
     [\<lparr>rp_role = 2, rp_permission = ''finance.pay'', rp_scope = ''global'', rp_constraints_json = JObj []\<rparr>]\<rparr>"

definition example_finance :: finance_db where
  "example_finance = proposal_db.extend example_payers (finance_db.fields [example_claim] [] [] [] [example_evidence]
     [\<lparr>cl_claim = ''expense-claim-1'', cl_attachment = ''attachment-1'', cl_purpose = ExpenseEvidence,
       cl_payment_execution = None, cl_created_at = 0\<rparr>])"

definition example_desk :: "unit desk" where
  "example_desk = \<lparr>desk_db = example_finance, desk_store = [''w/runtime/permanent-attachments/1'' \<mapsto> ''a,b''], desk_copies = []\<rparr>"

lemmas example_finance_defs = example_finance_def example_payers_def example_proposals_def example_credentials_def
  example_org_defs credential_db.defs proposal_db.defs finance_db.defs

lemma example_finance_tables [simp]:
  "expense_claims example_finance = [example_claim]" "finance_reviews example_finance = []"
  "payment_executions example_finance = []" "finance_transactions example_finance = []"
  "attachments example_finance = [example_evidence]" "system_events example_finance = []" "stream_events example_finance = []"
  by (simp_all add: example_finance_defs)

lemma example_finance_roles:
  "is_finance_reviewer (plain_env\<lparr>now := 2\<rparr>) legacy_fga (example_member 3 ''M3'') example_finance = Inr True"
  "is_finance_payer (plain_env\<lparr>now := 4\<rparr>) legacy_fga (example_member 1 ''M1'') example_finance = Inr True"
  by (simp_all add: is_finance_payer_def is_finance_reviewer_def authority_defs example_finance_defs catalog_defs)

lemma example_desk_ok: "desk_inv example_finance_config example_desk" "serial_inv (books_of example_desk)"
proof -
  have c: "ec_status example_claim = ClaimSubmitted" "ec_amount example_claim = 1250" "ec_claim_id example_claim = ''expense-claim-1''"
    by (simp_all add: example_claim_def)
  show "serial_inv (books_of example_desk)"
    by (simp add: serial_inv_def books_of_def example_desk_def claim_explained_def c decisions_on_def paid_in_def)
  have "books_inv (books_of example_desk)"
    by (simp add: books_inv_def books_of_def example_desk_def known_claim_def c)
  moreover have "evidence_inv example_finance_config (books_of example_desk)"
    by (simp add: evidence_inv_def books_of_def example_desk_def example_evidence_def object_ok_def example_finance_config_def c)
      (simp add: example_finance_defs)
  ultimately show "desk_inv example_finance_config example_desk"
    by (simp add: desk_inv_def example_finance_config_def example_storage_laws)
qed

definition example_approved :: expense_claim where
  "example_approved = set_claim_status ClaimApproved 2 example_claim"

lemma example_claim_simps [simp]:
  "ec_claim_id example_claim = ''expense-claim-1''" "ec_claimant example_claim = 2" "ec_status example_claim = ClaimSubmitted"
  "ec_claim_id example_approved = ''expense-claim-1''" "ec_claimant example_approved = 2" "ec_status example_approved = ClaimApproved"
  by (simp_all add: example_approved_def set_claim_status_def) (simp_all add: example_claim_def)

lemma example_reviewed:
  obtains r db where "review_expense_claim (plain_env\<lparr>now := 2\<rparr>) legacy_fga ''1'' example_claim (example_member 3 ''M3'') ''approved'' []
      example_finance = Inr (r, db)"
    "expense_claims db = [example_approved]" "payment_executions db = []" "finance_transactions db = []"
    "is_finance_payer (plain_env\<lparr>now := 4\<rparr>) legacy_fga (example_member 1 ''M1'') db = Inr True" "chain_ok plain_env db"
    "ev_event_id ` set (stream_events db) = {''expense-claim-reviewed-expense-claim-1-1''}"
proof -
  let ?env = "plain_env\<lparr>now := 2\<rparr>" and ?m = "example_member 3 ''M3''"
  have sfx: "event_suffix (new_id ''finance-review'' ''1'') = ''1''" by (simp add: event_suffix_def new_id_def)
  have "\<exists>r db. review_expense_claim ?env legacy_fga ''1'' example_claim ?m ''approved'' [] example_finance = Inr (r, db) \<and>
      fr_decision r = FinanceApproved \<and> announced (''expense-claim-reviewed-'' @ ec_claim_id example_claim @ ''-'' @
        event_suffix (new_id ''finance-review'' ''1'')) example_finance db"
    by (rule review_succeeds) (simp_all add: example_finance_roles parse_finance_decision_def sha_collision_now)
  then obtain r db where r: "review_expense_claim ?env legacy_fga ''1'' example_claim ?m ''approved'' [] example_finance = Inr (r, db)"
      "fr_decision r = FinanceApproved"
    and a: "ev_event_id ` set (stream_events db) = {''expense-claim-reviewed-expense-claim-1-1''}"
    unfolding announced_def sfx by auto
  note p = review_ok(8) [OF r(1), unfolded published_only_def]
  from p obtain evs es where db: "db = example_finance\<lparr>expense_claims := status_saved ''expense-claim-1'' ClaimApproved 2 [example_claim],
      finance_reviews := [r], stream_events := evs, system_events := es\<rparr>"
    by (auto simp: r(2) reviewed_status_def)
  show thesis
  proof (rule that [OF r(1) _ _ _ _ _ a])
    show "expense_claims db = [example_approved]" "payment_executions db = []" "finance_transactions db = []"
      by (simp_all add: db status_saved_def example_approved_def)
    show "is_finance_payer (plain_env\<lparr>now := 4\<rparr>) legacy_fga (example_member 1 ''M1'') db = Inr True"
      by (simp add: db is_finance_payer_def authority_defs example_finance_defs catalog_defs)
    have "audited ?env example_finance db" using p chain_ok_cong by (auto simp: audited_def)
    then show "chain_ok plain_env db" by (simp add: audited_def)
  qed
qed

lemma published_tables:
  "published_only env db db' \<Longrightarrow> expense_claims db' = expense_claims db \<and> payment_executions db' = payment_executions db"
  by (auto simp: published_only_def)

lemma example_paid:
  assumes "expense_claims db = [example_approved]" "payment_executions db = []" "finance_transactions db = []"
    "is_finance_payer (plain_env\<lparr>now := 4\<rparr>) legacy_fga (example_member 1 ''M1'') db = Inr True" "chain_ok plain_env db"
    "ev_event_id ` set (stream_events db) = {''expense-claim-reviewed-expense-claim-1-1''}"
  obtains t db' where "mark_expense_claim_paid (plain_env\<lparr>now := 4\<rparr>) legacy_fga example_finance_config ''w'' ''2'' draw example_approved
      (example_member 1 ''M1'') (Some (DateValue (2025, 1, 2))) ''cash'' [] False None db s = (Inr (t, db'), s)"
    "expense_claims db' = [set_claim_status ClaimPaid 4 example_approved]" "\<exists>p. payment_executions db' = [p] \<and> px_claim p = ''expense-claim-1''"
    "ev_event_id ` set (stream_events db') = {''expense-claim-paid-expense-claim-1-2'', ''expense-claim-reviewed-expense-claim-1-1''}"
proof -
  let ?env = "plain_env\<lparr>now := 4\<rparr>" and ?m = "example_member 1 ''M1''"
  have sfx: "event_suffix (new_id ''finance-tx'' ''2'') = ''2''" by (simp add: event_suffix_def new_id_def)
  have b: "get_payment_backend (cf_backend_setting example_finance_config) = Inr live_os_manual_backend"
    by (simp add: get_payment_backend_def example_finance_config_def PAYMENT_BACKENDS_def live_os_manual_backend_def
        py_lower_def py_strip_def is_space_def lower_char_def Let_def)
  have "\<exists>t db'. mark_expense_claim_paid ?env legacy_fga example_finance_config ''w'' ''2'' draw example_approved ?m
      (Some (DateValue (2025, 1, 2))) ''cash'' [] False None db s = (Inr (t, db'), s) \<and>
      announced (''expense-claim-paid-'' @ ec_claim_id example_approved @ ''-'' @ event_suffix (new_id ''finance-tx'' ''2'')) db db'"
    by (rule pay_succeeds) (simp_all add: assms b sfx py_strip_def is_space_def)
  then obtain t db' where t: "mark_expense_claim_paid ?env legacy_fga example_finance_config ''w'' ''2'' draw example_approved ?m
      (Some (DateValue (2025, 1, 2))) ''cash'' [] False None db s = (Inr (t, db'), s)"
    and a: "ev_event_id ` set (stream_events db') = {''expense-claim-paid-expense-claim-1-2'', ''expense-claim-reviewed-expense-claim-1-1''}"
    unfolding announced_def sfx using assms(6) by auto
  have "storage_laws (cf_storage example_finance_config)" by (simp add: example_finance_config_def example_storage_laws)
  from pay_ok [OF this t] obtain ctx as p where p: "pays_claim example_approved ?m t p"
    "published_only ?env (add_attachments ?env ctx as (db\<lparr>finance_transactions := finance_transactions db @ [t],
       payment_executions := payment_executions db @ [p],
       expense_claims := status_saved ''expense-claim-1'' ClaimPaid 4 (expense_claims db)\<rparr>)) db'"
    by auto
  from published_tables [OF p(2)] show thesis
    by (intro that [OF t _ _ a])
      (use p(1) assms(1,2) in \<open>simp_all add: add_attachments_def status_saved_def pays_claim_def\<close>)
qed

lemma stale_run:
  fixes draw :: "nat \<Rightarrow> nat \<times> string"
  defines "requests \<equiv> [(1, LoadClaim ''expense-claim-1''),
      (2, ReviewClaim legacy_fga ''1'' 0 (example_member 3 ''M3'') ''approved'' []), (3, LoadClaim ''expense-claim-1''),
      (4, PayClaim legacy_fga ''2'' draw 1 (example_member 1 ''M1'') (Some (DateValue (2025, 1, 2))) ''cash'' [] False None)]"
  obtains d p where "run_ops (finance_step plain_env example_finance_config ''w'') requests example_desk = d"
    "run_ops (finance_step plain_env example_finance_config ''w'') (requests @ [(5, WithdrawClaim 0 (example_member 2 ''M2''))]) example_desk =
       finance_service (plain_env\<lparr>now := 5\<rparr>) example_finance_config ''w'' (WithdrawClaim 0 (example_member 2 ''M2'')) d"
    "expense_claims (desk_db d) = [set_claim_status ClaimPaid 4 example_approved]" "desk_copies d = [example_claim, example_approved]"
    "payment_executions (desk_db d) = [p]" "px_claim p = ''expense-claim-1''"
    "ev_event_id ` set (stream_events (desk_db d)) = {''expense-claim-paid-expense-claim-1-2'', ''expense-claim-reviewed-expense-claim-1-1''}"
proof -
  obtain r db where r: "review_expense_claim (plain_env\<lparr>now := 2\<rparr>) legacy_fga ''1'' example_claim (example_member 3 ''M3'') ''approved'' []
      example_finance = Inr (r, db)" and db: "expense_claims db = [example_approved]" "payment_executions db = []" "finance_transactions db = []"
    "is_finance_payer (plain_env\<lparr>now := 4\<rparr>) legacy_fga (example_member 1 ''M1'') db = Inr True" "chain_ok plain_env db"
    "ev_event_id ` set (stream_events db) = {''expense-claim-reviewed-expense-claim-1-1''}" by (rule example_reviewed)
  obtain t db' where t: "mark_expense_claim_paid (plain_env\<lparr>now := 4\<rparr>) legacy_fga example_finance_config ''w'' ''2'' draw example_approved
      (example_member 1 ''M1'') (Some (DateValue (2025, 1, 2))) ''cash'' [] False None db (desk_store example_desk) =
      (Inr (t, db'), desk_store example_desk)"
    and db': "expense_claims db' = [set_claim_status ClaimPaid 4 example_approved]"
      "\<exists>p. payment_executions db' = [p] \<and> px_claim p = ''expense-claim-1''"
      "ev_event_id ` set (stream_events db') = {''expense-claim-paid-expense-claim-1-2'', ''expense-claim-reviewed-expense-claim-1-1''}"
    by (rule example_paid [OF db])
  let ?d = "\<lparr>desk_db = db', desk_store = desk_store example_desk, desk_copies = [example_claim, example_approved]\<rparr>"
  have "run_ops (finance_step plain_env example_finance_config ''w'') requests example_desk = ?d"
    using r t by (simp add: requests_def finance_step_def example_desk_def with_copy_def db(1) nth_Cons' del: numeral_2_eq_2)
  moreover obtain p where "payment_executions db' = [p]" "px_claim p = ''expense-claim-1''" using db'(2) by blast
  ultimately show thesis using that [of ?d p] db'(1,3) by (simp add: run_ops_append finance_step_def)
qed

lemma paid_in_iff: "paid_in cid (payment_executions db) \<longleftrightarrow> payments_for cid db \<noteq> []"
  by (auto simp: paid_in_def payments_for_def filter_empty_conv)

lemma object_okD:
  "object_ok cfg s a \<Longrightarrow> \<exists>content. s (att_object_key a) = Some content \<and> content \<noteq> [] \<and>
     length content \<le> lim_max_upload_bytes (cf_limits cfg) \<and> att_byte_size a = length content \<and>
     att_sha256 a = lib_sha256 (cf_files cfg) content"
  by (cases "s (att_object_key a)") (simp_all add: object_ok_def)

text \<open>A claim without a title opens, takes its evidence and then fails to be announced.\<close>

lemma blank_title_fails:
  fixes db :: "'a finance_db_scheme"
  assumes "py_strip (ci_title i) = []"
  shows "\<exists>e s'. submit_expense_claim env cfg w uid draw m i required uploads db s = (Inl e, s')"
proof -
  have t: "ec_title c = ci_title i" if "open_claim env cfg uid m i db = Inr (c, db1)" for c db1
    using that by (auto simp: open_claim_def Let_def split: if_splits option.splits)
  have "announce_claim env c m db2 \<noteq> Inr y" if "ec_title c = ci_title i" for c y and db2 :: "'a finance_db_scheme"
  proof
    assume "announce_claim env c m db2 = Inr y"
    then obtain db1 e and db3 :: "'a finance_db_scheme" where a: "append_event env ''expense_claim_submitted'' ''ExpenseClaim'' (ec_claim_id c) (Some (m_id m)) None
        (expense_claim_payload c m) None db1 = Inr (e, db3)"
      by (auto simp: announce_claim_def)
    have "validate_public_ledger_payload (expense_claim_payload c m) = Inr ()"
      by (rule append_event_effect [OF a]) (simp add: expense_claim_payload_def)
    then show False using assms that
      by (simp add: expense_claim_payload_def validate_public_ledger_payload_def public_event_payload_def Let_def split: if_splits)
  qed
  then have "isl (fst (submit_expense_claim env cfg w uid draw m i required uploads db s))" using t
    by (auto simp: submit_expense_claim_def commit_or_cleanup_def raise_after_cleanup_def split: sum.splits prod.splits)
  then show ?thesis
    by (cases "submit_expense_claim env cfg w uid draw m i required uploads db s") (auto simp: isl_def)
qed

subsection \<open>Properties of reimbursements\<close>

text \<open>C33. In every interleaving of requests, stale copies of claims included, a claim is paid at most
  once: it has either no payment and no transaction, or exactly one of each, out of the funds, of the
  claimed amount and currency, recorded by a payer who is not the claimant, and backed by an approving
  review of somebody who is not the claimant either. Reviews, payments and transactions are only
  appended.\<close>

theorem payments_unique_and_backed:
  assumes "desk_inv cfg d"
  shows "let d' = run_ops (finance_step env cfg w) reqs d; db = desk_db d; db' = desk_db d' in
    prefix (finance_reviews db) (finance_reviews db') \<and> prefix (payment_executions db) (payment_executions db') \<and>
    prefix (finance_transactions db) (finance_transactions db') \<and>
    (\<forall>c \<in> set (expense_claims db').
       payments_for (ec_claim_id c) db' = [] \<and> transactions_for (ec_claim_id c) db' = [] \<or>
       (\<exists>p t. payments_for (ec_claim_id c) db' = [p] \<and> transactions_for (ec_claim_id c) db' = [t] \<and>
          px_finance_transaction p = Some (ft_transaction_id t) \<and> ft_direction t = DirectionOut \<and>
          ft_amount t = ec_amount c \<and> ft_currency t = ec_currency c \<and> ft_recorded_by t = Some (px_payer p) \<and>
          px_payer p \<noteq> ec_claimant c \<and>
          (\<exists>r \<in> set (finance_reviews db'). fr_claim r = ec_claim_id c \<and> fr_decision r = FinanceApproved \<and>
             fr_reviewer r \<noteq> ec_claimant c)))"
proof -
  let ?d = "run_ops (finance_step env cfg w) reqs d"
  have inv: "books_inv (books_of ?d)" using finance.run_inv [OF assms, of env w reqs] by (simp add: desk_inv_def)
  have "books_grow (books_of d) (books_of ?d)" using finance.run_rel [OF assms] .
  then have g: "prefix (finance_reviews (desk_db d)) (finance_reviews (desk_db ?d))"
    "prefix (payment_executions (desk_db d)) (payment_executions (desk_db ?d))"
    "prefix (finance_transactions (desk_db d)) (finance_transactions (desk_db ?d))"
    by (simp_all add: books_grow_def books_of_def Let_def)
  show ?thesis unfolding Let_def
  proof (intro conjI g ballI)
    fix c assume c: "c \<in> set (expense_claims (desk_db ?d))"
    show "payments_for (ec_claim_id c) (desk_db ?d) = [] \<and> transactions_for (ec_claim_id c) (desk_db ?d) = [] \<or>
       (\<exists>p t. payments_for (ec_claim_id c) (desk_db ?d) = [p] \<and> transactions_for (ec_claim_id c) (desk_db ?d) = [t] \<and>
          px_finance_transaction p = Some (ft_transaction_id t) \<and> ft_direction t = DirectionOut \<and>
          ft_amount t = ec_amount c \<and> ft_currency t = ec_currency c \<and> ft_recorded_by t = Some (px_payer p) \<and>
          px_payer p \<noteq> ec_claimant c \<and>
          (\<exists>r \<in> set (finance_reviews (desk_db ?d)). fr_claim r = ec_claim_id c \<and> fr_decision r = FinanceApproved \<and>
             fr_reviewer r \<noteq> ec_claimant c))"
      using payments_unique [OF inv c] unfolding pays_claim_def backed_def by fastforce
  qed
qed

theorem payments_unique_and_backed_witness:
  "\<exists>(d :: unit desk) c p. desk_inv example_finance_config example_desk \<and> c \<in> set (expense_claims (desk_db d)) \<and>
     payments_for (ec_claim_id c) (desk_db d) = [p] \<and> px_payer p \<noteq> ec_claimant c"
proof -
  obtain d p where d: "run_ops (finance_step plain_env example_finance_config ''w'') [(1, LoadClaim ''expense-claim-1''),
      (2, ReviewClaim legacy_fga ''1'' 0 (example_member 3 ''M3'') ''approved'' []), (3, LoadClaim ''expense-claim-1''),
      (4, PayClaim legacy_fga ''2'' (\<lambda>n. (n, [])) 1 (example_member 1 ''M1'') (Some (DateValue (2025, 1, 2))) ''cash'' [] False None)]
      example_desk = d" "expense_claims (desk_db d) = [set_claim_status ClaimPaid 4 example_approved]"
    "payment_executions (desk_db d) = [p]" "px_claim p = ''expense-claim-1''"
    by (rule stale_run [where draw = "\<lambda>n. (n, [])"])
  let ?c = "set_claim_status ClaimPaid 4 example_approved"
  have "ec_claim_id ?c = ''expense-claim-1''" by (simp add: set_claim_status_def)
  then have "payments_for (ec_claim_id ?c) (desk_db d) = [p]" "?c \<in> set (expense_claims (desk_db d))"
    using d(2-4) by (simp_all add: payments_for_def)
  moreover from payments_unique_and_backed [OF example_desk_ok(1)] have "px_payer p \<noteq> ec_claimant ?c"
    using calculation unfolding d(1) [symmetric] Let_def by fastforce
  ultimately show ?thesis using example_desk_ok(1) by blast
qed

text \<open>C40. A claim loaded before it was reviewed can still be withdrawn after it was paid: the services do
  not read the row again, so the stored status of a paid claim becomes withdrawn.\<close>

theorem stale_copy_withdraws_paid_claim:
  "\<exists>d. d = run_ops (finance_step plain_env example_finance_config ''w'') [(1, LoadClaim ''expense-claim-1''),
      (2, ReviewClaim legacy_fga ''1'' 0 (example_member 3 ''M3'') ''approved'' []), (3, LoadClaim ''expense-claim-1''),
      (4, PayClaim legacy_fga ''2'' (\<lambda>n. (n, [])) 1 (example_member 1 ''M1'') (Some (DateValue (2025, 1, 2))) ''cash'' [] False None),
      (5, WithdrawClaim 0 (example_member 2 ''M2''))] example_desk \<and>
    (\<exists>c \<in> set (expense_claims (desk_db d)). ec_status c = ClaimWithdrawn \<and> payments_for (ec_claim_id c) (desk_db d) \<noteq> [])"
proof -
  obtain d p where d: "run_ops (finance_step plain_env example_finance_config ''w'') ([(1, LoadClaim ''expense-claim-1''),
      (2, ReviewClaim legacy_fga ''1'' 0 (example_member 3 ''M3'') ''approved'' []), (3, LoadClaim ''expense-claim-1''),
      (4, PayClaim legacy_fga ''2'' (\<lambda>n. (n, [])) 1 (example_member 1 ''M1'') (Some (DateValue (2025, 1, 2))) ''cash'' [] False None)] @
      [(5, WithdrawClaim 0 (example_member 2 ''M2''))]) example_desk =
       finance_service (plain_env\<lparr>now := 5\<rparr>) example_finance_config ''w'' (WithdrawClaim 0 (example_member 2 ''M2'')) d"
    and paid: "expense_claims (desk_db d) = [set_claim_status ClaimPaid 4 example_approved]" "desk_copies d = [example_claim, example_approved]"
      "payment_executions (desk_db d) = [p]" "px_claim p = ''expense-claim-1''"
    and evs: "ev_event_id ` set (stream_events (desk_db d)) = {''expense-claim-paid-expense-claim-1-2'', ''expense-claim-reviewed-expense-claim-1-1''}"
    by (rule stale_run [where draw = "\<lambda>n. (n, [])"])
  have id: "ec_claim_id (set_claim_status ClaimPaid 4 example_approved) = ''expense-claim-1''" by (simp add: set_claim_status_def)
  have "\<exists>c' db'. withdraw_expense_claim (plain_env\<lparr>now := 5\<rparr>) example_claim (example_member 2 ''M2'') (desk_db d) = Inr (c', db')"
    by (rule withdraw_succeeds) (simp_all add: paid(1) evs id)
  then obtain c' db' where w: "withdraw_expense_claim (plain_env\<lparr>now := 5\<rparr>) example_claim (example_member 2 ''M2'') (desk_db d) = Inr (c', db')"
    by blast
  let ?d = "finance_service (plain_env\<lparr>now := 5\<rparr>) example_finance_config ''w'' (WithdrawClaim 0 (example_member 2 ''M2'')) d"
  have "desk_db ?d = db'" using w by (simp add: with_copy_def paid(2))
  moreover from published_tables [OF withdraw_ok(4) [OF w]] have
    "expense_claims db' = [set_claim_status ClaimWithdrawn 5 (set_claim_status ClaimPaid 4 example_approved)]" "payment_executions db' = [p]"
    by (simp_all add: paid status_saved_def id)
  moreover have "ec_claim_id (set_claim_status ClaimWithdrawn 5 x) = ec_claim_id x" "ec_status (set_claim_status ClaimWithdrawn 5 x) = ClaimWithdrawn" for x
    by (simp_all add: set_claim_status_def)
  ultimately show ?thesis using d by (intro exI [of _ ?d]) (simp add: payments_for_def paid(4) id)
qed

text \<open>C35. While every request loads the claim it acts on, a claim only moves from submitted to approved,
  rejected or withdrawn and from approved to paid, its terms never change, and its status says what
  happened to it: approved and paid claims have exactly one review, an approval, rejected ones exactly
  one rejection, the others none, and exactly the paid claims have a payment.\<close>

theorem claim_status_explained:
  assumes "desk_inv cfg d" "serial_inv (books_of d)"
  shows "let d' = run_ops (serial_step env cfg w) reqs d; db' = desk_db d' in
    rows_follow (\<lambda>c c'. claim_terms c' = claim_terms c \<and> claim_step\<^sup>*\<^sup>* (ec_status c) (ec_status c'))
      (expense_claims (desk_db d)) (expense_claims db') \<and>
    (\<forall>c \<in> set (expense_claims db'). let ds = decisions_on (ec_claim_id c) (finance_reviews db') in
       ds = (case ec_status c of ClaimApproved \<Rightarrow> [FinanceApproved] | ClaimPaid \<Rightarrow> [FinanceApproved] | ClaimRejected \<Rightarrow> [FinanceRejected]
             | _ \<Rightarrow> []) \<and>
       (ec_status c = ClaimPaid \<longleftrightarrow> payments_for (ec_claim_id c) db' \<noteq> []))"
proof -
  let ?d = "run_ops (serial_step env cfg w) reqs d"
  have inv: "serial_inv (books_of ?d)" using serial_finance.run_inv [of cfg d env w reqs] assms by blast
  have "serial_grow (books_of d) (books_of ?d)" using serial_finance.run_rel [of cfg d env w reqs] assms by blast
  then have g: "rows_follow (\<lambda>c c'. claim_terms c' = claim_terms c \<and> claim_step\<^sup>*\<^sup>* (ec_status c) (ec_status c'))
      (expense_claims (desk_db d)) (expense_claims (desk_db ?d))"
    by (simp add: serial_grow_def books_of_def Let_def claim_moves_def [abs_def])
  show ?thesis unfolding Let_def
  proof (intro conjI g ballI)
    fix c assume c: "c \<in> set (expense_claims (desk_db ?d))"
    let ?ds = "decisions_on (ec_claim_id c) (finance_reviews (desk_db ?d))"
    have e: "status_explained (ec_status c) ?ds (paid_in (ec_claim_id c) (payment_executions (desk_db ?d)))"
      using inv c by (simp add: serial_inv_def claim_explained_def books_of_def Let_def)
    show "?ds = (case ec_status c of ClaimApproved \<Rightarrow> [FinanceApproved] | ClaimPaid \<Rightarrow> [FinanceApproved] | ClaimRejected \<Rightarrow> [FinanceRejected]
             | _ \<Rightarrow> [])" using e by (cases "ec_status c") simp_all
    show "ec_status c = ClaimPaid \<longleftrightarrow> payments_for (ec_claim_id c) (desk_db ?d) \<noteq> []"
      using e paid_in_iff [of "ec_claim_id c" "desk_db ?d"] by (cases "ec_status c") simp_all
  qed
qed

theorem claim_status_explained_witness:
  "\<exists>d. d = run_ops (serial_step plain_env example_finance_config ''w'')
      [(2, ReviewClaim legacy_fga ''1'' 0 (example_member 3 ''M3'') ''approved'' [])] example_desk \<and>
    expense_claims (desk_db d) = [example_approved] \<and> decisions_on ''expense-claim-1'' (finance_reviews (desk_db d)) = [FinanceApproved]"
proof -
  let ?d = "run_ops (serial_step plain_env example_finance_config ''w'')
      [(2, ReviewClaim legacy_fga ''1'' 0 (example_member 3 ''M3'') ''approved'' [])] example_desk"
  obtain r db where r: "review_expense_claim (plain_env\<lparr>now := 2\<rparr>) legacy_fga ''1'' example_claim (example_member 3 ''M3'') ''approved'' []
      example_finance = Inr (r, db)" "expense_claims db = [example_approved]" by (rule example_reviewed)
  then have "desk_db ?d = db" by (simp add: serial_step_def finance_step_def example_desk_def with_copy_def)
  with claim_status_explained [OF example_desk_ok, of plain_env "''w''"
      "[(2, ReviewClaim legacy_fga ''1'' 0 (example_member 3 ''M3'') ''approved'' [])]"] r(2)
  show ?thesis by (simp add: Let_def)
qed





text \<open>C39. An accepted amount is the given number rounded to cents: exact when it has at most two decimal
  places, else within half a cent. A positive amount of at most half a cent is accepted as zero.\<close>

theorem amounts_rounded_to_cents:
  assumes "normalise_amount (DecimalFinite c e) = Inr a"
  shows "0 < c \<and> 0 \<le> a \<and> (- 2 \<le> e \<longrightarrow> a = c * 10 ^ nat (e + 2)) \<and>
    (e < - 2 \<longrightarrow> 2 * \<bar>a * 10 ^ nat (- (e + 2)) - c\<bar> \<le> 10 ^ nat (- (e + 2)) \<and> (a = 0 \<longleftrightarrow> 2 * c \<le> 10 ^ nat (- (e + 2))))"
proof -
  have c: "0 < c" "a = quantize_cents c e" using assms by (auto split: if_splits)
  have "2 * \<bar>a * D - c\<bar> \<le> D \<and> (a = 0 \<longleftrightarrow> 2 * c \<le> D)" if e: "e < - 2" and D: "D = 10 ^ nat (- (e + 2))" for D
  proof -
    have "0 < D" by (simp add: D)
    define q r where "q = c div D" and "r = c mod D"
    have "c = q * D + r" "0 \<le> r" "r < D" using \<open>0 < D\<close> by (simp_all add: q_def r_def)
    have q: "0 \<le> q" using c(1) \<open>0 < D\<close> by (simp add: q_def pos_imp_zdiv_nonneg_iff)
    have a: "a = (if 2 * r < D \<or> 2 * r = D \<and> even q then q else q + 1)"
      using c(2) e by (simp add: quantize_cents_def div_half_even_def D q_def r_def Let_def)
    have "a * D - c = (if 2 * r < D \<or> 2 * r = D \<and> even q then - r else D - r)"
      using \<open>c = q * D + r\<close> by (simp add: a algebra_simps)
    then have "2 * \<bar>a * D - c\<bar> \<le> D" using \<open>0 \<le> r\<close> \<open>r < D\<close> by auto
    moreover have "a = 0 \<longleftrightarrow> 2 * c \<le> D"
    proof (cases "q = 0")
      case True
      then show ?thesis using \<open>c = q * D + r\<close> by (auto simp: a)
    next
      case False
      then have "D \<le> q * D" using q \<open>0 < D\<close> by (simp add: mult_le_cancel_right1)
      then have "\<not> 2 * c \<le> D" using \<open>c = q * D + r\<close> \<open>0 \<le> r\<close> \<open>0 < D\<close> by linarith
      moreover have "a \<noteq> 0" using False q by (simp add: a)
      ultimately show ?thesis by simp
    qed
    ultimately show ?thesis by simp
  qed
  moreover have "0 \<le> a" using c quantize_nonneg [of c e] by simp
  moreover have "a = c * 10 ^ nat (e + 2)" if "- 2 \<le> e" using that c(2) by (simp add: quantize_cents_def)
  ultimately show ?thesis using c(1) by blast
qed

theorem amounts_rounded_to_cents_witness:
  "normalise_amount (DecimalFinite 5 (- 3)) = Inr 0 \<and> 2 * \<bar>0 * 10 - 5\<bar> \<le> (10 :: int)"
proof -
  have "normalise_amount (DecimalFinite 5 (- 3)) = Inr 0" by (simp add: quantize_cents_def div_half_even_def)
  with amounts_rounded_to_cents [OF this] show ?thesis by simp
qed





end
