(* ===== verification/Spec2Isabelle.thy ===== *)
theory Spec2Isabelle
  imports Redemption Electorate_History Reimbursements
begin

text \<open>
  \<^bold>\<open>The program.\<close>  Bigapple LiveOS is a Django application that runs the economy and the
  governance of a community: members earn credits by tasks, spend them on redemption orders, hold
  roles that derive from recorded assignments, receive credentials, and every change of state is
  published on a hash-chained event ledger.  This development models the services of
  \<^verbatim>\<open>src/core/\<close> that change state: what a service checks, what it writes, in which order, and
  every way in which it can fail.

  \<^bold>\<open>Conventions.\<close>  A service is a function
  \<^verbatim>\<open>env \<Rightarrow> uid \<Rightarrow> arguments \<Rightarrow> db \<Rightarrow> (value \<times> db) result\<close>.  The environment holds the clock,
  the digest function and the canonical rendering that the source takes from the standard library
  and from the world it runs in; \<^verbatim>\<open>uid\<close> is the supply of random identifiers.  The database is a
  record of tables, a table is the list of its rows in insertion order, and \<^verbatim>\<open>Inl\<close> carries the
  exception that leaves the service: \<^verbatim>\<open>transaction.atomic\<close> then restores the state before the
  call, so a failed call has no new state.  Decimals are integers in their smallest unit, instants
  are seconds, and the Chinese messages of the source are English strings.  The databases form a
  chain of record extensions, one link per component, so that every service of a lower component
  runs unchanged on the database of a higher one:
  \<^verbatim>\<open>event_db\<close>, \<^verbatim>\<open>credit_db\<close>, \<^verbatim>\<open>people_db\<close>, then \<^verbatim>\<open>redemption_db\<close> on one side and
  \<^verbatim>\<open>task_db\<close>, \<^verbatim>\<open>resource_db\<close>, \<^verbatim>\<open>role_db\<close>, \<^verbatim>\<open>credential_db\<close>, \<^verbatim>\<open>proposal_db\<close>,
  \<^verbatim>\<open>finance_db\<close> on the other.

  \<^bold>\<open>The theories.\<close>

  \<^item> \<^verbatim>\<open>Prelude\<close>: the errors of the program, the result type and its sequencing, keyed tables
    (lookup, update, fresh keys), sums over rows, and the string operations the source uses.
  \<^item> \<^verbatim>\<open>Json\<close>: JSON values and the canonical encoding (\<^verbatim>\<open>event_ledger.py\<close>,
    \<^verbatim>\<open>_canonical_json\<close>); the encoding is injective up to the order of dict keys.
  \<^item> \<^verbatim>\<open>Event_Ledger\<close>: \<^verbatim>\<open>event_ledger.py\<close> and \<^verbatim>\<open>models/events.py\<close>: both versions of the event
    hash, the validation of public payloads, appending with its three attempts, verification of the
    chain.  Shown: the chain verifies after every sequence of requests, it commits to its
    contents up to a collision of the digest, and appending succeeds on a verified ledger.
  \<^item> \<^verbatim>\<open>Event_Payloads\<close>: members, labels, references and the public wrapper of
    \<^verbatim>\<open>event_payloads.py\<close>, and that the validation accepts what the wrapper builds.
  \<^item> \<^verbatim>\<open>Credit_Ledger\<close>: \<^verbatim>\<open>credit_services.py\<close> and \<^verbatim>\<open>models/credits.py\<close>: accounts, balances as
    sums over posted transactions, idempotent posting, issuance, transfer, deduction, the locked
    budget of tasks, reversal.  Shown: conservation, solvency of ordinary histories, exactness of
    transfers and reversals, idempotence, and that posting refines an abstract ledger.
  \<^item> \<^verbatim>\<open>Redemption\<close>: redemption orders of \<^verbatim>\<open>credit_services.py\<close> and the settlement records of
    \<^verbatim>\<open>models/merchants.py\<close>.  Shown: the frozen account holds the credits of the open orders,
    the order state machine, rounding of settlement amounts.
  \<^item> \<^verbatim>\<open>Task_Workflow\<close>: \<^verbatim>\<open>tasks/*.py\<close>, \<^verbatim>\<open>ledger_services.py\<close> and the task and ledger rows of
    \<^verbatim>\<open>models/operations.py\<close>.  Shown: the task state machine, contributions are earned once,
    published tasks are funded.
  \<^item> \<^verbatim>\<open>Resource_Ledger\<close>: \<^verbatim>\<open>resource_services.py\<close>.  Shown: the stock is the replay of its
    movements and never negative.
  \<^item> \<^verbatim>\<open>Authorization\<close>: \<^verbatim>\<open>role_catalog.py\<close>, \<^verbatim>\<open>member_roles.py\<close>, \<^verbatim>\<open>permission_services.py\<close>,
    \<^verbatim>\<open>authorization_services.py\<close>, \<^verbatim>\<open>access.py\<close> and \<^verbatim>\<open>openfga_projection_services.py\<close>.  The
    OpenFGA server is a parameter, a record with the answer to a check.  Shown: a permission needs
    current role facts, the bulk query agrees with the check per member.
  \<^item> \<^verbatim>\<open>Credentials\<close>: \<^verbatim>\<open>credential_services.py\<close> and \<^verbatim>\<open>models/credentials.py\<close>.  Shown:
    covenanter numbers are consecutive, one per member, and stable.
  \<^item> \<^verbatim>\<open>Role_Assignments\<close>: \<^verbatim>\<open>role_assignment_services.py\<close>, the setup of the catalog, administrator and
    finance roles (\<^verbatim>\<open>role_catalog.py\<close>, \<^verbatim>\<open>governance_setup.py\<close>, \<^verbatim>\<open>finance_setup.py\<close>) and the tuples
    requested from OpenFGA after the commit.  Shown: one active assignment per member and role in
    every history, idempotent grants and setups, and that the first administrator can be appointed.
  \<^item> \<^verbatim>\<open>Proposals\<close>: the rows of \<^verbatim>\<open>models/approval_workflow.py\<close>, selectors and eligibility of
    \<^verbatim>\<open>electorate_rule_services.py\<close>, the tally, the roles of an approval and the event payload of a
    proposal.  Shown: a validated selector evaluates to its boolean reading.
  \<^item> \<^verbatim>\<open>Procurement\<close>: \<^verbatim>\<open>proposal_services.py\<close> (approval slots) and \<^verbatim>\<open>procurement_services.py\<close>
    (offers).  \<^verbatim>\<open>Procurement_History\<close> shows over histories: the slots of an approval are filled by
    different members in order, goods enter the stock once and after the executed approval, and a
    payment proposal can never be approved.
  \<^item> \<^verbatim>\<open>Electorate\<close>: the rest of \<^verbatim>\<open>electorate_rule_services.py\<close>, \<^verbatim>\<open>unified_proposal_services.py\<close>
    and \<^verbatim>\<open>member_admission_proposal_adapter.py\<close>.  \<^verbatim>\<open>Electorate_History\<close> shows over histories: the
    electorate and the terms of a vote are frozen, a tally counts each elector once, a proposal is
    decided once and by its thresholds, and an approved admission is executed once.

  \<^item> \<^verbatim>\<open>Evidence\<close>: \<^verbatim>\<open>file_processing/limits.py\<close>, \<^verbatim>\<open>file_processing/business_attachments.py\<close>,
    \<^verbatim>\<open>file_storage/keys.py\<close> and \<^verbatim>\<open>file_storage/business_gateway.py\<close>: bounded reading and validation of
    uploads, object keys and the gateway to the storage.  The content detector, the image and csv libraries
    and the storage are parameters; \<^verbatim>\<open>storage_laws\<close> states what Django documents of a storage.
  \<^item> \<^verbatim>\<open>Finance\<close>: \<^verbatim>\<open>finance_services.py\<close>, \<^verbatim>\<open>payment_backends.py\<close>, \<^verbatim>\<open>attachment_services.py\<close>,
    \<^verbatim>\<open>models/finance.py\<close> and \<^verbatim>\<open>models/attachments.py\<close>.  These services do not read their claim
    again, so \<^verbatim>\<open>Finance_History\<close> gives requests copies of claims that may be stale, and returns the
    object store also from failed calls.  It states the abstract books as a step relation, shows that the
    services refine it, and derives the invariants from its steps.  \<^verbatim>\<open>Reimbursements\<close> holds the
    properties: payments are unique, exact and backed by somebody else's review in every interleaving; the
    store is exactly the recorded evidence; with fresh copies a status says what happened to a claim; with a
    stale one a paid claim can be withdrawn.

  \<^bold>\<open>Interfaces.\<close>  \<^verbatim>\<open>state_service\<close> and its extension \<^verbatim>\<open>guarded_service\<close> (\<^verbatim>\<open>Prelude\<close>)
  state what a component promises of its services: a step that keeps an invariant and relates the
  states before and after by a preorder; they give the same for whole histories.  \<^verbatim>\<open>event_sink\<close>
  (\<^verbatim>\<open>Event_Ledger\<close>) is the append-only log the other components write to, and a
  \<^verbatim>\<open>guarded_service\<close> by a sublocale.  Every component interprets them on its own services and
  the properties of histories rest on these interpretations (\<^verbatim>\<open>ledger\<close>, \<^verbatim>\<open>credit\<close>,
  \<^verbatim>\<open>ordinary\<close>, \<^verbatim>\<open>redemption\<close>, \<^verbatim>\<open>keyless\<close>, \<^verbatim>\<open>task_history\<close>, \<^verbatim>\<open>contributions\<close>,
  \<^verbatim>\<open>funded\<close>, \<^verbatim>\<open>stock\<close>, \<^verbatim>\<open>numbers\<close>, \<^verbatim>\<open>role_history\<close>, \<^verbatim>\<open>procurement\<close>, \<^verbatim>\<open>purchases\<close>,
  \<^verbatim>\<open>votes\<close>, \<^verbatim>\<open>finance\<close>, \<^verbatim>\<open>serial_finance\<close>).

  \<^bold>\<open>Bounds and loops.\<close>  Every loop of the modelled source runs over the rows of a table or
  is a bounded retry: appending an event tries three times, an identifier is drawn at most five
  times, as in the source.  The recursion is structural and no fuel is used.

  \<^bold>\<open>Not modelled.\<close>  Procurement challenges, risk, the services of applications and examinations,
  feedback and avatars are services of \<^verbatim>\<open>src/core/\<close> outside this development.  The simulation drivers, the pages and
  their context builders, the REST layer, the admin and the management commands present or call the
  services and hold no rules of their own ledgers.  Migrations, settings and the HTTP client of
  OpenFGA are configuration and input/output.  Concurrency is modelled only as the order of
  committed calls: the row locks of the source make them serial, and where it takes none (finance) the
  order includes the moments at which requests loaded their rows.
\<close>

end
